(* ===== verification/TS_Prelude.thy ===== *)
theory TS_Prelude
  imports Main "HOL-Library.Word" "HOL-Library.Multiset"
begin

text \<open>
  Shared vocabulary of the development: the ways a C call can fail to return (\<open>fault\<close>),
  the result type of the model's operations with its sequencing operator and its Hoare-style
  predicate, list helpers for the vectors of the program, and the two sums the slot
  accounting is stated with.
\<close>

named_theorems res_simps \<open>rewriting of sequenced results\<close>
named_theorems returns_intros \<open>introduction rules for total-correctness statements\<close>
named_theorems frame \<open>fields an operation leaves alone\<close>

section \<open>Results\<close>

text \<open>
  A call of the server either returns or stops the process: \<open>error()\<close> of \<open>error.c\<close> ends it
  with \<open>EXIT_FAILURE\<close>, a dereferenced null pointer, an out-of-bounds access, a use of freed
  memory and a conversion of a floating-point value that no integer holds are undefined
  behaviour, and \<open>No_return\<close> is a loop that never ends. \<open>Out_of_fuel\<close> is not a behaviour of the
  program: it marks a bounded unrolling of a loop that was too short, and the theorems about
  the loop show it away.
\<close>

datatype fault = Error_exit string | Null_deref | Out_of_bounds | Use_after_free | Bad_conversion | No_return | Out_of_fuel

type_synonym 'a res = "fault + 'a"

definition rbind :: "'a res \<Rightarrow> ('a \<Rightarrow> 'b res) \<Rightarrow> 'b res" where
  "rbind r f = (case r of Inl e \<Rightarrow> Inl e | Inr x \<Rightarrow> f x)"

lemma rbind_Inl [simp, res_simps]: "rbind (Inl e) f = Inl e"
  by (simp add: rbind_def)

lemma rbind_Inr [simp, res_simps]: "rbind (Inr x) f = f x"
  by (simp add: rbind_def)

lemma rbind_assoc [res_simps]: "rbind (rbind r f) g = rbind r (\<lambda>x. rbind (f x) g)"
  by (cases r) simp_all

lemma rbind_eq_Inr: "rbind r f = Inr y \<longleftrightarrow> (\<exists>x. r = Inr x \<and> f x = Inr y)"
  by (cases r) simp_all

lemma rbind_cong [fundef_cong]:
  "r = r' \<Longrightarrow> (\<And>x. r' = Inr x \<Longrightarrow> f x = f' x) \<Longrightarrow> rbind r f = rbind r' f'"
  by (cases r') simp_all

text \<open>\<open>returns r P\<close>: the call returns, and what it returns satisfies \<open>P\<close>.\<close>

definition returns :: "'a res \<Rightarrow> ('a \<Rightarrow> bool) \<Rightarrow> bool" where
  "returns r P = (case r of Inl _ \<Rightarrow> False | Inr x \<Rightarrow> P x)"

lemma returns_Inr [simp]: "returns (Inr x) P = P x"
  by (simp add: returns_def)

lemma returns_Inl [simp]: "\<not> returns (Inl e) P"
  by (simp add: returns_def)

lemma returns_iff: "returns r P \<longleftrightarrow> (\<exists>x. r = Inr x \<and> P x)"
  by (cases r) simp_all

lemma returnsD: "returns r P \<Longrightarrow> \<exists>x. r = Inr x \<and> P x"
  by (simp add: returns_iff)

lemma returnsE:
  assumes "returns r P"
  obtains x where "r = Inr x" "P x"
  using assms by (auto simp: returns_iff)

lemma returns_bind [returns_intros]:
  assumes "returns r Q" "\<And>x. Q x \<Longrightarrow> returns (f x) P"
  shows "returns (rbind r f) P"
  using assms by (cases r) simp_all

lemma returns_mono: "returns r Q \<Longrightarrow> (\<And>x. Q x \<Longrightarrow> P x) \<Longrightarrow> returns r P"
  by (cases r) simp_all

lemma returns_conj: "returns r P \<Longrightarrow> returns r Q \<Longrightarrow> returns r (\<lambda>x. P x \<and> Q x)"
  by (cases r) simp_all

lemma returns_if [returns_intros]:
  "(b \<Longrightarrow> returns r P) \<Longrightarrow> (\<not> b \<Longrightarrow> returns r' P) \<Longrightarrow> returns (if b then r else r') P"
  by simp

text \<open>A C loop over a sequence of indices, stopping at the first fault.\<close>

fun rfold :: "('a \<Rightarrow> 's \<Rightarrow> 's res) \<Rightarrow> 'a list \<Rightarrow> 's \<Rightarrow> 's res" where
  "rfold f [] s = Inr s"
| "rfold f (x # xs) s = rbind (f x s) (rfold f xs)"

lemma returns_rfold:
  assumes "\<And>x s. x \<in> set xs \<Longrightarrow> P s \<Longrightarrow> returns (f x s) P" "P s"
  shows "returns (rfold f xs s) P"
  using assms by (induction xs arbitrary: s) (auto intro!: returns_bind)

lemma rfold_invariant:
  assumes "\<And>x s s'. x \<in> set xs \<Longrightarrow> P s \<Longrightarrow> f x s = Inr s' \<Longrightarrow> P s'" "P s" "rfold f xs s = Inr s'"
  shows "P s'"
  using assms by (induction xs arbitrary: s) (auto simp: rbind_eq_Inr)

lemma rfold_keeps:
  "rfold f xs s = Inr s' \<Longrightarrow> P s \<Longrightarrow> (\<And>x s s'. f x s = Inr s' \<Longrightarrow> P s \<Longrightarrow> P s') \<Longrightarrow> P s'"
  using rfold_invariant [of xs P f s s'] by blast

section \<open>Lists as vectors\<close>

definition remove_nth :: "nat \<Rightarrow> 'a list \<Rightarrow> 'a list" where
  "remove_nth i xs = take i xs @ drop (Suc i) xs"

definition insert_nth :: "nat \<Rightarrow> 'a \<Rightarrow> 'a list \<Rightarrow> 'a list" where
  "insert_nth i x xs = take i xs @ x # drop i xs"

lemma length_remove_nth: "i < length xs \<Longrightarrow> length (remove_nth i xs) = length xs - 1"
  by (simp add: remove_nth_def)

lemma length_insert_nth: "i \<le> length xs \<Longrightarrow> length (insert_nth i x xs) = Suc (length xs)"
  by (simp add: insert_nth_def)

lemma mset_remove_nth: "i < length xs \<Longrightarrow> mset xs = add_mset (xs ! i) (mset (remove_nth i xs))"
  by (metis add_mset_add_single id_take_nth_drop mset.simps(2) mset_append remove_nth_def
      union_mset_add_mset_right)

lemma mset_insert_nth: "mset (insert_nth i x xs) = add_mset x (mset xs)"
proof -
  have "mset (take i xs) + mset (drop i xs) = mset xs"
    by (metis append_take_drop_id mset_append)
  then show ?thesis by (simp add: insert_nth_def)
qed

lemma set_remove_nth: "set (remove_nth i xs) \<subseteq> set xs"
  using set_take_subset set_drop_subset by (fastforce simp: remove_nth_def)

lemma remove_nth_map: "remove_nth i (map f xs) = map f (remove_nth i xs)"
  by (simp add: remove_nth_def take_map drop_map)

lemma distinct_remove_nth: "distinct xs \<Longrightarrow> distinct (remove_nth i xs)"
  using set_take_disj_set_drop_if_distinct [of xs i "Suc i"]
  by (auto simp: remove_nth_def distinct_take distinct_drop)

lemma remove_nth_update: "remove_nth i (xs[i := x]) = remove_nth i xs"
  by (simp add: remove_nth_def take_update_cancel drop_update_cancel)

lemma remove_insert_nth: "i \<le> length xs \<Longrightarrow> remove_nth i (insert_nth i x xs) = xs"
  by (simp add: remove_nth_def insert_nth_def)

text \<open>The first position whose key is \<open>k\<close>: the linear searches of the program.\<close>

fun find_idx :: "('a \<Rightarrow> 'k) \<Rightarrow> 'k \<Rightarrow> 'a list \<Rightarrow> nat option" where
  "find_idx key k [] = None"
| "find_idx key k (x # xs) = (if key x = k then Some 0 else map_option Suc (find_idx key k xs))"

lemma find_idx_None: "find_idx key k xs = None \<longleftrightarrow> k \<notin> key ` set xs"
  by (induction xs) auto

lemma find_idx_SomeD:
  "find_idx key k xs = Some i \<Longrightarrow> i < length xs \<and> key (xs ! i) = k \<and> (\<forall>j<i. key (xs ! j) \<noteq> k)"
proof (induction xs arbitrary: i)
  case (Cons x xs)
  then show ?case
    by (auto simp: nth_Cons less_Suc_eq_0_disj split: if_splits nat.splits)
qed simp

lemma find_idx_distinct:
  assumes "distinct (map key xs)" "i < length xs"
  shows "find_idx key (key (xs ! i)) xs = Some i"
proof (cases "find_idx key (key (xs ! i)) xs")
  case None
  with assms(2) show ?thesis by (auto simp: find_idx_None)
next
  case (Some j)
  then have j: "j < length xs" "key (xs ! j) = key (xs ! i)" by (auto dest: find_idx_SomeD)
  then have "map key xs ! j = map key xs ! i" using assms(2) by simp
  then have "j = i"
    using assms j nth_eq_iff_index_eq [OF assms(1), of j i] by simp
  with Some show ?thesis by simp
qed

section \<open>Sums over a vector\<close>

abbreviation isum :: "('a \<Rightarrow> int) \<Rightarrow> 'a list \<Rightarrow> int" where
  "isum f xs \<equiv> sum_list (map f xs)"

lemma isum_update:
  fixes f :: "'a \<Rightarrow> int"
  assumes "i < length xs"
  shows "isum f (xs[i := x]) = isum f xs - f (xs ! i) + f x"
  using assms by (induction xs arbitrary: i) (auto split: nat.splits)

lemma isum_remove_nth:
  fixes f :: "'a \<Rightarrow> int"
  assumes "i < length xs"
  shows "isum f (remove_nth i xs) = isum f xs - f (xs ! i)"
proof -
  have "isum f xs = isum f (take i xs @ xs ! i # drop (Suc i) xs)"
    using assms by (simp flip: id_take_nth_drop)
  then show ?thesis by (simp add: remove_nth_def)
qed

lemma isum_mset: "mset xs = mset ys \<Longrightarrow> isum f xs = isum f ys"
  by (metis mset_map sum_mset_sum_list)

lemma isum_nonneg:
  fixes f :: "'a \<Rightarrow> int"
  shows "(\<And>x. x \<in> set xs \<Longrightarrow> 0 \<le> f x) \<Longrightarrow> 0 \<le> isum f xs"
  by (rule sum_list_nonneg) auto

section \<open>Decimal text\<close>

fun show_nat :: "nat \<Rightarrow> string" where
  "show_nat n = (if n < 10 then [char_of (48 + n)] else show_nat (n div 10) @ [char_of (48 + n mod 10)])"

declare show_nat.simps [simp del]

text \<open>The decimal text of \<open>%i\<close>.\<close>

definition show_int :: "int \<Rightarrow> string" where
  "show_int i = (if i < 0 then CHR ''-'' # show_nat (nat (- i)) else show_nat (nat i))"

end
