(* ===== verification/Job_Model.thy ===== *)
theory Job_Model
  imports TS_Prelude
begin

text \<open>
  The data of the server: the enumerations and structures of \<open>jobs.h\<close>, \<open>user.h\<close>, \<open>msg.h\<close>
  and \<open>server.h\<close>, the effects the server has on the world (a trace of messages, database
  writes, signals and control-group writes), what the world answers during one call
  (\<open>env\<close>).

  C's \<open>int\<close>, \<open>time_t\<close> and \<open>int64_t\<close> are \<open>int\<close>; where the code guards against overflow the
  bound is written out. A \<open>struct User *\<close> is the position of the user in \<open>users_vec\<close>, the
  null pointer is \<open>None\<close>.
\<close>

section \<open>Enumerations and structures\<close>

datatype jobstate =
  QUEUED | RUNNING | ABNORMAL | PAUSE | FINISHED | SKIPPED | HOLDING_CLIENT | WAIT | DELINK | LOCKED

fun jobstate_code :: "jobstate \<Rightarrow> int" where
  "jobstate_code QUEUED = 0"
| "jobstate_code RUNNING = 1"
| "jobstate_code ABNORMAL = 2"
| "jobstate_code PAUSE = 3"
| "jobstate_code FINISHED = 4"
| "jobstate_code SKIPPED = 5"
| "jobstate_code HOLDING_CLIENT = 6"
| "jobstate_code WAIT = 7"
| "jobstate_code DELINK = 8"
| "jobstate_code LOCKED = 9"

lemma jobstate_code_inject: "jobstate_code a = jobstate_code b \<Longrightarrow> a = b"
  by (cases a; cases b) simp_all

text \<open>The enumeration is ordered by the numbers the compiler gives its members.\<close>

instantiation jobstate :: linorder
begin

definition less_eq_jobstate :: "jobstate \<Rightarrow> jobstate \<Rightarrow> bool" where
  "less_eq_jobstate a b \<longleftrightarrow> jobstate_code a \<le> jobstate_code b"

definition less_jobstate :: "jobstate \<Rightarrow> jobstate \<Rightarrow> bool" where
  "less_jobstate a b \<longleftrightarrow> jobstate_code a < jobstate_code b"

instance
  by standard (auto simp: less_eq_jobstate_def less_jobstate_def intro: jobstate_code_inject)

end

record result_t =
  errorlevel :: int
  died_by_signal :: int
  signal :: int
  user_sec :: int
  system_sec :: int
  real_sec :: int
  skipped :: int

definition default_result :: result_t where
  "default_result = \<lparr>errorlevel = 0, died_by_signal = 0, signal = 0, user_sec = 0,
     system_sec = 0, real_sec = 0, skipped = 0\<rparr>"

record procinfo =
  ptr :: "string option"
  nchars :: int
  allocchars :: int
  enqueue_time :: int
  start_time :: int
  end_time :: int
  pause_time :: int
  pause_duration :: int
  boot_time :: int

text \<open>
  \<open>depend_on\<close> and \<open>notify_errorlevel_to\<close> are arrays with a length field in C; \<open>cpu_alloc\<close>
  is the handle of a \<open>struct CpuAlloc\<close>.
\<close>

record job =
  jobid :: int
  command :: "string option"
  work_dir :: "string option"
  command_strip :: int
  state :: jobstate
  result :: result_t
  output_filename :: "string option"
  store_output :: int
  pid :: int
  user :: "nat option"
  wall_time :: int
  schedule_time :: int
  should_keep_finished :: int
  depend_on :: "int list"
  notify_errorlevel_to :: "int list"
  dependency_errorlevel :: int
  label :: "string option"
  info :: procinfo
  num_slots :: int
  num_allocated :: int
  no_cpu_binding :: int
  client_socket :: int
  health_state :: int
  cpu_alloc :: "nat option"

text \<open>\<open>calloc\<close> of a \<open>struct Job\<close>.\<close>

definition zero_info :: procinfo where
  "zero_info = \<lparr>ptr = None, nchars = 0, allocchars = 0, enqueue_time = 0, start_time = 0,
     end_time = 0, pause_time = 0, pause_duration = 0, boot_time = 0\<rparr>"

definition zero_job :: job where
  "zero_job = \<lparr>jobid = 0, command = None, work_dir = None, command_strip = 0, state = QUEUED,
     result = default_result, output_filename = None, store_output = 0, pid = 0, user = None,
     wall_time = 0, schedule_time = 0, should_keep_finished = 0, depend_on = [],
     notify_errorlevel_to = [], dependency_errorlevel = 0, label = None, info = zero_info,
     num_slots = 0, num_allocated = 0, no_cpu_binding = 0, client_socket = 0,
     health_state = 0, cpu_alloc = None\<rparr>"

record user_t =
  uname :: string
  uid :: int
  umax_slots :: int
  busy :: int
  njobs :: int
  queue :: int
  locked :: int

record client_conn =
  socket :: int
  hasjob :: bool
  c_jobid :: int
  c_user :: "nat option"

section \<open>What the server sends and does\<close>

datatype arg = AInt int | AStr string | ARat int int | ADate int | ALine string "arg list"

text \<open>
  A line of text: the format string of the source and its arguments, not rendered. An argument
  may be a fraction, a time stamp printed as a date, or a text built the same way.
\<close>

datatype line = Line string "arg list"

datatype list_format = DEFAULT | JSON | TAB

datatype answer =
  NEWJOB_OK int | NEWJOB_NOK | NEWJOB_PID_NOK
| RUNJOB int int
| LIST_LINE line
| ANSWER_OUTPUT int int "string option"
| REMOVEJOB_OK | REMOVEJOB_NOK line
| WAITJOB_OK int
| URGENT_OK | SWAP_JOBS_OK
| ANSWER_STATE jobstate
| INFO_DATA "line list"
| GET_MAX_SLOTS_OK int
| VERSION int
| COUNT_RUNNING int
| LAST_ID int
| FIND_PID_RESULT int
| RECONNECT_OK int | ERROR_INFO int
| ENDJOB_OK int "(result_t \<times> procinfo \<times> int) option"
| RAW_PID int

datatype db_table = Jobs | Finished

datatype db_op =
  Insert job db_table
| Insert_or_replace job db_table
| Delete int db_table
| Update_field int string int
| Set_state int jobstate
| Movetop int | Movebottom int | Swap int int
| Set_jobids int

datatype event =
  Send int answer
| Close int
| Db db_op
| Freeze int int | Thaw int int
| Create_cgroup int int int | Clean_cgroup int int
| Set_cpuset int int "int list"
| Remove_orphan int int
| Kill int int | Kill_tree int int
| Defrag_io "(int \<times> int \<times> nat list) list"
| Write_log int
| Notice line

definition SIGKILL :: int where "SIGKILL = 9"
definition SIGTERM :: int where "SIGTERM = 15"
definition SIGCONT :: int where "SIGCONT = 18"

section \<open>What the world answers\<close>

text \<open>
  The operating system as the server reads it during one call: the clocks, the state of
  processes under \<open>/proc\<close>, the output files, the environment variables it consults, whether
  a write to a control group or to the database succeeds, the terminal width that came with a
  listing request and the text \<open>printf\<close> makes of a format with its arguments, the user file (its lines after
  \<open>sscanf\<close>, \<open>None\<close> when it cannot be opened) and the password database, and the two build
  options.
\<close>

datatype user_file_line = Comment | Slots int | Entry string int | Malformed

record env =
  now :: int
  wallclock :: int
  pid_alive :: "int \<Rightarrow> bool"
  proc_stat :: "int \<Rightarrow> char option"
  cpu_time :: "int \<Rightarrow> int"
  children :: "int \<Rightarrow> int list"
  empty_file :: "string \<Rightarrow> bool"
  stdout_link :: "int \<Rightarrow> string option"
  getenv :: "string \<Rightarrow> string option"
  insert_ok :: "int \<Rightarrow> db_table \<Rightarrow> bool"
  freeze_ok :: "int \<Rightarrow> int \<Rightarrow> bool"
  user_file :: "user_file_line list option"
  passwd :: "string \<Rightarrow> int option"
  server_uid :: int
  term_width :: int
  render :: "string \<Rightarrow> arg list \<Rightarrow> string"
  TS_CPU_BIND :: bool
  CGROUP_V2 :: bool

end
