(* ===== verification/Cpu_Bind.thy ===== *)
theory Cpu_Bind
  imports TS_Prelude
begin

unbundle bit_operations_syntax

text \<open>
  The CPU binding allocator of \<open>cpu_bind.c\<close>: the topology (its hard-coded instance comes
  from the generated \<open>topology.h\<close> and is a parameter here), the owner table, the two-level
  free counters, the best-fit allocation over core groups, release, the restart claim, and
  the computation of the defragmenter. The consistency invariant \<open>cpu_ok\<close> says that the
  owner table, the counters and the live allocations tell the same story.

  A \<open>struct CpuAlloc *\<close> is a handle into \<open>store\<close>; the vector \<open>cpu_allocs\<close> is \<open>allocs\<close>.
  \<open>qsort\<close> is modelled by a stable sort, which is what glibc's merge sort gives on ties.
\<close>

section \<open>State\<close>

record core_group =
  node_id :: nat
  num_cores :: int
  free_count :: int
  os_cpus :: "nat list"

record node_info =
  n_node_id :: nat
  n_num_cores :: int
  n_free_count :: int
  group_ids :: "nat list"

record topology =
  groups :: "core_group list"
  nodes :: "node_info list"
  max_cores_per_group :: int
  max_os_cpu :: nat

record cpu_alloc_t =
  primary_node :: int
  mem_nodes :: int
  a_cpus :: "nat list"
  a_slots :: int
  a_jobid :: int
  a_error :: int
  quality :: int

record cpu_state =
  topo :: topology
  cpu_owner :: "int list"
  cpu_to_group :: "int list"
  cpu_bind_disabled :: bool
  cpu_bind_defrag_disabled :: bool
  allocs :: "nat list"
  store :: "nat \<Rightarrow> cpu_alloc_t option"
  next_alloc :: nat

definition INT_MAX :: int where "INT_MAX = 2147483647"

definition upd_group :: "nat \<Rightarrow> (core_group \<Rightarrow> core_group) \<Rightarrow> cpu_state \<Rightarrow> cpu_state" where
  "upd_group g f c =
     c\<lparr>topo := (topo c)\<lparr>groups := (groups (topo c))[g := f (groups (topo c) ! g)]\<rparr>\<rparr>"

definition upd_node :: "nat \<Rightarrow> (node_info \<Rightarrow> node_info) \<Rightarrow> cpu_state \<Rightarrow> cpu_state" where
  "upd_node n f c =
     c\<lparr>topo := (topo c)\<lparr>nodes := (nodes (topo c))[n := f (nodes (topo c) ! n)]\<rparr>\<rparr>"

definition group_at :: "cpu_state \<Rightarrow> nat \<Rightarrow> core_group" where
  "group_at c g = groups (topo c) ! g"

definition node_at :: "cpu_state \<Rightarrow> nat \<Rightarrow> node_info" where
  "node_at c n = nodes (topo c) ! n"

text \<open>Add \<open>d\<close> to the free counters of a group and of its node.\<close>

definition add_free :: "nat \<Rightarrow> int \<Rightarrow> cpu_state \<Rightarrow> cpu_state" where
  "add_free g d c =
     upd_node (node_id (group_at c g)) (\<lambda>n. n\<lparr>n_free_count := n_free_count n + d\<rparr>)
       (upd_group g (\<lambda>x. x\<lparr>free_count := free_count x + d\<rparr>) c)"

section \<open>Allocation\<close>

fun take_scan :: "int \<Rightarrow> int \<Rightarrow> int \<Rightarrow> nat list \<Rightarrow> int list \<Rightarrow> nat list
    \<Rightarrow> int \<times> int list \<times> nat list" where
  "take_scan jid N taken [] owner acc = (taken, owner, acc)"
| "take_scan jid N taken (c # cs) owner acc =
     (if taken < N then
        (if owner ! c = 0 then take_scan jid N (taken + 1) cs (owner[c := jid]) (acc @ [c])
         else take_scan jid N taken cs owner acc)
      else (taken, owner, acc))"

definition take_from_group :: "nat \<Rightarrow> int \<Rightarrow> cpu_alloc_t \<Rightarrow> cpu_state
    \<Rightarrow> int \<times> cpu_alloc_t \<times> cpu_state" where
  "take_from_group g N a c =
     (let gr = group_at c g;
          (taken, owner, cs) =
            take_scan (a_jobid a) N 0 (take (nat (num_cores gr)) (os_cpus gr)) (cpu_owner c) (a_cpus a);
          c' = add_free g (- taken) (c\<lparr>cpu_owner := owner\<rparr>);
          a' = a\<lparr>a_cpus := cs\<rparr>
      in (taken,
          if free_count (group_at c' g) > 0 then a'\<lparr>quality := quality a' + 1\<rparr> else a',
          c'))"

text \<open>The group with the smallest excess over \<open>remaining\<close>, the first one among equals.\<close>

fun best_fit :: "cpu_state \<Rightarrow> int \<Rightarrow> nat list \<Rightarrow> int \<Rightarrow> nat option \<Rightarrow> nat option" where
  "best_fit c remaining [] best_excess best = best"
| "best_fit c remaining (g # gs) best_excess best =
     (let f = free_count (group_at c g) in
      if f \<ge> remaining \<and> f - remaining < best_excess
      then best_fit c remaining gs (f - remaining) (Some g)
      else best_fit c remaining gs best_excess best)"

text \<open>The group with the most free cores, the first one among equals.\<close>

fun most_free :: "cpu_state \<Rightarrow> nat list \<Rightarrow> int \<Rightarrow> nat option \<Rightarrow> nat option" where
  "most_free c [] max_free best = best"
| "most_free c (g # gs) max_free best =
     (let f = free_count (group_at c g) in
      if f > 0 \<and> f > max_free then most_free c gs f (Some g) else most_free c gs max_free best)"

text \<open>
  The loop of \<open>alloc_from_groups\<close>. Every turn takes at least one core when the counters are
  right, so \<open>remaining\<close> turns are enough; the fuel covers the turn that finds nothing left.
\<close>

fun alloc_loop :: "nat \<Rightarrow> int \<Rightarrow> nat list \<Rightarrow> cpu_alloc_t \<Rightarrow> cpu_state
    \<Rightarrow> (int \<times> cpu_alloc_t \<times> cpu_state) res" where
  "alloc_loop fuel remaining gs a c =
     (if remaining \<le> 0 then Inr (remaining, a, c)
      else case fuel of 0 \<Rightarrow> Inl Out_of_fuel
      | Suc fuel' \<Rightarrow>
          (case best_fit c remaining gs INT_MAX None of
             Some g \<Rightarrow>
               (case take_from_group g remaining a c of (got, a', c') \<Rightarrow>
                  alloc_loop fuel' (remaining - got) gs a' c')
           | None \<Rightarrow>
               (case most_free c gs (- 1) None of
                  None \<Rightarrow> Inr (remaining, a\<lparr>a_error := 1\<rparr>, c)
                | Some g \<Rightarrow>
                    (case take_from_group g remaining a c of (got, a', c') \<Rightarrow>
                       alloc_loop fuel' (remaining - got) gs a' c'))))"

declare alloc_loop.simps [simp del]

definition alloc_from_groups :: "int \<Rightarrow> nat list \<Rightarrow> cpu_alloc_t \<Rightarrow> cpu_state
    \<Rightarrow> (cpu_alloc_t \<times> cpu_state) res" where
  "alloc_from_groups N gs a c =
     rbind (alloc_loop (Suc (nat N)) N gs a c)
       (\<lambda>(remaining, a', c'). Inr (if remaining > 0 then a'\<lparr>a_error := 1\<rparr> else a', c'))"

definition cpu_bind_post_alloc :: "cpu_alloc_t \<Rightarrow> cpu_state \<Rightarrow> cpu_alloc_t" where
  "cpu_bind_post_alloc a c =
     (let a1 = a\<lparr>a_cpus := sort (a_cpus a)\<rparr>;
          a2 = (if \<exists>cpu \<in> set (a_cpus a1). cpu_owner c ! cpu \<noteq> a_jobid a1
                then a1\<lparr>a_error := 1\<rparr> else a1);
          owner_cnt = length (filter (\<lambda>w. w = a_jobid a2) (cpu_owner c))
      in if owner_cnt \<noteq> length (a_cpus a2) then a2\<lparr>a_error := 1\<rparr> else a2)"

text \<open>The nodes in the order \<open>qsort\<close> with \<open>node_free_desc\<close> leaves them.\<close>

definition node_order :: "cpu_state \<Rightarrow> nat list" where
  "node_order c = sort_key (\<lambda>n. - n_free_count (node_at c n)) [0..<length (nodes (topo c))]"

fun collect_nodes :: "cpu_state \<Rightarrow> int \<Rightarrow> nat list \<Rightarrow> int \<Rightarrow> nat list \<Rightarrow> int \<Rightarrow> nat list \<times> int" where
  "collect_nodes c N [] tot gs bitmap = (gs, bitmap)"
| "collect_nodes c N (n # ns) tot gs bitmap =
     (if tot < N
      then collect_nodes c N ns (tot + n_free_count (node_at c n)) (gs @ group_ids (node_at c n))
             (bitmap OR push_bit n 1)
      else (gs, bitmap))"

definition cross_node_merge :: "int \<Rightarrow> cpu_alloc_t \<Rightarrow> cpu_state \<Rightarrow> (cpu_alloc_t \<times> cpu_state) res" where
  "cross_node_merge N a c =
     (let order = node_order c;
          prim = (if N > max_cores_per_group (topo c) then - 1
                  else
                    (let best_free = n_free_count (node_at c (order ! 0));
                         nt = length (takeWhile (\<lambda>n. n_free_count (node_at c n) = best_free) order)
                     in if nt > 1 then int (order ! nat (a_jobid a mod int nt)) else int (order ! 0)));
          (gs, bitmap) = collect_nodes c N order 0 [] 0;
          a' = a\<lparr>primary_node := prim, mem_nodes := bitmap\<rparr>
      in if gs \<noteq> [] then alloc_from_groups N gs a' c else Inr (a', c))"

text \<open>The node with the most free cores among those that can hold the request alone.\<close>

fun pick_node :: "cpu_state \<Rightarrow> int \<Rightarrow> nat list \<Rightarrow> int \<Rightarrow> nat option \<Rightarrow> nat option" where
  "pick_node c N [] max_free best = best"
| "pick_node c N (n # ns) max_free best =
     (let fc = n_free_count (node_at c n) in
      if fc \<ge> N \<and> fc > max_free then pick_node c N ns fc (Some n) else pick_node c N ns max_free best)"

definition total_free :: "cpu_state \<Rightarrow> int" where
  "total_free c = isum n_free_count (nodes (topo c))"

definition cpu_bind_alloc :: "cpu_alloc_t \<Rightarrow> int \<Rightarrow> cpu_state \<Rightarrow> (cpu_alloc_t \<times> cpu_state) res" where
  "cpu_bind_alloc a N c =
     (if cpu_bind_disabled c \<or> N \<le> 0 then Inr (a\<lparr>a_error := 1\<rparr>, c)
      else if total_free c < N then Inr (a\<lparr>a_error := 1\<rparr>, c)
      else
        rbind
          (case pick_node c N [0..<length (nodes (topo c))] (- 1) None of
             Some n \<Rightarrow>
               rbind (alloc_from_groups N (group_ids (node_at c n)) (a\<lparr>a_cpus := []\<rparr>) c)
                 (\<lambda>(a', c'). Inr (a'\<lparr>primary_node := int (n_node_id (node_at c n)),
                                mem_nodes := push_bit (n_node_id (node_at c n)) 1\<rparr>, c'))
           | None \<Rightarrow> cross_node_merge N (a\<lparr>a_cpus := []\<rparr>) c)
          (\<lambda>(a', c'). Inr (cpu_bind_post_alloc a' c', c')))"

section \<open>The public interface on handles\<close>

definition cpu_bind_enabled :: "cpu_state \<Rightarrow> bool" where
  "cpu_bind_enabled c = (\<not> cpu_bind_disabled c)"

definition cpu_bind_set_disabled :: "bool \<Rightarrow> cpu_state \<Rightarrow> cpu_state" where
  "cpu_bind_set_disabled b c = c\<lparr>cpu_bind_disabled := b\<rparr>"

definition cpu_bind_defrag_enabled :: "cpu_state \<Rightarrow> bool" where
  "cpu_bind_defrag_enabled c = (\<not> cpu_bind_defrag_disabled c)"

definition cpu_bind_set_defrag_disabled :: "bool \<Rightarrow> cpu_state \<Rightarrow> cpu_state" where
  "cpu_bind_set_defrag_disabled b c = c\<lparr>cpu_bind_defrag_disabled := b\<rparr>"

fun index_groups :: "nat \<Rightarrow> core_group list \<Rightarrow> int list \<Rightarrow> int list" where
  "index_groups i [] tbl = tbl"
| "index_groups i (g # gs) tbl =
     index_groups (Suc i) gs
       (foldl (\<lambda>t cpu. t[cpu := int i]) tbl (take (nat (num_cores g)) (os_cpus g)))"

definition reset_counters :: "cpu_state \<Rightarrow> cpu_state" where
  "reset_counters c =
     c\<lparr>topo := (topo c)
         \<lparr>groups := map (\<lambda>g. g\<lparr>free_count := num_cores g\<rparr>) (groups (topo c)),
          nodes := map (\<lambda>n. n\<lparr>n_free_count := n_num_cores n\<rparr>) (nodes (topo c))\<rparr>,
       cpu_owner := replicate (max_os_cpu (topo c)) 0\<rparr>"

definition cpu_bind_init :: "cpu_state \<Rightarrow> cpu_state" where
  "cpu_bind_init c =
     reset_counters
       (c\<lparr>cpu_bind_disabled := False, cpu_bind_defrag_disabled := False, allocs := [],
          cpu_to_group :=
            index_groups 0 (groups (topo c)) (replicate (max_os_cpu (topo c)) (- 1))\<rparr>)"

definition cpu_bind_alloc_init :: "int \<Rightarrow> int \<Rightarrow> cpu_state \<Rightarrow> nat \<times> cpu_state" where
  "cpu_bind_alloc_init jid max_cpus c =
     (let h = next_alloc c;
          a = \<lparr>primary_node = 0, mem_nodes = 0, a_cpus = [], a_slots = max_cpus,
               a_jobid = jid, a_error = 0, quality = 0\<rparr>
      in (h, c\<lparr>allocs := allocs c @ [h], store := (store c)(h \<mapsto> a), next_alloc := Suc h\<rparr>))"

text \<open>The struct behind a handle; following a freed handle is undefined behaviour.\<close>

definition alloc_at :: "cpu_state \<Rightarrow> nat \<Rightarrow> cpu_alloc_t res" where
  "alloc_at c h = (case store c h of None \<Rightarrow> Inl Null_deref | Some a \<Rightarrow> Inr a)"

text \<open>\<open>cpu_bind_alloc\<close> called with the pointer a job keeps: the struct is updated in place.\<close>

definition cpu_bind_alloc_h :: "nat \<Rightarrow> int \<Rightarrow> cpu_state \<Rightarrow> cpu_state res" where
  "cpu_bind_alloc_h h N c =
     rbind (alloc_at c h) (\<lambda>a.
       rbind (cpu_bind_alloc a N c) (\<lambda>(a', c'). Inr (c'\<lparr>store := (store c')(h \<mapsto> a')\<rparr>)))"

text \<open>
  Giving one CPU back. \<open>cpu_to_group\<close> is \<open>-1\<close> for a CPU the topology does not list; the code
  then indexes \<open>groups[-1]\<close>.
\<close>

definition release_cpu :: "nat \<Rightarrow> cpu_state \<Rightarrow> cpu_state res" where
  "release_cpu cpu c =
     (let gi = cpu_to_group c ! cpu in
      if gi < 0 then Inl Out_of_bounds
      else Inr (add_free (nat gi) 1 (c\<lparr>cpu_owner := (cpu_owner c)[cpu := 0]\<rparr>)))"

definition cpu_bind_free :: "nat \<Rightarrow> cpu_state \<Rightarrow> cpu_state res" where
  "cpu_bind_free h c =
     rbind (alloc_at c h) (\<lambda>a.
       rbind (rfold release_cpu (a_cpus a) c)
         (\<lambda>c'. Inr (c'\<lparr>allocs := remove1 h (allocs c'), store := (store c')(h := None)\<rparr>)))"

text \<open>Marking one CPU as taken, as the restart claim does, with its guard on \<open>gi\<close>.\<close>

definition claim_cpu :: "int \<Rightarrow> nat \<Rightarrow> cpu_state \<Rightarrow> cpu_state" where
  "claim_cpu jid cpu c =
     (let c1 = c\<lparr>cpu_owner := (cpu_owner c)[cpu := jid]\<rparr>;
          gi = cpu_to_group c ! cpu
      in if gi \<ge> 0 then add_free (nat gi) (- 1) c1 else c1)"

definition cpu_bind_claim :: "int \<Rightarrow> nat list \<Rightarrow> int \<Rightarrow> int \<Rightarrow> cpu_state \<Rightarrow> nat option \<times> cpu_state" where
  "cpu_bind_claim jid cs mems prim c =
     (if cs = [] then (None, c)
      else
        (let a = \<lparr>primary_node = prim, mem_nodes = mems, a_cpus = sort cs, a_slots = int (length cs),
                  a_jobid = jid, a_error = 0, quality = 0\<rparr>;
             c1 = foldl (\<lambda>c cpu. claim_cpu jid cpu c) c (a_cpus a);
             h = next_alloc c
         in (Some h, c1\<lparr>allocs := allocs c1 @ [h], store := (store c1)(h \<mapsto> a), next_alloc := Suc h\<rparr>)))"

section \<open>Defragmentation\<close>

definition quality_of :: "cpu_state \<Rightarrow> nat \<Rightarrow> int" where
  "quality_of c h = (case store c h of None \<Rightarrow> 0 | Some a \<Rightarrow> quality a)"

definition count_of :: "cpu_state \<Rightarrow> nat \<Rightarrow> int" where
  "count_of c h = (case store c h of None \<Rightarrow> 0 | Some a \<Rightarrow> int (length (a_cpus a)))"

text \<open>\<open>alloc_defrag_cmp\<close>: quality ascending, then count descending.\<close>

definition defrag_order :: "cpu_state \<Rightarrow> nat list" where
  "defrag_order c = sort_key (quality_of c) (sort_key (\<lambda>h. - count_of c h) (allocs c))"

definition restore_cpu :: "int \<Rightarrow> nat \<Rightarrow> cpu_state \<Rightarrow> cpu_state res" where
  "restore_cpu jid cpu c =
     (let gi = cpu_to_group c ! cpu in
      if gi < 0 then Inl Out_of_bounds
      else Inr (add_free (nat gi) (- 1) (c\<lparr>cpu_owner := (cpu_owner c)[cpu := jid]\<rparr>)))"

definition restore_alloc :: "nat \<Rightarrow> cpu_state \<Rightarrow> cpu_state res" where
  "restore_alloc h c =
     rbind (alloc_at c h) (\<lambda>a. rfold (restore_cpu (a_jobid a)) (a_cpus a) c)"

definition fresh_alloc :: "cpu_alloc_t \<Rightarrow> cpu_alloc_t" where
  "fresh_alloc a = a\<lparr>a_cpus := [], a_error := 0, quality := 0\<rparr>"

definition realloc_same_node :: "nat \<Rightarrow> nat list \<times> cpu_state \<Rightarrow> (nat list \<times> cpu_state) res" where
  "realloc_same_node h sc =
     (case sc of (skipped, c) \<Rightarrow>
        rbind (alloc_at c h) (\<lambda>a.
          let N = int (length (a_cpus a)); pn = primary_node a in
          if 0 \<le> pn \<and> pn < int (length (nodes (topo c)))
             \<and> n_free_count (node_at c (nat pn)) \<ge> N
          then rbind (alloc_from_groups N (group_ids (node_at c (nat pn))) (fresh_alloc a) c)
                 (\<lambda>(a', c'). Inr (skipped,
                    c'\<lparr>store := (store c')(h \<mapsto> cpu_bind_post_alloc a' c')\<rparr>))
          else Inr (skipped @ [h], c)))"

definition realloc_cross_node :: "nat \<Rightarrow> cpu_state \<Rightarrow> cpu_state res" where
  "realloc_cross_node h c =
     rbind (alloc_at c h) (\<lambda>a.
       rbind (cross_node_merge (int (length (a_cpus a))) (fresh_alloc a) c)
         (\<lambda>(a', c').
            let a'' = a'\<lparr>primary_node := primary_node a, mem_nodes := mem_nodes a\<rparr>
            in Inr (c'\<lparr>store := (store c')(h \<mapsto> cpu_bind_post_alloc a'' c')\<rparr>)))"

text \<open>
  The main-thread part of \<open>cpu_bind_defrag_start\<close>: sort, keep the allocations of quality 0,
  rebuild the tables, place the others again. The result lists the handles placed again.
\<close>

definition defrag_compute :: "cpu_state \<Rightarrow> (nat list \<times> cpu_state) res" where
  "defrag_compute c =
     (let c0 = c\<lparr>allocs := defrag_order c\<rparr>;
          good = takeWhile (\<lambda>h. quality_of c h = 0) (allocs c0);
          bad = dropWhile (\<lambda>h. quality_of c h = 0) (allocs c0)
      in if bad = [] then Inr ([], c0)
         else rbind (rfold restore_alloc good (reset_counters c0)) (\<lambda>c1.
              rbind (rfold realloc_same_node bad ([], c1)) (\<lambda>(skipped, c2).
              rbind (rfold realloc_cross_node skipped c2) (\<lambda>c3. Inr (bad, c3)))))"

end
