(* ===== verification/Text_Utils.thy ===== *)
theory Text_Utils
  imports TS_Prelude
begin

text \<open>
  The text helpers of \<open>utils.c\<close> and the C library functions they call: reading a decimal
  number (\<open>atoi\<close>, \<open>sscanf("%lld")\<close>) and splitting at delimiters (\<open>strtok\<close>). Strings have no
  zero byte; numbers out of range saturate at 64 bits as in glibc's \<open>strtol\<close>, and \<open>atoi\<close>
  keeps the low 32 bits.
\<close>

section \<open>Reading numbers\<close>

definition is_digit :: "char \<Rightarrow> bool" where
  "is_digit c = (48 \<le> (of_char c :: nat) \<and> (of_char c :: nat) \<le> 57)"

definition digit_val :: "char \<Rightarrow> nat" where
  "digit_val c = of_char c - 48"

definition is_space :: "char \<Rightarrow> bool" where
  "is_space c = (c = CHR '' '' \<or> 9 \<le> (of_char c :: nat) \<and> (of_char c :: nat) \<le> 13)"

definition read_digits :: "string \<Rightarrow> nat" where
  "read_digits ds = foldl (\<lambda>n c. n * 10 + digit_val c) 0 ds"

text \<open>White space, an optional sign, digits; \<open>None\<close> when there is no digit.\<close>

definition scan_int :: "string \<Rightarrow> int option" where
  "scan_int str =
     (let t = dropWhile is_space str;
          (neg, u) = (case t of [] \<Rightarrow> (False, t)
                      | c # r \<Rightarrow> if c = CHR ''-'' then (True, r) else if c = CHR ''+'' then (False, r) else (False, t));
          ds = takeWhile is_digit u;
          v = int (read_digits ds)
      in if ds = [] then None else Some (if neg then - v else v))"

definition INT64_MAX :: int where "INT64_MAX = 9223372036854775807"

definition clamp64 :: "int \<Rightarrow> int" where
  "clamp64 x = (if x > INT64_MAX then INT64_MAX else if x < - INT64_MAX - 1 then - INT64_MAX - 1 else x)"

definition wrap32 :: "int \<Rightarrow> int" where
  "wrap32 x = (x + 2147483648) mod 4294967296 - 2147483648"

definition atoi :: "string \<Rightarrow> int" where
  "atoi str = (case scan_int str of None \<Rightarrow> 0 | Some v \<Rightarrow> wrap32 (clamp64 v))"

definition str2int64 :: "string \<Rightarrow> int res" where
  "str2int64 str =
     (case scan_int str of None \<Rightarrow> Inl (Error_exit ''Error: in convert %s to int64_t'')
      | Some v \<Rightarrow> Inr (clamp64 v))"

section \<open>Splitting\<close>

text \<open>All the tokens \<open>strtok\<close> returns in turn: maximal non-empty runs without the delimiter.\<close>

function strtok :: "char \<Rightarrow> string \<Rightarrow> string list" where
  "strtok d [] = []"
| "strtok d (c # cs) =
     (if c = d then strtok d cs
      else (c # takeWhile (\<lambda>x. x \<noteq> d) cs) # strtok d (dropWhile (\<lambda>x. x \<noteq> d) cs))"
  by pat_completeness auto

termination strtok
  by (relation "measure (\<lambda>(d, cs). length cs)") (auto simp: le_imp_less_Suc length_dropWhile_le)

definition split_str :: "string \<Rightarrow> string list" where
  "split_str str = strtok (CHR '' '') str"

text \<open>
  The first component is the number of elements the caller is told; the array has only as
  many defined elements as there are tokens (one 0 when there is none).
\<close>

definition chars_to_ints :: "string \<Rightarrow> char \<Rightarrow> nat \<times> int list" where
  "chars_to_ints str d =
     (let toks = map atoi (strtok d str)
      in (length (filter (\<lambda>c. c = d) str) + 1, if toks = [] then [0] else toks))"

fun ints_to_chars :: "int list \<Rightarrow> char \<Rightarrow> string" where
  "ints_to_chars [] d = []"
| "ints_to_chars [x] d = show_int x"
| "ints_to_chars (x # y # xs) d = show_int x @ d # ints_to_chars (y # xs) d"

section \<open>Joining\<close>

text \<open>\<open>array[0]\<close> is read even when there is no element.\<close>

definition charArray_string :: "string list \<Rightarrow> string res" where
  "charArray_string ws =
     (case ws of [] \<Rightarrow> Inl Out_of_bounds
      | w # rest \<Rightarrow> Inr (foldl (\<lambda>acc x. acc @ '' '' @ x) w rest))"

text \<open>Inserts an option at a position unless the option already stands before it.\<close>

definition insert_chars_check :: "nat \<Rightarrow> string \<Rightarrow> string \<Rightarrow> string res" where
  "insert_chars_check pos input s_arg =
     (if pos < length s_arg \<or> length input < pos then Inl Out_of_bounds
      else if take (length s_arg) (drop (pos - length s_arg) input) = s_arg then Inr input
      else Inr (take pos input @ s_arg @ drop pos input))"

section \<open>Lemmas\<close>

lemma digit_char:
  assumes "n < 10"
  shows "is_digit (char_of (48 + n))" "digit_val (char_of (48 + n)) = n"
proof -
  have "(of_char (char_of (48 + n) :: char) :: nat) = 48 + n" using assms by (simp add: of_char_of)
  then show "is_digit (char_of (48 + n))" "digit_val (char_of (48 + n)) = n"
    using assms by (simp_all add: is_digit_def digit_val_def)
qed

lemma show_nat_digits: "list_all is_digit (show_nat n) \<and> show_nat n \<noteq> []"
proof (induction n rule: show_nat.induct)
  case (1 n)
  then show ?case by (subst show_nat.simps) (auto simp: digit_char show_nat.simps [of n])
qed

lemma read_digits_snoc: "read_digits (ds @ [c]) = read_digits ds * 10 + digit_val c"
  by (simp add: read_digits_def)

lemma read_show_nat: "read_digits (show_nat n) = n"
proof (induction n rule: show_nat.induct)
  case (1 n)
  show ?case
  proof (cases "n < 10")
    case True
    then show ?thesis using digit_char(2) [OF True] by (simp add: show_nat.simps [of n] read_digits_def)
  next
    case False
    have "digit_val (char_of (48 + n mod 10)) = n mod 10" by (rule digit_char(2)) simp
    then show ?thesis using 1 False by (simp add: show_nat.simps [of n] read_digits_snoc)
  qed
qed

lemma show_nat_length: "0 < k \<Longrightarrow> n < 10 ^ k \<Longrightarrow> length (show_nat n) \<le> k"
proof (induction k arbitrary: n)
  case (Suc k)
  show ?case
  proof (cases "n < 10")
    case True
    then show ?thesis by (simp add: show_nat.simps [of n])
  next
    case False
    then have "n div 10 < 10 ^ k" "0 < k" using Suc.prems by (auto intro: gr0I)
    then show ?thesis using Suc.IH [of "n div 10"] False by (simp add: show_nat.simps [of n])
  qed
qed simp

lemma digit_plain: "is_digit c \<Longrightarrow> \<not> is_space c \<and> c \<noteq> CHR ''-'' \<and> c \<noteq> CHR ''+'' \<and> c \<noteq> CHR '','' \<and> c \<noteq> CHR ''=''"
  by (auto simp: is_digit_def is_space_def)

lemma scan_show_nat:
  assumes "rest = [] \<or> \<not> is_digit (hd rest)"
  shows "scan_int (show_nat n @ rest) = Some (int n)"
proof -
  obtain c cs where c: "show_nat n = c # cs" using show_nat_digits [of n] by (cases "show_nat n") auto
  then have d: "is_digit c" "\<not> is_space c" "c \<noteq> CHR ''-''" "c \<noteq> CHR ''+''"
    using show_nat_digits [of n] digit_plain by auto
  have t: "takeWhile is_digit (show_nat n @ rest) = show_nat n"
    using show_nat_digits [of n] assms by (cases rest) (auto simp: takeWhile_append2 list_all_iff takeWhile_eq_all_conv)
  show ?thesis
    unfolding scan_int_def using d t c read_show_nat [of n] by (simp add: Let_def)
qed

lemma scan_show_int:
  assumes "rest = [] \<or> \<not> is_digit (hd rest)"
  shows "scan_int (show_int i @ rest) = Some i"
proof (cases "i < 0")
  case True
  have "takeWhile is_digit (show_nat (nat (- i)) @ rest) = show_nat (nat (- i))"
    using show_nat_digits [of "nat (- i)"] assms
    by (cases rest) (auto simp: takeWhile_append2 list_all_iff takeWhile_eq_all_conv)
  then show ?thesis
    using True show_nat_digits [of "nat (- i)"] read_show_nat [of "nat (- i)"]
    by (simp add: show_int_def scan_int_def Let_def is_space_def)
next
  case False
  then show ?thesis using scan_show_nat [OF assms, of "nat i"] by (simp add: show_int_def)
qed

lemma wrap32_id: "- 2147483648 \<le> x \<Longrightarrow> x \<le> 2147483647 \<Longrightarrow> wrap32 (clamp64 x) = x"
  by (simp add: wrap32_def clamp64_def INT64_MAX_def)

lemma atoi_show_int: "- 2147483648 \<le> i \<Longrightarrow> i \<le> 2147483647 \<Longrightarrow> atoi (show_int i) = i"
  using scan_show_int [of "[]" i] wrap32_id by (simp add: atoi_def)

lemma show_int_clean:
  assumes "\<not> is_digit d" "d \<noteq> CHR ''-''"
  shows "show_int i \<noteq> [] \<and> d \<notin> set (show_int i)"
  using assms show_nat_digits [of "nat i"] show_nat_digits [of "nat (- i)"]
  by (auto simp: show_int_def list_all_iff)

lemma strtok_token:
  assumes "t \<noteq> []" "d \<notin> set t"
  shows "strtok d (t @ d # rest) = t # strtok d rest" "strtok d t = [t]"
proof -
  obtain c cs where t: "t = c # cs" using assms(1) by (cases t) auto
  have "takeWhile (\<lambda>x. x \<noteq> d) (cs @ d # rest) = cs" "dropWhile (\<lambda>x. x \<noteq> d) (cs @ d # rest) = d # rest"
    using assms(2) t by (induction cs arbitrary: t) auto
  then show "strtok d (t @ d # rest) = t # strtok d rest"
    using assms(2) t by auto
  have e: "takeWhile (\<lambda>x. x \<noteq> d) cs = cs" "dropWhile (\<lambda>x. x \<noteq> d) cs = []"
    using assms(2) t by (auto simp: takeWhile_eq_all_conv)
  show "strtok d t = [t]" using assms(2) unfolding t by (simp only: strtok.simps e) auto
qed

lemma strtok_ints:
  assumes "\<not> is_digit d" "d \<noteq> CHR ''-''"
  shows "strtok d (ints_to_chars xs d) = map show_int xs"
    "xs \<noteq> [] \<Longrightarrow> length (filter (\<lambda>c. c = d) (ints_to_chars xs d)) + 1 = length xs"
proof -
  have clean: "filter (\<lambda>c. c = d) (show_int x) = []" for x
    using show_int_clean [OF assms, of x] by (auto simp: filter_empty_conv)
  have tok: "strtok d (show_int x @ d # rest) = show_int x # strtok d rest" "strtok d (show_int x) = [show_int x]" for x rest
    using strtok_token show_int_clean [OF assms, of x] by auto
  show "strtok d (ints_to_chars xs d) = map show_int xs"
    using tok by (induction xs "d" rule: ints_to_chars.induct) auto
  show "xs \<noteq> [] \<Longrightarrow> length (filter (\<lambda>c. c = d) (ints_to_chars xs d)) + 1 = length xs"
    using clean by (induction xs "d" rule: ints_to_chars.induct) auto
qed

lemma chars_ints_inverse:
  assumes "xs \<noteq> []" "\<forall>x \<in> set xs. - 2147483648 \<le> x \<and> x \<le> 2147483647" "\<not> is_digit d" "d \<noteq> CHR ''-''"
  shows "chars_to_ints (ints_to_chars xs d) d = (length xs, xs)"
proof -
  have "map atoi (map show_int xs) = xs" using assms(2) atoi_show_int by (simp add: map_idI)
  then show ?thesis
    using strtok_ints [OF assms(3,4), of xs] assms(1) by (simp add: chars_to_ints_def Let_def)
qed

end
