(* ===== verification/Server_State.thy ===== *)
theory Server_State
  imports Job_Model Cpu_Bind Text_Utils
begin

text \<open>
  The server's global variables (\<open>srv\<close>, from \<open>jobs.c\<close>, \<open>notify.c\<close>, \<open>server.c\<close>, \<open>user.c\<close>
  and \<open>cpu_bind.c\<close>) and the helpers every handler uses: the clocks and durations of
  \<open>info.c\<close> and \<open>runtime_limit.c\<close>, the freezer of \<open>cgroups.c\<close>, and the operations on one
  \<open>struct Job\<close> that move slots and CPUs between the job, its user and the server.

  The growable vectors are lists here (see \<open>Vec\<close> for the array they are stored in); memory
  exhaustion is not modelled outside \<open>Vec\<close>. What the server writes to sockets, the database,
  control groups and processes is appended to \<open>out\<close>.
\<close>

section \<open>Global state\<close>

record srv =
  active_jobs :: "job list"
  finished_jobs :: "job list"
  users_vec :: "user_t list"
  busy_slots :: int
  max_slots :: int
  jobids :: int
  last_errorlevel :: int
  last_finished_jobid :: int
  max_jobs :: int
  user_locker :: "nat option"
  locker_time :: int
  last_uid :: nat
  first_notify :: "(int \<times> int) list"
  client_cs :: "client_conn list"
  jobsort_flag :: bool
  health_ticks :: int
  cleanup_done :: bool
  cleanup_start :: int
  cpu :: cpu_state
  frozen :: "(int \<times> int) list"
  logdir :: string
  world :: env
  out :: "event list"

type_synonym 'a job_op = "job \<Rightarrow> srv \<Rightarrow> ('a \<times> job \<times> srv) res"

definition emit :: "event \<Rightarrow> srv \<Rightarrow> srv" where
  "emit ev s = s\<lparr>out := out s @ [ev]\<rparr>"

lemma emit_fields [simp]:
  "active_jobs (emit ev s) = active_jobs s"
  "finished_jobs (emit ev s) = finished_jobs s"
  "users_vec (emit ev s) = users_vec s"
  "busy_slots (emit ev s) = busy_slots s"
  "max_slots (emit ev s) = max_slots s"
  "jobids (emit ev s) = jobids s"
  "last_errorlevel (emit ev s) = last_errorlevel s"
  "last_finished_jobid (emit ev s) = last_finished_jobid s"
  "max_jobs (emit ev s) = max_jobs s"
  "user_locker (emit ev s) = user_locker s"
  "locker_time (emit ev s) = locker_time s"
  "last_uid (emit ev s) = last_uid s"
  "first_notify (emit ev s) = first_notify s"
  "client_cs (emit ev s) = client_cs s"
  "jobsort_flag (emit ev s) = jobsort_flag s"
  "health_ticks (emit ev s) = health_ticks s"
  "cleanup_done (emit ev s) = cleanup_done s"
  "cleanup_start (emit ev s) = cleanup_start s"
  "cpu (emit ev s) = cpu s"
  "frozen (emit ev s) = frozen s"
  "world (emit ev s) = world s"
  by (simp_all add: emit_def)

definition send_list_line :: "int \<Rightarrow> line \<Rightarrow> srv \<Rightarrow> srv" where
  "send_list_line sock l s = emit (Send sock (LIST_LINE l)) s"

definition update_field_int64 :: "int \<Rightarrow> string \<Rightarrow> int \<Rightarrow> srv \<Rightarrow> srv" where
  "update_field_int64 jid f v s = emit (Db (Update_field jid f v)) s"

text \<open>
  Writing through a \<open>struct User *\<close>: the null pointer faults, and so does a position past
  the table, which \<open>vec_get\<close> turns into a null pointer.
\<close>

definition upd_user :: "nat option \<Rightarrow> (user_t \<Rightarrow> user_t) \<Rightarrow> srv \<Rightarrow> srv res" where
  "upd_user u f s =
     (case u of None \<Rightarrow> Inl Null_deref
      | Some i \<Rightarrow> if i < length (users_vec s)
                  then Inr (s\<lparr>users_vec := (users_vec s)[i := f (users_vec s ! i)]\<rparr>)
                  else Inl Null_deref)"

definition the_user :: "nat option \<Rightarrow> srv \<Rightarrow> user_t res" where
  "the_user u s =
     (case u of None \<Rightarrow> Inl Null_deref
      | Some i \<Rightarrow> if i < length (users_vec s) then Inr (users_vec s ! i) else Inl Null_deref)"

definition i64abs :: "int \<Rightarrow> int" where
  "i64abs x = (if x < 0 then - x else x)"

section \<open>Process information and times\<close>

definition get_monotonic_sec :: "srv \<Rightarrow> int" where
  "get_monotonic_sec s = now (world s)"

definition pinfo_init :: procinfo where
  "pinfo_init = zero_info"

definition pinfo_set_enqueue_time :: "procinfo \<Rightarrow> srv \<Rightarrow> procinfo" where
  "pinfo_set_enqueue_time p s =
     (let p1 = p\<lparr>enqueue_time := get_monotonic_sec s, start_time := 0, end_time := 0\<rparr>
      in if boot_time p1 = 0 then p1\<lparr>boot_time := wallclock (world s) - get_monotonic_sec s\<rparr> else p1)"

definition pinfo_set_start_time :: "procinfo \<Rightarrow> srv \<Rightarrow> procinfo" where
  "pinfo_set_start_time p s = p\<lparr>start_time := get_monotonic_sec s, end_time := 0\<rparr>"

definition pinfo_set_start_time_check :: "procinfo \<Rightarrow> srv \<Rightarrow> procinfo" where
  "pinfo_set_start_time_check p s = (if start_time p = 0 then pinfo_set_start_time p s else p)"

definition pinfo_set_end_time :: "procinfo \<Rightarrow> srv \<Rightarrow> procinfo" where
  "pinfo_set_end_time p s = p\<lparr>end_time := get_monotonic_sec s\<rparr>"

definition pinfo_size :: "procinfo \<Rightarrow> int" where
  "pinfo_size p = nchars p"

text \<open>
  \<open>pinfo_addinfo\<close> with the text \<open>vsnprintf\<close> would produce: at most \<open>maxsize\<close> characters are
  kept, and the buffer grows to \<open>nchars + maxsize + 1\<close> when it is smaller.
\<close>

definition pinfo_addinfo :: "procinfo \<Rightarrow> int \<Rightarrow> string \<Rightarrow> procinfo" where
  "pinfo_addinfo p maxsize txt =
     (let needed = nchars p + maxsize + 1;
          kept = take (nat maxsize) txt;
          old = (case ptr p of None \<Rightarrow> '''' | Some b \<Rightarrow> take (nat (nchars p)) b)
      in p\<lparr>ptr := Some (old @ kept), allocchars := (if needed > allocchars p then needed else allocchars p),
           nchars := nchars p + int (length kept)\<rparr>)"

definition DEFAULT_MAX_WALL_TIME :: int where "DEFAULT_MAX_WALL_TIME = 604800"

definition get_max_wall_time :: "srv \<Rightarrow> int res" where
  "get_max_wall_time s =
     (case getenv (world s) ''TS_MAX_WALL_TIME'' of
        None \<Rightarrow> Inr DEFAULT_MAX_WALL_TIME
      | Some str \<Rightarrow>
          if str = [] then Inr DEFAULT_MAX_WALL_TIME
          else rbind (str2int64 str) (\<lambda>v. Inr (if v > 0 then v else DEFAULT_MAX_WALL_TIME)))"

definition get_work_time_by_job :: "job \<Rightarrow> srv \<Rightarrow> int" where
  "get_work_time_by_job p s =
     (if state p = FINISHED
      then end_time (info p) - start_time (info p) - pause_duration (info p)
      else (let t = (if state p = PAUSE then pause_time (info p) else get_monotonic_sec s)
            in t - (start_time (info p) + pause_duration (info p))))"

definition get_pause_time_by_job :: "job \<Rightarrow> srv \<Rightarrow> int" where
  "get_pause_time_by_job p s =
     (if state p = PAUSE \<and> pause_time (info p) \<noteq> 0
      then pause_duration (info p) + (get_monotonic_sec s - pause_time (info p))
      else pause_duration (info p))"

section \<open>Processes and control groups\<close>

text \<open>\<open>kill(pid, 0)\<close> succeeds, or fails with \<open>EPERM\<close>: \<open>pid_alive\<close>.\<close>

definition s_check_running_pid :: "int \<Rightarrow> srv \<Rightarrow> int" where
  "s_check_running_pid p s = (if p \<le> 0 then 0 else if pid_alive (world s) p then 1 else 0)"

definition is_sleep :: "job \<Rightarrow> srv \<Rightarrow> int" where
  "is_sleep p s =
     (if pid p \<le> 0 then - 1
      else if (jobid p, pid p) \<in> set (frozen s) then 1
      else (case proc_stat (world s) (pid p) of
              None \<Rightarrow> - 1
            | Some ch \<Rightarrow> if ch = CHR ''T'' \<or> ch = CHR ''t'' then 1 else 0))"

definition kill_cont :: "int \<Rightarrow> srv \<Rightarrow> srv" where
  "kill_cont pd s = emit (Kill_tree pd SIGCONT) (emit (Kill pd SIGCONT) s)"

definition cgroups_freeze_job :: "job \<Rightarrow> srv \<Rightarrow> srv" where
  "cgroups_freeze_job p s =
     (let s1 = (if \<not> CGROUP_V2 (world s) \<and> is_sleep p s = 0 then kill_cont (pid p) s else s);
          s2 = emit (Freeze (jobid p) (pid p)) s1
      in if freeze_ok (world s) (jobid p) (pid p)
         then s2\<lparr>frozen := List.insert (jobid p, pid p) (frozen s2)\<rparr> else s2)"

definition cgroups_thaw_job :: "job \<Rightarrow> srv \<Rightarrow> srv" where
  "cgroups_thaw_job p s =
     (let s1 = emit (Thaw (jobid p) (pid p)) s;
          s2 = (if freeze_ok (world s) (jobid p) (pid p)
                then s1\<lparr>frozen := removeAll (jobid p, pid p) (frozen s1)\<rparr> else s1)
      in kill_cont (pid p) s2)"

definition cgroups_create_job :: "job \<Rightarrow> srv \<Rightarrow> srv" where
  "cgroups_create_job p s =
     (if pid p = 0 then s
      else emit (Create_cgroup (jobid p) (pid p) (if num_slots p < 1 then 1 else num_slots p)) s)"

definition cgroups_clean_job :: "job \<Rightarrow> srv \<Rightarrow> srv" where
  "cgroups_clean_job p s =
     (if pid p = 0 \<or> state p = RUNNING then s
      else emit (Clean_cgroup (jobid p) (pid p))
             (s\<lparr>frozen := removeAll (jobid p, pid p) (frozen s)\<rparr>))"

section \<open>CPU binding of a job\<close>

text \<open>
  The allocation block of \<open>config_running\<close> and \<open>s_process_runjob_ok\<close>: a fresh allocation,
  kept only when it has no error and holds at least one CPU. Without the build option
  \<open>TS_CPU_BIND\<close> the blocks are not compiled.
\<close>

definition attach_cpus :: "job \<Rightarrow> srv \<Rightarrow> (job \<times> srv) res" where
  "attach_cpus p s =
     (case cpu_bind_alloc_init (jobid p) (num_allocated p) (cpu s) of (h, c1) \<Rightarrow>
        rbind (cpu_bind_alloc_h h (num_allocated p) c1) (\<lambda>c2.
        rbind (alloc_at c2 h) (\<lambda>a.
          if a_error a = 0 \<and> a_cpus a \<noteq> []
          then Inr (p\<lparr>cpu_alloc := Some h\<rparr>,
                    emit (Set_cpuset (jobid p) (pid p) (map int (a_cpus a))) (s\<lparr>cpu := c2\<rparr>))
          else rbind (cpu_bind_free h c2) (\<lambda>c3. Inr (p\<lparr>cpu_alloc := None\<rparr>, s\<lparr>cpu := c3\<rparr>)))))"

definition detach_cpus :: "job \<Rightarrow> srv \<Rightarrow> (job \<times> srv) res" where
  "detach_cpus p s =
     (if \<not> TS_CPU_BIND (world s) then Inr (p, s)
      else case cpu_alloc p of None \<Rightarrow> Inr (p, s)
      | Some h \<Rightarrow> rbind (cpu_bind_free h (cpu s)) (\<lambda>c. Inr (p\<lparr>cpu_alloc := None\<rparr>, s\<lparr>cpu := c\<rparr>)))"

text \<open>
  \<open>cpu_bind_defrag_start\<close>: the placement is computed at once, the control-group writes for
  the jobs that still run are handed to a thread (\<open>Defrag_io\<close>).
\<close>

definition defrag_jobs :: "srv \<Rightarrow> cpu_state \<Rightarrow> nat list \<Rightarrow> (int \<times> int \<times> nat list) list" where
  "defrag_jobs s c hs =
     concat (map (\<lambda>h. case store c h of None \<Rightarrow> []
       | Some a \<Rightarrow>
           (case find (\<lambda>p. jobid p = a_jobid a) (active_jobs s) of None \<Rightarrow> []
            | Some p \<Rightarrow> if pid p > 0 \<and> (state p = RUNNING \<or> state p = PAUSE)
                        then [(a_jobid a, pid p, a_cpus a)] else [])) hs)"

definition cpu_bind_defrag_start :: "srv \<Rightarrow> srv res" where
  "cpu_bind_defrag_start s =
     (if \<not> TS_CPU_BIND (world s) \<or> \<not> cpu_bind_defrag_enabled (cpu s) \<or> allocs (cpu s) = [] then Inr s
      else rbind (defrag_compute (cpu s)) (\<lambda>(moved, c).
        if moved = [] then Inr (s\<lparr>cpu := c\<rparr>)
        else Inr (emit (Defrag_io (defrag_jobs s c moved)) (s\<lparr>cpu := c\<rparr>))))"

section \<open>Slots of a job\<close>

definition pause_job_config :: "job \<Rightarrow> srv \<Rightarrow> job \<times> srv" where
  "pause_job_config p s =
     (if pause_time (info p) = 0
      then (let p' = p\<lparr>info := (info p)\<lparr>pause_time := get_monotonic_sec s\<rparr>\<rparr>
            in (p', update_field_int64 (jobid p) ''pause_time'' (pause_time (info p')) s))
      else (p, s))"

definition rerun_job_config :: "job \<Rightarrow> srv \<Rightarrow> job \<times> srv" where
  "rerun_job_config p s =
     (if pause_time (info p) \<noteq> 0
      then (let d = pause_duration (info p) + (get_monotonic_sec s - pause_time (info p))
            in (p\<lparr>info := (info p)\<lparr>pause_duration := d, pause_time := 0\<rparr>\<rparr>,
                update_field_int64 (jobid p) ''pause_time'' 0
                  (update_field_int64 (jobid p) ''pause_duration'' d s)))
      else (p, s))"

definition free_cores :: "job \<Rightarrow> srv \<Rightarrow> (job \<times> srv) res" where
  "free_cores p s =
     (if num_allocated p = 0 then Inr (p, s)
      else rbind (upd_user (user p) (\<lambda>u. u\<lparr>busy := busy u - num_slots p, njobs := njobs u - 1\<rparr>) s)
        (\<lambda>s'. Inr (p\<lparr>num_allocated := 0\<rparr>, s'\<lparr>busy_slots := busy_slots s' - num_slots p\<rparr>)))"

text \<open>
  \<open>config_running\<close> returns 1 and does nothing when the job is neither paused nor queued;
  the flag of the result is that return value.
\<close>

definition config_running :: "job \<Rightarrow> srv \<Rightarrow> (bool \<times> job \<times> srv) res" where
  "config_running p s =
     (if state p \<noteq> PAUSE \<and> state p \<noteq> QUEUED then Inr (True, p, s)
      else
        (let s1 = (if is_sleep p s = 1 then cgroups_thaw_job p s else s) in
         rbind (upd_user (user p) (\<lambda>u. u\<lparr>busy := busy u + num_slots p, njobs := njobs u + 1\<rparr>) s1)
         (\<lambda>s2.
            let s3 = s2\<lparr>busy_slots := busy_slots s2 + num_slots p\<rparr>;
                p1 = p\<lparr>num_allocated := num_slots p, state := RUNNING, wall_time := i64abs (wall_time p)\<rparr>;
                s4 = update_field_int64 (jobid p) ''wall_time'' (wall_time p1) s3
            in case rerun_job_config p1 s4 of (p2, s5) \<Rightarrow>
                 if TS_CPU_BIND (world s) \<and> pid p2 \<noteq> 0 \<and> cpu_alloc p2 = None
                    \<and> cpu_bind_enabled (cpu s5) \<and> no_cpu_binding p2 = 0 \<and> num_allocated p2 > 0
                 then rbind (attach_cpus p2 s5) (\<lambda>(p3, s6). Inr (False, p3, s6))
                 else Inr (False, p2, s5))))"

definition safe_pause_job :: "job \<Rightarrow> srv \<Rightarrow> (job \<times> srv) res" where
  "safe_pause_job p s =
     rbind (free_cores p (cgroups_freeze_job p s)) (\<lambda>(p1, s1).
     rbind (detach_cpus p1 s1) (\<lambda>(p2, s2). Inr (pause_job_config p2 s2)))"

definition s_relegate_job :: "job \<Rightarrow> srv \<Rightarrow> (job \<times> srv) res" where
  "s_relegate_job p s =
     rbind (if state p = RUNNING then safe_pause_job p s else Inr (p, s)) (\<lambda>(p1, s1).
       let w = - i64abs (wall_time p1) - 86400
       in Inr (p1\<lparr>wall_time := w, state := PAUSE\<rparr>, update_field_int64 (jobid p1) ''wall_time'' w s1))"

text \<open>\<open>check_timeout\<close>: the flag is its return value.\<close>

definition check_timeout :: "job \<Rightarrow> srv \<Rightarrow> (bool \<times> job \<times> srv) res" where
  "check_timeout p s =
     (if pid p = 0 then Inr (False, p, s)
      else
        (let wt = i64abs (wall_time p); work = get_work_time_by_job p s in
         if work \<le> wt \<or> work < 3 then Inr (False, p, s)
         else rbind (s_relegate_job p s) (\<lambda>(p', s'). Inr (True, p', s'))))"

end
