(* ===== verification/Job_Queue.thy ===== *)
theory Job_Queue
  imports Server_State
begin

text \<open>
  The job queues of \<open>jobs.c\<close>: look-up by job id in \<open>active_jobs\<close> and \<open>finished_jobs\<close>, the
  hand-over of a finished job with the error level it passes to its dependants, the
  reordering requests, and the small queries. A function of the source that updates a
  \<open>struct Job\<close> in place is applied to a position of \<open>active_jobs\<close> by \<open>on_active\<close>.
\<close>

section \<open>Look-up\<close>

definition findjob_idx :: "int \<Rightarrow> srv \<Rightarrow> nat option" where
  "findjob_idx jid s = find_idx jobid jid (active_jobs s)"

definition find_finished_idx :: "int \<Rightarrow> srv \<Rightarrow> nat option" where
  "find_finished_idx jid s = find_idx jobid jid (finished_jobs s)"

definition findjob :: "int \<Rightarrow> srv \<Rightarrow> job option" where
  "findjob jid s = map_option (\<lambda>i. active_jobs s ! i) (findjob_idx jid s)"

definition find_finished_job :: "int \<Rightarrow> srv \<Rightarrow> job option" where
  "find_finished_job jid s = map_option (\<lambda>i. finished_jobs s ! i) (find_finished_idx jid s)"

definition get_job :: "int \<Rightarrow> srv \<Rightarrow> job option" where
  "get_job jid s = (case findjob jid s of Some j \<Rightarrow> Some j | None \<Rightarrow> find_finished_job jid s)"

definition job_is_in_state :: "int \<Rightarrow> jobstate \<Rightarrow> srv \<Rightarrow> bool" where
  "job_is_in_state jid st s = (case findjob jid s of None \<Rightarrow> False | Some p \<Rightarrow> state p = st)"

definition job_is_running :: "int \<Rightarrow> srv \<Rightarrow> bool" where
  "job_is_running jid s = job_is_in_state jid RUNNING s"

definition job_is_holding_client :: "int \<Rightarrow> srv \<Rightarrow> bool" where
  "job_is_holding_client jid s = job_is_in_state jid HOLDING_CLIENT s"

definition count_not_finished_jobs :: "srv \<Rightarrow> int" where
  "count_not_finished_jobs s = int (length (active_jobs s))"

text \<open>The last job of the queue, or the last finished one: what \<open>-1\<close> stands for.\<close>

definition last_job :: "srv \<Rightarrow> job option" where
  "last_job s =
     (if active_jobs s \<noteq> [] then Some (last (active_jobs s))
      else if finished_jobs s \<noteq> [] then Some (last (finished_jobs s)) else None)"

text \<open>The greatest job id in the queue other than the given one, \<open>-1\<close> when there is none.\<close>

definition find_last_jobid_in_queue :: "int \<Rightarrow> srv \<Rightarrow> int" where
  "find_last_jobid_in_queue neglect s =
     foldl (\<lambda>l p. if jobid p \<noteq> neglect \<and> jobid p > l then jobid p else l) (- 1) (active_jobs s)"

definition find_last_stored_jobid_finished :: "srv \<Rightarrow> int" where
  "find_last_stored_jobid_finished s =
     foldl (\<lambda>l p. if jobid p > l then jobid p else l) (- 1) (finished_jobs s)"

section \<open>Updating the queue\<close>

definition set_active :: "nat \<Rightarrow> job \<Rightarrow> srv \<Rightarrow> srv" where
  "set_active i p s = s\<lparr>active_jobs := (active_jobs s)[i := p]\<rparr>"

definition remove_active :: "nat \<Rightarrow> srv \<Rightarrow> srv" where
  "remove_active i s = s\<lparr>active_jobs := remove_nth i (active_jobs s)\<rparr>"

definition push_active :: "job \<Rightarrow> srv \<Rightarrow> srv" where
  "push_active p s = s\<lparr>active_jobs := active_jobs s @ [p]\<rparr>"

text \<open>A null pointer from \<open>vec_get\<close> past the end is dereferenced by the callers.\<close>

definition on_active :: "nat \<Rightarrow> (job \<Rightarrow> srv \<Rightarrow> (job \<times> srv) res) \<Rightarrow> srv \<Rightarrow> srv res" where
  "on_active i f s =
     (if i < length (active_jobs s)
      then rbind (f (active_jobs s ! i) s) (\<lambda>(p, s'). Inr (set_active i p s'))
      else Inl Null_deref)"

section \<open>Database calls\<close>

definition insert_DB :: "job \<Rightarrow> db_table \<Rightarrow> srv \<Rightarrow> bool \<times> srv" where
  "insert_DB p tbl s = (insert_ok (world s) (jobid p) tbl, emit (Db (Insert p tbl)) s)"

definition insert_or_replace_DB :: "job \<Rightarrow> db_table \<Rightarrow> srv \<Rightarrow> srv" where
  "insert_or_replace_DB p tbl s = emit (Db (Insert_or_replace p tbl)) s"

definition delete_DB :: "int \<Rightarrow> db_table \<Rightarrow> srv \<Rightarrow> srv" where
  "delete_DB jid tbl s = emit (Db (Delete jid tbl)) s"

section \<open>Finishing a job\<close>

definition s_delete_job :: "int \<Rightarrow> srv \<Rightarrow> srv res" where
  "s_delete_job jid s =
     (case findjob_idx jid s of
        None \<Rightarrow> Inl (Error_exit ''Job to be removed not found. jobid=%i'')
      | Some i \<Rightarrow> Inr (delete_DB jid Jobs (remove_active i s)))"

text \<open>One dependant: it is looked up in the queue first, then among the finished jobs.\<close>

definition notify_one :: "int \<Rightarrow> srv \<Rightarrow> int \<Rightarrow> srv" where
  "notify_one lev s jid =
     (case findjob_idx jid s of
        Some i \<Rightarrow>
          (let p = active_jobs s ! i
           in set_active i (p\<lparr>dependency_errorlevel := dependency_errorlevel p + \<bar>lev\<bar>\<rparr>) s)
      | None \<Rightarrow>
          (case find_finished_idx jid s of None \<Rightarrow> s
           | Some i \<Rightarrow>
               (let p = finished_jobs s ! i
                in s\<lparr>finished_jobs := (finished_jobs s)
                       [i := p\<lparr>dependency_errorlevel := dependency_errorlevel p + \<bar>lev\<bar>\<rparr>]\<rparr>)))"

definition notify_errorlevel :: "job \<Rightarrow> srv \<Rightarrow> srv" where
  "notify_errorlevel p s =
     foldl (notify_one (errorlevel (result p))) (s\<lparr>last_errorlevel := errorlevel (result p)\<rparr>)
       (notify_errorlevel_to p)"

definition DEFAULT_MAXFINISHED :: int where "DEFAULT_MAXFINISHED = 1000"

definition get_max_finished_jobs :: "srv \<Rightarrow> int" where
  "get_max_finished_jobs s =
     (case getenv (world s) ''TS_MAXFINISHED'' of None \<Rightarrow> DEFAULT_MAXFINISHED
      | Some limit \<Rightarrow> if \<bar>atoi limit\<bar> < 1 then DEFAULT_MAXFINISHED else \<bar>atoi limit\<bar>)"

definition new_finished_job :: "job \<Rightarrow> srv \<Rightarrow> srv res" where
  "new_finished_job j s =
     (let s1 = (if int (length (finished_jobs s)) \<ge> get_max_finished_jobs s
                then s\<lparr>finished_jobs := remove_nth 0 (finished_jobs s)\<rparr> else s);
          (ok, s2) = insert_DB j Finished s1;
          s3 = (if ok then delete_DB (jobid j) Jobs s2 else s2);
          s4 = cgroups_clean_job j s3
      in rbind (detach_cpus j s4) (\<lambda>(j', s5).
           cpu_bind_defrag_start (s5\<lparr>finished_jobs := finished_jobs s5 @ [j']\<rparr>)))"

definition exit_status_text :: "result_t \<Rightarrow> string" where
  "exit_status_text r =
     (if died_by_signal r \<noteq> 0
      then ''Exit status: killed by signal '' @ show_int (signal r) @ [CHR 0x0A]
      else ''Exit status: died with exit code '' @ show_int (errorlevel r) @ [CHR 0x0A])"

text \<open>The in-place updates of \<open>job_finished\<close> after the dependants were told.\<close>

definition finish_info :: "result_t \<Rightarrow> job \<Rightarrow> srv \<Rightarrow> job" where
  "finish_info r p s =
     (let i1 = pinfo_set_end_time (info p) s;
          i2 = (if real_sec r = 0
                then i1\<lparr>start_time := end_time i1, enqueue_time := end_time i1\<rparr> else i1)
      in p\<lparr>info := pinfo_addinfo i2 100 (exit_status_text (result p))\<rparr>)"

definition job_finished :: "result_t \<Rightarrow> int \<Rightarrow> srv \<Rightarrow> srv res" where
  "job_finished r jid s =
     (if busy_slots s < 0 then Inl (Error_exit ''Wrong state in the server. busy_slots = %i'')
      else case findjob_idx jid s of
        None \<Rightarrow> Inl (Error_exit ''on jobid %i finished, it doesn't exist'')
      | Some i \<Rightarrow>
          rbind (free_cores (active_jobs s ! i) s) (\<lambda>(p1, s1).
            let p2 = p1\<lparr>state := (if skipped r \<noteq> 0 then SKIPPED else FINISHED), result := r\<rparr>;
                s2 = notify_errorlevel p2
                       ((set_active i p2 s1)\<lparr>last_finished_jobid := jobid p2\<rparr>);
                p3 = finish_info r (active_jobs s2 ! i) s2
            in new_finished_job p3 (remove_active i s2)))"

definition destroy_finished_job :: "int \<Rightarrow> srv \<Rightarrow> srv res" where
  "destroy_finished_job jid s =
     (case find_finished_idx jid s of
        None \<Rightarrow> Inl (Error_exit ''Cannot destroy the expected job %i'')
      | Some i \<Rightarrow> Inr (s\<lparr>finished_jobs := remove_nth i (finished_jobs s)\<rparr>))"

text \<open>\<open>s_clear_finished\<close>, walking the vector backwards; root is position 0 of the user table.\<close>

definition clear_one :: "nat option \<Rightarrow> nat \<Rightarrow> srv \<Rightarrow> srv" where
  "clear_one u i s =
     (let p = finished_jobs s ! i in
      if user p = u \<or> u = Some 0
      then (delete_DB (jobid p) Finished s)\<lparr>finished_jobs := remove_nth i (finished_jobs s)\<rparr>
      else s)"

definition s_clear_finished :: "nat option \<Rightarrow> srv \<Rightarrow> srv" where
  "s_clear_finished u s = foldl (\<lambda>s i. clear_one u i s) s (rev [0..<length (finished_jobs s)])"

section \<open>Reordering\<close>

definition s_move_urgent :: "int \<Rightarrow> int \<Rightarrow> srv \<Rightarrow> srv" where
  "s_move_urgent sock jid s =
     (let nok = send_list_line sock (Line ''The job %i cannot be urged.'' [AInt jid]) s;
          p = (if jid = - 1 then (if active_jobs s = [] then None else Some (last (active_jobs s)))
               else findjob jid s)
      in if p = None \<or> active_jobs s = [] then nok
         else case findjob_idx jid s of None \<Rightarrow> nok
         | Some i \<Rightarrow>
             emit (Send sock URGENT_OK)
               (emit (Db (Movetop jid))
                 (s\<lparr>active_jobs := insert_nth 0 (active_jobs s ! i) (remove_nth i (active_jobs s))\<rparr>)))"

definition s_swap_jobs :: "int \<Rightarrow> int \<Rightarrow> int \<Rightarrow> srv \<Rightarrow> srv" where
  "s_swap_jobs sock jid1 jid2 s =
     (case (findjob_idx jid1 s, findjob_idx jid2 s) of
        (Some i, Some j) \<Rightarrow>
          emit (Send sock SWAP_JOBS_OK)
            (emit (Db (Swap jid1 jid2))
              (s\<lparr>active_jobs := (active_jobs s)[i := active_jobs s ! j, j := active_jobs s ! i]\<rparr>))
      | _ \<Rightarrow> send_list_line sock
               (Line ''The jobs %i and %i cannot be swapped.'' [AInt jid1, AInt jid2]) s)"

definition s_sort_jobs :: "srv \<Rightarrow> srv" where
  "s_sort_jobs s =
     s\<lparr>active_jobs := filter (\<lambda>p. state p = RUNNING) (active_jobs s)
                        @ filter (\<lambda>p. state p \<noteq> RUNNING) (active_jobs s)\<rparr>"

section \<open>Small requests\<close>

definition s_add_wtime :: "int \<Rightarrow> int \<Rightarrow> int \<Rightarrow> srv \<Rightarrow> srv" where
  "s_add_wtime sock jid add_wtime s =
     (if jid = 0
      then send_list_line sock (Line ''Error: job ID is not specified. Use --job [jobid] or -J [jobid].'' []) s
      else case findjob_idx jid s of
        None \<Rightarrow> send_list_line sock (Line ''cannot find Job by id: %d'' [AInt jid]) s
      | Some i \<Rightarrow>
          (let p = active_jobs s ! i; abs_wtime = i64abs (wall_time p) in
           if add_wtime > 0 \<and> abs_wtime > INT64_MAX - add_wtime
           then send_list_line sock
                  (Line ''Error: [%d], wall-time overflow after adding %.3f%c'' [AInt jid, AInt abs_wtime]) s
           else
             (let new_wtime = abs_wtime + add_wtime in
              if new_wtime \<le> 0
              then send_list_line sock
                     (Line ''Error: [%d], negative wall-time after change %.3f%c => %.3f%c''
                        [AInt jid, AInt (i64abs (wall_time p)), AInt (i64abs new_wtime)]) s
              else
                (let p' = p\<lparr>wall_time := (if wall_time p < 0 then - new_wtime else new_wtime)\<rparr>
                 in send_list_line sock
                      (Line ''Set [%d] wall-time as %.3f %c'' [AInt jid, AInt (i64abs (wall_time p'))])
                      (insert_or_replace_DB p' Jobs (set_active i p' s))))))"

text \<open>Positions 0 of the user table is root, which sees every job.\<close>

definition sees :: "nat option \<Rightarrow> job \<Rightarrow> bool" where
  "sees u p = (u = Some 0 \<or> user p = u)"

definition s_count_running_jobs :: "int \<Rightarrow> nat option \<Rightarrow> srv \<Rightarrow> srv" where
  "s_count_running_jobs sock u s =
     emit (Send sock (COUNT_RUNNING
       (int (length (filter (\<lambda>p. state p = RUNNING \<and> sees u p) (active_jobs s)))))) s"

definition s_kill_all_jobs :: "int \<Rightarrow> nat option \<Rightarrow> srv \<Rightarrow> srv" where
  "s_kill_all_jobs sock u s =
     foldl (\<lambda>s p. if state p = RUNNING \<and> sees u p then emit (Send sock (RAW_PID (pid p))) s else s)
       (s_count_running_jobs sock u s) (active_jobs s)"

definition s_set_max_slots :: "int \<Rightarrow> int \<Rightarrow> srv \<Rightarrow> srv" where
  "s_set_max_slots sock n s =
     (let s1 = (if n > 0 then s\<lparr>max_slots := n\<rparr> else s)
      in if sock > 0
         then send_list_line sock (Line ''Reset the number of slots: %d'' [AInt (max_slots s1)]) s1
         else s1)"

definition s_get_max_slots :: "int \<Rightarrow> srv \<Rightarrow> srv" where
  "s_get_max_slots sock s = emit (Send sock (GET_MAX_SLOTS_OK (max_slots s))) s"

definition s_send_last_id :: "int \<Rightarrow> srv \<Rightarrow> srv" where
  "s_send_last_id sock s = emit (Send sock (LAST_ID (jobids s - 1))) s"

definition s_send_newjob_ok :: "int \<Rightarrow> int \<Rightarrow> srv \<Rightarrow> srv" where
  "s_send_newjob_ok sock jid s = emit (Send sock (NEWJOB_OK jid)) s"

definition s_send_runjob :: "int \<Rightarrow> int \<Rightarrow> srv \<Rightarrow> srv res" where
  "s_send_runjob sock jid s =
     (case findjob jid s of
        None \<Rightarrow> Inl (Error_exit ''Job %i was expected to run'')
      | Some p \<Rightarrow> Inr (emit (Send sock (RUNJOB jid (dependency_errorlevel p))) s))"

definition add_notify_errorlevel_to :: "job \<Rightarrow> int \<Rightarrow> job" where
  "add_notify_errorlevel_to p jid = p\<lparr>notify_errorlevel_to := notify_errorlevel_to p @ [jid]\<rparr>"

definition s_set_jobids :: "int \<Rightarrow> srv \<Rightarrow> srv" where
  "s_set_jobids i s = emit (Db (Set_jobids i)) (s\<lparr>jobids := i\<rparr>)"

text \<open>\<open>is_descendant_pid\<close>: \<open>children\<close> is \<open>/proc\<close>'s tree; the depth bound is the number of processes.\<close>

fun is_descendant_pid :: "nat \<Rightarrow> (int \<Rightarrow> int list) \<Rightarrow> int \<Rightarrow> int \<Rightarrow> bool" where
  "is_descendant_pid 0 ch parent target = False"
| "is_descendant_pid (Suc d) ch parent target =
     list_ex (\<lambda>c. c = target \<or> is_descendant_pid d ch c target) (ch parent)"

definition s_find_pid :: "nat \<Rightarrow> int \<Rightarrow> bool \<Rightarrow> srv \<Rightarrow> int" where
  "s_find_pid depth target deep s =
     (if target \<le> 0 then - 1
      else case find (\<lambda>p. (state p = RUNNING \<or> state p = PAUSE) \<and> pid p > 0
                   \<and> (pid p = target \<or> deep \<and> is_descendant_pid depth (children (world s)) (pid p) target))
             (active_jobs s) of
        None \<Rightarrow> - 1 | Some p \<Rightarrow> jobid p)"

end
