(* ===== verification/Notify.thy ===== *)
theory Notify
  imports Job_Queue
begin

text \<open>
  The waiting list of \<open>notify.c\<close>: clients that asked to be told when a job ends. The linked
  list is a list of (socket, job id) pairs in the same order. \<open>s_remove_job\<close> of \<open>jobs.c\<close>,
  which answers the waiters of the job it removes, is here too.
\<close>

definition send_waitjob_ok :: "int \<Rightarrow> int \<Rightarrow> srv \<Rightarrow> srv" where
  "send_waitjob_ok sock lev s = emit (Send sock (WAITJOB_OK lev)) s"

definition in_notify_list :: "int \<Rightarrow> srv \<Rightarrow> bool" where
  "in_notify_list jid s = list_ex (\<lambda>n. snd n = jid) (first_notify s)"

definition add_to_notify_list :: "int \<Rightarrow> int \<Rightarrow> srv \<Rightarrow> srv" where
  "add_to_notify_list sock jid s = s\<lparr>first_notify := first_notify s @ [(sock, jid)]\<rparr>"

text \<open>Removes the first entry of the socket, whatever job it waits for.\<close>

definition s_remove_notification :: "int \<Rightarrow> srv \<Rightarrow> srv" where
  "s_remove_notification sock s =
     (case find_idx fst sock (first_notify s) of None \<Rightarrow> s
      | Some i \<Rightarrow> s\<lparr>first_notify := remove_nth i (first_notify s)\<rparr>)"

text \<open>
  The loop of \<open>check_notify_list\<close> over the entries as they were when it started: the
  entry removed in a turn is the current one or an earlier one, never one still to come.
\<close>

fun notify_loop :: "int \<Rightarrow> (int \<times> int) list \<Rightarrow> srv \<Rightarrow> srv res" where
  "notify_loop jid [] s = Inr s"
| "notify_loop jid (n # ns) s =
     (if snd n = jid
      then (case get_job jid s of None \<Rightarrow> Inl Null_deref
            | Some j \<Rightarrow>
                if state j = FINISHED \<or> state j = SKIPPED
                then (let s1 = s_remove_notification (fst n)
                                 (send_waitjob_ok (fst n) (errorlevel (result j)) s)
                      in if \<not> in_notify_list jid s1 \<and> should_keep_finished j = 0
                         then rbind (destroy_finished_job (jobid j) s1) (notify_loop jid ns)
                         else notify_loop jid ns s1)
                else notify_loop jid ns s)
      else notify_loop jid ns s)"

definition check_notify_list :: "int \<Rightarrow> srv \<Rightarrow> srv res" where
  "check_notify_list jid s = notify_loop jid (first_notify s) s"

definition wait_for :: "int \<Rightarrow> int \<Rightarrow> job option \<Rightarrow> srv \<Rightarrow> srv" where
  "wait_for sock jid p s =
     (case p of
        None \<Rightarrow> send_list_line sock (Line ''The job %i cannot be waited.'' [AInt jid]) s
      | Some j \<Rightarrow>
          if state j = FINISHED \<or> state j = SKIPPED
          then send_waitjob_ok sock (errorlevel (result j)) s
          else add_to_notify_list sock (jobid j) s)"

definition s_wait_job :: "int \<Rightarrow> int \<Rightarrow> srv \<Rightarrow> srv" where
  "s_wait_job sock jid s = wait_for sock jid (if jid = - 1 then last_job s else get_job jid s) s"

text \<open>
  The job \<open>-1\<close> stands for in \<open>s_wait_running_job\<close>, \<open>s_send_output\<close> and \<open>s_job_info\<close>: the
  first of the queue while something runs, else the last finished one; \<open>Inr None\<close> is the
  answer \<open>No jobs.\<close>
\<close>

definition running_or_last :: "srv \<Rightarrow> job option res" where
  "running_or_last s =
     (if busy_slots s > 0
      then (if active_jobs s = [] then Inl (Error_exit ''Internal state WAITING, but no active job.'')
            else Inr (Some (hd (active_jobs s))))
      else if finished_jobs s = [] then Inr None else Inr (Some (last (finished_jobs s))))"

definition s_wait_running_job :: "int \<Rightarrow> int \<Rightarrow> srv \<Rightarrow> srv res" where
  "s_wait_running_job sock jid s =
     (if jid = - 1
      then rbind (running_or_last s) (\<lambda>p.
             if p = None then Inr (send_list_line sock (Line ''No jobs.'' []) s)
             else Inr (wait_for sock jid p s))
      else Inr (wait_for sock jid (get_job jid s) s))"

section \<open>Removing a job on request\<close>

definition s_send_removejob_nok :: "int \<Rightarrow> line \<Rightarrow> srv \<Rightarrow> srv" where
  "s_send_removejob_nok sock l s = emit (Send sock (REMOVEJOB_NOK l)) s"

text \<open>Which vector and which position the request designates.\<close>

datatype place = In_active nat | In_finished nat

definition remove_target :: "int \<Rightarrow> srv \<Rightarrow> place option" where
  "remove_target jid s =
     (if jid = - 1
      then (if active_jobs s \<noteq> [] then Some (In_active (length (active_jobs s) - 1))
            else if finished_jobs s \<noteq> [] then Some (In_finished (length (finished_jobs s) - 1))
            else None)
      else (case findjob_idx jid s of Some i \<Rightarrow> Some (In_active i)
            | None \<Rightarrow> map_option In_finished (find_finished_idx jid s)))"

definition job_at :: "place \<Rightarrow> srv \<Rightarrow> job" where
  "job_at pl s = (case pl of In_active i \<Rightarrow> active_jobs s ! i | In_finished i \<Rightarrow> finished_jobs s ! i)"

definition set_job_at :: "place \<Rightarrow> job \<Rightarrow> srv \<Rightarrow> srv" where
  "set_job_at pl p s =
     (case pl of In_active i \<Rightarrow> set_active i p s
      | In_finished i \<Rightarrow> s\<lparr>finished_jobs := (finished_jobs s)[i := p]\<rparr>)"

text \<open>
  The refusals of \<open>s_remove_job\<close>. The name of the owner is printed for a job that runs, so a
  job without one faults there.
\<close>

definition remove_refusal :: "int \<Rightarrow> nat option \<Rightarrow> srv \<Rightarrow> (line option) res" where
  "remove_refusal jid client s =
     (case remove_target jid s of
        None \<Rightarrow> Inr (Some (if jid = - 1 then Line ''The last job cannot be removed.'' []
                           else Line ''The job %i is not in queue.'' [AInt jid]))
      | Some pl \<Rightarrow>
          (let p = job_at pl s in
           if client \<noteq> Some 0 \<and> user p \<noteq> client
           then Inr (Some (if jid = - 1 then Line ''The last job cannot be removed.'' []
                           else Line ''The job %i is not in queue.'' [AInt jid]))
           else if state p = RUNNING \<or> state p = PAUSE
           then (if jid = - 1 then Inr (Some (Line ''Running job of last job is removed.'' []))
                 else rbind (the_user (user p) s) (\<lambda>u. Inr (Some
                        (Line ''Running job [%i] PID: %d by `%s` is removed.''
                           [AInt jid, AInt (pid p), AStr (uname u)]))))
           else if state p = ABNORMAL
           then (if jid = - 1 then Inr (Some (Line ''Last job is abnormal.'' []))
                 else rbind (the_user (user p) s) (\<lambda>u. Inr (Some
                        (Line ''Abnormal job [%i] PID: %d by `%s` (use ts -k to kill).''
                           [AInt jid, AInt (pid p), AStr (uname u)]))))
           else Inr None))"

text \<open>What happens to a removed job of the queue: one that has a process is kept as finished.\<close>

definition retire_removed :: "job \<Rightarrow> srv \<Rightarrow> srv res" where
  "retire_removed p s =
     (if pid p \<noteq> 0
      then
        (let i1 = (if pause_time (info p) \<noteq> 0
                   then (info p)\<lparr>pause_duration := pause_duration (info p)
                           + (get_monotonic_sec s - pause_time (info p)), pause_time := 0\<rparr>
                   else info p);
             p1 = p\<lparr>info := pinfo_set_end_time i1 s\<rparr>
         in rbind (free_cores p1 s) (\<lambda>(p2, s2).
            rbind (detach_cpus p2 (cgroups_clean_job p2 s2)) (\<lambda>(p3, s3).
            rbind (cpu_bind_defrag_start s3) (new_finished_job p3))))
      else Inr s)"

text \<open>
  The removal itself, once it is allowed: the dependants and the waiters are told, then the
  job leaves its vector. A finished job that its last waiter already destroyed is a
  dangling pointer.
\<close>

definition drop_at :: "place \<Rightarrow> int \<Rightarrow> nat \<Rightarrow> srv \<Rightarrow> srv res" where
  "drop_at pl jid n s =
     (case pl of
        In_active i \<Rightarrow> retire_removed (active_jobs s ! i) (remove_active i s)
      | In_finished i \<Rightarrow>
          if length (finished_jobs s) = n
          then Inr (delete_DB jid Finished (s\<lparr>finished_jobs := remove_nth i (finished_jobs s)\<rparr>))
          else Inl Null_deref)"

definition remove_at :: "place \<Rightarrow> srv \<Rightarrow> srv res" where
  "remove_at pl s =
     (let p = (job_at pl s)\<lparr>state := FINISHED, result := (result (job_at pl s))\<lparr>errorlevel := - 1\<rparr>\<rparr>;
          s1 = notify_errorlevel p (set_job_at pl p (delete_DB (jobid p) Jobs s))
      in rbind (check_notify_list (jobid p) s1) (drop_at pl (jobid p) (length (finished_jobs s1))))"

text \<open>
  The result carries the job id written back through the pointer, \<open>None\<close> for the return
  value 0.
\<close>

definition s_remove_job :: "int \<Rightarrow> int \<Rightarrow> nat option \<Rightarrow> srv \<Rightarrow> (int option \<times> srv) res" where
  "s_remove_job sock jid client s =
     (if client = None
      then Inr (None, s_send_removejob_nok sock (Line ''invalid user in job removal.'' []) s)
      else rbind (remove_refusal jid client s) (\<lambda>r. case r of
        Some l \<Rightarrow> Inr (None, s_send_removejob_nok sock l s)
      | None \<Rightarrow>
          (case remove_target jid s of None \<Rightarrow> Inl Null_deref
           | Some pl \<Rightarrow> rbind (remove_at pl s)
               (\<lambda>s1. Inr (Some (jobid (job_at pl s)), emit (Send sock REMOVEJOB_OK) s1)))))"

end
