(* ===== verification/Scheduler.thy ===== *)
theory Scheduler
  imports Notify
begin

text \<open>
  The dispatcher of \<open>jobs.c\<close>: marking a job as running, waking held clients, the
  round-robin loop \<open>next_run_job\<close>, the periodic recount \<open>s_update_slots_usage\<close> with its
  time-out and dead-process scans, and the other periodic checks.
\<close>

section \<open>Starting one job\<close>

definition mark_running_body :: "job \<Rightarrow> srv \<Rightarrow> (job \<times> srv) res" where
  "mark_running_body p s =
     (let p1 = (if output_filename p = None
                then p\<lparr>output_filename := stdout_link (world s) (pid p)\<rparr> else p)
      in if is_sleep p1 s = 1 then Inr (p1\<lparr>state := PAUSE\<rparr>, s)
         else rbind (config_running p1 s) (\<lambda>(err, p2, s2).
                if err then Inl (Error_exit ''Err. in s_mark_job_running()'') else Inr (p2, s2)))"

definition s_mark_job_running :: "int \<Rightarrow> srv \<Rightarrow> srv res" where
  "s_mark_job_running jid s =
     (case findjob_idx jid s of
        None \<Rightarrow> Inl (Error_exit ''Cannot mark the jobid %i RUNNING.'')
      | Some i \<Rightarrow> on_active i mark_running_body s)"

text \<open>The answer of the runner: it has a process now.\<close>

definition runjob_ok_body :: "string option \<Rightarrow> int \<Rightarrow> job \<Rightarrow> srv \<Rightarrow> (job \<times> srv) res" where
  "runjob_ok_body oname pd p s =
     (if state p = PAUSE then Inr (p, s)
      else if state p \<noteq> RUNNING then Inl (Error_exit ''Job %i not running, but %i on runjob_ok'')
      else
        rbind (if TS_CPU_BIND (world s) \<and> cpu_bind_enabled (cpu s) \<and> no_cpu_binding p = 0
                  \<and> num_allocated p > 0
               then attach_cpus (p\<lparr>pid := pd\<rparr>) s else Inr (p\<lparr>pid := pd\<rparr>, s))
          (\<lambda>(p1, s1).
             let s2 = cgroups_create_job p1 s1;
                 p2 = (case oname of None \<Rightarrow> p1
                       | Some f \<Rightarrow> if f = '''' then p1 else p1\<lparr>output_filename := Some f\<rparr>);
                 p3 = p2\<lparr>info := pinfo_set_start_time_check (info p2) s2\<rparr>
             in if pd > 0
                then Inr (p3, insert_or_replace_DB p3 Jobs (emit (Write_log (jobid p3)) s2))
                else Inr (p3, s2)))"

definition s_process_runjob_ok :: "int \<Rightarrow> string option \<Rightarrow> int \<Rightarrow> srv \<Rightarrow> srv res" where
  "s_process_runjob_ok jid oname pd s =
     (case findjob_idx jid s of
        None \<Rightarrow> Inl (Error_exit ''Job %i already run not found on runjob_ok'')
      | Some i \<Rightarrow> on_active i (runjob_ok_body oname pd) s)"

section \<open>Held clients\<close>

definition findjob_holding_client :: "srv \<Rightarrow> nat option" where
  "findjob_holding_client s = find_idx (\<lambda>p. state p = HOLDING_CLIENT) True (active_jobs s)"

definition wake_hold_client :: "srv \<Rightarrow> int option \<times> srv" where
  "wake_hold_client s =
     (case findjob_holding_client s of None \<Rightarrow> (None, s)
      | Some i \<Rightarrow> (Some (jobid (active_jobs s ! i)), set_active i ((active_jobs s ! i)\<lparr>state := QUEUED\<rparr>) s))"

definition held :: "srv \<Rightarrow> nat" where
  "held s = length (filter (\<lambda>p. state p = HOLDING_CLIENT) (active_jobs s))"

function wake_all_held_clients :: "srv \<Rightarrow> srv" where
  "wake_all_held_clients s =
     (case wake_hold_client s of
        (None, s') \<Rightarrow> s'
      | (Some jid, s') \<Rightarrow>
          wake_all_held_clients
            (case findjob jid s' of None \<Rightarrow> s'
             | Some p \<Rightarrow> s_send_newjob_ok (client_socket p) jid s'))"
  by pat_completeness auto

lemma held_set_active:
  assumes "i < length (active_jobs s)"
  shows "held (set_active i p s) + (if state (active_jobs s ! i) = HOLDING_CLIENT then 1 else 0)
    = held s + (if state p = HOLDING_CLIENT then 1 else 0)"
proof -
  have "active_jobs s = take i (active_jobs s) @ active_jobs s ! i # drop (Suc i) (active_jobs s)"
    using assms by (rule id_take_nth_drop)
  then have "held s = length (filter (\<lambda>p. state p = HOLDING_CLIENT)
      (take i (active_jobs s) @ active_jobs s ! i # drop (Suc i) (active_jobs s)))"
    by (simp add: held_def)
  then show ?thesis
    using assms by (simp add: held_def set_active_def upd_conv_take_nth_drop)
qed

lemma wake_hold_client_held:
  assumes "wake_hold_client s = (Some jid, s')"
  shows "held s' < held s"
proof -
  obtain i where i: "find_idx (\<lambda>p. state p = HOLDING_CLIENT) True (active_jobs s) = Some i"
    and s': "s' = set_active i ((active_jobs s ! i)\<lparr>state := QUEUED\<rparr>) s"
    using assms by (auto simp: wake_hold_client_def findjob_holding_client_def split: option.splits)
  from i have "i < length (active_jobs s)" "state (active_jobs s ! i) = HOLDING_CLIENT"
    using find_idx_SomeD [OF i] by auto
  then show ?thesis using held_set_active [of i s "(active_jobs s ! i)\<lparr>state := QUEUED\<rparr>"] s' by simp
qed

lemma held_emit [simp]: "held (emit ev s) = held s"
  by (simp add: held_def emit_def)

termination wake_all_held_clients
  by (relation "measure held")
    (auto dest!: wake_hold_client_held [OF sym] simp: s_send_newjob_ok_def split: option.splits)

declare wake_all_held_clients.simps [simp del]

section \<open>The dispatcher\<close>

definition deps_ready :: "job \<Rightarrow> srv \<Rightarrow> bool" where
  "deps_ready p s = list_all (\<lambda>d. case get_job d s of None \<Rightarrow> True
     | Some dep \<Rightarrow> \<not> (state dep = QUEUED \<or> state dep = RUNNING)) (depend_on p)"

definition free_slots :: "srv \<Rightarrow> int" where
  "free_slots s = max_slots s - busy_slots s"

text \<open>The two capacity tests of a dispatch: the server's free slots and the user's.\<close>

definition fits :: "nat \<Rightarrow> job \<Rightarrow> srv \<Rightarrow> bool" where
  "fits u p s = (num_slots p \<le> free_slots s
     \<and> num_slots p \<le> umax_slots (users_vec s ! u) - busy (users_vec s ! u))"

definition dispatchable :: "nat \<Rightarrow> srv \<Rightarrow> nat \<Rightarrow> bool" where
  "dispatchable u s j =
     (let p = active_jobs s ! j in
      user p = Some u \<and>
      (state p = QUEUED \<and> deps_ready p s
         \<and> \<not> (schedule_time p > 0 \<and> get_monotonic_sec s < schedule_time p)
         \<and> client_socket p > 0 \<and> fits u p s
       \<or> state p = PAUSE \<and> wall_time p < 0
         \<and> i64abs (wall_time p) > cpu_time (world s) (pid p) \<and> fits u p s))"

definition pick_job :: "nat \<Rightarrow> srv \<Rightarrow> nat option" where
  "pick_job u s = find (dispatchable u s) [0..<length (active_jobs s)]"

definition dispatch :: "nat \<Rightarrow> nat \<Rightarrow> srv \<Rightarrow> srv res" where
  "dispatch u j s =
     (let p = active_jobs s ! j; sock = client_socket p; jid = jobid p in
      rbind (if state p = QUEUED
             then rbind (upd_user (Some u) (\<lambda>x. x\<lparr>queue := queue x - 1\<rparr>) s) (s_mark_job_running jid)
             else on_active j (\<lambda>p s. rbind (config_running p s) (\<lambda>(err, p', s'). Inr (p', s'))) s)
        (\<lambda>s1. rbind (s_send_runjob sock jid s1) (\<lambda>s2.
                Inr (s2\<lparr>last_uid := (u + 1) mod length (users_vec s2)\<rparr>))))"

text \<open>One pass of the \<open>for\<close> loop over the users; \<open>last_uid\<close> may move during the pass.\<close>

fun round :: "nat list \<Rightarrow> int \<Rightarrow> srv \<Rightarrow> (int \<times> srv) res" where
  "round [] d s = Inr (d, s)"
| "round (i # is) d s =
     (let u = (last_uid s + i) mod length (users_vec s) in
      if queue (users_vec s ! u) = 0 then round is d s
      else if free_slots s \<le> 0 then Inr (d, s)
      else case pick_job u s of
        None \<Rightarrow> round is d s
      | Some j \<Rightarrow> rbind (dispatch u j s) (round is (d + 1)))"

fun run_loop :: "nat \<Rightarrow> int \<Rightarrow> srv \<Rightarrow> (int \<times> srv) res" where
  "run_loop fuel d s =
     (if active_jobs s = [] then Inr (d, s)
      else rbind (round [0..<length (users_vec s)] 0 s) (\<lambda>(k, s1).
        if k = 0 then Inr (d, s1)
        else case fuel of 0 \<Rightarrow> Inl Out_of_fuel
        | Suc f \<Rightarrow> run_loop f (d + k) (wake_all_held_clients s1)))"

declare run_loop.simps [simp del]

text \<open>
  How many dispatches are possible at most: a held job can become queued, a queued one can
  be put to sleep and dispatched once more, a job waiting after a time-out once.
\<close>

definition job_weight :: "job \<Rightarrow> nat" where
  "job_weight p =
     (case state p of HOLDING_CLIENT \<Rightarrow> 3 | QUEUED \<Rightarrow> 2
      | PAUSE \<Rightarrow> (if wall_time p < 0 then 1 else 0) | _ \<Rightarrow> 0)"

definition dispatch_bound :: "srv \<Rightarrow> nat" where
  "dispatch_bound s = sum_list (map job_weight (active_jobs s))"

definition next_run_job :: "srv \<Rightarrow> (int \<times> srv) res" where
  "next_run_job s = run_loop (dispatch_bound s) 0 s"

section \<open>Time-outs and dead processes\<close>

definition timeout_step :: "nat \<Rightarrow> job list \<times> srv \<Rightarrow> (job list \<times> srv) res" where
  "timeout_step i ts =
     (case ts of (timed_out, s) \<Rightarrow>
        if i < length (active_jobs s)
        then (let p = active_jobs s ! i in
              if state p = RUNNING
              then rbind (check_timeout p s) (\<lambda>(late, p', s').
                     if late then Inr (timed_out @ [p'], remove_active i s')
                     else Inr (timed_out, set_active i p' s'))
              else Inr (timed_out, s))
        else Inl Null_deref)"

definition requeue_timed_out :: "job list \<Rightarrow> srv \<Rightarrow> srv" where
  "requeue_timed_out ps s = foldl (\<lambda>s p. emit (Db (Movebottom (jobid p))) (push_active p s)) s ps"

definition s_check_timeout :: "srv \<Rightarrow> (bool \<times> srv) res" where
  "s_check_timeout s =
     rbind (rfold timeout_step (rev [0..<length (active_jobs s)]) ([], s))
       (\<lambda>(timed_out, s'). Inr (timed_out \<noteq> [], requeue_timed_out timed_out s'))"

definition killed_result :: "int \<Rightarrow> result_t" where
  "killed_result real = default_result\<lparr>errorlevel := - 1, died_by_signal := 1, signal := SIGKILL,
     real_sec := real\<rparr>"

definition reap_step :: "nat \<Rightarrow> srv \<Rightarrow> srv res" where
  "reap_step i s =
     (if i < length (active_jobs s)
      then (let p = active_jobs s ! i in
            if (state p = RUNNING \<or> state p = PAUSE \<or> state p = ABNORMAL)
               \<and> pid p > 0 \<and> s_check_running_pid (pid p) s = 0
            then rbind (job_finished (killed_result (get_work_time_by_job p s)) (jobid p) s)
                   (check_notify_list (jobid p))
            else Inr s)
      else Inl Null_deref)"

section \<open>Recount\<close>

definition zero_user :: "user_t \<Rightarrow> user_t" where
  "zero_user u = u\<lparr>busy := 0, njobs := 0, queue := 0\<rparr>"

definition count_job :: "job \<Rightarrow> int \<times> srv \<Rightarrow> (int \<times> srv) res" where
  "count_job p us =
     (case us of (usage, s) \<Rightarrow>
        if state p = RUNNING
        then rbind (upd_user (user p) (\<lambda>u. u\<lparr>busy := busy u + num_slots p, njobs := njobs u + 1\<rparr>) s)
               (\<lambda>s'. Inr (usage + num_slots p, s'))
        else rbind (upd_user (user p) (\<lambda>u. u\<lparr>queue := queue u + 1\<rparr>) s) (\<lambda>s'. Inr (usage, s')))"

definition recount :: "srv \<Rightarrow> (int \<times> srv) res" where
  "recount s =
     rbind (rfold count_job (active_jobs s) (0, s\<lparr>users_vec := map zero_user (users_vec s)\<rparr>))
       (\<lambda>(usage, s'). Inr (usage, if usage \<noteq> busy_slots s' then s'\<lparr>busy_slots := usage\<rparr> else s'))"

definition s_update_slots_usage :: "srv \<Rightarrow> (int \<times> srv) res" where
  "s_update_slots_usage s =
     rbind (s_check_timeout s) (\<lambda>(timeout_flag, s1).
     rbind (rfold reap_step (rev [0..<length (active_jobs s1)]) s1) (\<lambda>s2.
     rbind (recount s2) (\<lambda>(usage, s3).
     rbind (if timeout_flag then next_run_job s3 else Inr (0, s3)) (\<lambda>(d, s4). Inr (usage, s4)))))"

section \<open>Other periodic checks\<close>

definition count_child_pids :: "int \<Rightarrow> srv \<Rightarrow> int" where
  "count_child_pids pd s = int (length (children (world s) pd))"

definition health_due :: "job \<Rightarrow> srv \<Rightarrow> bool" where
  "health_due p s = (state p = RUNNING \<and> health_state p = 0 \<and> pid p > 0
     \<and> get_monotonic_sec s - start_time (info p) \<ge> 300)"

definition looks_abnormal :: "job \<Rightarrow> srv \<Rightarrow> bool" where
  "looks_abnormal p s =
     ((case output_filename p of None \<Rightarrow> False | Some f \<Rightarrow> f \<noteq> '''' \<and> empty_file (world s) f)
      \<and> count_child_pids (pid p) s = 0)"

definition health_step :: "nat \<Rightarrow> srv \<Rightarrow> srv res" where
  "health_step i s =
     (if i < length (active_jobs s)
      then (let p = active_jobs s ! i in
            if \<not> health_due p s then Inr s
            else if looks_abnormal p s
            then rbind (on_active i (\<lambda>p s.
                          rbind (free_cores (p\<lparr>state := ABNORMAL\<rparr>) s) (\<lambda>(p1, s1). detach_cpus p1 s1)) s)
                   cpu_bind_defrag_start
            else Inr (set_active i (p\<lparr>health_state := 1\<rparr>) s))
      else Inl Null_deref)"

definition s_check_running_health :: "srv \<Rightarrow> srv res" where
  "s_check_running_health s = rfold health_step [0..<length (active_jobs s)] s"

definition s_check_holdon :: "srv \<Rightarrow> srv" where
  "s_check_holdon s =
     foldl (\<lambda>s p. if pid p \<noteq> 0 \<and> state p = PAUSE \<and> is_sleep p s = 0 then cgroups_freeze_job p s else s)
       s (active_jobs s)"

definition orphan_step :: "nat \<Rightarrow> srv \<Rightarrow> srv res" where
  "orphan_step i s =
     (if i < length (active_jobs s)
      then (let p = active_jobs s ! i in
            if state p = QUEUED \<and> client_socket p \<le> 0 then s_delete_job (jobid p) s else Inr s)
      else Inl Null_deref)"

definition s_cleanup_orphan_queued :: "srv \<Rightarrow> srv res" where
  "s_cleanup_orphan_queued s = rfold orphan_step (rev [0..<length (active_jobs s)]) s"

end
