(* ===== verification/Accounting.thy ===== *)
theory Accounting
  imports Scheduler
begin

text \<open>
  The slot accounting of the server. \<open>busy_slots\<close> and the \<open>busy\<close> and \<open>jobs\<close> counters of the
  users are kept up to date by hand in many places of \<open>jobs.c\<close>; this theory states what they
  must equal and shows it for the operations on one job. The flag of the invariant tells the
  exact form, in which the counters are the sums over the running jobs, from the form that
  holds after a restart as well, in which they are never smaller.
\<close>

section \<open>Weights\<close>

definition run_slots :: "job \<Rightarrow> int" where
  "run_slots p = (if state p = RUNNING then num_slots p else 0)"

definition user_slots :: "nat \<Rightarrow> job \<Rightarrow> int" where
  "user_slots u p = (if state p = RUNNING \<and> user p = Some u then num_slots p else 0)"

definition user_runs :: "nat \<Rightarrow> job \<Rightarrow> int" where
  "user_runs u p = (if state p = RUNNING \<and> user p = Some u then 1 else 0)"

lemmas weight_defs = run_slots_def user_slots_def user_runs_def

text \<open>\<open>at_least b x y\<close>: \<open>x\<close> is not smaller than \<open>y\<close>, and equal to it in the exact form.\<close>

definition at_least :: "bool \<Rightarrow> int \<Rightarrow> int \<Rightarrow> bool" where
  "at_least b x y \<longleftrightarrow> y \<le> x \<and> (b \<longrightarrow> x = y)"

lemma at_least_refl [simp]: "at_least b x x"
  by (simp add: at_least_def)

lemma at_least_add: "at_least b x y \<Longrightarrow> at_least b x' y' \<Longrightarrow> at_least b (x + x') (y + y')"
  by (auto simp: at_least_def)

lemma at_least_trans_diff:
  "at_least b (x' - x) (y' - y) \<Longrightarrow> at_least b (x'' - x') (y'' - y') \<Longrightarrow> at_least b (x'' - x) (y'' - y)"
  by (auto simp: at_least_def)

lemma at_least_shift: "at_least b x y \<Longrightarrow> at_least b (x' - x) (y' - y) \<Longrightarrow> at_least b x' y'"
  by (auto simp: at_least_def)

section \<open>The invariant\<close>

definition live :: "jobstate \<Rightarrow> bool" where
  "live st = (st \<in> {QUEUED, RUNNING, ABNORMAL, PAUSE, HOLDING_CLIENT, LOCKED})"

definition job_ok :: "bool \<Rightarrow> nat \<Rightarrow> job \<Rightarrow> bool" where
  "job_ok b n p \<longleftrightarrow> (\<exists>u < n. user p = Some u) \<and> 0 < num_slots p \<and> live (state p)
     \<and> (num_allocated p = 0 \<or> num_allocated p = num_slots p \<and> state p = RUNNING)
     \<and> (b \<and> state p = RUNNING \<longrightarrow> num_allocated p = num_slots p)"

definition acct :: "bool \<Rightarrow> srv \<Rightarrow> bool" where
  "acct b s \<longleftrightarrow> (\<forall>p \<in> set (active_jobs s). job_ok b (length (users_vec s)) p)
     \<and> at_least b (busy_slots s) (isum run_slots (active_jobs s))
     \<and> (\<forall>u < length (users_vec s).
          at_least b (busy (users_vec s ! u)) (isum (user_slots u) (active_jobs s))
        \<and> at_least b (njobs (users_vec s ! u)) (isum (user_runs u) (active_jobs s)))"

text \<open>
  Job ids: no two jobs of the queue share one, 0 is not one (it marks a free CPU in the
  owner table), and new ones come from above.
\<close>

definition ids_ok :: "srv \<Rightarrow> bool" where
  "ids_ok s \<longleftrightarrow> distinct (map jobid (active_jobs s))
     \<and> (\<forall>p \<in> set (active_jobs s). jobid p < jobids s \<and> jobid p \<noteq> 0) \<and> 0 < jobids s"

section \<open>What an operation on one job leaves alone\<close>

definition user_id :: "user_t \<Rightarrow> user_t" where
  "user_id u = u\<lparr>busy := 0, njobs := 0, queue := 0\<rparr>"

text \<open>The state without the counters, the CPU tables, the freezer and the trace.\<close>

definition core :: "srv \<Rightarrow> srv" where
  "core s = s\<lparr>users_vec := map user_id (users_vec s), busy_slots := 0, cpu := undefined,
              frozen := [], out := []\<rparr>"

lemma core_emit [simp]: "core (emit ev s) = core s"
  by (simp add: core_def emit_def)

lemma core_active_update: "core (s\<lparr>active_jobs := x\<rparr>) = (core s)\<lparr>active_jobs := x\<rparr>"
  by (simp add: core_def)

lemma core_fields:
  assumes "core s' = core s"
  shows "active_jobs s' = active_jobs s" "finished_jobs s' = finished_jobs s" "world s' = world s"
    "length (users_vec s') = length (users_vec s)" "jobids s' = jobids s" "max_slots s' = max_slots s"
    "first_notify s' = first_notify s" "client_cs s' = client_cs s" "last_uid s' = last_uid s"
proof -
  note a = arg_cong [OF assms]
  show "active_jobs s' = active_jobs s" using a [of active_jobs] by (simp add: core_def)
  show "finished_jobs s' = finished_jobs s" using a [of finished_jobs] by (simp add: core_def)
  show "world s' = world s" using a [of world] by (simp add: core_def)
  show "jobids s' = jobids s" using a [of jobids] by (simp add: core_def)
  show "max_slots s' = max_slots s" using a [of max_slots] by (simp add: core_def)
  show "first_notify s' = first_notify s" using a [of first_notify] by (simp add: core_def)
  show "client_cs s' = client_cs s" using a [of client_cs] by (simp add: core_def)
  show "last_uid s' = last_uid s" using a [of last_uid] by (simp add: core_def)
  have "length (users_vec (core s')) = length (users_vec (core s))" using assms by simp
  then show "length (users_vec s') = length (users_vec s)" by (simp add: core_def)
qed

lemma core_user:
  assumes "core s' = core s" "u < length (users_vec s)"
  shows "umax_slots (users_vec s' ! u) = umax_slots (users_vec s ! u)"
    "uid (users_vec s' ! u) = uid (users_vec s ! u)" "locked (users_vec s' ! u) = locked (users_vec s ! u)"
proof -
  have "users_vec (core s') ! u = users_vec (core s) ! u" using assms(1) by simp
  then have e: "user_id (users_vec s' ! u) = user_id (users_vec s ! u)"
    using assms core_fields(4) [OF assms(1)] by (simp add: core_def)
  show "umax_slots (users_vec s' ! u) = umax_slots (users_vec s ! u)"
    using arg_cong [OF e, of umax_slots] by (simp add: user_id_def)
  show "uid (users_vec s' ! u) = uid (users_vec s ! u)"
    using arg_cong [OF e, of uid] by (simp add: user_id_def)
  show "locked (users_vec s' ! u) = locked (users_vec s ! u)"
    using arg_cong [OF e, of locked] by (simp add: user_id_def)
qed

section \<open>Counter changes\<close>

text \<open>
  \<open>delta b p s p' s'\<close>: turning \<open>p\<close> into \<open>p'\<close> moved the counters by the difference of their
  weights; \<open>moves\<close> adds that nothing else of the job or the server that matters changed.
\<close>

definition delta :: "bool \<Rightarrow> job \<Rightarrow> srv \<Rightarrow> job \<Rightarrow> srv \<Rightarrow> bool" where
  "delta b p s p' s' \<longleftrightarrow>
     at_least b (busy_slots s' - busy_slots s) (run_slots p' - run_slots p)
   \<and> (\<forall>u < length (users_vec s).
        at_least b (busy (users_vec s' ! u) - busy (users_vec s ! u)) (user_slots u p' - user_slots u p)
      \<and> at_least b (njobs (users_vec s' ! u) - njobs (users_vec s ! u)) (user_runs u p' - user_runs u p))"

definition moves :: "bool \<Rightarrow> job \<Rightarrow> srv \<Rightarrow> job \<Rightarrow> srv \<Rightarrow> bool" where
  "moves b p s p' s' \<longleftrightarrow> core s' = core s \<and> jobid p' = jobid p \<and> user p' = user p
     \<and> num_slots p' = num_slots p \<and> delta b p s p' s'"

text \<open>No counter moves at all.\<close>

definition same_counters :: "srv \<Rightarrow> srv \<Rightarrow> bool" where
  "same_counters s s' \<longleftrightarrow> core s' = core s \<and> busy_slots s' = busy_slots s \<and> users_vec s' = users_vec s"

lemma same_counters_refl [simp]: "same_counters s s"
  by (simp add: same_counters_def)

lemma same_counters_trans: "same_counters s s1 \<Longrightarrow> same_counters s1 s2 \<Longrightarrow> same_counters s s2"
  by (simp add: same_counters_def)

lemma same_counters_emit [simp]: "same_counters s (emit ev s') = same_counters s s'"
  by (simp add: same_counters_def)

lemma moves_core: "moves b p s p' s' \<Longrightarrow> core s' = core s"
  by (simp only: moves_def)

lemmas moves_fields = core_fields [OF moves_core]

lemma moves_trans:
  assumes "moves b p s p1 s1" "moves b p1 s1 p2 s2"
  shows "moves b p s p2 s2"
proof -
  have n: "length (users_vec s1) = length (users_vec s)"
    using assms(1) core_fields(4) [of s1 s] by (simp only: moves_def)
  have d: "delta b p s p1 s1" "delta b p1 s1 p2 s2" using assms by (simp_all only: moves_def)
  have "delta b p s p2 s2"
    unfolding delta_def
  proof (intro conjI allI impI)
    show "at_least b (busy_slots s2 - busy_slots s) (run_slots p2 - run_slots p)"
      using d at_least_trans_diff unfolding delta_def by blast
  next
    fix u assume "u < length (users_vec s)"
    then show "at_least b (busy (users_vec s2 ! u) - busy (users_vec s ! u)) (user_slots u p2 - user_slots u p)"
      "at_least b (njobs (users_vec s2 ! u) - njobs (users_vec s ! u)) (user_runs u p2 - user_runs u p)"
      using d n at_least_trans_diff unfolding delta_def by metis+
  qed
  then show ?thesis using assms by (simp only: moves_def)
qed

lemma moves_same:
  assumes "same_counters s s'" "jobid p' = jobid p" "user p' = user p" "num_slots p' = num_slots p"
    "state p' = RUNNING \<longleftrightarrow> state p = RUNNING"
  shows "moves b p s p' s'"
  using assms by (simp add: moves_def delta_def same_counters_def weight_defs)

lemma moves_same_left:
  "same_counters s s1 \<Longrightarrow> moves b p s1 p' s' \<Longrightarrow> moves b p s p' s'"
  by (simp add: moves_def delta_def same_counters_def)

lemma moves_same_right:
  "moves b p s p' s1 \<Longrightarrow> same_counters s1 s' \<Longrightarrow> moves b p s p' s'"
  by (simp add: moves_def delta_def same_counters_def)

lemma moves_exact: "moves True p s p' s' \<Longrightarrow> moves b p s p' s'"
  by (auto simp: moves_def delta_def at_least_def)

lemma moves_job_cong:
  assumes "moves b p s p1 s'" "jobid p2 = jobid p1" "user p2 = user p1" "num_slots p2 = num_slots p1"
    "state p2 = RUNNING \<longleftrightarrow> state p1 = RUNNING"
  shows "moves b p s p2 s'"
proof -
  have "run_slots p2 = run_slots p1" "user_slots u p2 = user_slots u p1" "user_runs u p2 = user_runs u p1" for u
    using assms(2-5) by (simp_all add: weight_defs)
  then show ?thesis using assms by (simp add: moves_def delta_def)
qed

section \<open>Operations on one job\<close>

lemma freeze_same [simp]: "same_counters s (cgroups_freeze_job p s)"
  by (simp add: cgroups_freeze_job_def kill_cont_def Let_def same_counters_def core_def emit_def)

lemma thaw_same [simp]: "same_counters s (cgroups_thaw_job p s)"
  by (simp add: cgroups_thaw_job_def kill_cont_def Let_def same_counters_def core_def emit_def)

lemma clean_same [simp]: "same_counters s (cgroups_clean_job p s)"
  by (simp add: cgroups_clean_job_def same_counters_def core_def emit_def)

lemma create_same [simp]: "same_counters s (cgroups_create_job p s)"
  by (simp add: cgroups_create_job_def)

lemma set_cpu_same [simp]: "same_counters s (s\<lparr>cpu := c\<rparr>)"
  by (simp add: same_counters_def core_def)

text \<open>The fields of a job the accounting reads.\<close>

definition same_job :: "job \<Rightarrow> job \<Rightarrow> bool" where
  "same_job p p' \<longleftrightarrow> jobid p' = jobid p \<and> user p' = user p \<and> num_slots p' = num_slots p
     \<and> state p' = state p \<and> num_allocated p' = num_allocated p"

lemma same_job_refl [simp]: "same_job p p"
  by (simp add: same_job_def)

lemma same_job_trans: "same_job p p1 \<Longrightarrow> same_job p1 p2 \<Longrightarrow> same_job p p2"
  by (simp add: same_job_def)

lemma same_job_moves: "same_counters s s' \<Longrightarrow> same_job p p' \<Longrightarrow> moves b p s p' s'"
  by (rule moves_same) (simp_all add: same_job_def)

lemma same_job_ok: "same_job p p' \<Longrightarrow> job_ok b n p' = job_ok b n p"
  by (simp add: same_job_def job_ok_def)

lemma attach_cpus_same:
  assumes "attach_cpus p s = Inr (p', s')"
  shows "same_job p p'" "same_counters s s'"
proof -
  obtain h c1 where i: "cpu_bind_alloc_init (jobid p) (num_allocated p) (cpu s) = (h, c1)" by fastforce
  obtain c2 a where "cpu_bind_alloc_h h (num_allocated p) c1 = Inr c2" "alloc_at c2 h = Inr a"
    and r: "(if a_error a = 0 \<and> a_cpus a \<noteq> []
          then Inr (p\<lparr>cpu_alloc := Some h\<rparr>,
                    emit (Set_cpuset (jobid p) (pid p) (map int (a_cpus a))) (s\<lparr>cpu := c2\<rparr>))
          else rbind (cpu_bind_free h c2) (\<lambda>c3. Inr (p\<lparr>cpu_alloc := None\<rparr>, s\<lparr>cpu := c3\<rparr>))) = Inr (p', s')"
    using assms i by (auto simp: attach_cpus_def rbind_eq_Inr)
  from r show "same_job p p'" "same_counters s s'"
    by (auto simp: rbind_eq_Inr same_job_def split: if_splits)
qed

lemma detach_cpus_same:
  assumes "detach_cpus p s = Inr (p', s')"
  shows "same_job p p'" "same_counters s s'"
  using assms by (auto simp: detach_cpus_def rbind_eq_Inr same_job_def split: if_splits option.splits)

lemma pause_config_same:
  assumes "pause_job_config p s = (p', s')"
  shows "same_job p p'" "same_counters s s'"
  using assms
  by (auto simp: pause_job_config_def Let_def update_field_int64_def same_job_def split: if_splits)

lemma rerun_config_same:
  assumes "rerun_job_config p s = (p', s')"
  shows "same_job p p'" "same_counters s s'"
  using assms
  by (auto simp: rerun_job_config_def Let_def update_field_int64_def same_job_def split: if_splits)

lemma defrag_same:
  "cpu_bind_defrag_start s = Inr s' \<Longrightarrow> same_counters s s'"
  by (auto simp: cpu_bind_defrag_start_def rbind_eq_Inr split: if_splits prod.splits)

lemma upd_user_eq:
  "upd_user u f s = Inr s' \<longleftrightarrow>
     (\<exists>i. u = Some i \<and> i < length (users_vec s) \<and> s' = s\<lparr>users_vec := (users_vec s)[i := f (users_vec s ! i)]\<rparr>)"
  by (auto simp: upd_user_def split: option.splits if_splits)

lemma upd_user_core:
  assumes "upd_user u f s = Inr s'" "\<And>x. user_id (f x) = user_id x"
  shows "core s' = core s"
proof -
  obtain i where i: "i < length (users_vec s)" "s' = s\<lparr>users_vec := (users_vec s)[i := f (users_vec s ! i)]\<rparr>"
    using assms(1) by (auto simp: upd_user_eq)
  have "map user_id ((users_vec s)[i := f (users_vec s ! i)]) = map user_id (users_vec s)"
    using i(1) assms(2) by (simp add: map_update list_update_same_conv)
  then show ?thesis by (simp add: core_def i(2))
qed

text \<open>Giving the slots back: the job stops counting as running.\<close>

lemma free_cores_delta:
  assumes "free_cores p s = Inr (p1, s1)" "job_ok b (length (users_vec s)) p" "st \<noteq> RUNNING"
  shows "moves b p s (p1\<lparr>state := st\<rparr>) s1" "num_allocated p1 = 0" "state p1 = state p"
    "num_slots p1 = num_slots p" "user p1 = user p" "jobid p1 = jobid p"
proof -
  have "moves b p s (p1\<lparr>state := st\<rparr>) s1 \<and> num_allocated p1 = 0 \<and> state p1 = state p
    \<and> num_slots p1 = num_slots p \<and> user p1 = user p \<and> jobid p1 = jobid p"
  proof (cases "num_allocated p = 0")
    case True
    then show ?thesis
      using assms by (auto simp: free_cores_def moves_def delta_def at_least_def weight_defs job_ok_def)
  next
    case False
    then obtain s2 where s2: "upd_user (user p) (\<lambda>u. u\<lparr>busy := busy u - num_slots p, njobs := njobs u - 1\<rparr>) s = Inr s2"
      and p1: "p1 = p\<lparr>num_allocated := 0\<rparr>" "s1 = s2\<lparr>busy_slots := busy_slots s2 - num_slots p\<rparr>"
      using assms(1) by (auto simp: free_cores_def rbind_eq_Inr)
    have c: "core s1 = core s"
      using upd_user_core [OF s2] p1(2) by (simp add: user_id_def core_def)
    have run: "state p = RUNNING" using False assms(2) by (simp add: job_ok_def)
    then show ?thesis
      using s2 p1 c assms(3)
      by (auto simp: upd_user_eq moves_def delta_def weight_defs nth_list_update)
  qed
  then show "moves b p s (p1\<lparr>state := st\<rparr>) s1" "num_allocated p1 = 0" "state p1 = state p"
    "num_slots p1 = num_slots p" "user p1 = user p" "jobid p1 = jobid p" by simp_all
qed

lemma config_running_moves:
  assumes "config_running p s = Inr (err, p', s')" "job_ok b (length (users_vec s)) p"
  shows "moves True p s p' s' \<and> job_ok b (length (users_vec s)) p'
    \<and> (err \<longleftrightarrow> state p \<noteq> PAUSE \<and> state p \<noteq> QUEUED) \<and> (\<not> err \<longrightarrow> state p' = RUNNING)"
proof (cases "state p \<noteq> PAUSE \<and> state p \<noteq> QUEUED")
  case True
  then show ?thesis
    using assms by (auto simp: config_running_def intro!: moves_same)
next
  case False
  define s1 where "s1 = (if is_sleep p s = 1 then cgroups_thaw_job p s else s)"
  have same1: "same_counters s s1" by (simp add: s1_def)
  from assms(1) False obtain s2 where
    s2: "upd_user (user p) (\<lambda>u. u\<lparr>busy := busy u + num_slots p, njobs := njobs u + 1\<rparr>) s1 = Inr s2"
    and rest: "(case rerun_job_config (p\<lparr>num_allocated := num_slots p, state := RUNNING, wall_time := i64abs (wall_time p)\<rparr>)
        (update_field_int64 (jobid p) ''wall_time'' (i64abs (wall_time p)) (s2\<lparr>busy_slots := busy_slots s2 + num_slots p\<rparr>)) of
        (p2, s5) \<Rightarrow> if TS_CPU_BIND (world s) \<and> pid p2 \<noteq> 0 \<and> cpu_alloc p2 = None
                    \<and> cpu_bind_enabled (cpu s5) \<and> no_cpu_binding p2 = 0 \<and> num_allocated p2 > 0
                 then rbind (attach_cpus p2 s5) (\<lambda>(p3, s6). Inr (False, p3, s6))
                 else Inr (False, p2, s5)) = Inr (err, p', s')"
    by (simp add: config_running_def Let_def rbind_eq_Inr flip: s1_def) blast
  define p1 where "p1 = p\<lparr>num_allocated := num_slots p, state := RUNNING, wall_time := i64abs (wall_time p)\<rparr>"
  define s3 where "s3 = s2\<lparr>busy_slots := busy_slots s2 + num_slots p\<rparr>"
  have c: "core s3 = core s1"
    using upd_user_core [OF s2] by (simp add: s3_def user_id_def core_def)
  have not_run: "state p \<noteq> RUNNING" using False by auto
  have "moves True p s1 p1 s3"
    using s2 c not_run
    by (auto simp: s3_def upd_user_eq moves_def delta_def weight_defs nth_list_update p1_def)
  then have m: "moves True p s p1 s3" using same1 moves_same_left by blast
  obtain p2 s5 where r: "rerun_job_config p1 (update_field_int64 (jobid p) ''wall_time'' (i64abs (wall_time p)) s3) = (p2, s5)"
    by fastforce
  have r2: "same_job p1 p2" "same_counters s3 s5"
    using rerun_config_same [OF r] by (simp_all add: update_field_int64_def same_counters_def)
  have fin: "same_job p1 p' \<and> same_counters s3 s' \<and> \<not> err"
  proof (cases "attach_cpus p2 s5")
    case (Inl e)
    then show ?thesis using rest r r2 by (auto simp flip: p1_def s3_def split: if_splits)
  next
    case (Inr ps)
    obtain p3 s6 where ps: "ps = (p3, s6)" by fastforce
    then have "same_job p2 p3" "same_counters s5 s6" using attach_cpus_same Inr by auto
    then show ?thesis
      using rest r r2 Inr ps same_job_trans same_counters_trans
      by (auto simp flip: p1_def s3_def split: if_splits)
  qed
  then have "moves True p s p' s'"
    using m moves_same_right [of True p s p1 s3 s'] moves_job_cong [of True p s p1 s' p'] by (simp add: same_job_def)
  moreover have "job_ok b (length (users_vec s)) p1"
    using assms(2) by (simp add: p1_def job_ok_def live_def)
  ultimately show ?thesis
    using fin False same_job_ok [of p1 p'] by (auto simp: same_job_def p1_def)
qed

lemma safe_pause_job_moves:
  assumes "safe_pause_job p s = Inr (p', s')" "job_ok b (length (users_vec s)) p" "st \<noteq> RUNNING"
  shows "moves b p s (p'\<lparr>state := st\<rparr>) s' \<and> num_allocated p' = 0"
proof -
  obtain p1 s1 p2 s2 where f: "free_cores p (cgroups_freeze_job p s) = Inr (p1, s1)"
    and d: "detach_cpus p1 s1 = Inr (p2, s2)" and c: "pause_job_config p2 s2 = (p', s')"
    using assms(1) by (auto simp: safe_pause_job_def rbind_eq_Inr)
  have fr: "same_counters s (cgroups_freeze_job p s)" by simp
  then have n: "length (users_vec (cgroups_freeze_job p s)) = length (users_vec s)"
    by (simp add: same_counters_def)
  have j: "same_job p1 p'" "same_counters s1 s'"
    using detach_cpus_same [OF d] pause_config_same [OF c] same_job_trans same_counters_trans by blast+
  have "moves b p s (p1\<lparr>state := st\<rparr>) s1" "num_allocated p1 = 0"
    using free_cores_delta [OF f, of b st] assms(2,3) n moves_same_left [OF fr] by auto
  then show ?thesis
    using j moves_same_right [of b p s "p1\<lparr>state := st\<rparr>" s1 s']
      moves_job_cong [of b p s "p1\<lparr>state := st\<rparr>" s' "p'\<lparr>state := st\<rparr>"]
    by (simp add: same_job_def)
qed

text \<open>A job that is set aside has no slots any more.\<close>

lemma job_ok_parked:
  assumes "moves b p s p' s'" "job_ok b (length (users_vec s)) p" "num_allocated p' = 0"
    "live (state p')" "state p' \<noteq> RUNNING"
  shows "job_ok b (length (users_vec s)) p'"
  using assms by (auto simp: job_ok_def moves_def)

lemma s_relegate_job_moves:
  assumes "s_relegate_job p s = Inr (p', s')" "job_ok b (length (users_vec s)) p"
  shows "moves b p s p' s' \<and> job_ok b (length (users_vec s)) p' \<and> state p' = PAUSE \<and> wall_time p' < 0"
proof -
  obtain p1 s1 where r: "(if state p = RUNNING then safe_pause_job p s else Inr (p, s)) = Inr (p1, s1)"
    and p': "p' = p1\<lparr>wall_time := - i64abs (wall_time p1) - 86400, state := PAUSE\<rparr>"
      "s' = update_field_int64 (jobid p1) ''wall_time'' (- i64abs (wall_time p1) - 86400) s1"
    using assms(1) by (auto simp: s_relegate_job_def rbind_eq_Inr Let_def)
  have "moves b p s (p1\<lparr>state := PAUSE\<rparr>) s1 \<and> num_allocated p1 = 0"
  proof (cases "state p = RUNNING")
    case True
    then show ?thesis using r safe_pause_job_moves [OF _ assms(2), of p1 s1 PAUSE] by simp
  next
    case False
    then show ?thesis using r assms(2) by (auto simp: job_ok_def intro!: moves_same)
  qed
  moreover have "same_counters s1 s'" by (simp add: p' update_field_int64_def)
  ultimately have m: "moves b p s p' s'" "num_allocated p' = 0"
    using moves_same_right moves_job_cong [of b p s "p1\<lparr>state := PAUSE\<rparr>" s' p'] by (auto simp: p')
  moreover have "job_ok b (length (users_vec s)) p'"
    using job_ok_parked [OF m(1) assms(2) m(2)] by (simp add: p' live_def)
  ultimately show ?thesis by (simp add: p' i64abs_def)
qed

lemma check_timeout_moves:
  assumes "check_timeout p s = Inr (late, p', s')" "job_ok b (length (users_vec s)) p"
  shows "moves b p s p' s' \<and> job_ok b (length (users_vec s)) p'"
  using assms s_relegate_job_moves [OF _ assms(2), of p' s']
  by (auto simp: check_timeout_def Let_def rbind_eq_Inr split: if_splits intro!: moves_same)

lemma mark_running_moves:
  assumes "mark_running_body p s = Inr (p', s')" "job_ok b (length (users_vec s)) p" "state p = QUEUED"
  shows "moves True p s p' s' \<and> job_ok b (length (users_vec s)) p' \<and> (state p' = RUNNING \<or> state p' = PAUSE)"
proof -
  define p1 where "p1 = (if output_filename p = None
    then p\<lparr>output_filename := stdout_link (world s) (pid p)\<rparr> else p)"
  have p1: "same_job p p1" by (simp add: p1_def same_job_def)
  then have m1: "moves True p s p1 s" "job_ok b (length (users_vec s)) p1"
    using same_job_moves same_job_ok assms(2) by auto
  show ?thesis
  proof (cases "is_sleep p1 s = 1")
    case True
    then have eq: "p' = p1\<lparr>state := PAUSE\<rparr>" "s' = s"
      using assms(1) by (auto simp: mark_running_body_def Let_def simp flip: p1_def)
    have "moves True p s p' s'"
      using p1 assms(3) by (auto simp: eq same_job_def intro!: moves_same)
    then show ?thesis
      using job_ok_parked [OF moves_exact, of p s p' s' b] p1 assms(2,3)
      by (auto simp: eq live_def same_job_def job_ok_def)
  next
    case False
    then have "config_running p1 s = Inr (False, p', s')"
      using assms(1) by (auto simp: mark_running_body_def Let_def rbind_eq_Inr simp flip: p1_def split: if_splits)
    from config_running_moves [OF this m1(2)] show ?thesis
      using moves_trans [OF m1(1)] by blast
  qed
qed

lemma runjob_ok_moves:
  assumes "runjob_ok_body oname pd p s = Inr (p', s')"
  shows "same_job p p' \<and> same_counters s s'"
proof (cases "state p = RUNNING")
  case True
  define att where "att = (if TS_CPU_BIND (world s) \<and> cpu_bind_enabled (cpu s) \<and> no_cpu_binding p = 0
        \<and> num_allocated p > 0 then attach_cpus (p\<lparr>pid := pd\<rparr>) s else Inr (p\<lparr>pid := pd\<rparr>, s))"
  define named where "named p1 = (case oname of None \<Rightarrow> p1
       | Some f \<Rightarrow> if f = '''' then p1 else p1\<lparr>output_filename := Some f\<rparr>)" for p1 :: job
  have named: "same_job p1 ((named p1)\<lparr>info := i\<rparr>)" for p1 i
    by (simp add: named_def same_job_def split: option.splits)
  have "rbind att (\<lambda>(p1, s1).
      let p3 = (named p1)\<lparr>info := pinfo_set_start_time_check (info (named p1)) (cgroups_create_job p1 s1)\<rparr>
      in if pd > 0 then Inr (p3, insert_or_replace_DB p3 Jobs (emit (Write_log (jobid p3)) (cgroups_create_job p1 s1)))
         else Inr (p3, cgroups_create_job p1 s1)) = Inr (p', s')"
    using assms True unfolding runjob_ok_body_def att_def named_def by (simp add: Let_def)
  then obtain p1 s1 where a: "att = Inr (p1, s1)"
    and p': "p' = (named p1)\<lparr>info := pinfo_set_start_time_check (info (named p1)) (cgroups_create_job p1 s1)\<rparr>"
    and s': "s' = cgroups_create_job p1 s1 \<or> s' = insert_or_replace_DB p' Jobs
         (emit (Write_log (jobid p')) (cgroups_create_job p1 s1))"
    by (auto simp: rbind_eq_Inr Let_def split: if_splits)
  have r: "same_job p1 p'" "same_counters s1 s'"
    using named s' by (auto simp: p' insert_or_replace_DB_def)
  have "same_job (p\<lparr>pid := pd\<rparr>) p1" "same_counters s s1"
    using a attach_cpus_same by (auto simp: att_def split: if_splits)
  then show ?thesis using r same_counters_trans by (auto simp: same_job_def)
next
  case False
  then show ?thesis using assms by (auto simp: runjob_ok_body_def split: if_splits)
qed

end
