(* ===== verification/Accounting_Queue.thy ===== *)
theory Accounting_Queue
  imports Accounting
begin

text \<open>
  From one job to the whole queue: the server invariant \<open>srv_ok\<close> (the accounting and the job
  ids), the part of the state it depends on, and its preservation by the operations of
  \<open>Job_Queue\<close>, \<open>Notify\<close> and \<open>Scheduler\<close>. Statements of the form \<open>f s = Inr s' \<Longrightarrow> \<dots>\<close> are about
  calls that return; that the important ones do return is shown in \<open>Dispatch\<close>.
\<close>

definition srv_ok :: "bool \<Rightarrow> srv \<Rightarrow> bool" where
  "srv_ok b s \<longleftrightarrow> acct b s \<and> ids_ok s"

text \<open>What the invariant reads.\<close>

definition view :: "srv \<Rightarrow> job list \<times> (int \<times> int) list \<times> int \<times> int" where
  "view s = (active_jobs s, map (\<lambda>u. (busy u, njobs u)) (users_vec s), busy_slots s, jobids s)"

lemma view_users:
  assumes "map (\<lambda>u. (busy u, njobs u)) us' = map (\<lambda>u. (busy u, njobs u)) us" "u < length us"
  shows "length us' = length us" "busy (us' ! u) = busy (us ! u)" "njobs (us' ! u) = njobs (us ! u)"
proof -
  show l: "length us' = length us" using arg_cong [OF assms(1), of length] by simp
  have "map (\<lambda>u. (busy u, njobs u)) us' ! u = map (\<lambda>u. (busy u, njobs u)) us ! u" using assms(1) by simp
  then show "busy (us' ! u) = busy (us ! u)" "njobs (us' ! u) = njobs (us ! u)"
    using assms(2) l by simp_all
qed

text \<open>
  A rewriting rule for states whose queue is, up to order, made of the same jobs as far as
  the accounting is concerned.
\<close>

definition acct_key :: "job \<Rightarrow> int \<times> nat option \<times> int \<times> jobstate \<times> int" where
  "acct_key p = (jobid p, user p, num_slots p, state p, num_allocated p)"

lemma same_job_key: "same_job p p' \<longleftrightarrow> acct_key p' = acct_key p"
  by (auto simp: same_job_def acct_key_def)

lemma isum_key:
  assumes "mset (map acct_key ps') = mset (map acct_key ps)"
  shows "isum run_slots ps' = isum run_slots ps" "isum (user_slots u) ps' = isum (user_slots u) ps"
    "isum (user_runs u) ps' = isum (user_runs u) ps"
proof -
  have eq: "isum f ps' = isum f ps" if "\<And>p. f p = g (acct_key p)" for f g
  proof -
    have "isum g (map acct_key ps') = isum g (map acct_key ps)" using assms by (rule isum_mset)
    moreover have "f = (\<lambda>p. g (acct_key p))" using that by auto
    ultimately show ?thesis by (simp add: comp_def)
  qed
  show "isum run_slots ps' = isum run_slots ps"
    by (rule eq [of _ "\<lambda>(j, o', n, st, a). if st = RUNNING then n else 0"]) (simp add: run_slots_def acct_key_def)
  show "isum (user_slots u) ps' = isum (user_slots u) ps"
    by (rule eq [of _ "\<lambda>(j, o', n, st, a). if st = RUNNING \<and> o' = Some u then n else 0"])
      (simp add: user_slots_def acct_key_def)
  show "isum (user_runs u) ps' = isum (user_runs u) ps"
    by (rule eq [of _ "\<lambda>(j, o', n, st, a). if st = RUNNING \<and> o' = Some u then 1 else 0"])
      (simp add: user_runs_def acct_key_def)
qed

lemma srv_ok_key:
  assumes "mset (map acct_key (active_jobs s')) = mset (map acct_key (active_jobs s))"
    "map (\<lambda>u. (busy u, njobs u)) (users_vec s') = map (\<lambda>u. (busy u, njobs u)) (users_vec s)"
    "busy_slots s' = busy_slots s" "jobids s' = jobids s"
  shows "srv_ok b s' = srv_ok b s"
proof -
  have n: "length (users_vec s') = length (users_vec s)"
    using arg_cong [OF assms(2), of length] by simp
  have keys: "acct_key ` set (active_jobs s') = acct_key ` set (active_jobs s)"
    using mset_eq_setD [OF assms(1)] by simp
  have all: "(\<forall>p \<in> set (active_jobs s'). P (acct_key p)) = (\<forall>p \<in> set (active_jobs s). P (acct_key p))" for P
    using keys by (metis (no_types, lifting) image_iff)
  have ok: "job_ok b k p = (\<lambda>(j, o', n, st, a). (\<exists>u < k. o' = Some u) \<and> 0 < n \<and> live st
     \<and> (a = 0 \<or> a = n \<and> st = RUNNING) \<and> (b \<and> st = RUNNING \<longrightarrow> a = n)) (acct_key p)" for k p
    by (simp add: job_ok_def acct_key_def)
  have id: "map jobid ps = map fst (map acct_key ps)" for ps
    by (simp add: acct_key_def comp_def)
  have "distinct (map jobid (active_jobs s')) = distinct (map jobid (active_jobs s))"
    unfolding id using assms(1) by (metis mset_map mset_eq_imp_distinct_iff)
  moreover have "(\<forall>p \<in> set (active_jobs s'). jobid p < jobids s \<and> jobid p \<noteq> 0) =
      (\<forall>p \<in> set (active_jobs s). jobid p < jobids s \<and> jobid p \<noteq> 0)"
    using all [of "\<lambda>k. fst k < jobids s \<and> fst k \<noteq> 0"] by (simp add: acct_key_def)
  ultimately show ?thesis
    unfolding srv_ok_def acct_def ids_ok_def
    using assms(3,4) n isum_key [OF assms(1)] all view_users(2,3) [OF assms(2)]
    by (simp add: ok)
qed

lemma srv_ok_view: "view s' = view s \<Longrightarrow> srv_ok b s' = srv_ok b s"
  by (rule srv_ok_key) (simp_all add: view_def)

lemma view_emit [simp]: "view (emit ev s) = view s"
  by (simp add: view_def)

lemma view_other_fields [simp]:
  "view (s\<lparr>finished_jobs := x1\<rparr>) = view s" "view (s\<lparr>first_notify := x2\<rparr>) = view s"
  "view (s\<lparr>last_errorlevel := x3\<rparr>) = view s" "view (s\<lparr>last_finished_jobid := x4\<rparr>) = view s"
  "view (s\<lparr>last_uid := x5\<rparr>) = view s" "view (s\<lparr>client_cs := x6\<rparr>) = view s"
  "view (s\<lparr>max_slots := x7\<rparr>) = view s" "view (s\<lparr>user_locker := x8\<rparr>) = view s"
  "view (s\<lparr>locker_time := x9\<rparr>) = view s" "view (s\<lparr>health_ticks := x10\<rparr>) = view s"
  "view (s\<lparr>cleanup_done := x11\<rparr>) = view s" "view (s\<lparr>cleanup_start := x12\<rparr>) = view s"
  "view (s\<lparr>world := x13\<rparr>) = view s" "view (s\<lparr>cpu := x14\<rparr>) = view s" "view (s\<lparr>frozen := x15\<rparr>) = view s"
  by (simp_all add: view_def)

lemma same_counters_view: "same_counters s s' \<Longrightarrow> view s' = view s"
  using core_fields [of s' s] by (simp add: view_def same_counters_def)

section \<open>Changing, removing and adding one job\<close>

lemma acct_sums_update:
  assumes "i < length ps"
  shows "isum f (ps[i := p]) - isum f ps = f p - f (ps ! i)"
  using isum_update [OF assms, of f p] by simp

lemma srv_ok_set_active:
  assumes "srv_ok b s" "i < length (active_jobs s)" "moves b (active_jobs s ! i) s p' s'"
    "job_ok b (length (users_vec s)) p'"
  shows "srv_ok b (set_active i p' s')"
proof -
  have c: "core s' = core s" "jobid p' = jobid (active_jobs s ! i)" and d: "delta b (active_jobs s ! i) s p' s'"
    using assms(3) by (simp_all add: moves_def)
  note F = core_fields [OF c(1)]
  note upd = acct_sums_update [OF assms(2)]
  have "acct b (set_active i p' s')"
    unfolding acct_def
  proof (intro conjI allI impI ballI)
    fix p assume "p \<in> set (active_jobs (set_active i p' s'))"
    then have "p = p' \<or> p \<in> set (active_jobs s)"
      using set_update_subset_insert [of "active_jobs s" i p'] F by (auto simp: set_active_def)
    then show "job_ok b (length (users_vec (set_active i p' s'))) p"
      using assms F by (auto simp: set_active_def srv_ok_def acct_def)
  next
    have "at_least b (busy_slots s) (isum run_slots (active_jobs s))"
      using assms(1) by (simp add: srv_ok_def acct_def)
    from at_least_shift [OF this]
    show "at_least b (busy_slots (set_active i p' s')) (isum run_slots (active_jobs (set_active i p' s')))"
      using d F upd [of run_slots p'] by (simp add: set_active_def delta_def)
  next
    fix u assume "u < length (users_vec (set_active i p' s'))"
    then have u: "u < length (users_vec s)" using F by (simp add: set_active_def)
    then have old: "at_least b (busy (users_vec s ! u)) (isum (user_slots u) (active_jobs s))"
      "at_least b (njobs (users_vec s ! u)) (isum (user_runs u) (active_jobs s))"
      using assms(1) by (simp_all add: srv_ok_def acct_def)
    show "at_least b (busy (users_vec (set_active i p' s') ! u)) (isum (user_slots u) (active_jobs (set_active i p' s')))"
      using d u F upd [of "user_slots u" p'] at_least_shift [OF old(1)]
      by (simp add: set_active_def delta_def)
    show "at_least b (njobs (users_vec (set_active i p' s') ! u)) (isum (user_runs u) (active_jobs (set_active i p' s')))"
      using d u F upd [of "user_runs u" p'] at_least_shift [OF old(2)]
      by (simp add: set_active_def delta_def)
  qed
  moreover have "ids_ok (set_active i p' s')"
  proof -
    have "map jobid ((active_jobs s)[i := p']) = map jobid (active_jobs s)"
      using assms(2) c(2) by (simp add: map_update list_update_same_conv)
    then show ?thesis
      using assms(1,2) F c(2) set_update_subset_insert [of "active_jobs s" i p']
      by (auto simp: ids_ok_def srv_ok_def set_active_def)
  qed
  ultimately show ?thesis by (simp add: srv_ok_def)
qed

lemma acct_remove_parked:
  assumes "srv_ok b s" "i < length (active_jobs s)" "state (active_jobs s ! i) \<noteq> RUNNING"
  shows "srv_ok b (remove_active i s)"
proof -
  have w: "run_slots (active_jobs s ! i) = 0" "user_slots u (active_jobs s ! i) = 0"
    "user_runs u (active_jobs s ! i) = 0" for u
    using assms(3) by (simp_all add: weight_defs)
  then show ?thesis
    using assms(1) set_remove_nth [of i "active_jobs s"] distinct_remove_nth [of "map jobid (active_jobs s)" i]
    by (auto simp: srv_ok_def acct_def ids_ok_def remove_active_def isum_remove_nth [OF assms(2)] remove_nth_map)
qed

lemma srv_ok_remove:
  assumes "srv_ok b s" "i < length (active_jobs s)" "moves b (active_jobs s ! i) s p' s'"
    "state p' \<noteq> RUNNING" "num_allocated p' = 0"
  shows "srv_ok b (remove_active i s')"
proof -
  let ?p = "p'\<lparr>state := PAUSE\<rparr>"
  have F: "active_jobs s' = active_jobs s"
    using assms(3) core_fields [of s' s] by (simp add: moves_def)
  have m: "moves b (active_jobs s ! i) s ?p s'"
    using moves_job_cong [OF assms(3), of ?p] assms(4) by simp
  moreover have "job_ok b (length (users_vec s)) (active_jobs s ! i)"
    using assms(1,2) by (simp add: srv_ok_def acct_def)
  then have "job_ok b (length (users_vec s)) ?p"
    using job_ok_parked [OF m] assms(5) by (simp add: live_def)
  ultimately have "srv_ok b (set_active i ?p s')" by (rule srv_ok_set_active [OF assms(1,2)])
  from acct_remove_parked [OF this, of i] have "srv_ok b (remove_active i (set_active i ?p s'))"
    using assms(2) F by (simp add: set_active_def)
  moreover have "remove_active i (set_active i ?p s') = remove_active i s'"
    by (simp add: remove_active_def set_active_def remove_nth_update)
  ultimately show ?thesis by simp
qed

lemma srv_ok_push:
  assumes "srv_ok b s" "job_ok b (length (users_vec s)) p" "state p \<noteq> RUNNING"
    "jobid p \<notin> jobid ` set (active_jobs s)" "jobid p < jobids s" "jobid p \<noteq> 0"
  shows "srv_ok b (push_active p s)"
  using assms by (auto simp: srv_ok_def acct_def ids_ok_def push_active_def weight_defs)

lemma srv_ok_on_active:
  assumes "on_active i f s = Inr s'" "srv_ok b s"
    "\<And>p p' s1. job_ok b (length (users_vec s)) p \<Longrightarrow> p = active_jobs s ! i \<Longrightarrow> f p s = Inr (p', s1) \<Longrightarrow>
       moves b p s p' s1 \<and> job_ok b (length (users_vec s)) p'"
  shows "srv_ok b s'"
proof -
  obtain p' s1 where i: "i < length (active_jobs s)" and f: "f (active_jobs s ! i) s = Inr (p', s1)"
    and s': "s' = set_active i p' s1"
    using assms(1) by (auto simp: on_active_def rbind_eq_Inr split: if_splits)
  have "job_ok b (length (users_vec s)) (active_jobs s ! i)"
    using assms(2) i by (simp add: srv_ok_def acct_def)
  from assms(3) [OF this refl f] show ?thesis
    using srv_ok_set_active [OF assms(2) i] s' by simp
qed

text \<open>A change of a field the accounting does not read.\<close>

lemma srv_ok_set_same:
  assumes "i < length (active_jobs s)" "same_job (active_jobs s ! i) p'"
  shows "srv_ok b (set_active i p' s) = srv_ok b s"
proof (rule srv_ok_key)
  have "map acct_key ((active_jobs s)[i := p']) = map acct_key (active_jobs s)"
    using assms by (simp add: map_update list_update_same_conv same_job_key)
  then show "mset (map acct_key (active_jobs (set_active i p' s))) = mset (map acct_key (active_jobs s))"
    by (simp add: set_active_def)
qed (simp_all add: set_active_def)

lemma srv_ok_perm:
  assumes "mset (active_jobs s') = mset (active_jobs s)" "users_vec s' = users_vec s"
    "busy_slots s' = busy_slots s" "jobids s' = jobids s"
  shows "srv_ok b s' = srv_ok b s"
  using assms by (intro srv_ok_key) (simp_all add: mset_map)

end
