(* ===== verification/Invariant_Ops.thy ===== *)
theory Invariant_Ops
  imports Accounting_Queue
begin

text \<open>
  The server invariant across the queue operations: finishing and removing jobs, the
  waiting list, the time-out and dead-process scans, the recount, the dispatcher and the
  periodic checks.
\<close>

section \<open>Finishing a job\<close>

lemma notify_one_keys:
  "map acct_key (active_jobs (notify_one lev s jid)) = map acct_key (active_jobs s)
   \<and> users_vec (notify_one lev s jid) = users_vec s \<and> busy_slots (notify_one lev s jid) = busy_slots s
   \<and> jobids (notify_one lev s jid) = jobids s \<and> world (notify_one lev s jid) = world s"
proof (cases "findjob_idx jid s")
  case None
  then show ?thesis by (auto simp: notify_one_def Let_def split: option.splits)
next
  case (Some i)
  then have i: "i < length (active_jobs s)"
    using find_idx_SomeD [of jobid jid "active_jobs s" i] by (simp add: findjob_idx_def)
  then show ?thesis
    by (simp add: notify_one_def Some Let_def set_active_def map_update list_update_same_conv acct_key_def)
qed

lemma notify_fold_keys:
  "map acct_key (active_jobs (foldl (notify_one lev) s js)) = map acct_key (active_jobs s)
   \<and> users_vec (foldl (notify_one lev) s js) = users_vec s \<and> busy_slots (foldl (notify_one lev) s js) = busy_slots s
   \<and> jobids (foldl (notify_one lev) s js) = jobids s \<and> world (foldl (notify_one lev) s js) = world s"
  by (induction js arbitrary: s) (simp_all add: notify_one_keys)

lemma notify_errorlevel_keys:
  "map acct_key (active_jobs (notify_errorlevel p s)) = map acct_key (active_jobs s)"
  "users_vec (notify_errorlevel p s) = users_vec s" "busy_slots (notify_errorlevel p s) = busy_slots s"
  "jobids (notify_errorlevel p s) = jobids s" "world (notify_errorlevel p s) = world s"
  "length (active_jobs (notify_errorlevel p s)) = length (active_jobs s)"
proof -
  show k: "map acct_key (active_jobs (notify_errorlevel p s)) = map acct_key (active_jobs s)"
    and "users_vec (notify_errorlevel p s) = users_vec s" "busy_slots (notify_errorlevel p s) = busy_slots s"
      "jobids (notify_errorlevel p s) = jobids s" "world (notify_errorlevel p s) = world s"
    using notify_fold_keys [of "errorlevel (result p)" "s\<lparr>last_errorlevel := errorlevel (result p)\<rparr>"
        "notify_errorlevel_to p"]
    by (simp_all add: notify_errorlevel_def)
  show "length (active_jobs (notify_errorlevel p s)) = length (active_jobs s)"
    using arg_cong [OF k, of length] by simp
qed

lemma new_finished_view:
  assumes "new_finished_job j s = Inr s'"
  shows "view s' = view s"
proof -
  obtain ok s2 where i: "insert_DB j Finished (if int (length (finished_jobs s)) \<ge> get_max_finished_jobs s
      then s\<lparr>finished_jobs := remove_nth 0 (finished_jobs s)\<rparr> else s) = (ok, s2)" by fastforce
  have v2: "view s2 = view s" using i by (auto simp: insert_DB_def split: if_splits)
  define s4 where "s4 = cgroups_clean_job j (if ok then delete_DB (jobid j) Jobs s2 else s2)"
  have v4: "view s4 = view s"
    using v2 same_counters_view [OF clean_same [of "if ok then delete_DB (jobid j) Jobs s2 else s2" j]]
    by (auto simp: s4_def delete_DB_def split: if_splits)
  obtain j' s5 where d: "detach_cpus j s4 = Inr (j', s5)"
    and f: "cpu_bind_defrag_start (s5\<lparr>finished_jobs := finished_jobs s5 @ [j']\<rparr>) = Inr s'"
    using assms i by (auto simp: new_finished_job_def Let_def rbind_eq_Inr simp flip: s4_def)
  show ?thesis
    using same_counters_view [OF detach_cpus_same(2) [OF d]] same_counters_view [OF defrag_same [OF f]] v4
    by simp
qed

lemma remove_active_keys:
  assumes "map acct_key (active_jobs s') = map acct_key ((active_jobs s)[i := p])"
    "users_vec s' = users_vec s" "busy_slots s' = busy_slots s" "jobids s' = jobids s"
  shows "srv_ok b (remove_active i s') = srv_ok b (remove_active i s)"
proof (rule srv_ok_key)
  have "map acct_key (remove_nth i (active_jobs s')) = remove_nth i (map acct_key ((active_jobs s)[i := p]))"
    using assms(1) by (simp flip: remove_nth_map)
  also have "\<dots> = map acct_key (remove_nth i (active_jobs s))"
    by (simp add: map_update remove_nth_update remove_nth_map)
  finally show "mset (map acct_key (active_jobs (remove_active i s'))) =
      mset (map acct_key (active_jobs (remove_active i s)))"
    by (simp add: remove_active_def)
qed (use assms in \<open>simp_all add: remove_active_def\<close>)

lemma findjob_idx_bound: "findjob_idx jid s = Some i \<Longrightarrow> i < length (active_jobs s) \<and> jobid (active_jobs s ! i) = jid"
  using find_idx_SomeD [of jobid jid "active_jobs s" i] by (simp add: findjob_idx_def)

lemma job_okD: "srv_ok b s \<Longrightarrow> i < length (active_jobs s) \<Longrightarrow> job_ok b (length (users_vec s)) (active_jobs s ! i)"
  by (simp add: srv_ok_def acct_def)

lemma job_finished_ok:
  assumes "job_finished r jid s = Inr s'" "srv_ok b s"
  shows "srv_ok b s'"
proof -
  obtain i p1 s1 where i: "findjob_idx jid s = Some i" and f: "free_cores (active_jobs s ! i) s = Inr (p1, s1)"
    using assms(1) by (auto simp: job_finished_def rbind_eq_Inr split: if_splits option.splits)
  define p2 where "p2 = p1\<lparr>state := (if skipped r \<noteq> 0 then SKIPPED else FINISHED), result := r\<rparr>"
  define s2 where "s2 = notify_errorlevel p2 ((set_active i p2 s1)\<lparr>last_finished_jobid := jobid p2\<rparr>)"
  have n: "new_finished_job (finish_info r (active_jobs s2 ! i) s2) (remove_active i s2) = Inr s'"
    using assms(1) i f by (auto simp: job_finished_def rbind_eq_Inr Let_def p2_def s2_def split: if_splits)
  have i': "i < length (active_jobs s)" using findjob_idx_bound [OF i] by simp
  have "moves b (active_jobs s ! i) s (p1\<lparr>state := (if skipped r \<noteq> 0 then SKIPPED else FINISHED)\<rparr>) s1"
    and a: "num_allocated p1 = 0"
    using free_cores_delta [OF f job_okD [OF assms(2) i']] by auto
  then have m: "moves b (active_jobs s ! i) s p2 s1"
    using moves_job_cong [of b "active_jobs s ! i" s _ s1 p2] by (auto simp: p2_def)
  have act: "active_jobs s1 = active_jobs s" using m core_fields [of s1 s] by (simp add: moves_def)
  have "srv_ok b (remove_active i s1)"
    using srv_ok_remove [OF assms(2) i' m] a by (simp add: p2_def)
  moreover have "srv_ok b (remove_active i s2) = srv_ok b (remove_active i s1)"
    by (rule remove_active_keys [of _ _ _ p2])
      (simp_all add: s2_def notify_errorlevel_keys set_active_def)
  ultimately show ?thesis using srv_ok_view [OF new_finished_view [OF n]] by simp
qed

section \<open>The waiting list\<close>

lemma destroy_finished_view: "destroy_finished_job jid s = Inr s' \<Longrightarrow> view s' = view s"
  by (auto simp: destroy_finished_job_def split: option.splits)

lemma remove_notification_view [simp]: "view (s_remove_notification sock s) = view s"
  by (simp add: s_remove_notification_def split: option.splits)

lemma waitjob_view [simp]: "view (send_waitjob_ok sock lev s) = view s"
  by (simp add: send_waitjob_ok_def)

lemma notify_loop_view: "notify_loop jid ns s = Inr s' \<Longrightarrow> view s' = view s"
proof (induction ns arbitrary: s)
  case (Cons n ns)
  show ?case
  proof (cases "snd n = jid")
    case False
    then show ?thesis using Cons by simp
  next
    case True
    then obtain j where j: "get_job jid s = Some j"
      using Cons.prems by (auto split: option.splits)
    define s1 where "s1 = s_remove_notification (fst n) (send_waitjob_ok (fst n) (errorlevel (result j)) s)"
    have v1: "view s1 = view s" by (simp add: s1_def)
    consider "notify_loop jid ns s = Inr s'" | "notify_loop jid ns s1 = Inr s'"
      | s2 where "destroy_finished_job (jobid j) s1 = Inr s2" "notify_loop jid ns s2 = Inr s'"
      using Cons.prems True j by (auto simp: Let_def rbind_eq_Inr simp flip: s1_def split: if_splits)
    then show ?thesis
    proof cases
      case 1
      then show ?thesis by (rule Cons.IH)
    next
      case 2
      then show ?thesis using Cons.IH v1 by metis
    next
      case 3
      then show ?thesis using Cons.IH [OF 3(2)] destroy_finished_view [OF 3(1)] v1 by metis
    qed
  qed
qed simp

lemma check_notify_view: "check_notify_list jid s = Inr s' \<Longrightarrow> view s' = view s"
  by (simp add: check_notify_list_def notify_loop_view)

lemma s_delete_job_ok:
  assumes "s_delete_job jid s = Inr s'" "srv_ok b s" "\<not> b \<or> \<not> job_is_running jid s"
  shows "srv_ok b s'"
proof -
  obtain i where i: "findjob_idx jid s = Some i" and s': "s' = delete_DB jid Jobs (remove_active i s)"
    using assms(1) by (auto simp: s_delete_job_def split: option.splits)
  note i' = findjob_idx_bound [OF i]
  have ok: "srv_ok b (remove_active i s)"
  proof (cases "state (active_jobs s ! i) = RUNNING")
    case False
    then show ?thesis using acct_remove_parked assms(2) i' by blast
  next
    case True
    then have "\<not> b" using assms(3) i by (simp add: job_is_running_def job_is_in_state_def findjob_def)
    let ?p = "(active_jobs s ! i)\<lparr>state := PAUSE, num_allocated := 0\<rparr>"
    have "moves b (active_jobs s ! i) s ?p s"
      using \<open>\<not> b\<close> job_okD [OF assms(2), of i] i'
      by (auto simp: moves_def delta_def at_least_def weight_defs job_ok_def)
    from srv_ok_remove [OF assms(2) _ this] i' show ?thesis by simp
  qed
  moreover have "view s' = view (remove_active i s)" by (simp add: s' delete_DB_def)
  ultimately show ?thesis using srv_ok_view by blast
qed

section \<open>Time-outs and dead processes\<close>

text \<open>During the time-out scan the jobs taken out of the queue wait in a second vector.\<close>

definition scan_ok :: "bool \<Rightarrow> job list \<times> srv \<Rightarrow> bool" where
  "scan_ok b ts \<longleftrightarrow> srv_ok b ((snd ts)\<lparr>active_jobs := active_jobs (snd ts) @ fst ts\<rparr>)
     \<and> (\<forall>p \<in> set (fst ts). state p = PAUSE)"

lemma timeout_step_ok:
  assumes "timeout_step i ts = Inr ts'" "scan_ok b ts"
  shows "scan_ok b ts'"
proof -
  obtain to s where ts: "ts = (to, s)" by fastforce
  have i: "i < length (active_jobs s)" using assms(1) ts by (auto simp: timeout_step_def split: if_splits)
  define s0 where "s0 = s\<lparr>active_jobs := active_jobs s @ to\<rparr>"
  have ok: "srv_ok b s0" and pz: "\<forall>p \<in> set to. state p = PAUSE"
    using assms(2) by (simp_all add: scan_ok_def ts s0_def)
  have at: "active_jobs s0 ! i = active_jobs s ! i" "i < length (active_jobs s0)"
    using i by (simp_all add: s0_def nth_append)
  show ?thesis
  proof (cases "state (active_jobs s ! i) = RUNNING")
    case False
    then show ?thesis using assms ts by (auto simp: timeout_step_def Let_def split: if_splits)
  next
    case True
    then obtain late p' s' where c: "check_timeout (active_jobs s ! i) s = Inr (late, p', s')"
      and ts': "ts' = (if late then (to @ [p'], remove_active i s') else (to, set_active i p' s'))"
      using assms(1) i ts by (auto simp: timeout_step_def Let_def rbind_eq_Inr split: if_splits)
    have jok: "job_ok b (length (users_vec s)) (active_jobs s ! i)"
      using job_okD [OF ok at(2)] at by (simp add: s0_def)
    note m = check_timeout_moves [OF c jok]
    then have act: "active_jobs s' = active_jobs s" using moves_fields(1) by blast
    define s1 where "s1 = s'\<lparr>active_jobs := active_jobs s' @ to\<rparr>"
    have m0: "moves b (active_jobs s0 ! i) s0 p' s1"
      unfolding at(1) using m act by (simp add: moves_def delta_def s0_def s1_def core_active_update)
    have ok1: "srv_ok b (set_active i p' s1)"
      using srv_ok_set_active [OF ok at(2) m0] m by (simp add: s0_def)
    show ?thesis
    proof (cases late)
      case False
      have "set_active i p' s1 = (set_active i p' s')\<lparr>active_jobs := active_jobs (set_active i p' s') @ to\<rparr>"
        using i act by (simp add: s1_def set_active_def list_update_append)
      then show ?thesis using ok1 ts' False pz by (simp add: scan_ok_def)
    next
      case True
      have "mset (remove_nth i (active_jobs s) @ to @ [p']) = mset (((active_jobs s)[i := p']) @ to)"
        using mset_remove_nth [of i "(active_jobs s)[i := p']"] i by (simp add: remove_nth_update)
      then have "srv_ok b ((remove_active i s')\<lparr>active_jobs := active_jobs (remove_active i s') @ to @ [p']\<rparr>)"
        using ok1 i act
        by (subst srv_ok_perm [of _ "set_active i p' s1"])
          (simp_all add: s1_def set_active_def remove_active_def list_update_append)
      moreover have "state p' = PAUSE"
        using c True s_relegate_job_moves [OF _ jok]
        by (auto simp: check_timeout_def Let_def rbind_eq_Inr split: if_splits)
      ultimately show ?thesis using ts' True pz by (simp add: scan_ok_def)
    qed
  qed
qed

lemma requeue_timed_out_eq:
  "view (requeue_timed_out ps s) = view (s\<lparr>active_jobs := active_jobs s @ ps\<rparr>)"
  unfolding requeue_timed_out_def
proof (induction ps arbitrary: s)
  case (Cons p ps)
  show ?case
    by (simp only: foldl_Cons Cons.IH) (simp add: push_active_def view_def)
qed (simp add: view_def)

lemma s_check_timeout_ok:
  assumes "s_check_timeout s = Inr (fl, s')" "srv_ok b s"
  shows "srv_ok b s'"
proof -
  obtain to s1 where r: "rfold timeout_step (rev [0..<length (active_jobs s)]) ([], s) = Inr (to, s1)"
    and s': "s' = requeue_timed_out to s1"
    using assms(1) by (auto simp: s_check_timeout_def rbind_eq_Inr)
  have "scan_ok b ([], s)" using assms(2) by (simp add: scan_ok_def)
  from rfold_invariant [of _ "scan_ok b", OF timeout_step_ok this r]
  have "srv_ok b (s1\<lparr>active_jobs := active_jobs s1 @ to\<rparr>)" by (auto simp: scan_ok_def)
  then show ?thesis using srv_ok_view [OF requeue_timed_out_eq] s' by simp
qed

lemma reap_step_ok:
  assumes "reap_step i s = Inr s'" "srv_ok b s"
  shows "srv_ok b s'"
proof (cases "s' = s")
  case False
  then obtain r jid s1 where "job_finished r jid s = Inr s1" "check_notify_list jid s1 = Inr s'"
    using assms(1) by (auto simp: reap_step_def Let_def rbind_eq_Inr split: if_splits)
  then show ?thesis
    using job_finished_ok [OF _ assms(2)] srv_ok_view [OF check_notify_view] by metis
qed (use assms in simp)

end
