(* ===== verification/Cpu_Bind_Correct.thy ===== *)
theory Cpu_Bind_Correct
  imports Cpu_Bind
begin

text \<open>
  Correctness of the CPU allocator: the consistency invariant \<open>cpu_ok\<close>, that the group walk
  takes exactly what is asked for when the counters allow it, that an allocation never hands
  out a CPU that has an owner, and that allocation and release keep the invariant.
\<close>

section \<open>Invariant\<close>

definition gcpus :: "core_group \<Rightarrow> nat list" where
  "gcpus g = take (nat (num_cores g)) (os_cpus g)"

definition topo_cpus :: "topology \<Rightarrow> nat set" where
  "topo_cpus t = (\<Union>g \<in> set (groups t). set (gcpus g))"

text \<open>What the generated topology must satisfy.\<close>

definition wf_topo :: "topology \<Rightarrow> bool" where
  "wf_topo t \<longleftrightarrow>
     (\<forall>g < length (groups t). node_id (groups t ! g) < length (nodes t)
        \<and> distinct (gcpus (groups t ! g)) \<and> (\<forall>cpu \<in> set (gcpus (groups t ! g)). cpu < max_os_cpu t))
   \<and> (\<forall>g < length (groups t). \<forall>g' < length (groups t). g \<noteq> g' \<longrightarrow>
        set (gcpus (groups t ! g)) \<inter> set (gcpus (groups t ! g')) = {})
   \<and> (\<forall>n < length (nodes t). distinct (group_ids (nodes t ! n))
        \<and> set (group_ids (nodes t ! n)) = {g. g < length (groups t) \<and> node_id (groups t ! g) = n})"

definition nfree :: "int list \<Rightarrow> nat list \<Rightarrow> int" where
  "nfree owner cs = int (length (filter (\<lambda>cpu. owner ! cpu = 0) cs))"

definition counts_ok :: "cpu_state \<Rightarrow> bool" where
  "counts_ok c \<longleftrightarrow>
     (\<forall>g < length (groups (topo c)). free_count (group_at c g) = nfree (cpu_owner c) (gcpus (group_at c g)))
   \<and> (\<forall>n < length (nodes (topo c)).
        n_free_count (node_at c n) = isum (\<lambda>g. free_count (group_at c g)) (group_ids (node_at c n)))"

text \<open>The tables: sizes, the reverse index and the counters.\<close>

definition tables_ok :: "cpu_state \<Rightarrow> bool" where
  "tables_ok c \<longleftrightarrow> wf_topo (topo c) \<and> length (cpu_owner c) = max_os_cpu (topo c)
   \<and> (\<forall>g < length (groups (topo c)). \<forall>cpu \<in> set (gcpus (group_at c g)). cpu_to_group c ! cpu = int g)
   \<and> counts_ok c"

section \<open>Marking CPUs\<close>

definition mark :: "nat list \<Rightarrow> int \<Rightarrow> int list \<Rightarrow> int list" where
  "mark cs j owner = foldl (\<lambda>t cpu. t[cpu := j]) owner cs"

lemma length_mark [simp]: "length (mark cs j owner) = length owner"
  unfolding mark_def by (induction cs arbitrary: owner) simp_all

lemma nth_mark:
  "cpu < length owner \<Longrightarrow> mark cs j owner ! cpu = (if cpu \<in> set cs then j else owner ! cpu)"
  unfolding mark_def
proof (induction cs arbitrary: owner)
  case (Cons c cs)
  then show ?case by (cases "cpu = c") auto
qed simp

lemma mark_Nil [simp]: "mark [] j owner = owner"
  by (simp add: mark_def)

lemma mark_Cons: "mark (c # cs) j owner = mark cs j (owner[c := j])"
  by (simp add: mark_def)

lemma mark_append: "mark (xs @ ys) j owner = mark ys j (mark xs j owner)"
  by (simp add: mark_def)

text \<open>The scan takes the first free CPUs of the group, as many as it still needs.\<close>

lemma take_scan_eq:
  assumes "distinct cs" "\<forall>cpu \<in> set cs. cpu < length owner" "taken \<le> N"
  shows "take_scan jid N taken cs owner acc =
    (let new = take (nat (N - taken)) (filter (\<lambda>cpu. owner ! cpu = 0) cs)
     in (taken + int (length new), mark new jid owner, acc @ new))"
  using assms
proof (induction cs arbitrary: taken owner acc)
  case (Cons c cs)
  have eq: "filter (\<lambda>cpu. owner[c := x] ! cpu = 0) cs = filter (\<lambda>cpu. owner ! cpu = 0) cs" for x
  proof (rule filter_cong [OF refl])
    fix cpu assume "cpu \<in> set cs"
    then have "c \<noteq> cpu" using Cons.prems(1) by auto
    then show "(owner[c := x] ! cpu = 0) = (owner ! cpu = 0)" by simp
  qed
  show ?case
  proof (cases "taken < N")
    case True
    then have "nat (N - taken) = Suc (nat (N - (taken + 1)))" by simp
    then show ?thesis
      using Cons True by (auto simp: Let_def eq mark_Cons)
  next
    case False
    then show ?thesis using Cons.prems by simp
  qed
qed simp

lemma nfree_nonneg: "0 \<le> nfree owner cs"
  by (simp add: nfree_def)

lemma nfree_card: "distinct cs \<Longrightarrow> nfree owner cs = int (card {cpu \<in> set cs. owner ! cpu = 0})"
  using distinct_card [of "filter (\<lambda>cpu. owner ! cpu = 0) cs"] by (simp add: nfree_def)

lemma nfree_mark_same:
  assumes "distinct cs" "\<forall>cpu \<in> set cs. cpu < length owner" "j \<noteq> 0"
    "set new \<subseteq> {cpu \<in> set cs. owner ! cpu = 0}" "distinct new"
  shows "nfree (mark new j owner) cs = nfree owner cs - int (length new)"
proof -
  have eq: "{cpu \<in> set cs. mark new j owner ! cpu = 0} = {cpu \<in> set cs. owner ! cpu = 0} - set new"
    using assms by (auto simp: nth_mark split: if_splits)
  have "card (set new) \<le> card {cpu \<in> set cs. owner ! cpu = 0}"
    using assms(4) by (intro card_mono) auto
  then show ?thesis
    using assms by (simp add: nfree_card eq card_Diff_subset distinct_card)
qed

lemma nfree_mark_other:
  assumes "\<forall>cpu \<in> set cs. cpu < length owner" "set new \<inter> set cs = {}"
  shows "nfree (mark new j owner) cs = nfree owner cs"
proof -
  have "filter (\<lambda>cpu. mark new j owner ! cpu = 0) cs = filter (\<lambda>cpu. owner ! cpu = 0) cs"
    using assms by (intro filter_cong) (auto simp: nth_mark)
  then show ?thesis by (simp add: nfree_def)
qed

section \<open>The static part of the state\<close>

definition strip :: "topology \<Rightarrow> topology" where
  "strip t = t\<lparr>groups := map (\<lambda>g. g\<lparr>free_count := 0\<rparr>) (groups t),
                nodes := map (\<lambda>n. n\<lparr>n_free_count := 0\<rparr>) (nodes t)\<rparr>"

text \<open>Only the owner table and the free counters differ.\<close>

definition frame_eq :: "cpu_state \<Rightarrow> cpu_state \<Rightarrow> bool" where
  "frame_eq c c' \<longleftrightarrow> strip (topo c') = strip (topo c)
     \<and> c' = c\<lparr>topo := topo c', cpu_owner := cpu_owner c'\<rparr>"

lemma gcpus_update [simp]: "gcpus (g\<lparr>free_count := x\<rparr>) = gcpus g"
  by (simp add: gcpus_def)

lemma gcpus_upd_fun [simp]: "gcpus (free_count_update f g) = gcpus g"
  by (simp add: gcpus_def)

lemma strip_lengths:
  assumes "strip t' = strip t"
  shows "length (groups t') = length (groups t)" "length (nodes t') = length (nodes t)"
    "max_os_cpu t' = max_os_cpu t" "max_cores_per_group t' = max_cores_per_group t"
proof -
  have "length (groups (strip t')) = length (groups (strip t))"
    "length (nodes (strip t')) = length (nodes (strip t))"
    "max_os_cpu (strip t') = max_os_cpu (strip t)"
    "max_cores_per_group (strip t') = max_cores_per_group (strip t)"
    using assms by simp_all
  then show "length (groups t') = length (groups t)" "length (nodes t') = length (nodes t)"
    "max_os_cpu t' = max_os_cpu t" "max_cores_per_group t' = max_cores_per_group t"
    by (simp_all add: strip_def)
qed

lemma strip_group:
  assumes "strip t' = strip t" "g < length (groups t)"
  shows "node_id (groups t' ! g) = node_id (groups t ! g)" "gcpus (groups t' ! g) = gcpus (groups t ! g)"
proof -
  have "groups (strip t') ! g = groups (strip t) ! g" using assms(1) by simp
  then have "(groups t' ! g)\<lparr>free_count := 0\<rparr> = (groups t ! g)\<lparr>free_count := 0\<rparr>"
    using assms strip_lengths [OF assms(1)] by (simp add: strip_def)
  then show "node_id (groups t' ! g) = node_id (groups t ! g)"
    "gcpus (groups t' ! g) = gcpus (groups t ! g)"
    by (metis core_group.select_convs(1) core_group.surjective core_group.update_convs(3))
      (metis gcpus_update \<open>(groups t' ! g)\<lparr>free_count := 0\<rparr> = (groups t ! g)\<lparr>free_count := 0\<rparr>\<close>)
qed

lemma strip_node:
  assumes "strip t' = strip t" "n < length (nodes t)"
  shows "group_ids (nodes t' ! n) = group_ids (nodes t ! n)"
    "n_node_id (nodes t' ! n) = n_node_id (nodes t ! n)"
proof -
  have "nodes (strip t') ! n = nodes (strip t) ! n" using assms(1) by simp
  then have e: "(nodes t' ! n)\<lparr>n_free_count := 0\<rparr> = (nodes t ! n)\<lparr>n_free_count := 0\<rparr>"
    using assms strip_lengths [OF assms(1)] by (simp add: strip_def)
  from arg_cong [OF e, of group_ids] arg_cong [OF e, of n_node_id]
  show "group_ids (nodes t' ! n) = group_ids (nodes t ! n)"
    "n_node_id (nodes t' ! n) = n_node_id (nodes t ! n)" by simp_all
qed

lemma strip_wf:
  assumes "strip t' = strip t" "wf_topo t"
  shows "wf_topo t'"
proof -
  note st = strip_lengths [OF assms(1)] strip_group [OF assms(1)] strip_node [OF assms(1)]
  have ids: "{g. g < length (groups t) \<and> node_id (groups t' ! g) = n} =
      {g. g < length (groups t) \<and> node_id (groups t ! g) = n}" for n
    by (auto simp: st)
  show ?thesis using assms(2) by (simp add: wf_topo_def st ids)
qed

lemma strip_topo_cpus:
  assumes "strip t' = strip t"
  shows "topo_cpus t' = topo_cpus t"
proof -
  have "topo_cpus u = (\<Union>g < length (groups u). set (gcpus (groups u ! g)))" for u
    by (force simp: topo_cpus_def set_conv_nth)
  then show ?thesis by (simp add: strip_lengths [OF assms] strip_group [OF assms])
qed

lemma frame_eq_refl [simp]: "frame_eq c c"
  by (simp add: frame_eq_def)

lemma frame_eq_trans: "frame_eq a b \<Longrightarrow> frame_eq b c \<Longrightarrow> frame_eq a c"
  unfolding frame_eq_def by (metis cpu_state.surjective cpu_state.update_convs(1,2))

lemma frame_eq_strip: "frame_eq c c' \<Longrightarrow> strip (topo c') = strip (topo c)"
  by (simp only: frame_eq_def)

lemma map_update_same: "f y = f (xs ! i) \<Longrightarrow> map f (xs[i := y]) = map f xs"
  by (cases "i < length xs") (simp_all add: map_update list_update_same_conv list_update_beyond)

lemma add_free_frame: "frame_eq c (add_free g d c)"
proof -
  have "strip (topo (add_free g d c)) = strip (topo c)"
    by (simp add: strip_def add_free_def upd_node_def upd_group_def group_at_def map_update_same)
  then show ?thesis
    by (simp add: frame_eq_def add_free_def upd_node_def upd_group_def)
qed

lemma tables_ok_frame:
  assumes "frame_eq c c'" "tables_ok c" "length (cpu_owner c') = length (cpu_owner c)" "counts_ok c'"
  shows "tables_ok c'"
proof -
  have st: "strip (topo c') = strip (topo c)" and tbl: "cpu_to_group c' = cpu_to_group c"
    using assms(1) unfolding frame_eq_def by (blast, metis cpu_state.select_convs(3) cpu_state.surjective cpu_state.update_convs(1,2))
  then show ?thesis
    using assms strip_wf [OF st] strip_lengths [OF st] strip_group [OF st]
    by (simp add: tables_ok_def group_at_def)
qed

lemma isum_one_changed:
  assumes "distinct xs" "\<And>x. x \<in> set xs \<Longrightarrow> x \<noteq> g \<Longrightarrow> f' x = f x" "f' g = f g + (d :: int)"
  shows "isum f' xs = isum f xs + (if g \<in> set xs then d else 0)"
  using assms by (induction xs) auto

lemma tables_ok_groupD:
  assumes "tables_ok c" "g < length (groups (topo c))"
  shows "node_id (group_at c g) < length (nodes (topo c))" "distinct (gcpus (group_at c g))"
    "\<forall>cpu \<in> set (gcpus (group_at c g)). cpu < length (cpu_owner c)"
    "free_count (group_at c g) = nfree (cpu_owner c) (gcpus (group_at c g))"
    "\<forall>cpu \<in> set (gcpus (group_at c g)). cpu_to_group c ! cpu = int g"
  using assms by (auto simp: tables_ok_def wf_topo_def counts_ok_def group_at_def)

lemma tables_ok_disjoint:
  assumes "tables_ok c" "g < length (groups (topo c))" "g' < length (groups (topo c))" "g \<noteq> g'"
  shows "set (gcpus (group_at c g)) \<inter> set (gcpus (group_at c g')) = {}"
  using assms by (simp add: tables_ok_def wf_topo_def group_at_def)

lemma tables_ok_nodeD:
  assumes "tables_ok c" "n < length (nodes (topo c))"
  shows "distinct (group_ids (node_at c n))"
    "set (group_ids (node_at c n)) = {g. g < length (groups (topo c)) \<and> node_id (group_at c g) = n}"
    "n_free_count (node_at c n) = isum (\<lambda>g. free_count (group_at c g)) (group_ids (node_at c n))"
  using assms by (auto simp: tables_ok_def wf_topo_def counts_ok_def group_at_def node_at_def)

lemma add_free_group:
  "g' < length (groups (topo c)) \<Longrightarrow> group_at (add_free g d c) g' =
     (if g' = g then (group_at c g)\<lparr>free_count := free_count (group_at c g) + d\<rparr> else group_at c g')"
  by (simp add: add_free_def upd_group_def upd_node_def group_at_def)

lemma add_free_node:
  "n < length (nodes (topo c)) \<Longrightarrow> node_at (add_free g d c) n =
     (if n = node_id (group_at c g) then (node_at c n)\<lparr>n_free_count := n_free_count (node_at c n) + d\<rparr>
      else node_at c n)"
  by (simp add: add_free_def upd_group_def upd_node_def group_at_def node_at_def)

lemma add_free_simps [simp]:
  "length (groups (topo (add_free g d c))) = length (groups (topo c))"
  "length (nodes (topo (add_free g d c))) = length (nodes (topo c))"
  "cpu_owner (add_free g d c) = cpu_owner c"
  "cpu_to_group (add_free g d c) = cpu_to_group c"
  "allocs (add_free g d c) = allocs c" "store (add_free g d c) = store c"
  by (simp_all add: add_free_def upd_group_def upd_node_def)

lemma owner_group_simps [simp]:
  "group_at (c\<lparr>cpu_owner := w\<rparr>) g = group_at c g" "node_at (c\<lparr>cpu_owner := w\<rparr>) n = node_at c n"
  by (simp_all add: group_at_def node_at_def)

text \<open>
  The bookkeeping of taking and of giving back: the owners of one group change, and its
  counters are moved by the difference.
\<close>

lemma add_free_tables:
  assumes c: "tables_ok c" and g: "g < length (groups (topo c))"
    and w: "length w = length (cpu_owner c)"
      "\<And>cpu. cpu \<notin> set (gcpus (group_at c g)) \<Longrightarrow> cpu < length w \<Longrightarrow> w ! cpu = cpu_owner c ! cpu"
      "nfree w (gcpus (group_at c g)) = nfree (cpu_owner c) (gcpus (group_at c g)) + d"
  shows "tables_ok (add_free g d (c\<lparr>cpu_owner := w\<rparr>))" (is "tables_ok ?c")
proof -
  have fr: "frame_eq c ?c"
    by (rule frame_eq_trans [OF _ add_free_frame]) (simp add: frame_eq_def)
  have gr: "free_count (group_at ?c g') = nfree w (gcpus (group_at ?c g'))"
    if "g' < length (groups (topo c))" for g'
  proof (cases "g' = g")
    case True
    then show ?thesis using that w(3) tables_ok_groupD(4) [OF c g] by (simp add: add_free_group)
  next
    case False
    have "filter (\<lambda>cpu. w ! cpu = 0) (gcpus (group_at c g')) =
        filter (\<lambda>cpu. cpu_owner c ! cpu = 0) (gcpus (group_at c g'))"
    proof (rule filter_cong [OF refl])
      fix cpu assume "cpu \<in> set (gcpus (group_at c g'))"
      then have "cpu \<notin> set (gcpus (group_at c g))" "cpu < length w"
        using tables_ok_disjoint [OF c g that] False w(1) tables_ok_groupD(3) [OF c that] by auto
      then show "(w ! cpu = 0) = (cpu_owner c ! cpu = 0)" by (simp add: w(2))
    qed
    then show ?thesis
      using that False tables_ok_groupD(4) [OF c that] by (simp add: add_free_group nfree_def)
  qed
  have nd: "n_free_count (node_at ?c n) = isum (\<lambda>g. free_count (group_at ?c g)) (group_ids (node_at ?c n))"
    if n: "n < length (nodes (topo c))" for n
  proof -
    have "isum (\<lambda>g'. free_count (group_at ?c g')) (group_ids (node_at c n)) =
        isum (\<lambda>g'. free_count (group_at c g')) (group_ids (node_at c n)) +
        (if g \<in> set (group_ids (node_at c n)) then d else 0)"
      using tables_ok_nodeD [OF c n] g by (intro isum_one_changed) (auto simp: add_free_group)
    moreover have "g \<in> set (group_ids (node_at c n)) \<longleftrightarrow> n = node_id (group_at c g)"
      using tables_ok_nodeD(2) [OF c n] g by auto
    ultimately show ?thesis
      using n tables_ok_nodeD(3) [OF c n]
      by (cases "n = node_id (group_at c g)") (simp_all add: add_free_node)
  qed
  have "counts_ok ?c" using gr nd by (simp add: counts_ok_def)
  then show ?thesis using tables_ok_frame [OF fr c] w(1) by simp
qed

section \<open>Taking CPUs\<close>

text \<open>What a call that takes CPUs does: \<open>new\<close> were free CPUs of the machine and now belong to the job.\<close>

definition takes :: "cpu_alloc_t \<Rightarrow> cpu_state \<Rightarrow> cpu_alloc_t \<Rightarrow> cpu_state \<Rightarrow> nat list \<Rightarrow> bool" where
  "takes a c a' c' new \<longleftrightarrow> frame_eq c c' \<and> tables_ok c'
     \<and> cpu_owner c' = mark new (a_jobid a) (cpu_owner c)
     \<and> distinct new \<and> (\<forall>cpu \<in> set new. cpu \<in> topo_cpus (topo c) \<and> cpu_owner c ! cpu = 0)
     \<and> a_cpus a' = a_cpus a @ new \<and> a_jobid a' = a_jobid a \<and> a_error a' = a_error a
     \<and> a_slots a' = a_slots a"

lemma topo_cpus_bound: "tables_ok c \<Longrightarrow> cpu \<in> topo_cpus (topo c) \<Longrightarrow> cpu < length (cpu_owner c)"
  by (auto simp: tables_ok_def wf_topo_def topo_cpus_def in_set_conv_nth [of _ "groups _"])

lemma takes_refl: "tables_ok c \<Longrightarrow> takes a c a c []"
  by (simp add: takes_def)

lemma takes_trans:
  assumes "takes a c a1 c1 n1" "takes a1 c1 a2 c2 n2" "tables_ok c" "a_jobid a \<noteq> 0"
  shows "takes a c a2 c2 (n1 @ n2)"
proof -
  have "frame_eq c c1" using assms(1) by (simp only: takes_def)
  note st = strip_topo_cpus [OF frame_eq_strip [OF this]]
  note t = assms(1,2) [unfolded takes_def]
  have new: "cpu \<notin> set n1 \<and> cpu_owner c ! cpu = 0" if "cpu \<in> set n2" for cpu
  proof -
    have "cpu < length (cpu_owner c)" "cpu_owner c1 ! cpu = 0"
      using that t(2) st topo_cpus_bound [OF assms(3)] by auto
    then show ?thesis using t(1) assms(4) by (auto simp: nth_mark split: if_splits)
  qed
  have "frame_eq c c2" using t frame_eq_trans by blast
  moreover have "cpu_owner c2 = mark (n1 @ n2) (a_jobid a) (cpu_owner c)"
    using t by (simp add: mark_append)
  moreover have "distinct (n1 @ n2)" using t new by auto
  moreover have "\<forall>cpu \<in> set (n1 @ n2). cpu \<in> topo_cpus (topo c) \<and> cpu_owner c ! cpu = 0"
    using t(1,2) new st by auto
  ultimately show ?thesis using t by (simp add: takes_def)
qed

lemma take_from_group_takes:
  assumes c: "tables_ok c" and g: "g < length (groups (topo c))" and j: "a_jobid a \<noteq> 0" and N: "0 \<le> N"
  shows "\<exists>new a' c'. take_from_group g N a c = (int (length new), a', c') \<and> takes a c a' c' new
    \<and> int (length new) = min N (free_count (group_at c g))
    \<and> (\<forall>g' < length (groups (topo c)). free_count (group_at c' g') =
          free_count (group_at c g') - (if g' = g then int (length new) else 0))"
proof -
  let ?cs = "gcpus (group_at c g)" and ?w = "cpu_owner c"
  define new where "new = take (nat N) (filter (\<lambda>cpu. ?w ! cpu = 0) ?cs)"
  define c' where "c' = add_free g (- int (length new)) (c\<lparr>cpu_owner := mark new (a_jobid a) ?w\<rparr>)"
  note G = tables_ok_groupD [OF c g]
  have new: "distinct new" "set new \<subseteq> {cpu \<in> set ?cs. ?w ! cpu = 0}"
    unfolding new_def using G(2) by (auto intro: distinct_take dest: in_set_takeD)
  have sub: "cpu \<in> topo_cpus (topo c)" if "cpu \<in> set new" for cpu
    using that new(2) g by (auto simp: topo_cpus_def group_at_def intro!: bexI [of _ "groups (topo c) ! g"])
  have eq: "take_from_group g N a c = (int (length new),
      (if free_count (group_at c' g) > 0
       then a\<lparr>a_cpus := a_cpus a @ new, quality := quality a + 1\<rparr> else a\<lparr>a_cpus := a_cpus a @ new\<rparr>), c')"
    using take_scan_eq [OF G(2,3) N] unfolding take_from_group_def
    by (simp add: Let_def c'_def new_def flip: gcpus_def)
  have "tables_ok c'" unfolding c'_def
    using new nfree_mark_same [OF G(2,3) j new(2,1)]
    by (intro add_free_tables [OF c g]) (auto simp: nth_mark)
  moreover have "frame_eq c c'" unfolding c'_def
    by (rule frame_eq_trans [OF _ add_free_frame]) (simp add: frame_eq_def)
  ultimately have "takes a c (fst (snd (take_from_group g N a c))) c' new"
    using new sub by (auto simp: eq takes_def c'_def)
  moreover have "int (length new) = min N (free_count (group_at c g))"
    using N by (simp add: new_def G(4) nfree_def)
  moreover have "\<forall>g' < length (groups (topo c)). free_count (group_at c' g') =
      free_count (group_at c g') - (if g' = g then int (length new) else 0)"
    by (simp add: c'_def add_free_group)
  ultimately show ?thesis
    by (intro exI [of _ new] exI [of _ "fst (snd (take_from_group g N a c))"] exI [of _ c']) (simp add: eq)
qed

section \<open>The group walk\<close>

lemma best_fit_Some:
  assumes "best_fit c remaining gs e b = Some g"
  shows "b = Some g \<or> g \<in> set gs \<and> free_count (group_at c g) \<ge> remaining"
  using assms by (induction gs arbitrary: e b) (auto simp: Let_def split: if_splits)

lemma most_free_Some:
  assumes "most_free c gs m b = Some g"
  shows "b = Some g \<or> g \<in> set gs \<and> free_count (group_at c g) > 0"
  using assms by (induction gs arbitrary: m b) (auto simp: Let_def split: if_splits)

lemma most_free_None:
  assumes "most_free c gs m b = None"
  shows "b = None \<and> (\<forall>g \<in> set gs. free_count (group_at c g) \<le> max 0 m)"
  using assms
proof (induction gs arbitrary: m b)
  case (Cons g gs)
  then show ?case
    using Cons.IH [of "free_count (group_at c g)" "Some g"] Cons.IH [of m b]
    by (auto simp: Let_def split: if_splits)
qed simp

abbreviation free_in :: "cpu_state \<Rightarrow> nat list \<Rightarrow> int" where
  "free_in c gs \<equiv> isum (\<lambda>g. free_count (group_at c g)) gs"

text \<open>One turn of the loop picks a group with at least one free core unless there is none left.\<close>

lemma pick_group:
  assumes "0 < remaining" "remaining \<le> free_in c gs"
  obtains g where "g \<in> set gs" "0 < free_count (group_at c g)"
    "alloc_loop (Suc fuel) remaining gs a c =
       (case take_from_group g remaining a c of (got, a', c') \<Rightarrow> alloc_loop fuel (remaining - got) gs a' c')"
proof (cases "best_fit c remaining gs INT_MAX None")
  case (Some g)
  then have "g \<in> set gs \<and> free_count (group_at c g) \<ge> remaining"
    using best_fit_Some by fastforce
  with Some assms(1) that [of g] show ?thesis
    by (simp add: alloc_loop.simps [of "Suc fuel"])
next
  case None
  have "most_free c gs (- 1) None \<noteq> None"
  proof
    assume "most_free c gs (- 1) None = None"
    then have "\<forall>g \<in> set gs. free_count (group_at c g) \<le> 0"
      using most_free_None [of c gs "- 1" None] by simp
    then have "free_in c gs \<le> 0" by (induction gs) auto
    with assms show False by simp
  qed
  then obtain g where g: "most_free c gs (- 1) None = Some g" by blast
  then have "g \<in> set gs \<and> free_count (group_at c g) > 0" using most_free_Some by fastforce
  with g None assms(1) that [of g] show ?thesis
    by (simp add: alloc_loop.simps [of "Suc fuel"])
qed

lemma alloc_loop_takes:
  assumes "tables_ok c" "a_jobid a \<noteq> 0" "distinct gs" "\<forall>g \<in> set gs. g < length (groups (topo c))"
    "0 \<le> remaining" "remaining \<le> free_in c gs" "nat remaining \<le> fuel"
  shows "\<exists>new a' c'. alloc_loop fuel remaining gs a c = Inr (0, a', c') \<and> takes a c a' c' new
    \<and> int (length new) = remaining"
  using assms
proof (induction fuel arbitrary: remaining a c)
  case 0
  then show ?case by (auto simp: alloc_loop.simps takes_refl intro!: exI [of _ "[]"])
next
  case (Suc fuel)
  show ?case
  proof (cases "remaining = 0")
    case True
    then show ?thesis
      using Suc.prems by (auto simp: alloc_loop.simps takes_refl intro!: exI [of _ "[]"])
  next
    case False
    with Suc.prems have pos: "0 < remaining" by simp
    obtain g where g: "g \<in> set gs" "0 < free_count (group_at c g)"
      and step: "alloc_loop (Suc fuel) remaining gs a c = (case take_from_group g remaining a c of
        (got, a', c') \<Rightarrow> alloc_loop fuel (remaining - got) gs a' c')"
      using pick_group [OF pos Suc.prems(6)] by metis
    have gl: "g < length (groups (topo c))" using g Suc.prems(4) by blast
    obtain n1 a1 c1 where t: "take_from_group g remaining a c = (int (length n1), a1, c1)"
        "takes a c a1 c1 n1" "int (length n1) = min remaining (free_count (group_at c g))"
        "\<forall>g' < length (groups (topo c)). free_count (group_at c1 g') =
          free_count (group_at c g') - (if g' = g then int (length n1) else 0)"
      using take_from_group_takes [OF Suc.prems(1) gl Suc.prems(2,5)] by blast
    have c1: "tables_ok c1" "a_jobid a1 = a_jobid a" "frame_eq c c1"
      using t(2) by (simp_all only: takes_def)
    have len: "length (groups (topo c1)) = length (groups (topo c))"
      using strip_lengths(1) [OF frame_eq_strip [OF c1(3)]] .
    have "free_in c1 gs = free_in c gs + (if g \<in> set gs then - int (length n1) else 0)"
      using t(4) Suc.prems(4) gl by (intro isum_one_changed [OF Suc.prems(3)]) auto
    then have more: "0 \<le> remaining - int (length n1)" "remaining - int (length n1) \<le> free_in c1 gs"
      "nat (remaining - int (length n1)) \<le> fuel"
      using g t(3) pos Suc.prems(6,7) by auto
    obtain n2 a2 c2 where r: "alloc_loop fuel (remaining - int (length n1)) gs a1 c1 = Inr (0, a2, c2)"
        "takes a1 c1 a2 c2 n2" "int (length n2) = remaining - int (length n1)"
      using Suc.IH [OF c1(1) _ Suc.prems(3) _ more] Suc.prems(2,4) c1(2) len by metis
    show ?thesis
      using r step t(1) takes_trans [OF t(2) r(2) Suc.prems(1,2)]
      by (intro exI [of _ "n1 @ n2"] exI [of _ a2] exI [of _ c2]) simp
  qed
qed

lemma alloc_from_groups_takes:
  assumes "tables_ok c" "a_jobid a \<noteq> 0" "distinct gs" "\<forall>g \<in> set gs. g < length (groups (topo c))"
    "0 \<le> N" "N \<le> free_in c gs"
  shows "\<exists>new a' c'. alloc_from_groups N gs a c = Inr (a', c') \<and> takes a c a' c' new
    \<and> int (length new) = N"
proof -
  have "nat N \<le> Suc (nat N)" by simp
  from alloc_loop_takes [OF assms this] obtain new a' c' where
    "alloc_loop (Suc (nat N)) N gs a c = Inr (0, a', c')" "takes a c a' c' new" "int (length new) = N"
    by blast
  then show ?thesis by (auto simp: alloc_from_groups_def)
qed

section \<open>Allocation\<close>

lemma pick_node_Some:
  assumes "pick_node c N ns m b = Some n"
  shows "b = Some n \<or> n \<in> set ns \<and> n_free_count (node_at c n) \<ge> N"
  using assms by (induction ns arbitrary: m b) (auto simp: Let_def split: if_splits)

text \<open>The nodes visited are a prefix of the order, long enough to hold the request.\<close>

lemma collect_nodes_prefix:
  assumes "N \<le> tot + isum (\<lambda>n. n_free_count (node_at c n)) ns"
  shows "\<exists>k. fst (collect_nodes c N ns tot gs b) = gs @ concat (map (\<lambda>n. group_ids (node_at c n)) (take k ns))
    \<and> N \<le> tot + isum (\<lambda>n. n_free_count (node_at c n)) (take k ns)"
  using assms
proof (induction ns arbitrary: tot gs b)
  case (Cons n ns)
  show ?case
  proof (cases "tot < N")
    case True
    from Cons.prems have "N \<le> tot + n_free_count (node_at c n) + isum (\<lambda>n. n_free_count (node_at c n)) ns"
      by simp
    from Cons.IH [OF this, of "gs @ group_ids (node_at c n)" "b OR push_bit n 1"] obtain k where
      "fst (collect_nodes c N (n # ns) tot gs b) =
         gs @ concat (map (\<lambda>n. group_ids (node_at c n)) (take (Suc k) (n # ns)))"
      "N \<le> tot + isum (\<lambda>n. n_free_count (node_at c n)) (take (Suc k) (n # ns))"
      using True by auto
    then show ?thesis by blast
  next
    case False
    then show ?thesis by (intro exI [of _ 0]) simp
  qed
qed (auto intro!: exI [of _ 0])

lemma isum_concat: "isum f (concat (map h xs)) = isum (\<lambda>x. isum f (h x)) xs"
  by (induction xs) simp_all

lemma node_order_set: "set (node_order c) = {..<length (nodes (topo c))}" "distinct (node_order c)"
  by (auto simp: node_order_def)

lemma total_free_order: "isum (\<lambda>n. n_free_count (node_at c n)) (node_order c) = total_free c"
proof -
  have "mset (node_order c) = mset [0..<length (nodes (topo c))]"
    by (simp add: node_order_def)
  from isum_mset [OF this] have "isum (\<lambda>n. n_free_count (node_at c n)) (node_order c) =
      isum (\<lambda>n. n_free_count (node_at c n)) [0..<length (nodes (topo c))]" by simp
  also have "\<dots> = sum_list (map n_free_count (map ((!) (nodes (topo c))) [0..<length (nodes (topo c))]))"
    by (simp add: node_at_def comp_def)
  finally show ?thesis by (simp add: map_nth total_free_def)
qed

lemma distinct_node_groups:
  assumes "tables_ok c" "distinct ns" "set ns \<subseteq> {..<length (nodes (topo c))}"
  shows "distinct (concat (map (\<lambda>n. group_ids (node_at c n)) ns))"
    "\<forall>g \<in> set (concat (map (\<lambda>n. group_ids (node_at c n)) ns)). g < length (groups (topo c))"
    "free_in c (concat (map (\<lambda>n. group_ids (node_at c n)) ns)) = isum (\<lambda>n. n_free_count (node_at c n)) ns"
  using assms(2,3)
proof (induction ns)
  case (Cons n ns)
  {
    case 1
    have "set (group_ids (node_at c n)) \<inter> set (group_ids (node_at c n')) = {}" if "n' \<in> set ns" for n'
      using 1 that tables_ok_nodeD(2) [OF assms(1)] by auto
    then show ?case
      using 1 Cons.IH(1) tables_ok_nodeD(1) [OF assms(1)] by auto
  next
    case 2
    then show ?case using Cons.IH(2) tables_ok_nodeD(2) [OF assms(1), of n] by auto
  next
    case 3
    then show ?case using Cons.IH(3) tables_ok_nodeD(3) [OF assms(1), of n] by simp
  }
qed simp_all

lemma cross_node_merge_takes:
  assumes "tables_ok c" "a_jobid a \<noteq> 0" "0 < N" "N \<le> total_free c"
  obtains new a0 a' c' where "cross_node_merge N a c = Inr (a', c')" "takes a0 c a' c' new"
    "int (length new) = N" "a_cpus a0 = a_cpus a" "a_jobid a0 = a_jobid a" "a_error a0 = a_error a"
    "a_slots a0 = a_slots a"
proof -
  obtain k where k: "fst (collect_nodes c N (node_order c) 0 [] 0) =
      concat (map (\<lambda>n. group_ids (node_at c n)) (take k (node_order c)))"
      "N \<le> isum (\<lambda>n. n_free_count (node_at c n)) (take k (node_order c))"
    using collect_nodes_prefix [of N 0 c "node_order c" "[]" 0] assms(4) by (auto simp: total_free_order)
  have sub: "distinct (take k (node_order c))" "set (take k (node_order c)) \<subseteq> {..<length (nodes (topo c))}"
    using node_order_set [of c] by (auto dest: in_set_takeD)
  obtain gs bm where cn: "collect_nodes c N (node_order c) 0 [] 0 = (gs, bm)" by fastforce
  with k(1) have gs: "gs = concat (map (\<lambda>n. group_ids (node_at c n)) (take k (node_order c)))" by simp
  note D = distinct_node_groups [OF assms(1) sub, folded gs]
  have Ngs: "N \<le> free_in c gs" using k(2) D(3) by simp
  then have ne: "gs \<noteq> []" using assms(3) by auto
  have "\<exists>p. cross_node_merge N a c = alloc_from_groups N gs (a\<lparr>primary_node := p, mem_nodes := bm\<rparr>) c"
    using ne by (auto simp: cross_node_merge_def cn Let_def)
  then obtain p where eq: "cross_node_merge N a c =
    alloc_from_groups N gs (a\<lparr>primary_node := p, mem_nodes := bm\<rparr>) c" by blast
  have j: "a_jobid (a\<lparr>primary_node := p, mem_nodes := bm\<rparr>) \<noteq> 0" using assms(2) by simp
  obtain new a' c' where "alloc_from_groups N gs (a\<lparr>primary_node := p, mem_nodes := bm\<rparr>) c = Inr (a', c')"
      "takes (a\<lparr>primary_node := p, mem_nodes := bm\<rparr>) c a' c' new" "int (length new) = N"
    using alloc_from_groups_takes [OF assms(1) j D(1,2) less_imp_le [OF assms(3)] Ngs] by blast
  with eq show ?thesis by (intro that [of a' c' "a\<lparr>primary_node := p, mem_nodes := bm\<rparr>" new]) simp_all
qed

lemma owner_count:
  assumes "j \<notin> set owner" "distinct new" "\<forall>cpu \<in> set new. cpu < length owner"
  shows "length (filter (\<lambda>w. w = j) (mark new j owner)) = length new"
proof -
  have "length (filter (\<lambda>w. w = j) (mark new j owner)) =
      card {i. i < length owner \<and> mark new j owner ! i = j}"
    by (simp add: length_filter_conv_card)
  also have "{i. i < length owner \<and> mark new j owner ! i = j} = set new"
    using assms(1,3) by (auto simp: nth_mark split: if_splits)
  finally show ?thesis using assms(2) by (simp add: distinct_card)
qed

lemma post_alloc_takes:
  assumes "takes a c a' c' new" "tables_ok c" "a_cpus a = []"
  shows "cpu_bind_post_alloc a' c' =
    (let a'' = a'\<lparr>a_cpus := sort new\<rparr>
     in if length (filter (\<lambda>w. w = a_jobid a) (cpu_owner c')) = length new then a''
        else a''\<lparr>a_error := 1\<rparr>)"
proof -
  note t = assms(1) [unfolded takes_def]
  have "cpu_owner c' ! cpu = a_jobid a" if "cpu \<in> set new" for cpu
    using that t topo_cpus_bound [OF assms(2)] by (simp add: nth_mark)
  then show ?thesis
    using t assms(3) by (simp add: cpu_bind_post_alloc_def Let_def)
qed

lemma cpu_bind_alloc_takes:
  assumes c: "tables_ok c" and j: "a_jobid a \<noteq> 0" and en: "\<not> cpu_bind_disabled c"
    and N: "0 < N" "N \<le> total_free c"
  obtains new a0 a' c' where "cpu_bind_alloc a N c = Inr (cpu_bind_post_alloc a' c', c')"
    "takes a0 c a' c' new" "int (length new) = N" "a_cpus a0 = []" "a_jobid a0 = a_jobid a"
    "a_error a0 = a_error a" "a_slots a0 = a_slots a"
proof -
  have j': "a_jobid (a\<lparr>a_cpus := []\<rparr>) \<noteq> 0" using j by simp
  show ?thesis
  proof (cases "pick_node c N [0..<length (nodes (topo c))] (- 1) None")
    case (Some n)
    then have n: "n < length (nodes (topo c))" "N \<le> n_free_count (node_at c n)"
      using pick_node_Some [OF Some] by auto
    note D = tables_ok_nodeD [OF c n(1)]
    have "\<forall>g \<in> set (group_ids (node_at c n)). g < length (groups (topo c))" using D(2) by auto
    then obtain new a' c' where r: "alloc_from_groups N (group_ids (node_at c n)) (a\<lparr>a_cpus := []\<rparr>) c = Inr (a', c')"
        "takes (a\<lparr>a_cpus := []\<rparr>) c a' c' new" "int (length new) = N"
      using alloc_from_groups_takes [OF c j' D(1) _ less_imp_le [OF N(1)]] n(2) D(3) by auto
    define a2 where "a2 = a'\<lparr>primary_node := int (n_node_id (node_at c n)),
      mem_nodes := push_bit (n_node_id (node_at c n)) 1\<rparr>"
    have "takes (a\<lparr>a_cpus := []\<rparr>) c a2 c' new" using r(2) by (simp add: takes_def a2_def)
    then show ?thesis
      using r en N Some by (intro that [of a2 c' "a\<lparr>a_cpus := []\<rparr>" new]) (simp_all add: cpu_bind_alloc_def a2_def)
  next
    case None
    obtain new a0 a' c' where "cross_node_merge N (a\<lparr>a_cpus := []\<rparr>) c = Inr (a', c')" "takes a0 c a' c' new"
      "int (length new) = N" "a_cpus a0 = []" "a_jobid a0 = a_jobid a" "a_error a0 = a_error a"
      "a_slots a0 = a_slots a"
      by (rule cross_node_merge_takes [OF c j' N]) auto
    then show ?thesis
      using en N None by (intro that [of a' c' a0 new]) (simp_all add: cpu_bind_alloc_def)
  qed
qed

section \<open>Release\<close>

lemma topo_cpu_group:
  assumes "tables_ok c" "cpu \<in> topo_cpus (topo c)"
  obtains g where "g < length (groups (topo c))" "cpu \<in> set (gcpus (group_at c g))"
    "cpu_to_group c ! cpu = int g" "cpu < length (cpu_owner c)"
proof -
  obtain g where "g < length (groups (topo c))" "cpu \<in> set (gcpus (group_at c g))"
    using assms(2) by (auto simp: topo_cpus_def group_at_def in_set_conv_nth [of _ "groups _"])
  then show ?thesis
    using that [of g] tables_ok_groupD(3,5) [OF assms(1), of g] by blast
qed

lemma nfree_release:
  assumes "distinct cs" "cpu \<in> set cs" "cpu < length owner" "owner ! cpu \<noteq> 0"
  shows "nfree (owner[cpu := 0]) cs = nfree owner cs + 1"
proof -
  have "{x \<in> set cs. owner[cpu := 0] ! x = 0} = insert cpu {x \<in> set cs. owner ! x = 0}"
    using assms by (auto simp: nth_list_update)
  then show ?thesis using assms by (simp add: nfree_card)
qed

lemma release_cpu_ok:
  assumes c: "tables_ok c" and cpu: "cpu \<in> topo_cpus (topo c)" "cpu_owner c ! cpu \<noteq> 0"
  obtains c' where "release_cpu cpu c = Inr c'" "tables_ok c'" "frame_eq c c'"
    "cpu_owner c' = (cpu_owner c)[cpu := 0]"
proof -
  obtain g where g: "g < length (groups (topo c))" "cpu \<in> set (gcpus (group_at c g))"
    "cpu_to_group c ! cpu = int g" "cpu < length (cpu_owner c)"
    using topo_cpu_group [OF c cpu(1)] .
  let ?c' = "add_free g 1 (c\<lparr>cpu_owner := (cpu_owner c)[cpu := 0]\<rparr>)"
  have "tables_ok ?c'"
  proof (rule add_free_tables [OF c g(1)])
    show "nfree ((cpu_owner c)[cpu := 0]) (gcpus (group_at c g)) = nfree (cpu_owner c) (gcpus (group_at c g)) + 1"
      using nfree_release [OF tables_ok_groupD(2) [OF c g(1)] g(2,4)] cpu(2) by blast
    show "(cpu_owner c)[cpu := 0] ! x = cpu_owner c ! x" if "x \<notin> set (gcpus (group_at c g))" for x
      using that g(2) by (metis nth_list_update_neq)
  qed simp
  moreover have "frame_eq c ?c'"
    by (rule frame_eq_trans [OF _ add_free_frame]) (simp add: frame_eq_def)
  ultimately show ?thesis using g(3) by (intro that [of ?c']) (simp_all add: release_cpu_def)
qed

lemma release_all_ok:
  assumes "tables_ok c" "distinct cs" "\<forall>cpu \<in> set cs. cpu \<in> topo_cpus (topo c) \<and> cpu_owner c ! cpu \<noteq> 0"
  shows "\<exists>c'. rfold release_cpu cs c = Inr c' \<and> tables_ok c' \<and> frame_eq c c'
    \<and> cpu_owner c' = mark cs 0 (cpu_owner c)"
  using assms
proof (induction cs arbitrary: c)
  case (Cons cpu cs)
  then have cpu: "cpu \<in> topo_cpus (topo c)" "cpu_owner c ! cpu \<noteq> 0" by simp_all
  obtain c1 where c1: "release_cpu cpu c = Inr c1" "tables_ok c1" "frame_eq c c1"
      "cpu_owner c1 = (cpu_owner c)[cpu := 0]"
    using release_cpu_ok [OF Cons.prems(1) cpu] .
  have st: "topo_cpus (topo c1) = topo_cpus (topo c)"
    by (rule strip_topo_cpus [OF frame_eq_strip [OF c1(3)]])
  have "x \<in> topo_cpus (topo c1) \<and> cpu_owner c1 ! x \<noteq> 0" if "x \<in> set cs" for x
    using that Cons.prems(2,3) c1(4) st by (metis distinct.simps(2) list.set_intros(2) nth_list_update_neq)
  then obtain c2 where c2: "rfold release_cpu cs c1 = Inr c2" "tables_ok c2" "frame_eq c1 c2"
      "cpu_owner c2 = mark cs 0 (cpu_owner c1)"
    using Cons.IH [OF c1(2)] Cons.prems(2) by auto
  then show ?case using c1 frame_eq_trans [OF c1(3) c2(3)] by (simp add: mark_Cons)
qed simp

section \<open>Live allocations\<close>

definition cpus_of :: "cpu_state \<Rightarrow> nat \<Rightarrow> nat list" where
  "cpus_of c h = (case store c h of None \<Rightarrow> [] | Some a \<Rightarrow> a_cpus a)"

definition alloc_ok :: "cpu_state \<Rightarrow> nat \<Rightarrow> bool" where
  "alloc_ok c h \<longleftrightarrow> h < next_alloc c \<and> (\<exists>a. store c h = Some a \<and> a_jobid a \<noteq> 0 \<and> distinct (a_cpus a)
     \<and> (\<forall>cpu \<in> set (a_cpus a). cpu \<in> topo_cpus (topo c) \<and> cpu_owner c ! cpu = a_jobid a))"

text \<open>
  The owner table, the counters and the live allocations agree: an allocation owns its
  CPUs, no CPU is in two allocations, and an owned CPU is in one.
\<close>

definition cpu_ok :: "cpu_state \<Rightarrow> bool" where
  "cpu_ok c \<longleftrightarrow> tables_ok c \<and> distinct (allocs c) \<and> (\<forall>h \<in> set (allocs c). alloc_ok c h)
   \<and> (\<forall>h \<in> set (allocs c). \<forall>h' \<in> set (allocs c). h \<noteq> h' \<longrightarrow> set (cpus_of c h) \<inter> set (cpus_of c h') = {})
   \<and> (\<forall>cpu < length (cpu_owner c). cpu_owner c ! cpu \<noteq> 0 \<longrightarrow> (\<exists>h \<in> set (allocs c). cpu \<in> set (cpus_of c h)))"

lemma frame_eq_fields:
  assumes "frame_eq c c'"
  shows "allocs c' = allocs c" "store c' = store c" "next_alloc c' = next_alloc c"
    "cpu_to_group c' = cpu_to_group c" "cpu_bind_disabled c' = cpu_bind_disabled c"
    "cpu_bind_defrag_disabled c' = cpu_bind_defrag_disabled c" "topo_cpus (topo c') = topo_cpus (topo c)"
proof -
  have eq: "c' = c\<lparr>topo := topo c', cpu_owner := cpu_owner c'\<rparr>" using assms by (simp only: frame_eq_def)
  show "allocs c' = allocs c" by (subst eq) simp
  show "store c' = store c" by (subst eq) simp
  show "next_alloc c' = next_alloc c" by (subst eq) simp
  show "cpu_to_group c' = cpu_to_group c" by (subst eq) simp
  show "cpu_bind_disabled c' = cpu_bind_disabled c" by (subst eq) simp
  show "cpu_bind_defrag_disabled c' = cpu_bind_defrag_disabled c" by (subst eq) simp
  show "topo_cpus (topo c') = topo_cpus (topo c)"
    by (rule strip_topo_cpus [OF frame_eq_strip [OF assms]])
qed

lemma tables_ok_store [simp]:
  "tables_ok (c\<lparr>store := s\<rparr>) = tables_ok c" "tables_ok (c\<lparr>allocs := x\<rparr>) = tables_ok c"
  "tables_ok (c\<lparr>next_alloc := n\<rparr>) = tables_ok c"
  by (simp_all add: tables_ok_def counts_ok_def group_at_def node_at_def)

lemma cpu_okD:
  assumes "cpu_ok c" "h \<in> set (allocs c)"
  obtains a where "store c h = Some a" "a_jobid a \<noteq> 0" "distinct (a_cpus a)" "cpus_of c h = a_cpus a"
    "\<forall>cpu \<in> set (a_cpus a). cpu \<in> topo_cpus (topo c) \<and> cpu_owner c ! cpu = a_jobid a"
  using assms by (auto simp: cpu_ok_def alloc_ok_def cpus_of_def)

lemma cpu_ok_disjoint:
  "cpu_ok c \<Longrightarrow> h \<in> set (allocs c) \<Longrightarrow> h' \<in> set (allocs c) \<Longrightarrow> h \<noteq> h' \<Longrightarrow>
   set (cpus_of c h) \<inter> set (cpus_of c h') = {}"
  unfolding cpu_ok_def by blast

lemma cpu_ok_covered:
  "cpu_ok c \<Longrightarrow> cpu < length (cpu_owner c) \<Longrightarrow> cpu_owner c ! cpu \<noteq> 0 \<Longrightarrow>
   \<exists>h \<in> set (allocs c). cpu \<in> set (cpus_of c h)"
  unfolding cpu_ok_def by blast

lemma cpu_okI:
  assumes "tables_ok c" "distinct (allocs c)" "\<And>h. h \<in> set (allocs c) \<Longrightarrow> alloc_ok c h"
    "\<And>h h'. h \<in> set (allocs c) \<Longrightarrow> h' \<in> set (allocs c) \<Longrightarrow> h \<noteq> h' \<Longrightarrow>
       set (cpus_of c h) \<inter> set (cpus_of c h') = {}"
    "\<And>cpu. cpu < length (cpu_owner c) \<Longrightarrow> cpu_owner c ! cpu \<noteq> 0 \<Longrightarrow>
       \<exists>h \<in> set (allocs c). cpu \<in> set (cpus_of c h)"
  shows "cpu_ok c"
  using assms unfolding cpu_ok_def by blast

lemma alloc_init_ok:
  assumes "cpu_ok c" "jid \<noteq> 0" "cpu_bind_alloc_init jid n c = (h, c')"
  shows "cpu_ok c' \<and> allocs c' = allocs c @ [h] \<and> h \<notin> set (allocs c) \<and> cpus_of c' h = []
    \<and> (\<forall>k. k \<noteq> h \<longrightarrow> store c' k = store c k) \<and> cpu_owner c' = cpu_owner c"
proof -
  have c': "allocs c' = allocs c @ [h]" "h = next_alloc c" "next_alloc c' = Suc h"
    "store c' = (store c)(h \<mapsto> \<lparr>primary_node = 0, mem_nodes = 0, a_cpus = [], a_slots = n,
               a_jobid = jid, a_error = 0, quality = 0\<rparr>)"
    "cpu_owner c' = cpu_owner c" "topo c' = topo c" "tables_ok c' = tables_ok c"
    using assms(3) by (auto simp: cpu_bind_alloc_init_def Let_def)
  have lt: "\<forall>k \<in> set (allocs c). k < next_alloc c"
    using assms(1) by (simp add: cpu_ok_def alloc_ok_def)
  then have new: "h \<notin> set (allocs c)" using c'(2) by auto
  have old: "cpus_of c' k = (if k = h then [] else cpus_of c k)" for k
    by (simp add: cpus_of_def c')
  have "cpu_ok c'"
  proof (rule cpu_okI)
    show "tables_ok c'" "distinct (allocs c')" using assms(1) new by (simp_all add: c' cpu_ok_def)
    show "alloc_ok c' k" if "k \<in> set (allocs c')" for k
      using that assms(1,2) lt by (cases "k = h") (auto simp: cpu_ok_def alloc_ok_def c' less_Suc_eq)
    show "set (cpus_of c' k) \<inter> set (cpus_of c' k') = {}"
      if "k \<in> set (allocs c')" "k' \<in> set (allocs c')" "k \<noteq> k'" for k k'
      using that cpu_ok_disjoint [OF assms(1), of k k'] by (auto simp: old c'(1))
    show "\<exists>k \<in> set (allocs c'). cpu \<in> set (cpus_of c' k)"
      if cpu: "cpu < length (cpu_owner c')" "cpu_owner c' ! cpu \<noteq> 0" for cpu
    proof -
      obtain k where "k \<in> set (allocs c)" "cpu \<in> set (cpus_of c k)"
        using cpu_ok_covered [OF assms(1)] cpu c'(5) by metis
      then show ?thesis using new by (auto simp: old c'(1))
    qed
  qed
  then show ?thesis using new old c' by simp
qed

lemma cpu_ok_update:
  assumes c: "cpu_ok c" and h: "h \<in> set (allocs c)" "cpus_of c h = []" and a: "store c h = Some a"
    and t: "takes a0 c a' c' new" "a_jobid a0 = a_jobid a"
    and f: "mset (a_cpus a2) = mset new" "a_jobid a2 = a_jobid a"
  shows "cpu_ok (c'\<lparr>store := (store c')(h \<mapsto> a2)\<rparr>)" (is "cpu_ok ?c")
proof -
  note T = t(1) [unfolded takes_def]
  note F = frame_eq_fields [OF T [THEN conjunct1]]
  have new: "set (a_cpus a2) = set new" "distinct (a_cpus a2)"
    using f(1) T mset_eq_setD mset_eq_imp_distinct_iff by blast+
  have ct: "tables_ok c" "a_jobid a \<noteq> 0"
    using c h(1) a by (auto simp: cpu_ok_def alloc_ok_def)
  have bound: "cpu < length (cpu_owner c)" if "cpu \<in> set new" for cpu
    using that T topo_cpus_bound [OF ct(1)] by blast
  have old: "cpus_of ?c k = cpus_of c k" if "k \<noteq> h" for k
    using that F(2) by (simp add: cpus_of_def)
  have own: "cpu_owner c' ! cpu = cpu_owner c ! cpu \<and> cpu \<notin> set new"
    if k: "k \<in> set (allocs c)" and cpu: "cpu \<in> set (cpus_of c k)" for k cpu
  proof -
    have b: "cpu_owner c ! cpu \<noteq> 0" "cpu \<in> topo_cpus (topo c)"
      by (rule cpu_okD [OF c k]; use cpu in auto)+
    then have "cpu \<notin> set new" using T by fastforce
    then show ?thesis using T b topo_cpus_bound [OF ct(1) b(2)] by (simp add: nth_mark)
  qed
  have "alloc_ok ?c k" if k: "k \<in> set (allocs c)" for k
  proof (cases "k = h")
    case True
    then show ?thesis
      using k c T F new f t(2) ct bound by (auto simp: cpu_ok_def alloc_ok_def nth_mark)
  next
    case False
    then show ?thesis
      using k c F own [OF k] by (auto simp: cpu_ok_def alloc_ok_def cpus_of_def)
  qed
  moreover have "set (cpus_of ?c k) \<inter> set (cpus_of ?c k') = {}"
    if "k \<in> set (allocs c)" "k' \<in> set (allocs c)" "k \<noteq> k'" for k k'
  proof -
    have h2: "cpus_of ?c h = a_cpus a2" by (simp add: cpus_of_def)
    have "set (cpus_of c k) \<inter> set (cpus_of c k') = {}" using cpu_ok_disjoint [OF c that] .
    then show ?thesis using that own old h2 new by (cases "k = h"; cases "k' = h") auto
  qed
  moreover have "\<exists>k \<in> set (allocs c). cpu \<in> set (cpus_of ?c k)"
    if cpu: "cpu < length (cpu_owner c)" "cpu_owner c' ! cpu \<noteq> 0" for cpu
  proof (cases "cpu \<in> set new")
    case True
    then show ?thesis using h(1) new by (auto simp: cpus_of_def intro!: bexI [of _ h])
  next
    case False
    then have "cpu_owner c ! cpu \<noteq> 0" using that T by (simp add: nth_mark)
    then obtain k where "k \<in> set (allocs c)" "cpu \<in> set (cpus_of c k)"
      using cpu_ok_covered [OF c cpu(1)] by blast
    moreover from this have "k \<noteq> h" using h(2) by auto
    ultimately show ?thesis using old [of k] by (intro bexI [of _ k]) simp_all
  qed
  ultimately show ?thesis
    using c T F by (simp add: cpu_ok_def)
qed

text \<open>A successful allocation, seen from the live allocations.\<close>

lemma cpu_bind_alloc_h_ok:
  assumes c: "cpu_ok c" and h: "h \<in> set (allocs c)" "cpus_of c h = []"
  shows "\<exists>c' a'. cpu_bind_alloc_h h N c = Inr c' \<and> cpu_ok c' \<and> allocs c' = allocs c
    \<and> store c' h = Some a' \<and> (\<forall>k. k \<noteq> h \<longrightarrow> store c' k = store c k) \<and> strip (topo c') = strip (topo c)
    \<and> (if cpu_bind_disabled c \<or> N \<le> 0 \<or> total_free c < N then a_error a' = 1 \<and> a_cpus a' = []
       else int (length (a_cpus a')) = N \<and> sorted (a_cpus a')
         \<and> (\<forall>cpu \<in> set (a_cpus a'). cpu_owner c ! cpu = 0))"
proof -
  obtain a where a: "store c h = Some a" "a_jobid a \<noteq> 0" "a_cpus a = []"
    using cpu_okD [OF c h(1)] h(2) by metis
  have ct: "tables_ok c" using c by (simp add: cpu_ok_def)
  show ?thesis
  proof (cases "cpu_bind_disabled c \<or> N \<le> 0 \<or> total_free c < N")
    case True
    let ?c = "c\<lparr>store := (store c)(h \<mapsto> a\<lparr>a_error := 1\<rparr>)\<rparr>"
    have "cpu_ok ?c"
      using cpu_ok_update [OF c h a(1) takes_refl [OF ct, of a], of "a\<lparr>a_error := 1\<rparr>"] a(3) by simp
    then show ?thesis
      using True a by (intro exI [of _ ?c] exI [of _ "a\<lparr>a_error := 1\<rparr>"])
        (auto simp: cpu_bind_alloc_h_def alloc_at_def cpu_bind_alloc_def)
  next
    case False
    then have p: "\<not> cpu_bind_disabled c" "0 < N" "N \<le> total_free c" by auto
    obtain new a0 a' c' where r: "cpu_bind_alloc a N c = Inr (cpu_bind_post_alloc a' c', c')"
      "takes a0 c a' c' new" "int (length new) = N" "a_cpus a0 = []" "a_jobid a0 = a_jobid a"
      using cpu_bind_alloc_takes [OF ct a(2) p] by metis
    define a2 where "a2 = cpu_bind_post_alloc a' c'"
    have a2: "a_cpus a2 = sort new" "a_jobid a2 = a_jobid a"
      using post_alloc_takes [OF r(2) ct r(4)] r(2,5) by (auto simp: a2_def Let_def takes_def)
    have "cpu_ok (c'\<lparr>store := (store c')(h \<mapsto> a2)\<rparr>)"
      using cpu_ok_update [OF c h a(1) r(2,5)] a2 by simp
    moreover have "frame_eq c c'" using r(2) by (simp only: takes_def)
    ultimately show ?thesis
      using False a r a2 frame_eq_fields [OF \<open>frame_eq c c'\<close>] frame_eq_strip [OF \<open>frame_eq c c'\<close>]
      by (intro exI [of _ "c'\<lparr>store := (store c')(h \<mapsto> a2)\<rparr>"] exI [of _ a2])
        (auto simp: cpu_bind_alloc_h_def alloc_at_def takes_def simp flip: a2_def)
  qed
qed

lemma cpu_bind_free_ok:
  assumes c: "cpu_ok c" and h: "h \<in> set (allocs c)"
  shows "\<exists>c'. cpu_bind_free h c = Inr c' \<and> cpu_ok c' \<and> allocs c' = remove1 h (allocs c)
    \<and> store c' = (store c)(h := None) \<and> cpu_owner c' = mark (cpus_of c h) 0 (cpu_owner c)
    \<and> strip (topo c') = strip (topo c)"
proof -
  obtain a where a: "store c h = Some a" "a_jobid a \<noteq> 0" "distinct (a_cpus a)" "cpus_of c h = a_cpus a"
    "\<forall>cpu \<in> set (a_cpus a). cpu \<in> topo_cpus (topo c) \<and> cpu_owner c ! cpu = a_jobid a"
    using cpu_okD [OF c h] .
  have ct: "tables_ok c" using c by (simp add: cpu_ok_def)
  obtain c1 where c1: "rfold release_cpu (a_cpus a) c = Inr c1" "tables_ok c1" "frame_eq c c1"
      "cpu_owner c1 = mark (a_cpus a) 0 (cpu_owner c)"
    using release_all_ok [OF ct a(3)] a(2,5) by auto
  note F = frame_eq_fields [OF c1(3)]
  let ?c = "c1\<lparr>allocs := remove1 h (allocs c1), store := (store c1)(h := None)\<rparr>"
  have rest: "set (remove1 h (allocs c)) = set (allocs c) - {h}"
    using c by (simp add: cpu_ok_def)
  have old: "cpus_of ?c k = cpus_of c k" if "k \<noteq> h" for k
    using that F(2) by (simp add: cpus_of_def)
  have disj: "set (cpus_of c k) \<inter> set (a_cpus a) = {}" if "k \<in> set (allocs c)" "k \<noteq> h" for k
    using cpu_ok_disjoint [OF c that(1) h that(2)] a(4) by simp
  have own: "cpu_owner c1 ! cpu = cpu_owner c ! cpu" if "k \<in> set (allocs c)" "k \<noteq> h" "cpu \<in> set (cpus_of c k)" "cpu < length (cpu_owner c)" for k cpu
    using that disj [of k] c1(4) by (auto simp: nth_mark)
  have "alloc_ok ?c k" if k: "k \<in> set (allocs c)" "k \<noteq> h" for k
  proof -
    obtain b where b: "store c k = Some b" "a_jobid b \<noteq> 0" "distinct (a_cpus b)" "cpus_of c k = a_cpus b"
      "\<forall>cpu \<in> set (a_cpus b). cpu \<in> topo_cpus (topo c) \<and> cpu_owner c ! cpu = a_jobid b"
      using cpu_okD [OF c k(1)] .
    moreover have "k < next_alloc c" using c k by (simp add: cpu_ok_def alloc_ok_def)
    ultimately show ?thesis
      using k own [OF k] topo_cpus_bound [OF ct] F by (auto simp: alloc_ok_def)
  qed
  moreover have "\<exists>k \<in> set (allocs c) - {h}. cpu \<in> set (cpus_of ?c k)"
    if cpu: "cpu < length (cpu_owner c)" "cpu_owner c1 ! cpu \<noteq> 0" for cpu
  proof -
    have "cpu \<notin> set (a_cpus a)" "cpu_owner c ! cpu \<noteq> 0"
      using that c1(4) by (auto simp: nth_mark split: if_splits)
    then obtain k where k: "k \<in> set (allocs c)" "cpu \<in> set (cpus_of c k)"
      using cpu_ok_covered [OF c cpu(1)] by blast
    with \<open>cpu \<notin> set (a_cpus a)\<close> a(4) have "k \<noteq> h" by auto
    with k old show ?thesis by auto
  qed
  ultimately have "cpu_ok ?c"
    using c c1 F rest old by (auto simp: cpu_ok_def)
  then show ?thesis
    using a c1 F frame_eq_strip [OF c1(3)] by (intro exI [of _ ?c]) (simp add: cpu_bind_free_def alloc_at_def)
qed

section \<open>The allocator contract\<close>

text \<open>
  What the job operations rely on: a handle is opened, filled once and closed; the live
  handles hold disjoint sets of CPUs; no call faults and none touches another handle.
\<close>

locale cpu_allocator =
  fixes ok :: "'c \<Rightarrow> bool"
    and handles :: "'c \<Rightarrow> nat set"
    and held_cpus :: "'c \<Rightarrow> nat \<Rightarrow> nat list"
    and open_alloc :: "int \<Rightarrow> int \<Rightarrow> 'c \<Rightarrow> nat \<times> 'c"
    and fill :: "nat \<Rightarrow> int \<Rightarrow> 'c \<Rightarrow> 'c res"
    and close_alloc :: "nat \<Rightarrow> 'c \<Rightarrow> 'c res"
  assumes exclusive: "ok c \<Longrightarrow> h \<in> handles c \<Longrightarrow> h' \<in> handles c \<Longrightarrow> h \<noteq> h' \<Longrightarrow>
      set (held_cpus c h) \<inter> set (held_cpus c h') = {}"
    and open_ok: "ok c \<Longrightarrow> j \<noteq> 0 \<Longrightarrow> open_alloc j n c = (h, c') \<Longrightarrow>
      ok c' \<and> handles c' = insert h (handles c) \<and> h \<notin> handles c \<and> held_cpus c' h = []
      \<and> (\<forall>k. k \<noteq> h \<longrightarrow> held_cpus c' k = held_cpus c k)"
    and fill_ok: "ok c \<Longrightarrow> h \<in> handles c \<Longrightarrow> held_cpus c h = [] \<Longrightarrow>
      returns (fill h n c) (\<lambda>c'. ok c' \<and> handles c' = handles c
        \<and> (\<forall>k. k \<noteq> h \<longrightarrow> held_cpus c' k = held_cpus c k))"
    and close_ok: "ok c \<Longrightarrow> h \<in> handles c \<Longrightarrow>
      returns (close_alloc h c) (\<lambda>c'. ok c' \<and> handles c' = handles c - {h}
        \<and> (\<forall>k. k \<noteq> h \<longrightarrow> held_cpus c' k = held_cpus c k))"
begin

lemma acquire:
  assumes "ok c" "j \<noteq> 0" "open_alloc j n c = (h, c1)"
  shows "returns (fill h m c1) (\<lambda>c2. ok c2 \<and> handles c2 = insert h (handles c) \<and> h \<notin> handles c
    \<and> (\<forall>k \<in> handles c. held_cpus c2 k = held_cpus c k))"
proof -
  note o = open_ok [OF assms]
  then have "ok c1" "h \<in> handles c1" "held_cpus c1 h = []" by auto
  from fill_ok [OF this] show ?thesis
    by (rule returns_mono) (use o in auto)
qed

text \<open>An acquisition that is given back at once leaves the handles as they were.\<close>

lemma acquire_release:
  assumes "ok c" "j \<noteq> 0" "open_alloc j n c = (h, c1)"
  shows "returns (rbind (fill h m c1) (close_alloc h)) (\<lambda>c2. ok c2 \<and> handles c2 = handles c
    \<and> (\<forall>k \<in> handles c. held_cpus c2 k = held_cpus c k))"
proof (rule returns_bind [OF acquire [OF assms, of m]])
  fix c2 assume c2: "ok c2 \<and> handles c2 = insert h (handles c) \<and> h \<notin> handles c
    \<and> (\<forall>k \<in> handles c. held_cpus c2 k = held_cpus c k)"
  then have "returns (close_alloc h c2) (\<lambda>c'. ok c' \<and> handles c' = handles c2 - {h}
      \<and> (\<forall>k. k \<noteq> h \<longrightarrow> held_cpus c' k = held_cpus c2 k))"
    using close_ok by blast
  then show "returns (close_alloc h c2) (\<lambda>c2. ok c2 \<and> handles c2 = handles c
      \<and> (\<forall>k \<in> handles c. held_cpus c2 k = held_cpus c k))"
    by (rule returns_mono) (use c2 in auto)
qed

end

interpretation pool: cpu_allocator cpu_ok "\<lambda>c. set (allocs c)" cpus_of
  cpu_bind_alloc_init cpu_bind_alloc_h cpu_bind_free
proof
  fix c h h'
  show "cpu_ok c \<Longrightarrow> h \<in> set (allocs c) \<Longrightarrow> h' \<in> set (allocs c) \<Longrightarrow> h \<noteq> h' \<Longrightarrow>
    set (cpus_of c h) \<inter> set (cpus_of c h') = {}" by (rule cpu_ok_disjoint)
next
  fix c c' :: cpu_state and j n h
  assume "cpu_ok c" "j \<noteq> 0" "cpu_bind_alloc_init j n c = (h, c')"
  from alloc_init_ok [OF this] show "cpu_ok c' \<and> set (allocs c') = insert h (set (allocs c))
      \<and> h \<notin> set (allocs c) \<and> cpus_of c' h = [] \<and> (\<forall>k. k \<noteq> h \<longrightarrow> cpus_of c' k = cpus_of c k)"
    by (auto simp: cpus_of_def)
next
  fix c :: cpu_state and h n
  assume "cpu_ok c" "h \<in> set (allocs c)" "cpus_of c h = []"
  from cpu_bind_alloc_h_ok [OF this, of n]
  show "returns (cpu_bind_alloc_h h n c) (\<lambda>c'. cpu_ok c' \<and> set (allocs c') = set (allocs c)
      \<and> (\<forall>k. k \<noteq> h \<longrightarrow> cpus_of c' k = cpus_of c k))"
    by (auto simp: returns_iff cpus_of_def)
next
  fix c :: cpu_state and h
  assume c: "cpu_ok c" "h \<in> set (allocs c)"
  from cpu_bind_free_ok [OF this] c
  show "returns (cpu_bind_free h c) (\<lambda>c'. cpu_ok c' \<and> set (allocs c') = set (allocs c) - {h}
      \<and> (\<forall>k. k \<noteq> h \<longrightarrow> cpus_of c' k = cpus_of c k))"
    by (auto simp: returns_iff cpus_of_def cpu_ok_def)
qed

end
