(* ===== verification/Dispatch.thy ===== *)
theory Dispatch
  imports Invariant_Ops Cpu_Bind_Correct
begin

text \<open>
  The dispatcher returns: with the server invariant and consistent CPU tables,
  \<open>next_run_job\<close> runs out of neither fuel nor luck, keeps both invariants, never hands out
  more slots than the server and the user have, and stops only when no user it looks at has
  a job that could start.
\<close>

section \<open>One job\<close>

lemma attach_cpus_returns:
  assumes "cpu_ok (cpu s)" "jobid p \<noteq> 0"
  shows "returns (attach_cpus p s) (\<lambda>(p', s'). cpu_ok (cpu s'))"
proof -
  obtain h c1 where i: "cpu_bind_alloc_init (jobid p) (num_allocated p) (cpu s) = (h, c1)" by fastforce
  obtain c2 where c2: "cpu_bind_alloc_h h (num_allocated p) c1 = Inr c2" "cpu_ok c2" "h \<in> set (allocs c2)"
    using pool.acquire [OF assms i, of "num_allocated p"] by (auto simp: returns_iff)
  have "\<exists>a. alloc_at c2 h = Inr a"
    by (rule cpu_okD [OF c2(2,3)]) (simp add: alloc_at_def)
  then obtain a where a: "alloc_at c2 h = Inr a" by blast
  obtain c3 where c3: "cpu_bind_free h c2 = Inr c3" "cpu_ok c3"
    using cpu_bind_free_ok [OF c2(2,3)] by blast
  show ?thesis using i c2 a c3 by (simp add: attach_cpus_def)
qed

lemma config_running_returns:
  assumes "job_ok b (length (users_vec s)) p" "cpu_ok (cpu s)" "jobid p \<noteq> 0"
    "state p = PAUSE \<or> state p = QUEUED"
  shows "\<exists>p' s'. config_running p s = Inr (False, p', s') \<and> cpu_ok (cpu s')"
proof -
  define s1 where "s1 = (if is_sleep p s = 1 then cgroups_thaw_job p s else s)"
  have s1: "users_vec s1 = users_vec s" "cpu s1 = cpu s"
    by (simp_all add: s1_def cgroups_thaw_job_def kill_cont_def Let_def)
  obtain u where u: "user p = Some u" "u < length (users_vec s)"
    using assms(1) by (auto simp: job_ok_def)
  define s2 where "s2 = s1\<lparr>users_vec := (users_vec s1)
     [u := (users_vec s1 ! u)\<lparr>busy := busy (users_vec s1 ! u) + num_slots p, njobs := njobs (users_vec s1 ! u) + 1\<rparr>]\<rparr>"
  have up: "upd_user (user p) (\<lambda>u. u\<lparr>busy := busy u + num_slots p, njobs := njobs u + 1\<rparr>) s1 = Inr s2"
    using u s1 by (simp add: upd_user_def s2_def)
  define p1 where "p1 = p\<lparr>num_allocated := num_slots p, state := RUNNING, wall_time := i64abs (wall_time p)\<rparr>"
  define s4 where "s4 = update_field_int64 (jobid p) ''wall_time'' (wall_time p1)
     (s2\<lparr>busy_slots := busy_slots s2 + num_slots p\<rparr>)"
  obtain p2 s5 where r: "rerun_job_config p1 s4 = (p2, s5)" by fastforce
  have c5: "cpu s5 = cpu s" "jobid p2 = jobid p"
    using r s1 by (auto simp: rerun_job_config_def Let_def update_field_int64_def s4_def s2_def p1_def split: if_splits)
  have eq: "config_running p s = (if TS_CPU_BIND (world s) \<and> pid p2 \<noteq> 0 \<and> cpu_alloc p2 = None
       \<and> cpu_bind_enabled (cpu s5) \<and> no_cpu_binding p2 = 0 \<and> num_allocated p2 > 0
     then rbind (attach_cpus p2 s5) (\<lambda>(p3, s6). Inr (False, p3, s6)) else Inr (False, p2, s5))"
    using assms(4) up r unfolding config_running_def
    by (auto simp: Let_def s1_def [symmetric] p1_def [symmetric] s4_def [symmetric])
  obtain p3 s6 where "attach_cpus p2 s5 = Inr (p3, s6)" "cpu_ok (cpu s6)"
    using attach_cpus_returns [of s5 p2] assms(2,3) c5 by (auto simp: returns_iff)
  then show ?thesis using eq c5 assms(2) by auto
qed

lemma mark_running_returns:
  assumes "job_ok b (length (users_vec s)) p" "cpu_ok (cpu s)" "jobid p \<noteq> 0" "state p = QUEUED"
  shows "\<exists>p' s'. mark_running_body p s = Inr (p', s') \<and> cpu_ok (cpu s')"
proof -
  define p1 where "p1 = (if output_filename p = None
    then p\<lparr>output_filename := stdout_link (world s) (pid p)\<rparr> else p)"
  have "job_ok b (length (users_vec s)) p1" "jobid p1 \<noteq> 0" "state p1 = QUEUED"
    using assms by (auto simp: p1_def job_ok_def)
  from config_running_returns [OF this(1) assms(2) this(2)] this(3)
  obtain p' s' where "config_running p1 s = Inr (False, p', s')" "cpu_ok (cpu s')" by blast
  then show ?thesis using assms(2) by (auto simp: mark_running_body_def Let_def simp flip: p1_def)
qed

section \<open>One dispatch\<close>

text \<open>The effect of starting the job at position \<open>j\<close> for user \<open>u\<close>.\<close>

definition started :: "nat \<Rightarrow> nat \<Rightarrow> srv \<Rightarrow> job \<Rightarrow> srv \<Rightarrow> bool" where
  "started u j s p' s' \<longleftrightarrow>
     active_jobs s' = (active_jobs s)[j := p'] \<and> job_weight p' < job_weight (active_jobs s ! j)
   \<and> jobid p' = jobid (active_jobs s ! j) \<and> user p' = Some u \<and> num_slots p' = num_slots (active_jobs s ! j)
   \<and> length (users_vec s') = length (users_vec s) \<and> max_slots s' = max_slots s \<and> world s' = world s
   \<and> busy_slots s' = busy_slots s + run_slots p'
   \<and> (\<forall>v < length (users_vec s). umax_slots (users_vec s' ! v) = umax_slots (users_vec s ! v)
        \<and> busy (users_vec s' ! v) = busy (users_vec s ! v) + user_slots v p')
   \<and> finished_jobs s' = finished_jobs s"

lemma exact_move_counters:
  assumes "moves True p s p' s'" "state p \<noteq> RUNNING"
  shows "busy_slots s' = busy_slots s + run_slots p'"
    "v < length (users_vec s) \<Longrightarrow> busy (users_vec s' ! v) = busy (users_vec s ! v) + user_slots v p'"
  using assms by (auto simp: moves_def delta_def at_least_def weight_defs)

lemma pick_jobD:
  assumes "pick_job u s = Some j"
  shows "j < length (active_jobs s)" "dispatchable u s j"
    "\<And>i. i < j \<Longrightarrow> \<not> dispatchable u s i"
  using assms by (auto simp: pick_job_def find_Some_iff)

lemma started_intro:
  assumes "srv_ok b s0" "j < length (active_jobs s0)" "core s0 = core s"
    and "busy_slots s0 = busy_slots s" "\<And>v. v < length (users_vec s) \<Longrightarrow> busy (users_vec s0 ! v) = busy (users_vec s ! v)"
    and m: "moves True (active_jobs s0 ! j) s0 p' s1" and ok: "job_ok b (length (users_vec s0)) p'"
    and st: "state (active_jobs s0 ! j) \<noteq> RUNNING" "user (active_jobs s0 ! j) = Some u"
    and w: "job_weight p' < job_weight (active_jobs s0 ! j)" and cp: "cpu_ok (cpu s1)"
    and s': "s' = (emit ev (set_active j p' s1))\<lparr>last_uid := l\<rparr>"
  shows "srv_ok b s' \<and> cpu_ok (cpu s') \<and> started u j s p' s'"
proof -
  have "srv_ok b (set_active j p' s1)" using srv_ok_set_active [OF assms(1,2) moves_exact [OF m] ok] .
  then have "srv_ok b s'" using srv_ok_view [of s' "set_active j p' s1"] by (simp add: s')
  moreover note F0 = core_fields [OF assms(3)] and F1 = moves_fields [OF m]
  have n: "length (users_vec s0) = length (users_vec s)" using F0 by simp
  have "umax_slots (users_vec s1 ! v) = umax_slots (users_vec s ! v)" if "v < length (users_vec s)" for v
    using core_user(1) [OF moves_core [OF m], of v] core_user(1) [OF assms(3) that] that n by simp
  moreover note exact_move_counters [OF m st(1)]
  moreover have "jobid p' = jobid (active_jobs s ! j)" "user p' = Some u" "num_slots p' = num_slots (active_jobs s ! j)"
    using m st(2) F0 by (simp_all add: moves_def)
  ultimately show ?thesis
    using assms(4,5) F0 F1 n w cp by (simp add: started_def s' set_active_def)
qed

lemma dispatch_queued:
  assumes ok: "srv_ok b s" "cpu_ok (cpu s)" and u: "u < length (users_vec s)"
    and j: "j < length (active_jobs s)" "user (active_jobs s ! j) = Some u" "state (active_jobs s ! j) = QUEUED"
  shows "\<exists>p' s'. dispatch u j s = Inr s' \<and> srv_ok b s' \<and> cpu_ok (cpu s') \<and> started u j s p' s'"
proof -
  let ?p = "active_jobs s ! j"
  define s0 where "s0 = s\<lparr>users_vec := (users_vec s)[u := (users_vec s ! u)\<lparr>queue := queue (users_vec s ! u) - 1\<rparr>]\<rparr>"
  have up: "upd_user (Some u) (\<lambda>x. x\<lparr>queue := queue x - 1\<rparr>) s = Inr s0"
    using u by (simp add: upd_user_def s0_def)
  have c0: "core s0 = core s" using upd_user_core [OF up] by (simp add: user_id_def)
  have b0: "busy (users_vec s0 ! v) = busy (users_vec s ! v)" "njobs (users_vec s0 ! v) = njobs (users_vec s ! v)"
    if "v < length (users_vec s)" for v
    using that u by (simp_all add: s0_def nth_list_update)
  have "view s0 = view s"
    using u by (simp add: view_def s0_def map_update list_update_same_conv)
  then have ok0: "srv_ok b s0" using srv_ok_view ok(1) by blast
  have a0: "active_jobs s0 = active_jobs s" "cpu s0 = cpu s" by (simp_all add: s0_def)
  have jok: "job_ok b (length (users_vec s0)) ?p" using job_okD [OF ok0] j a0 by simp
  have nz: "jobid ?p \<noteq> 0" using ok(1) j(1) by (simp add: srv_ok_def ids_ok_def)
  obtain p' s1 where b: "mark_running_body ?p s0 = Inr (p', s1)" "cpu_ok (cpu s1)"
    using mark_running_returns [OF jok _ nz j(3)] ok(2) a0 by auto
  note m = mark_running_moves [OF b(1) jok j(3)]
  have idx: "findjob_idx (jobid ?p) s0 = Some j"
    using ok(1) j(1) a0 find_idx_distinct [of jobid "active_jobs s" j]
    by (simp add: findjob_idx_def srv_ok_def ids_ok_def)
  have act1: "active_jobs s1 = active_jobs s" using moves_fields(1) m a0 by metis
  have jid: "jobid p' = jobid ?p" using m by (simp add: moves_def)
  have "findjob (jobid ?p) (set_active j p' s1) = Some p'"
  proof -
    have "map jobid ((active_jobs s)[j := p']) = map jobid (active_jobs s)"
      using j(1) jid by (simp add: map_update list_update_same_conv)
    then have "distinct (map jobid ((active_jobs s)[j := p']))"
      using ok(1) by (simp add: srv_ok_def ids_ok_def)
    from find_idx_distinct [OF this, of j] show ?thesis
      using j(1) jid act1 by (simp add: findjob_def findjob_idx_def set_active_def)
  qed
  then have "dispatch u j s = Inr ((emit (Send (client_socket ?p) (RUNJOB (jobid ?p) (dependency_errorlevel p')))
      (set_active j p' s1))\<lparr>last_uid := (u + 1) mod length (users_vec (set_active j p' s1))\<rparr>)" (is "_ = Inr ?s'")
    using j(1,3) up idx b(1) a0
    by (simp add: dispatch_def Let_def s_mark_job_running_def on_active_def s_send_runjob_def)
  moreover have w: "job_weight p' < job_weight ?p"
    using m j(3) by (auto simp: job_weight_def)
  have "srv_ok b ?s' \<and> cpu_ok (cpu ?s') \<and> started u j s p' ?s'"
    by (rule started_intro [OF ok0 _ c0 _ b0(1) _ _ _ _ _ b(2) refl])
      (use m j w a0 in \<open>simp_all add: s0_def\<close>)
  ultimately show ?thesis by blast
qed

lemma dispatch_paused:
  assumes ok: "srv_ok b s" "cpu_ok (cpu s)" and u: "u < length (users_vec s)"
    and j: "j < length (active_jobs s)" "user (active_jobs s ! j) = Some u" "state (active_jobs s ! j) = PAUSE"
      "wall_time (active_jobs s ! j) < 0"
  shows "\<exists>p' s'. dispatch u j s = Inr s' \<and> srv_ok b s' \<and> cpu_ok (cpu s') \<and> started u j s p' s'"
proof -
  let ?p = "active_jobs s ! j"
  have jok: "job_ok b (length (users_vec s)) ?p" using job_okD [OF ok(1) j(1)] .
  have nz: "jobid ?p \<noteq> 0" using ok(1) j(1) by (simp add: srv_ok_def ids_ok_def)
  obtain p' s1 where b: "config_running ?p s = Inr (False, p', s1)" "cpu_ok (cpu s1)"
    using config_running_returns [OF jok ok(2) nz] j(3) by blast
  note m = config_running_moves [OF b(1) jok]
  have act1: "active_jobs s1 = active_jobs s" using moves_fields(1) m by metis
  have jid: "jobid p' = jobid ?p" using m by (simp add: moves_def)
  have "map jobid ((active_jobs s)[j := p']) = map jobid (active_jobs s)"
    using j(1) jid by (simp add: map_update list_update_same_conv)
  then have "distinct (map jobid ((active_jobs s)[j := p']))"
    using ok(1) by (simp add: srv_ok_def ids_ok_def)
  from find_idx_distinct [OF this, of j] have "findjob (jobid ?p) (set_active j p' s1) = Some p'"
    using j(1) jid act1 by (simp add: findjob_def findjob_idx_def set_active_def)
  then have "dispatch u j s = Inr ((emit (Send (client_socket ?p) (RUNJOB (jobid ?p) (dependency_errorlevel p')))
      (set_active j p' s1))\<lparr>last_uid := (u + 1) mod length (users_vec (set_active j p' s1))\<rparr>)" (is "_ = Inr ?s'")
    using j(1,3) b(1) by (simp add: dispatch_def Let_def on_active_def s_send_runjob_def)
  moreover have w: "job_weight p' < job_weight ?p"
    using m j(3,4) by (auto simp: job_weight_def)
  have "srv_ok b ?s' \<and> cpu_ok (cpu ?s') \<and> started u j s p' ?s'"
    by (rule started_intro [OF ok(1) j(1) refl refl refl _ _ _ _ w b(2) refl]) (use m j in simp_all)
  ultimately show ?thesis by blast
qed

lemma dispatch_ok:
  assumes "srv_ok b s" "cpu_ok (cpu s)" "u < length (users_vec s)" "pick_job u s = Some j"
  shows "\<exists>p' s'. dispatch u j s = Inr s' \<and> srv_ok b s' \<and> cpu_ok (cpu s') \<and> started u j s p' s'"
proof -
  note d = pick_jobD [OF assms(4)]
  then consider "user (active_jobs s ! j) = Some u" "state (active_jobs s ! j) = QUEUED"
    | "user (active_jobs s ! j) = Some u" "state (active_jobs s ! j) = PAUSE" "wall_time (active_jobs s ! j) < 0"
    by (auto simp: dispatchable_def Let_def)
  then show ?thesis
    using dispatch_queued [OF assms(1-3) d(1)] dispatch_paused [OF assms(1-3) d(1)] by cases
qed

section \<open>The loop\<close>

text \<open>What a sequence of dispatches may change: counters grow at most up to the limits.\<close>

definition grows :: "srv \<Rightarrow> srv \<Rightarrow> bool" where
  "grows s s' \<longleftrightarrow> length (users_vec s') = length (users_vec s) \<and> max_slots s' = max_slots s
   \<and> world s' = world s \<and> finished_jobs s' = finished_jobs s
   \<and> map jobid (active_jobs s') = map jobid (active_jobs s)
   \<and> busy_slots s' \<le> max (busy_slots s) (max_slots s)
   \<and> (\<forall>v < length (users_vec s). umax_slots (users_vec s' ! v) = umax_slots (users_vec s ! v)
        \<and> busy (users_vec s' ! v) \<le> max (busy (users_vec s ! v)) (umax_slots (users_vec s ! v)))"

lemma grows_refl [simp]: "grows s s"
  by (simp add: grows_def)

lemma grows_trans: "grows s s1 \<Longrightarrow> grows s1 s2 \<Longrightarrow> grows s s2"
  by (fastforce simp: grows_def)

lemma isum_nat_update:
  fixes f :: "'a \<Rightarrow> nat"
  assumes "i < length xs"
  shows "sum_list (map f (xs[i := x])) + f (xs ! i) = sum_list (map f xs) + f x"
  using assms by (induction xs arbitrary: i) (auto split: nat.splits)

lemma started_grows:
  assumes "pick_job u s = Some j" "started u j s p' s'" "u < length (users_vec s)" "srv_ok b s"
  shows "grows s s'" "dispatch_bound s' < dispatch_bound s"
proof -
  note d = pick_jobD [OF assms(1)]
  then have fit: "fits u (active_jobs s ! j) s" by (auto simp: dispatchable_def Let_def)
  have n: "num_slots (active_jobs s ! j) > 0" using job_okD [OF assms(4) d(1)] by (simp add: job_ok_def)
  note S = assms(2) [unfolded started_def]
  have "map jobid (active_jobs s') = map jobid (active_jobs s)"
    using S d(1) by (simp add: map_update list_update_same_conv)
  moreover have "busy_slots s' \<le> max (busy_slots s) (max_slots s)"
    using S fit n by (auto simp: fits_def free_slots_def run_slots_def)
  moreover have "busy (users_vec s' ! v) \<le> max (busy (users_vec s ! v)) (umax_slots (users_vec s ! v))"
    if "v < length (users_vec s)" for v
    using S fit that n by (cases "v = u") (auto simp: fits_def user_slots_def)
  ultimately show "grows s s'" using S by (simp add: grows_def)
  show "dispatch_bound s' < dispatch_bound s"
    using S isum_nat_update [OF d(1), of job_weight p'] by (simp add: dispatch_bound_def)
qed

text \<open>
  One pass: it returns, keeps the invariants, and a pass that starts nothing changes nothing
  and has found no slot free or nothing to start for every user it visited.
\<close>

lemma round_ok:
  assumes "srv_ok b s" "cpu_ok (cpu s)" "users_vec s \<noteq> []"
  shows "\<exists>k s'. round is d s = Inr (d + int k, s') \<and> srv_ok b s' \<and> cpu_ok (cpu s') \<and> grows s s'
    \<and> dispatch_bound s' + k \<le> dispatch_bound s
    \<and> (k = 0 \<longrightarrow> s' = s \<and> (free_slots s \<le> 0 \<or> (\<forall>i \<in> set is.
         let u = (last_uid s + i) mod length (users_vec s)
         in queue (users_vec s ! u) = 0 \<or> pick_job u s = None)))"
  using assms
proof (induction "is" arbitrary: d s)
  case Nil
  then show ?case by (intro exI [of _ 0] exI [of _ s]) simp
next
  case (Cons i "is")
  let ?u = "(last_uid s + i) mod length (users_vec s)"
  have u: "?u < length (users_vec s)" using Cons.prems(3) by simp
  note IH = Cons.IH [OF Cons.prems, of d]
  consider "queue (users_vec s ! ?u) = 0" | "queue (users_vec s ! ?u) \<noteq> 0" "free_slots s \<le> 0"
    | "queue (users_vec s ! ?u) \<noteq> 0" "free_slots s > 0" "pick_job ?u s = None"
    | j where "queue (users_vec s ! ?u) \<noteq> 0" "free_slots s > 0" "pick_job ?u s = Some j"
    by (cases "pick_job ?u s"; cases "queue (users_vec s ! ?u) = 0"; cases "free_slots s \<le> 0") auto
  then show ?case
  proof cases
    case 1
    then show ?thesis using IH by (auto simp: Let_def)
  next
    case 2
    then show ?thesis using Cons.prems by (intro exI [of _ 0] exI [of _ s]) (simp add: Let_def)
  next
    case 3
    then show ?thesis using IH by (auto simp: Let_def)
  next
    case (4 j)
    obtain p' s1 where s1: "dispatch ?u j s = Inr s1" "srv_ok b s1" "cpu_ok (cpu s1)" "started ?u j s p' s1"
      using dispatch_ok [OF Cons.prems(1,2) u 4(3)] by blast
    note g = started_grows [OF 4(3) s1(4) u Cons.prems(1)]
    have "users_vec s1 \<noteq> []" using g(1) Cons.prems(3) by (auto simp: grows_def)
    from Cons.IH [OF s1(2,3) this, of "d + 1"] obtain k s' where r: "round is (d + 1) s1 = Inr (d + 1 + int k, s')"
      "srv_ok b s'" "cpu_ok (cpu s')" "grows s1 s'" "dispatch_bound s' + k \<le> dispatch_bound s1" by blast
    then show ?thesis
      using 4 s1(1) g grows_trans [OF g(1) r(4)]
      by (intro exI [of _ "Suc k"] exI [of _ s']) (simp add: Let_def add_ac)
  qed
qed

lemma wake_hold_client_ok:
  assumes "wake_hold_client s = (Some jid, s')" "srv_ok b s"
  shows "srv_ok b s'" "grows s s'" "dispatch_bound s' \<le> dispatch_bound s" "cpu s' = cpu s" "users_vec s' = users_vec s"
proof -
  obtain i where f: "find_idx (\<lambda>p. state p = HOLDING_CLIENT) True (active_jobs s) = Some i"
    and s': "s' = set_active i ((active_jobs s ! i)\<lparr>state := QUEUED\<rparr>) s"
    using assms(1) by (auto simp: wake_hold_client_def findjob_holding_client_def split: option.splits)
  have i: "i < length (active_jobs s)" "state (active_jobs s ! i) = HOLDING_CLIENT"
    using find_idx_SomeD [OF f] by auto
  let ?p = "(active_jobs s ! i)\<lparr>state := QUEUED\<rparr>"
  have "job_ok b (length (users_vec s)) ?p"
    using job_okD [OF assms(2) i(1)] i(2) by (auto simp: job_ok_def live_def)
  moreover have "moves b (active_jobs s ! i) s ?p s" using i(2) by (intro moves_same) simp_all
  ultimately show "srv_ok b s'" using srv_ok_set_active [OF assms(2) i(1)] s' by blast
  show "grows s s'"
    using i(1) by (simp add: grows_def s' set_active_def map_update list_update_same_conv)
  show "dispatch_bound s' \<le> dispatch_bound s"
    using isum_nat_update [OF i(1), of job_weight ?p] i(2)
    by (simp add: dispatch_bound_def s' set_active_def job_weight_def)
  show "cpu s' = cpu s" "users_vec s' = users_vec s" by (simp_all add: s' set_active_def)
qed

lemma grows_emit [simp]: "grows s (emit ev s') = grows s s'"
  by (simp add: grows_def)

lemma dispatch_bound_emit [simp]: "dispatch_bound (emit ev s) = dispatch_bound s"
  by (simp add: dispatch_bound_def)

lemma srv_ok_emit [simp]: "srv_ok b (emit ev s) = srv_ok b s"
  by (rule srv_ok_view) simp

lemma wake_all_ok:
  "srv_ok b s \<Longrightarrow> srv_ok b (wake_all_held_clients s) \<and> grows s (wake_all_held_clients s)
   \<and> dispatch_bound (wake_all_held_clients s) \<le> dispatch_bound s
   \<and> cpu (wake_all_held_clients s) = cpu s \<and> users_vec (wake_all_held_clients s) = users_vec s"
proof (induction s rule: wake_all_held_clients.induct)
  case (1 s)
  obtain jo s' where w: "wake_hold_client s = (jo, s')" by fastforce
  show ?case
  proof (cases jo)
    case None
    then have "s' = s" using w by (auto simp: wake_hold_client_def split: option.splits)
    then show ?thesis using 1 w None by (simp add: wake_all_held_clients.simps [of s])
  next
    case (Some jid)
    define s1 where "s1 = (case findjob jid s' of None \<Rightarrow> s'
       | Some p \<Rightarrow> s_send_newjob_ok (client_socket p) jid s')"
    note W = wake_hold_client_ok [OF w [unfolded Some] "1.prems"]
    have s1: "srv_ok b s1" "grows s s1" "dispatch_bound s1 \<le> dispatch_bound s" "cpu s1 = cpu s" "users_vec s1 = users_vec s"
      using W by (auto simp: s1_def s_send_newjob_ok_def split: option.splits)
    have eq: "wake_all_held_clients s = wake_all_held_clients s1"
      using w Some by (simp add: wake_all_held_clients.simps [of s] s1_def)
    have "srv_ok b (wake_all_held_clients s1) \<and> grows s1 (wake_all_held_clients s1)
      \<and> dispatch_bound (wake_all_held_clients s1) \<le> dispatch_bound s1
      \<and> cpu (wake_all_held_clients s1) = cpu s1 \<and> users_vec (wake_all_held_clients s1) = users_vec s1"
      using "1.IH" [OF w [symmetric] Some] s1(1) by (simp add: s1_def)
    then show ?thesis unfolding eq using s1 grows_trans le_trans by metis
  qed
qed

text \<open>Nothing more to do: no job, no free slot, or no user with a queue has a job that could start.\<close>

definition settled :: "srv \<Rightarrow> bool" where
  "settled s \<longleftrightarrow> free_slots s \<le> 0 \<or> (\<forall>u < length (users_vec s). queue (users_vec s ! u) \<noteq> 0 \<longrightarrow>
     (\<forall>j < length (active_jobs s). \<not> dispatchable u s j))"

lemma all_users_visited:
  assumes "u < n"
  shows "\<exists>i \<in> set [0..<n]. (l + i) mod n = u"
proof -
  define i where "i = (u + (n - l mod n)) mod n"
  have "(l + i) mod n = (l mod n + (u + (n - l mod n))) mod n"
    by (simp add: i_def mod_simps)
  also have "l mod n + (u + (n - l mod n)) = u + n"
    using assms mod_less_divisor [of n l] by linarith
  finally have "(l + i) mod n = u" using assms by simp
  moreover have "i < n" using assms by (simp add: i_def)
  ultimately show ?thesis by auto
qed

lemma pick_job_None: "pick_job u s = None \<longleftrightarrow> (\<forall>j < length (active_jobs s). \<not> dispatchable u s j)"
  by (auto simp: pick_job_def find_None_iff)

lemma run_loop_ok:
  assumes "srv_ok b s" "cpu_ok (cpu s)" "users_vec s \<noteq> []" "dispatch_bound s \<le> fuel" "0 \<le> d"
  shows "\<exists>d' s'. run_loop fuel d s = Inr (d', s') \<and> d \<le> d' \<and> srv_ok b s' \<and> cpu_ok (cpu s') \<and> grows s s' \<and> settled s'"
  using assms
proof (induction fuel arbitrary: d s)
  case (0 d s)
  show ?case
  proof (cases "active_jobs s = []")
    case True
    then show ?thesis using 0 by (auto simp: run_loop.simps settled_def)
  next
    case False
    obtain k s' where r: "round [0..<length (users_vec s)] 0 s = Inr (int k, s')"
      "dispatch_bound s' + k \<le> dispatch_bound s"
      "k = 0 \<longrightarrow> s' = s \<and> (free_slots s \<le> 0 \<or> (\<forall>i \<in> set [0..<length (users_vec s)].
         let u = (last_uid s + i) mod length (users_vec s)
         in queue (users_vec s ! u) = 0 \<or> pick_job u s = None))"
      using round_ok [OF "0.prems"(1-3), of "[0..<length (users_vec s)]" 0] by auto
    then have "k = 0" "s' = s" using "0.prems"(4) by auto
    then have "settled s"
      using r(3) all_users_visited [of _ "length (users_vec s)" "last_uid s"]
      by (fastforce simp: settled_def Let_def pick_job_None)
    then show ?thesis using 0 r \<open>k = 0\<close> \<open>s' = s\<close> False by (simp add: run_loop.simps)
  qed
next
  case (Suc fuel d s)
  show ?case
  proof (cases "active_jobs s = []")
    case True
    then show ?thesis using Suc.prems by (auto simp: run_loop.simps settled_def)
  next
    case False
    obtain k s' where r: "round [0..<length (users_vec s)] 0 s = Inr (int k, s')"
      "srv_ok b s'" "cpu_ok (cpu s')" "grows s s'" "dispatch_bound s' + k \<le> dispatch_bound s"
      "k = 0 \<longrightarrow> s' = s \<and> (free_slots s \<le> 0 \<or> (\<forall>i \<in> set [0..<length (users_vec s)].
         let u = (last_uid s + i) mod length (users_vec s)
         in queue (users_vec s ! u) = 0 \<or> pick_job u s = None))"
      using round_ok [OF Suc.prems(1-3), of "[0..<length (users_vec s)]" 0] by auto
    show ?thesis
    proof (cases "k = 0")
      case True
      then have "s' = s" using r(6) by simp
      have "settled s"
        using r(6) True all_users_visited [of _ "length (users_vec s)" "last_uid s"]
        by (fastforce simp: settled_def Let_def pick_job_None)
      then show ?thesis using Suc.prems r True \<open>s' = s\<close> False by (simp add: run_loop.simps)
    next
      case k: False
      let ?w = "wake_all_held_clients s'"
      note w = wake_all_ok [OF r(2)]
      have "users_vec ?w \<noteq> []" using w r(4) Suc.prems(3) by (auto simp: grows_def)
      moreover have "dispatch_bound ?w \<le> fuel" using w r(5) Suc.prems(4) k by auto
      ultimately obtain d' s2 where l: "run_loop fuel (d + int k) ?w = Inr (d', s2)" "d + int k \<le> d'"
        "srv_ok b s2" "cpu_ok (cpu s2)" "grows ?w s2" "settled s2"
        using Suc.IH [of ?w "d + int k"] w r(3) Suc.prems(5) by auto
      have "grows s s2" using grows_trans [OF grows_trans [OF r(4)] l(5)] w by blast
      moreover have "run_loop (Suc fuel) d s = Inr (d', s2)"
        using False r(1) k l(1) by (simp add: run_loop.simps [of "Suc fuel"])
      ultimately show ?thesis using l by auto
    qed
  qed
qed

lemma next_run_job_ok:
  assumes "srv_ok b s" "cpu_ok (cpu s)" "users_vec s \<noteq> []"
  shows "\<exists>d s'. next_run_job s = Inr (d, s') \<and> 0 \<le> d \<and> srv_ok b s' \<and> cpu_ok (cpu s') \<and> grows s s' \<and> settled s'"
  using run_loop_ok [OF assms order.refl, of 0] by (simp add: next_run_job_def)

end
