(* ===== verification/Cpu_Pool.thy ===== *)
theory Cpu_Pool
  imports Cpu_Bind_Correct
begin

text \<open>
  The CPU pool as a whole: \<open>cpu_bind_init\<close> starts from a consistent pool, no CPU is ever lost
  or counted twice, and the computation of the defragmenter (\<open>defrag_compute\<close>) always finds a
  place for every allocation, keeps the size of each one and leaves the well placed ones
  alone.
\<close>

section \<open>The CPU pool at start\<close>

text \<open>What the topology table says about its own sizes.\<close>

definition sized_topo :: "topology \<Rightarrow> bool" where
  "sized_topo t \<longleftrightarrow>
     (\<forall>g \<in> set (groups t). num_cores g = int (length (os_cpus g)))
   \<and> (\<forall>n < length (nodes t). n_num_cores (nodes t ! n) =
        isum (\<lambda>g. num_cores (groups t ! g)) (group_ids (nodes t ! n)))"

lemma mark_groups_other:
  "k \<notin> (\<Union>g \<in> set gs. set (gcpus g)) \<Longrightarrow> index_groups i gs tbl ! k = tbl ! k"
proof (induction gs arbitrary: i tbl)
  case (Cons g gs)
  have "foldl (\<lambda>t k. t[k := int i]) tbl cs ! k = tbl ! k" if "k \<notin> set cs" for cs
    using that by (induction cs arbitrary: tbl) auto
  then show ?case using Cons by (simp add: gcpus_def)
qed simp

lemma index_groups_nth:
  assumes "g < length gs" "k \<in> set (gcpus (gs ! g))" "k < length tbl"
    "\<forall>g' < length gs. g' \<noteq> g \<longrightarrow> k \<notin> set (gcpus (gs ! g'))"
  shows "index_groups i gs tbl ! k = int (i + g)"
  using assms
proof (induction gs arbitrary: i g tbl)
  case (Cons x gs)
  let ?t = "mark (gcpus x) (int i) tbl"
  show ?case
  proof (cases g)
    case 0
    have "k \<notin> (\<Union>y \<in> set gs. set (gcpus y))"
      using Cons.prems(4) 0 by (fastforce simp: in_set_conv_nth)
    then show ?thesis
      using Cons.prems 0 mark_groups_other [of k gs "Suc i" ?t] nth_mark [of k tbl "gcpus x" "int i"]
      by (simp add: mark_def gcpus_def)
  next
    case (Suc j)
    then have "index_groups (Suc i) gs ?t ! k = int (Suc i + j)"
      using Cons.prems by (intro Cons.IH) fastforce+
    then show ?thesis using Suc by (simp add: mark_def gcpus_def)
  qed
qed simp

definition indexed :: "cpu_state \<Rightarrow> bool" where
  "indexed c \<longleftrightarrow> (\<forall>g < length (groups (topo c)). \<forall>k \<in> set (gcpus (groups (topo c) ! g)). cpu_to_group c ! k = int g)"

lemma reset_topo:
  "strip (topo (reset_counters c)) = strip (topo c)" "cpu_owner (reset_counters c) = replicate (max_os_cpu (topo c)) 0"
  "allocs (reset_counters c) = allocs c" "store (reset_counters c) = store c"
  "next_alloc (reset_counters c) = next_alloc c" "cpu_to_group (reset_counters c) = cpu_to_group c"
  by (simp_all add: strip_def reset_counters_def comp_def)

lemma reset_counters_ok:
  assumes "wf_topo (topo c)" "sized_topo (topo c)" "indexed c"
  shows "tables_ok (reset_counters c)"
proof -
  let ?c = "reset_counters c"
  have g: "groups (topo ?c) = map (\<lambda>g. g\<lparr>free_count := num_cores g\<rparr>) (groups (topo c))"
    "nodes (topo ?c) = map (\<lambda>n. n\<lparr>n_free_count := n_num_cores n\<rparr>) (nodes (topo c))"
    "max_os_cpu (topo ?c) = max_os_cpu (topo c)"
    by (simp_all add: reset_counters_def)
  have wf: "wf_topo (topo ?c)" using strip_wf [OF reset_topo(1)] assms(1) by blast
  have own: "cpu_owner ?c ! k = 0" if "i < length (groups (topo c))" "k \<in> set (gcpus (groups (topo c) ! i))" for i k
    using assms(1) that by (auto simp: reset_topo wf_topo_def)
  have free: "nfree (cpu_owner ?c) (gcpus (groups (topo c) ! i)) = num_cores (groups (topo c) ! i)"
    if "i < length (groups (topo c))" for i
  proof -
    have "filter (\<lambda>k. cpu_owner ?c ! k = 0) (gcpus (groups (topo c) ! i)) = gcpus (groups (topo c) ! i)"
      using own [OF that] by simp
    moreover have "num_cores (groups (topo c) ! i) = int (length (os_cpus (groups (topo c) ! i)))"
      using assms(2) that by (auto simp: sized_topo_def)
    ultimately show ?thesis by (simp add: nfree_def gcpus_def)
  qed
  have "counts_ok ?c"
    using free assms(1,2) by (auto simp: counts_ok_def group_at_def node_at_def g sized_topo_def wf_topo_def
        intro!: arg_cong [of _ _ sum_list] map_cong)
  then show ?thesis
    using wf assms(3) by (simp add: tables_ok_def g group_at_def indexed_def reset_topo)
qed

lemma init_indexed:
  assumes "wf_topo (topo c)" "cpu_to_group c = index_groups 0 (groups (topo c)) (replicate (max_os_cpu (topo c)) (- 1))"
  shows "indexed c"
  unfolding indexed_def
proof (intro allI impI ballI)
  fix i k assume ik: "i < length (groups (topo c))" "k \<in> set (gcpus (groups (topo c) ! i))"
  have "k < max_os_cpu (topo c)"
    "\<forall>j < length (groups (topo c)). j \<noteq> i \<longrightarrow> k \<notin> set (gcpus (groups (topo c) ! j))"
    using assms(1) ik by (auto simp: wf_topo_def) blast
  then show "cpu_to_group c ! k = int i"
    using index_groups_nth [of i "groups (topo c)" k "replicate (max_os_cpu (topo c)) (- 1)" 0] ik
    by (simp add: assms(2))
qed

lemma cpu_bind_init_ok:
  assumes "wf_topo (topo c)" "sized_topo (topo c)"
  shows "cpu_ok (cpu_bind_init c)"
proof -
  let ?c = "c\<lparr>cpu_bind_disabled := False, cpu_bind_defrag_disabled := False, allocs := [],
    cpu_to_group := index_groups 0 (groups (topo c)) (replicate (max_os_cpu (topo c)) (- 1))\<rparr>"
  have "tables_ok (reset_counters ?c)"
    using assms by (intro reset_counters_ok init_indexed) simp_all
  then show ?thesis by (simp add: cpu_ok_def cpu_bind_init_def reset_topo)
qed

section \<open>Conservation of CPUs\<close>

lemma total_free_card:
  assumes c: "tables_ok c"
  shows "total_free c = int (card {k \<in> topo_cpus (topo c). cpu_owner c ! k = 0})"
proof -
  let ?ns = "[0..<length (nodes (topo c))]" and ?free = "\<lambda>g. {k \<in> set (gcpus (group_at c g)). cpu_owner c ! k = 0}"
  let ?gs = "concat (map (\<lambda>n. group_ids (node_at c n)) ?ns)"
  have D: "distinct ?gs" "\<forall>g \<in> set ?gs. g < length (groups (topo c))"
      "free_in c ?gs = isum (\<lambda>n. n_free_count (node_at c n)) ?ns"
    by (rule distinct_node_groups [OF c]; auto)+
  have "g \<in> set ?gs" if "g < length (groups (topo c))" for g
  proof -
    have "node_id (group_at c g) < length (nodes (topo c))" using tables_ok_groupD(1) [OF c that] .
    moreover from this have "g \<in> set (group_ids (node_at c (node_id (group_at c g))))"
      using tables_ok_nodeD(2) [OF c] that by blast
    ultimately show ?thesis by (auto intro!: bexI [of _ "node_id (group_at c g)"])
  qed
  with D(2) have all: "set ?gs = {..<length (groups (topo c))}" by auto
  have "total_free c = isum (\<lambda>n. n_free_count (node_at c n)) ?ns"
    by (simp add: total_free_def node_at_def map_nth flip: map_map [unfolded comp_def])
  also have "\<dots> = (\<Sum>g \<in> set ?gs. free_count (group_at c g))"
    using D(1,3) by (simp add: sum_list_distinct_conv_sum_set)
  also have "\<dots> = (\<Sum>g \<in> set ?gs. int (card (?free g)))"
    using all tables_ok_groupD(2,4) [OF c] by (intro sum.cong) (auto simp: nfree_card)
  also have "\<dots> = int (card (\<Union>g \<in> set ?gs. ?free g))"
    using tables_ok_disjoint [OF c] all by (subst card_UN_disjoint) (auto simp: set_eq_iff)
  also have "(\<Union>g \<in> set ?gs. ?free g) = {k \<in> topo_cpus (topo c). cpu_owner c ! k = 0}"
    unfolding all by (fastforce simp: topo_cpus_def group_at_def in_set_conv_nth [of _ "groups _"])
  finally show ?thesis .
qed

text \<open>Every CPU of the machine is either free or in exactly one allocation.\<close>

lemma cpu_ok_count:
  assumes c: "cpu_ok c"
  shows "total_free c + isum (\<lambda>h. int (length (cpus_of c h))) (allocs c) = int (card (topo_cpus (topo c)))"
proof -
  have ct: "tables_ok c" "distinct (allocs c)" using c by (simp_all add: cpu_ok_def)
  let ?used = "{k \<in> topo_cpus (topo c). cpu_owner c ! k \<noteq> 0}"
  have own: "set (cpus_of c h) \<subseteq> ?used \<and> distinct (cpus_of c h)" if "h \<in> set (allocs c)" for h
    by (rule cpu_okD [OF c that]) auto
  have "isum (\<lambda>h. int (length (cpus_of c h))) (allocs c) = (\<Sum>h \<in> set (allocs c). int (card (set (cpus_of c h))))"
    using ct(2) own by (simp add: sum_list_distinct_conv_sum_set distinct_card)
  also have "\<dots> = int (card (\<Union>h \<in> set (allocs c). set (cpus_of c h)))"
    using cpu_ok_disjoint [OF c] by (subst card_UN_disjoint) auto
  also have "(\<Union>h \<in> set (allocs c). set (cpus_of c h)) = ?used"
  proof
    show "(\<Union>h \<in> set (allocs c). set (cpus_of c h)) \<subseteq> ?used" using own by blast
    show "?used \<subseteq> (\<Union>h \<in> set (allocs c). set (cpus_of c h))"
    proof
      fix k assume "k \<in> ?used"
      then show "k \<in> (\<Union>h \<in> set (allocs c). set (cpus_of c h))"
        using cpu_ok_covered [OF c, of k] topo_cpus_bound [OF ct(1), of k] by simp
    qed
  qed
  finally have u: "isum (\<lambda>h. int (length (cpus_of c h))) (allocs c) = int (card ?used)" .
  have fin: "finite (topo_cpus (topo c))" by (simp add: topo_cpus_def)
  let ?idle = "{k \<in> topo_cpus (topo c). cpu_owner c ! k = 0}"
  have "?idle \<union> ?used = topo_cpus (topo c)" by blast
  moreover have "card (?idle \<union> ?used) = card ?idle + card ?used" using fin by (intro card_Un_disjoint) auto
  ultimately have "card (topo_cpus (topo c)) = card ?idle + card ?used" by simp
  then show ?thesis using u total_free_card [OF ct(1)] by simp
qed

section \<open>Placing an allocation again\<close>

lemma frame_eq_alien: "frame_eq c c' \<Longrightarrow> frame_eq (c\<lparr>allocs := P, store := st\<rparr>) (c'\<lparr>allocs := P, store := st\<rparr>)"
  by (cases c; cases c') (simp add: frame_eq_def)

lemma takes_alien:
  "takes a c a' c' new \<Longrightarrow> takes a (c\<lparr>allocs := P, store := st\<rparr>) a' (c'\<lparr>allocs := P, store := st\<rparr>) new"
  using frame_eq_alien by (auto simp: takes_def)

lemma add_empty_alloc:
  assumes c: "cpu_ok (c\<lparr>allocs := P\<rparr>)" and h: "h \<notin> set P" "h < next_alloc c" and a: "a_jobid a \<noteq> 0" "a_cpus a = []"
  shows "cpu_ok (c\<lparr>allocs := P @ [h], store := (store c)(h \<mapsto> a)\<rparr>)" (is "cpu_ok ?d")
proof -
  have old: "cpus_of ?d k = (if k = h then [] else cpus_of (c\<lparr>allocs := P\<rparr>) k)" for k
    by (simp add: cpus_of_def a(2))
  have al: "alloc_ok ?d k" if "k \<in> set (P @ [h])" for k
  proof (cases "k = h")
    case False
    then have "alloc_ok (c\<lparr>allocs := P\<rparr>) k" using that c by (simp add: cpu_ok_def)
    then show ?thesis using False by (simp add: alloc_ok_def)
  qed (use h(2) a in \<open>simp add: alloc_ok_def\<close>)
  have cov: "\<exists>k \<in> set (P @ [h]). i \<in> set (cpus_of ?d k)" if "i < length (cpu_owner c)" "cpu_owner c ! i \<noteq> 0" for i
  proof -
    obtain k where "k \<in> set P" "i \<in> set (cpus_of (c\<lparr>allocs := P\<rparr>) k)"
      using cpu_ok_covered [OF c] \<open>i < _\<close> \<open>cpu_owner c ! i \<noteq> 0\<close> by auto
    moreover from this have "k \<noteq> h" using h(1) by blast
    ultimately show ?thesis using old [of k] by (intro bexI [of _ k]) simp_all
  qed
  have dis: "set (cpus_of ?d k) \<inter> set (cpus_of ?d k') = {}"
    if "k \<in> set (P @ [h])" "k' \<in> set (P @ [h])" "k \<noteq> k'" for k k'
    using that cpu_ok_disjoint [OF c, of k k'] old by auto
  show ?thesis
    using c h(1) al cov dis by (intro cpu_okI) (simp_all add: cpu_ok_def)
qed

lemma place_ok:
  assumes c: "cpu_ok (c\<lparr>allocs := P\<rparr>)" and h: "h \<notin> set P" "h < next_alloc c"
    and t: "takes a0 c a' c' new" "a_jobid a0 \<noteq> 0"
    and f: "mset (a_cpus a2) = mset new" "a_jobid a2 = a_jobid a0"
  shows "cpu_ok (c'\<lparr>allocs := P @ [h], store := (store c)(h \<mapsto> a2)\<rparr>)"
proof -
  let ?a = "a0\<lparr>a_cpus := []\<rparr>"
  let ?d = "c\<lparr>allocs := P @ [h], store := (store c)(h \<mapsto> ?a)\<rparr>"
  let ?d' = "c'\<lparr>allocs := P @ [h], store := (store c)(h \<mapsto> ?a)\<rparr>"
  have "cpu_ok (?d'\<lparr>store := (store ?d')(h \<mapsto> a2)\<rparr>)"
  proof (rule cpu_ok_update)
    show "cpu_ok ?d" using add_empty_alloc [OF c h, of ?a] t(2) by simp
    show "takes a0 ?d a' ?d' new" by (rule takes_alien [OF t(1)])
    show "store ?d h = Some ?a" by simp
  qed (use f in \<open>simp_all add: cpus_of_def\<close>)
  then show ?thesis by simp
qed

section \<open>Defragmentation\<close>

text \<open>
  While the defragmenter rebuilds the tables of \<open>c0\<close>: the allocations \<open>P\<close> are placed, those of
  \<open>U\<close> are not and still show their old CPUs.
\<close>

definition rebuilding :: "cpu_state \<Rightarrow> nat list \<Rightarrow> nat list \<Rightarrow> cpu_state \<Rightarrow> bool" where
  "rebuilding c0 P U c \<longleftrightarrow> cpu_ok (c\<lparr>allocs := P\<rparr>) \<and> mset P + mset U = mset (allocs c0)
     \<and> strip (topo c) = strip (topo c0) \<and> next_alloc c = next_alloc c0 \<and> mset (allocs c) = mset (allocs c0)
     \<and> (\<forall>h. length (cpus_of c h) = length (cpus_of c0 h)) \<and> (\<forall>h \<in> set U. store c h = store c0 h)"

lemma rebuildingD:
  assumes c0: "cpu_ok c0" and r: "rebuilding c0 P U c" and h: "h \<in> set U"
  obtains a where "store c h = Some a" "a_jobid a \<noteq> 0" "h \<notin> set P" "h < next_alloc c" "tables_ok c"
    "int (length (a_cpus a)) \<le> total_free c"
proof -
  have "mset (P @ U) = mset (allocs c0)" using r by (simp add: rebuilding_def)
  then have d: "distinct (P @ U)" "set (P @ U) = set (allocs c0)"
    using c0 by (metis cpu_ok_def mset_eq_imp_distinct_iff) (metis \<open>mset (P @ U) = _\<close> mset_eq_setD)
  then have h0: "h \<in> set (allocs c0)" using h by auto
  obtain a where a: "store c0 h = Some a" "a_jobid a \<noteq> 0" "cpus_of c0 h = a_cpus a" using cpu_okD [OF c0 h0] .
  have lt: "h < next_alloc c0" using c0 h0 by (simp add: cpu_ok_def alloc_ok_def)
  let ?n = "\<lambda>k. int (length (cpus_of c0 k))"
  have len: "cpus_of (c\<lparr>allocs := P\<rparr>) k = cpus_of c k" for k by (simp add: cpus_of_def)
  have "total_free c + isum ?n P = int (card (topo_cpus (topo c)))"
    using cpu_ok_count [of "c\<lparr>allocs := P\<rparr>"] r len by (simp add: rebuilding_def total_free_def)
  moreover have "topo_cpus (topo c) = topo_cpus (topo c0)"
    using r by (intro strip_topo_cpus) (simp add: rebuilding_def)
  moreover have "total_free c0 + isum ?n (allocs c0) = int (card (topo_cpus (topo c0)))" by (rule cpu_ok_count [OF c0])
  moreover have "isum ?n (allocs c0) = isum ?n P + isum ?n U"
    using isum_mset [OF \<open>mset (P @ U) = mset (allocs c0)\<close>, of ?n] by simp
  moreover have "0 \<le> total_free c0" using c0 total_free_card by (simp add: cpu_ok_def)
  moreover have "?n h \<le> isum ?n U" using h by (intro member_le_sum_list) auto
  ultimately have "int (length (a_cpus a)) \<le> total_free c" using a(3) by simp
  moreover have "store c h = Some a" using r h a by (simp add: rebuilding_def)
  moreover have "h \<notin> set P" using d(1) h by auto
  moreover have "h < next_alloc c" "tables_ok c" using r lt by (simp_all add: rebuilding_def cpu_ok_def)
  ultimately show ?thesis using a(2) that by blast
qed

lemma rebuilding_place:
  assumes c0: "cpu_ok c0" and r: "rebuilding c0 P U c" and h: "h \<in> set U" and a: "store c h = Some a"
    and t: "takes a0 c a' c' new" "a_jobid a0 = a_jobid a"
    and f: "mset (a_cpus a2) = mset new" "a_jobid a2 = a_jobid a" "length new = length (a_cpus a)"
  shows "rebuilding c0 (P @ [h]) (remove1 h U) (c'\<lparr>store := (store c')(h \<mapsto> a2)\<rparr>)"
proof -
  have fr: "frame_eq c c'" using t(1) by (simp only: takes_def)
  note F = frame_eq_fields [OF fr]
  obtain a1 where R: "store c h = Some a1" "a_jobid a1 \<noteq> 0" "h \<notin> set P" "h < next_alloc c"
    using rebuildingD [OF c0 r h] .
  with a have j: "a_jobid a0 \<noteq> 0" using t(2) by simp
  have ok: "cpu_ok (c'\<lparr>allocs := P @ [h], store := (store c)(h \<mapsto> a2)\<rparr>)"
    using place_ok [OF _ R(3,4) t(1) j f(1)] r f(2) t(2) by (simp add: rebuilding_def)
  have "mset (P @ U) = mset (allocs c0)" using r by (simp add: rebuilding_def)
  then have "distinct U" using c0 by (metis cpu_ok_def distinct_append mset_eq_imp_distinct_iff)
  then have U: "h \<notin> set (remove1 h U)" by simp
  have len: "length (cpus_of (c'\<lparr>store := (store c)(h \<mapsto> a2)\<rparr>) k) = length (cpus_of c k)" for k
    using f(1,3) a size_mset [of "a_cpus a2"] size_mset [of new] F(2) by (auto simp: cpus_of_def)
  have "mset (P @ [h]) + mset (remove1 h U) = mset (P @ U)" using h by simp
  then have "mset (P @ [h]) + mset (remove1 h U) = mset (allocs c0)" by (simp only: \<open>mset (P @ U) = _\<close>)
  moreover have "cpu_ok (c'\<lparr>store := (store c)(h \<mapsto> a2), allocs := P @ [h]\<rparr>)" using ok by (cases c') simp
  moreover have "strip (topo c') = strip (topo c0)" using frame_eq_strip [OF fr] r by (simp add: rebuilding_def)
  moreover have "\<forall>k \<in> set (remove1 h U). ((store c)(h \<mapsto> a2)) k = store c0 k"
    using r U set_remove1_subset [of h U] by (auto simp: rebuilding_def)
  ultimately show ?thesis using r len F(1-3) unfolding rebuilding_def by simp
qed

lemma restore_cpu_ok:
  assumes c: "tables_ok c" and k: "k \<in> topo_cpus (topo c)" "cpu_owner c ! k = 0" and j: "j \<noteq> 0"
  obtains c' where "restore_cpu j k c = Inr c'" "tables_ok c'" "frame_eq c c'" "cpu_owner c' = (cpu_owner c)[k := j]"
proof -
  obtain g where g: "g < length (groups (topo c))" "k \<in> set (gcpus (group_at c g))"
    "cpu_to_group c ! k = int g" "k < length (cpu_owner c)"
    using topo_cpu_group [OF c k(1)] .
  let ?c' = "add_free g (- 1) (c\<lparr>cpu_owner := (cpu_owner c)[k := j]\<rparr>)"
  have "tables_ok ?c'"
  proof (rule add_free_tables [OF c g(1)])
    show "nfree ((cpu_owner c)[k := j]) (gcpus (group_at c g)) = nfree (cpu_owner c) (gcpus (group_at c g)) + - 1"
      using nfree_mark_same [OF tables_ok_groupD(2) [OF c g(1)] _ j, of "cpu_owner c" "[k]"]
        tables_ok_groupD(3) [OF c g(1)] g(2) k(2) by (simp add: mark_Cons)
    show "(cpu_owner c)[k := j] ! x = cpu_owner c ! x" if "x \<notin> set (gcpus (group_at c g))" for x
      using that g(2) by (metis nth_list_update_neq)
  qed simp
  moreover have "frame_eq c ?c'"
    by (rule frame_eq_trans [OF _ add_free_frame]) (simp add: frame_eq_def)
  ultimately show ?thesis using g(3) by (intro that [of ?c']) (simp_all add: restore_cpu_def)
qed

lemma restore_cpus_ok:
  assumes "tables_ok c" "distinct cs" "\<forall>k \<in> set cs. k \<in> topo_cpus (topo c) \<and> cpu_owner c ! k = 0" "j \<noteq> 0"
  shows "\<exists>c'. rfold (restore_cpu j) cs c = Inr c' \<and> tables_ok c' \<and> frame_eq c c' \<and> cpu_owner c' = mark cs j (cpu_owner c)"
  using assms
proof (induction cs arbitrary: c)
  case (Cons k cs)
  then have k: "k \<in> topo_cpus (topo c)" "cpu_owner c ! k = 0" by simp_all
  obtain c1 where c1: "restore_cpu j k c = Inr c1" "tables_ok c1" "frame_eq c c1" "cpu_owner c1 = (cpu_owner c)[k := j]"
    using restore_cpu_ok [OF Cons.prems(1) k Cons.prems(4)] .
  have "x \<in> topo_cpus (topo c1) \<and> cpu_owner c1 ! x = 0" if "x \<in> set cs" for x
    using that Cons.prems(2,3) c1(4) frame_eq_fields(7) [OF c1(3)]
    by (metis distinct.simps(2) list.set_intros(2) nth_list_update_neq)
  then obtain c2 where c2: "rfold (restore_cpu j) cs c1 = Inr c2" "tables_ok c2" "frame_eq c1 c2"
      "cpu_owner c2 = mark cs j (cpu_owner c1)"
    using Cons.IH [OF c1(2)] Cons.prems(2,4) by auto
  then show ?case using c1 frame_eq_trans [OF c1(3) c2(3)] by (simp add: mark_Cons)
qed simp

lemma restore_alloc_ok:
  assumes c0: "cpu_ok c0" and r: "rebuilding c0 P (h # U) c" and st: "store c = store c0"
  shows "\<exists>c'. restore_alloc h c = Inr c' \<and> rebuilding c0 (P @ [h]) U c' \<and> store c' = store c0"
proof -
  have hU: "h \<in> set (h # U)" by simp
  obtain a where a: "store c h = Some a" "a_jobid a \<noteq> 0" "h \<notin> set P" "tables_ok c"
    using rebuildingD [OF c0 r hU] .
  have al: "set (P @ h # U) = set (allocs c0)"
    using r mset_eq_setD [of "P @ h # U" "allocs c0"] by (simp add: rebuilding_def)
  then have h0: "h \<in> set (allocs c0)" by auto
  obtain a1 where "store c0 h = Some a1" "distinct (a_cpus a1)" "cpus_of c0 h = a_cpus a1"
      "\<forall>k \<in> set (a_cpus a1). k \<in> topo_cpus (topo c0) \<and> cpu_owner c0 ! k = a_jobid a1"
    using cpu_okD [OF c0 h0] .
  then have a0: "distinct (a_cpus a)" "cpus_of c0 h = a_cpus a" "\<forall>k \<in> set (a_cpus a). k \<in> topo_cpus (topo c0)"
    using a(1) st by auto
  have tc: "topo_cpus (topo c) = topo_cpus (topo c0)" using r by (intro strip_topo_cpus) (simp add: rebuilding_def)
  have free: "cpu_owner c ! k = 0" if k: "k \<in> set (a_cpus a)" for k
  proof (rule ccontr)
    assume n: "cpu_owner c ! k \<noteq> 0"
    have "k < length (cpu_owner c)" using k a0(3) tc topo_cpus_bound [OF a(4)] by blast
    then obtain h' where h': "h' \<in> set P" "k \<in> set (cpus_of c h')"
      using cpu_ok_covered [of "c\<lparr>allocs := P\<rparr>" k] n r by (auto simp: rebuilding_def cpus_of_def)
    then have "h' \<in> set (allocs c0)" "h \<noteq> h'" using a(3) al by auto
    note dis = cpu_ok_disjoint [OF c0 h0 this]
    have "k \<in> set (cpus_of c0 h')" using h'(2) st by (simp add: cpus_of_def)
    then show False using dis k a0(2) by (simp add: disjoint_iff)
  qed
  then obtain c' where c': "rfold (restore_cpu (a_jobid a)) (a_cpus a) c = Inr c'" "tables_ok c'" "frame_eq c c'"
      "cpu_owner c' = mark (a_cpus a) (a_jobid a) (cpu_owner c)"
    using restore_cpus_ok [OF a(4) a0(1) _ a(2)] a0(3) tc by blast
  have "takes (a\<lparr>a_cpus := []\<rparr>) c a c' (a_cpus a)"
    using c'(2-4) a0(1) a0(3) [folded tc] free unfolding takes_def by simp
  then have "rebuilding c0 (P @ [h]) (remove1 h (h # U)) (c'\<lparr>store := (store c')(h \<mapsto> a)\<rparr>)"
    using rebuilding_place [OF c0 r hU a(1), of "a\<lparr>a_cpus := []\<rparr>" a c' "a_cpus a" a] by simp
  moreover have s': "store c' = store c" by (rule frame_eq_fields(2) [OF c'(3)])
  moreover have "c'\<lparr>store := (store c')(h \<mapsto> a)\<rparr> = c'" using a(1) s' by (cases c') (simp add: fun_upd_idem)
  ultimately have "rebuilding c0 (P @ [h]) U c'" by simp
  then show ?thesis using c'(1) a(1) st s' by (simp add: restore_alloc_def alloc_at_def)
qed

lemma restore_all:
  assumes "cpu_ok c0" "rebuilding c0 P (xs @ U) c" "store c = store c0"
  shows "\<exists>c'. rfold restore_alloc xs c = Inr c' \<and> rebuilding c0 (P @ xs) U c' \<and> store c' = store c0"
  using assms(2,3)
proof (induction xs arbitrary: P c)
  case (Cons h xs)
  obtain c1 where c1: "restore_alloc h c = Inr c1" "rebuilding c0 (P @ [h]) (xs @ U) c1" "store c1 = store c0"
    using restore_alloc_ok [OF assms(1), of P h "xs @ U" c] Cons.prems by auto
  with Cons.IH [OF c1(2,3)] show ?case by simp
qed simp

text \<open>An allocation that fits is placed, with as many CPUs as before.\<close>

lemma replace_ok:
  assumes c0: "cpu_ok c0" and r: "rebuilding c0 P U c" and h: "h \<in> set U" and a: "store c h = Some a"
    and t: "takes a0 c a' c' new" "a_jobid a0 = a_jobid a" "a_cpus a0 = []" "length new = length (a_cpus a)"
    and k: "a_cpus a2 = a_cpus a'" "a_jobid a2 = a_jobid a'"
  shows "rebuilding c0 (P @ [h]) (remove1 h U) (c'\<lparr>store := (store c')(h \<mapsto> cpu_bind_post_alloc a2 c')\<rparr>)"
proof (rule rebuilding_place [OF c0 r h a t(1,2) _ _ t(4)])
  show "mset (a_cpus (cpu_bind_post_alloc a2 c')) = mset new" "a_jobid (cpu_bind_post_alloc a2 c') = a_jobid a"
    using t k by (simp_all add: cpu_bind_post_alloc_def Let_def takes_def)
qed

lemma realloc_same_node_ok:
  assumes c0: "cpu_ok c0" and r: "rebuilding c0 P (sk @ h # U) c"
  shows "\<exists>P' sk' c'. realloc_same_node h (sk, c) = Inr (sk', c') \<and> rebuilding c0 P' (sk' @ U) c'
    \<and> set P \<subseteq> set P' \<and> (\<forall>k \<in> set P. store c' k = store c k)"
proof -
  have hU: "h \<in> set (sk @ h # U)" by simp
  obtain a where a: "store c h = Some a" "a_jobid a \<noteq> 0" "h \<notin> set P" "tables_ok c"
    using rebuildingD [OF c0 r hU] .
  let ?N = "int (length (a_cpus a))" and ?pn = "nat (primary_node a)"
  show ?thesis
  proof (cases "0 \<le> primary_node a \<and> primary_node a < int (length (nodes (topo c))) \<and> n_free_count (node_at c ?pn) \<ge> ?N")
    case True
    then have n: "?pn < length (nodes (topo c))" by linarith
    note D = tables_ok_nodeD [OF a(4) n]
    have g: "\<forall>g \<in> set (group_ids (node_at c ?pn)). g < length (groups (topo c))" using D(2) by auto
    have j: "a_jobid (fresh_alloc a) \<noteq> 0" using a(2) by (simp add: fresh_alloc_def)
    obtain new a' c' where t: "alloc_from_groups ?N (group_ids (node_at c ?pn)) (fresh_alloc a) c = Inr (a', c')"
        "takes (fresh_alloc a) c a' c' new" "int (length new) = ?N"
      using alloc_from_groups_takes [OF a(4) j D(1) g, of ?N] True D(3) by auto
    let ?c = "c'\<lparr>store := (store c')(h \<mapsto> cpu_bind_post_alloc a' c')\<rparr>"
    have "rebuilding c0 (P @ [h]) (remove1 h (sk @ h # U)) ?c"
      by (rule replace_ok [OF c0 r hU a(1) t(2)]) (use t(3) in \<open>simp_all add: fresh_alloc_def\<close>)
    moreover have "mset (P @ sk @ h # U) = mset (allocs c0)" using r by (simp add: rebuilding_def)
    then have "distinct (P @ sk @ h # U)" using c0 by (metis cpu_ok_def mset_eq_imp_distinct_iff)
    then have "h \<notin> set sk" by auto
    ultimately have "rebuilding c0 (P @ [h]) (sk @ U) ?c" by (simp add: remove1_append)
    moreover have "store c' = store c" using t(2) frame_eq_fields(2) unfolding takes_def by blast
    ultimately show ?thesis
      using True t(1) a(1,3) by (intro exI [of _ "P @ [h]"] exI [of _ sk] exI [of _ ?c])
        (auto simp: realloc_same_node_def alloc_at_def Let_def)
  next
    case False
    then show ?thesis
      using r a(1) by (intro exI [of _ P] exI [of _ "sk @ [h]"] exI [of _ c])
        (auto simp: realloc_same_node_def alloc_at_def Let_def)
  qed
qed

lemma realloc_same_node_all:
  assumes "cpu_ok c0" "rebuilding c0 P (sk @ xs) c"
  shows "\<exists>P' sk' c'. rfold realloc_same_node xs (sk, c) = Inr (sk', c') \<and> rebuilding c0 P' sk' c'
    \<and> set P \<subseteq> set P' \<and> (\<forall>k \<in> set P. store c' k = store c k)"
  using assms(2)
proof (induction xs arbitrary: P sk c)
  case Nil
  then show ?case by auto
next
  case (Cons h xs)
  obtain P1 sk1 c1 where 1: "realloc_same_node h (sk, c) = Inr (sk1, c1)" "rebuilding c0 P1 (sk1 @ xs) c1"
      "set P \<subseteq> set P1" "\<forall>k \<in> set P. store c1 k = store c k"
    using realloc_same_node_ok [OF assms(1) Cons.prems] by blast
  obtain P2 sk2 c2 where 2: "rfold realloc_same_node xs (sk1, c1) = Inr (sk2, c2)" "rebuilding c0 P2 sk2 c2"
      "set P1 \<subseteq> set P2" "\<forall>k \<in> set P1. store c2 k = store c1 k"
    using Cons.IH [OF 1(2)] by blast
  have "\<forall>k \<in> set P. store c2 k = store c k" using 1(3,4) 2(4) by (metis subsetD)
  with 1 2 show ?case by (intro exI [of _ P2] exI [of _ sk2] exI [of _ c2]) auto
qed

lemma realloc_cross_node_ok:
  assumes c0: "cpu_ok c0" and r: "rebuilding c0 P (h # U) c"
  shows "\<exists>c'. realloc_cross_node h c = Inr c' \<and> rebuilding c0 (P @ [h]) U c' \<and> (\<forall>k \<in> set P. store c' k = store c k)"
proof -
  have hU: "h \<in> set (h # U)" by simp
  obtain a where a: "store c h = Some a" "a_jobid a \<noteq> 0" "h \<notin> set P" "tables_ok c"
      "int (length (a_cpus a)) \<le> total_free c"
    using rebuildingD [OF c0 r hU] .
  let ?N = "int (length (a_cpus a))"
  obtain new a0 a' c' where t: "cross_node_merge ?N (fresh_alloc a) c = Inr (a', c')" "takes a0 c a' c' new"
      "int (length new) = ?N" "a_cpus a0 = []" "a_jobid a0 = a_jobid a"
  proof (cases "a_cpus a = []")
    case True
    obtain p where "cross_node_merge 0 (fresh_alloc a) c = Inr (fresh_alloc a\<lparr>primary_node := p, mem_nodes := 0\<rparr>, c)"
      by (cases "node_order c") (simp_all add: cross_node_merge_def Let_def)
    with True show ?thesis
      by (intro that [OF _ takes_refl [OF a(4), of "fresh_alloc a\<lparr>primary_node := p, mem_nodes := 0\<rparr>"]])
        (simp_all add: fresh_alloc_def)
  next
    case False
    then have N: "0 < ?N" by simp
    have j: "a_jobid (fresh_alloc a) \<noteq> 0" using a(2) by (simp add: fresh_alloc_def)
    show ?thesis
      by (rule cross_node_merge_takes [OF a(4) j N a(5)]) (auto simp: fresh_alloc_def intro!: that)
  qed
  let ?a = "a'\<lparr>primary_node := primary_node a, mem_nodes := mem_nodes a\<rparr>"
  let ?c = "c'\<lparr>store := (store c')(h \<mapsto> cpu_bind_post_alloc ?a c')\<rparr>"
  have "rebuilding c0 (P @ [h]) (remove1 h (h # U)) ?c"
    by (rule replace_ok [OF c0 r hU a(1) t(2,5,4)]) (use t(3) in simp_all)
  moreover have "store c' = store c" using t(2) frame_eq_fields(2) unfolding takes_def by blast
  ultimately show ?thesis
    using t(1) a(1,3) by (intro exI [of _ ?c]) (auto simp: realloc_cross_node_def alloc_at_def Let_def)
qed

lemma realloc_cross_node_all:
  assumes "cpu_ok c0" "rebuilding c0 P xs c"
  shows "\<exists>c'. rfold realloc_cross_node xs c = Inr c' \<and> rebuilding c0 (P @ xs) [] c' \<and> (\<forall>k \<in> set P. store c' k = store c k)"
  using assms(2)
proof (induction xs arbitrary: P c)
  case (Cons h xs)
  obtain c1 where 1: "realloc_cross_node h c = Inr c1" "rebuilding c0 (P @ [h]) xs c1" "\<forall>k \<in> set P. store c1 k = store c k"
    using realloc_cross_node_ok [OF assms(1) Cons.prems] by blast
  obtain c2 where 2: "rfold realloc_cross_node xs c1 = Inr c2" "rebuilding c0 ((P @ [h]) @ xs) [] c2"
      "\<forall>k \<in> set (P @ [h]). store c2 k = store c1 k"
    using Cons.IH [OF 1(2)] by blast
  with 1 show ?case by simp
qed simp

lemma cpu_ok_perm:
  assumes "cpu_ok (c\<lparr>allocs := P\<rparr>)" "mset (allocs c) = mset P"
  shows "cpu_ok c"
proof -
  have "set (allocs c) = set P" "distinct (allocs c) = distinct P"
    using assms(2) mset_eq_setD mset_eq_imp_distinct_iff by blast+
  then show ?thesis
    using assms(1) by (simp add: cpu_ok_def alloc_ok_def cpus_of_def)
qed

text \<open>
  The defragmenter always succeeds: every allocation gets as many CPUs as it had, and those
  of quality 0 keep theirs.
\<close>

lemma sorted_split_zero:
  fixes f :: "'a \<Rightarrow> int"
  assumes "sorted (map f xs)" "\<forall>x \<in> set xs. 0 \<le> f x"
  shows "dropWhile (\<lambda>x. f x = 0) xs = filter (\<lambda>x. f x \<noteq> 0) xs"
  using assms
proof (induction xs)
  case (Cons x xs)
  show ?case
  proof (cases "f x = 0")
    case False
    then have "\<forall>y \<in> set xs. f y \<noteq> 0" using Cons.prems by force
    then show ?thesis using False by simp
  qed (use Cons in simp)
qed simp

lemma defrag_order_perm: "mset (defrag_order c) = mset (allocs c)"
  by (simp add: defrag_order_def)

lemma defrag_moves:
  assumes "\<forall>h \<in> set (allocs c). 0 \<le> quality_of c h"
  shows "set (dropWhile (\<lambda>h. quality_of c h = 0) (defrag_order c)) = {h \<in> set (allocs c). quality_of c h \<noteq> 0}"
proof -
  have "set (defrag_order c) = set (allocs c)" using mset_eq_setD [OF defrag_order_perm] .
  moreover have "sorted (map (quality_of c) (defrag_order c))" by (simp add: defrag_order_def)
  ultimately show ?thesis using assms sorted_split_zero [of "quality_of c" "defrag_order c"] by auto
qed

lemma rebuild_start:
  assumes c: "cpu_ok c" and z: "sized_topo (topo c)"
  shows "rebuilding c [] (defrag_order c) (reset_counters (c\<lparr>allocs := defrag_order c\<rparr>))" (is "rebuilding c [] ?o ?r")
proof -
  have "tables_ok c" using c by (simp add: cpu_ok_def)
  then have "wf_topo (topo c)" "indexed c" by (simp_all add: tables_ok_def indexed_def group_at_def)
  then have "tables_ok ?r" using z by (intro reset_counters_ok) (simp_all add: indexed_def)
  then have "cpu_ok (?r\<lparr>allocs := []\<rparr>)" by (simp add: cpu_ok_def reset_topo)
  then show ?thesis
    using defrag_order_perm [of c] by (simp add: rebuilding_def reset_topo cpus_of_def)
qed

lemma defrag_compute_ok:
  assumes c: "cpu_ok c" and z: "sized_topo (topo c)"
  shows "\<exists>moved c'. defrag_compute c = Inr (moved, c') \<and> cpu_ok c' \<and> mset (allocs c') = mset (allocs c)
    \<and> strip (topo c') = strip (topo c) \<and> next_alloc c' = next_alloc c
    \<and> moved = dropWhile (\<lambda>h. quality_of c h = 0) (defrag_order c)
    \<and> (\<forall>h. length (cpus_of c' h) = length (cpus_of c h))
    \<and> (\<forall>h \<in> set (allocs c) - set moved. store c' h = store c h)"
proof -
  let ?o = "defrag_order c" and ?c = "c\<lparr>allocs := defrag_order c\<rparr>"
  define good bad where "good = takeWhile (\<lambda>h. quality_of c h = 0) ?o" and "bad = dropWhile (\<lambda>h. quality_of c h = 0) ?o"
  have o: "?o = good @ bad" by (simp add: good_def bad_def)
  have set_o: "set (allocs c) = set good \<union> set bad" using mset_eq_setD [OF defrag_order_perm, of c] o by simp
  show ?thesis
  proof (cases "bad = []")
    case True
    then have "defrag_compute c = Inr ([], ?c)" unfolding defrag_compute_def bad_def by (simp add: Let_def)
    moreover have "cpu_ok ?c" using c by (intro cpu_ok_perm [where c = ?c and P = "allocs c"]) (simp_all add: defrag_order_perm)
    ultimately show ?thesis
      using True by (intro exI [of _ "[]"] exI [of _ ?c]) (simp add: defrag_order_perm cpus_of_def flip: bad_def)
  next
    case False
    obtain c1 where 1: "rfold restore_alloc good (reset_counters ?c) = Inr c1" "rebuilding c good bad c1" "store c1 = store c"
      using restore_all [OF c, of "[]" good bad "reset_counters ?c"] rebuild_start [OF c z] o by (auto simp: reset_topo)
    obtain P sk c2 where 2: "rfold realloc_same_node bad ([], c1) = Inr (sk, c2)" "rebuilding c P sk c2"
        "set good \<subseteq> set P" "\<forall>k \<in> set good. store c2 k = store c1 k"
      using realloc_same_node_all [OF c, of good "[]" bad c1] 1(2) by auto
    obtain c3 where 3: "rfold realloc_cross_node sk c2 = Inr c3" "rebuilding c (P @ sk) [] c3"
        "\<forall>k \<in> set P. store c3 k = store c2 k"
      using realloc_cross_node_all [OF c 2(2)] by blast
    note R = 3(2) [unfolded rebuilding_def]
    have "cpu_ok c3" using R by (intro cpu_ok_perm [where c = c3 and P = "P @ sk"]) simp_all
    moreover have "defrag_compute c = Inr (bad, c3)"
      using False 1(1) 2(1) 3(1) by (simp add: defrag_compute_def Let_def del: dropWhile_eq_Nil_conv flip: good_def bad_def)
    moreover have "\<forall>h \<in> set (allocs c) - set bad. store c3 h = store c h"
      using set_o 1(3) 2(3,4) 3(3) by (metis DiffE UnE subsetD)
    ultimately show ?thesis
      using R by (intro exI [of _ bad] exI [of _ c3]) (simp flip: bad_def)
  qed
qed

section \<open>Allocation and release\<close>

text \<open>The live allocations determine the owner table.\<close>

lemma owner_determined:
  assumes c: "cpu_ok c" and c': "cpu_ok c'" and h: "set (allocs c') = set (allocs c)"
    and st: "\<forall>h \<in> set (allocs c). store c' h = store c h" and l: "length (cpu_owner c') = length (cpu_owner c)"
  shows "cpu_owner c' = cpu_owner c"
proof (rule nth_equalityI)
  fix k assume k: "k < length (cpu_owner c')"
  show "cpu_owner c' ! k = cpu_owner c ! k"
  proof (cases "\<exists>h \<in> set (allocs c). k \<in> set (cpus_of c h)")
    case True
    then obtain h where hk: "h \<in> set (allocs c)" "k \<in> set (cpus_of c h)" by blast
    obtain a where a: "store c h = Some a" "cpus_of c h = a_cpus a" "\<forall>cpu \<in> set (a_cpus a). cpu_owner c ! cpu = a_jobid a"
      by (rule cpu_okD [OF c hk(1)]) auto
    obtain a' where a': "store c' h = Some a'" "\<forall>cpu \<in> set (a_cpus a'). cpu_owner c' ! cpu = a_jobid a'"
      using hk(1) h by (metis cpu_okD [OF c'])
    show ?thesis using a a' st hk by simp
  next
    case False
    have "cpus_of c' h = cpus_of c h" if "h \<in> set (allocs c)" for h using st that by (simp add: cpus_of_def)
    then have "\<not> (\<exists>h \<in> set (allocs c'). k \<in> set (cpus_of c' h))" using False h by auto
    then have "cpu_owner c' ! k = 0" using cpu_ok_covered [OF c' k] by blast
    moreover have "cpu_owner c ! k = 0" using False cpu_ok_covered [OF c, of k] k l by auto
    ultimately show ?thesis by simp
  qed
qed (use l in simp)

lemma strip_cpus: "strip t' = strip t \<Longrightarrow> topo_cpus t' = topo_cpus t \<and> max_os_cpu t' = max_os_cpu t"
proof
  assume st: "strip t' = strip t"
  have e: "map (\<lambda>g. g\<lparr>free_count := 0\<rparr>) (groups t') = map (\<lambda>g. g\<lparr>free_count := 0\<rparr>) (groups t)"
    using arg_cong [OF st, of groups] by (simp add: strip_def)
  have "map gcpus (groups x) = map gcpus (map (\<lambda>g. g\<lparr>free_count := 0\<rparr>) (groups x))" for x by (simp add: gcpus_def)
  then have "map gcpus (groups t') = map gcpus (groups t)" using e by metis
  then show "topo_cpus t' = topo_cpus t" unfolding topo_cpus_def by (metis image_image image_set)
  show "max_os_cpu t' = max_os_cpu t" using arg_cong [OF st, of max_os_cpu] by (simp add: strip_def)
qed

text \<open>Opening a handle and filling it, as one call.\<close>

lemma acquire_exact:
  assumes c: "cpu_ok c" and j: "jid \<noteq> 0" and o: "cpu_bind_alloc_init jid N c = (h, c1)"
  shows "\<exists>c2 a. cpu_bind_alloc_h h N c1 = Inr c2 \<and> cpu_ok c2 \<and> allocs c2 = allocs c @ [h] \<and> store c2 h = Some a
    \<and> h \<notin> set (allocs c) \<and> (\<forall>k. k \<noteq> h \<longrightarrow> store c2 k = store c k) \<and> strip (topo c2) = strip (topo c)
    \<and> (if cpu_bind_disabled c \<or> N \<le> 0 \<or> total_free c < N then a_error a = 1 \<and> a_cpus a = []
       else int (length (a_cpus a)) = N \<and> sorted (a_cpus a) \<and> (\<forall>cpu \<in> set (a_cpus a). cpu_owner c ! cpu = 0))"
proof -
  have f: "allocs c1 = allocs c @ [h]" "topo c1 = topo c" "cpu_owner c1 = cpu_owner c"
      "cpu_bind_disabled c1 = cpu_bind_disabled c" "\<And>k. k \<noteq> h \<Longrightarrow> store c1 k = store c k"
    using o by (auto simp: cpu_bind_alloc_init_def Let_def)
  have tf: "total_free c1 = total_free c" by (simp add: total_free_def f(2))
  note p = pool.open_ok [OF c j o]
  have q: "cpu_ok c1" "h \<in> set (allocs c1)" "cpus_of c1 h = []" "h \<notin> set (allocs c)" using p by auto
  obtain c2 a where "cpu_bind_alloc_h h N c1 = Inr c2" "cpu_ok c2" "allocs c2 = allocs c @ [h]" "store c2 h = Some a"
      "\<forall>k. k \<noteq> h \<longrightarrow> store c2 k = store c1 k" "strip (topo c2) = strip (topo c)"
      "if cpu_bind_disabled c \<or> N \<le> 0 \<or> total_free c < N then a_error a = 1 \<and> a_cpus a = []
       else int (length (a_cpus a)) = N \<and> sorted (a_cpus a) \<and> (\<forall>cpu \<in> set (a_cpus a). cpu_owner c ! cpu = 0)"
    using cpu_bind_alloc_h_ok [OF q(1-3), of N] unfolding f(1-4) tf by blast
  then show ?thesis using q(4) f(5) by (intro exI [of _ c2] exI [of _ a]) simp
qed

lemma acquire_release_exact:
  assumes c: "cpu_ok c" and j: "jid \<noteq> 0" and o: "cpu_bind_alloc_init jid N c = (h, c1)"
  shows "\<exists>c3. rbind (cpu_bind_alloc_h h N c1) (cpu_bind_free h) = Inr c3 \<and> cpu_ok c3 \<and> allocs c3 = allocs c
    \<and> cpu_owner c3 = cpu_owner c \<and> total_free c3 = total_free c \<and> (\<forall>k \<in> set (allocs c). store c3 k = store c k)"
proof -
  obtain c2 a where a: "cpu_bind_alloc_h h N c1 = Inr c2" "cpu_ok c2" "allocs c2 = allocs c @ [h]"
      "h \<notin> set (allocs c)" "\<forall>k. k \<noteq> h \<longrightarrow> store c2 k = store c k" "strip (topo c2) = strip (topo c)"
    using acquire_exact [OF assms] by metis
  have "h \<in> set (allocs c2)" using a(3) by simp
  from cpu_bind_free_ok [OF a(2) this] obtain c3 where f: "cpu_bind_free h c2 = Inr c3" "cpu_ok c3"
    "allocs c3 = remove1 h (allocs c2)" "store c3 = (store c2)(h := None)" "strip (topo c3) = strip (topo c2)" by blast
  have al: "allocs c3 = allocs c" using f(3) a(3,4) by (simp add: remove1_append)
  have st: "\<forall>k \<in> set (allocs c). store c3 k = store c k" using f(4) a(4,5) by auto
  have t: "tables_ok c" "tables_ok c3" using c f(2) by (simp_all add: cpu_ok_def)
  have tp: "topo_cpus (topo c3) = topo_cpus (topo c)" "max_os_cpu (topo c3) = max_os_cpu (topo c)"
    using strip_cpus [of "topo c3" "topo c"] f(5) a(6) by simp_all
  then have ow: "cpu_owner c3 = cpu_owner c"
    using owner_determined [OF c f(2)] al st t by (simp add: tables_ok_def)
  then have "total_free c3 = total_free c" using total_free_card [OF t(1)] total_free_card [OF t(2)] tp by simp
  then show ?thesis using a(1) f(1,2) al ow st by simp
qed

end
