(* ===== verification/Bind_Inv.thy ===== *)
theory Bind_Inv
  imports Dispatch Cpu_Pool
begin

text \<open>
  The CPU pool and the jobs together: every \<open>cpu_alloc\<close> pointer of a queued or running job
  designates a live allocation, and no two jobs share one. The operations that bind and
  unbind CPUs return under this invariant and keep it.
\<close>

section \<open>Invariant\<close>

definition pool_ok :: "cpu_state \<Rightarrow> bool" where
  "pool_ok c \<longleftrightarrow> cpu_ok c \<and> sized_topo (topo c)"

definition handles :: "job list \<Rightarrow> nat list" where
  "handles ps = List.map_filter cpu_alloc ps"

definition bind_ok :: "srv \<Rightarrow> bool" where
  "bind_ok s \<longleftrightarrow> pool_ok (cpu s) \<and> distinct (handles (active_jobs s))
     \<and> set (handles (active_jobs s)) \<subseteq> set (allocs (cpu s))"

lemma handles_simps [simp]:
  "handles [] = []"
  "handles (p # ps) = (case cpu_alloc p of None \<Rightarrow> [] | Some h \<Rightarrow> [h]) @ handles ps"
  "handles (ps @ qs) = handles ps @ handles qs"
  by (simp_all add: handles_def List.map_filter_def split: option.splits)

lemma handles_alt: "handles ps = map the (filter (\<lambda>x. x \<noteq> None) (map cpu_alloc ps))"
  by (simp add: handles_def List.map_filter_def filter_map comp_def)

lemma handles_perm: "mset ps = mset qs \<Longrightarrow> mset (handles ps) = mset (handles qs)"
  by (simp add: handles_def List.map_filter_def mset_map mset_filter)

lemma handles_map: "map cpu_alloc ps = map cpu_alloc qs \<Longrightarrow> handles ps = handles qs"
  by (simp only: handles_alt)

text \<open>
  What a change of one job may rely on: \<open>H\<close> are the handles of the other jobs.
\<close>

definition bound :: "nat set \<Rightarrow> job \<Rightarrow> cpu_state \<Rightarrow> bool" where
  "bound H p c \<longleftrightarrow> pool_ok c \<and> H \<subseteq> set (allocs c)
     \<and> (case cpu_alloc p of None \<Rightarrow> True | Some h \<Rightarrow> h \<in> set (allocs c) \<and> h \<notin> H)"

definition rebinds :: "job \<Rightarrow> srv \<Rightarrow> job \<Rightarrow> srv \<Rightarrow> bool" where
  "rebinds p s p' s' \<longleftrightarrow> (\<forall>H. bound H p (cpu s) \<longrightarrow> bound H p' (cpu s'))"

lemma bound_cong: "cpu_alloc p' = cpu_alloc p \<Longrightarrow> bound H p' c = bound H p c"
  by (simp add: bound_def)

lemma rebinds_trans: "rebinds p s p1 s1 \<Longrightarrow> rebinds p1 s1 p2 s2 \<Longrightarrow> rebinds p s p2 s2"
  by (simp add: rebinds_def)

lemma rebinds_same: "cpu_alloc p' = cpu_alloc p \<Longrightarrow> cpu s' = cpu s \<Longrightarrow> rebinds p s p' s'"
  by (simp add: rebinds_def bound_def)

lemma rebinds_cong:
  "rebinds p s p' s' \<Longrightarrow> cpu_alloc p0 = cpu_alloc p \<Longrightarrow> cpu s0 = cpu s \<Longrightarrow> cpu_alloc p1 = cpu_alloc p' \<Longrightarrow> cpu s1 = cpu s'
   \<Longrightarrow> rebinds p0 s0 p1 s1"
  using bound_cong [of p0 p] bound_cong [of p1 p'] by (simp add: rebinds_def)

lemma bind_ok_bound:
  assumes "bind_ok s" "i < length (active_jobs s)"
  shows "bound (set (handles (remove_nth i (active_jobs s)))) (active_jobs s ! i) (cpu s)"
proof -
  have "active_jobs s = take i (active_jobs s) @ active_jobs s ! i # drop (Suc i) (active_jobs s)"
    using assms(2) by (rule id_take_nth_drop)
  then have eq: "handles (active_jobs s) = handles (take i (active_jobs s))
      @ (case cpu_alloc (active_jobs s ! i) of None \<Rightarrow> [] | Some h \<Rightarrow> [h]) @ handles (drop (Suc i) (active_jobs s))"
    by (metis handles_simps(2,3) append_assoc)
  show ?thesis
    using assms(1) eq by (auto simp: bind_ok_def bound_def remove_nth_def split: option.splits)
qed

lemma bound_handles:
  assumes "distinct (handles (ps @ qs))" "bound (set (handles (ps @ qs))) p c"
  shows "distinct (handles (ps @ p # qs)) \<and> set (handles (ps @ p # qs)) \<subseteq> set (allocs c)"
  using assms by (auto simp: bound_def split: option.splits)

text \<open>The job at position \<open>i\<close> changes and the pool with it.\<close>

lemma bind_ok_set_active:
  assumes s: "bind_ok s" and i: "i < length (active_jobs s)" and r: "rebinds (active_jobs s ! i) s p' s'"
    and a: "active_jobs s' = active_jobs s"
  shows "bind_ok (set_active i p' s')"
proof -
  let ?ps = "take i (active_jobs s)" and ?qs = "drop (Suc i) (active_jobs s)"
  have b: "bound (set (handles (?ps @ ?qs))) p' (cpu s')"
    using r bind_ok_bound [OF s i] by (simp add: rebinds_def remove_nth_def)
  have "active_jobs s = ?ps @ active_jobs s ! i # ?qs" using i by (rule id_take_nth_drop)
  then have "handles (active_jobs s) = handles ?ps @ handles [active_jobs s ! i] @ handles ?qs"
    by (metis append_Cons append_Nil handles_simps(3))
  then have "distinct (handles (?ps @ ?qs))" using s by (auto simp: bind_ok_def)
  from bound_handles [OF this b] show ?thesis
    using b i a by (simp add: bind_ok_def bound_def set_active_def upd_conv_take_nth_drop)
qed

lemma bind_ok_on_active:
  assumes "bind_ok s" "on_active i f s = Inr s'"
    and "\<And>p' s1. f (active_jobs s ! i) s = Inr (p', s1) \<Longrightarrow> rebinds (active_jobs s ! i) s p' s1 \<and> active_jobs s1 = active_jobs s"
  shows "bind_ok s'"
proof -
  obtain p' s1 where "f (active_jobs s ! i) s = Inr (p', s1)" "s' = set_active i p' s1" "i < length (active_jobs s)"
    using assms(2) by (auto simp: on_active_def rbind_eq_Inr split: if_splits)
  then show ?thesis using bind_ok_set_active [OF assms(1)] assms(3) by blast
qed

text \<open>Jobs leave or are reordered, the pool stays.\<close>

definition unbinds :: "srv \<Rightarrow> srv \<Rightarrow> bool" where
  "unbinds s s' \<longleftrightarrow> cpu s' = cpu s \<and> mset (handles (active_jobs s')) \<subseteq># mset (handles (active_jobs s))"

lemma bind_ok_unbinds:
  assumes "bind_ok s" "unbinds s s'"
  shows "bind_ok s'"
proof -
  have sub: "mset (handles (active_jobs s')) \<subseteq># mset (handles (active_jobs s))" "cpu s' = cpu s"
    using assms(2) by (simp_all add: unbinds_def)
  then have "set (handles (active_jobs s')) \<subseteq> set (handles (active_jobs s))" using set_mset_mono by fastforce
  moreover have "distinct (handles (active_jobs s'))"
  proof -
    obtain M where "mset (handles (active_jobs s)) = mset (handles (active_jobs s')) + M"
      using sub(1) by (auto simp: mset_subset_eq_exists_conv)
    then have "mset (handles (active_jobs s)) = mset (handles (active_jobs s') @ sorted_list_of_multiset M)" by simp
    then have "distinct (handles (active_jobs s') @ sorted_list_of_multiset M)"
      using assms(1) by (metis bind_ok_def mset_eq_imp_distinct_iff)
    then show ?thesis by simp
  qed
  ultimately show ?thesis using assms(1) sub(2) by (auto simp: bind_ok_def)
qed

lemma unbinds_refl [simp]: "unbinds s s"
  by (simp add: unbinds_def)

lemma unbinds_trans: "unbinds s s1 \<Longrightarrow> unbinds s1 s2 \<Longrightarrow> unbinds s s2"
  using subset_mset.order_trans by (auto simp: unbinds_def)

lemma unbinds_emit [simp]: "unbinds s (emit ev s') = unbinds s s'"
  by (simp add: unbinds_def)

lemma unbinds_same: "cpu s' = cpu s \<Longrightarrow> map cpu_alloc (active_jobs s') = map cpu_alloc (active_jobs s) \<Longrightarrow> unbinds s s'"
  using handles_map [of "active_jobs s'" "active_jobs s"] by (simp add: unbinds_def)

lemma unbinds_remove: "i < length (active_jobs s) \<Longrightarrow> unbinds s (remove_active i s)"
proof -
  assume "i < length (active_jobs s)"
  then have "mset (active_jobs s) = mset (active_jobs s ! i # remove_nth i (active_jobs s))" by (simp add: mset_remove_nth)
  from handles_perm [OF this] show ?thesis by (simp add: unbinds_def remove_active_def)
qed

lemma unbinds_perm: "cpu s' = cpu s \<Longrightarrow> mset (active_jobs s') = mset (active_jobs s) \<Longrightarrow> unbinds s s'"
  using handles_perm [of "active_jobs s'" "active_jobs s"] by (simp add: unbinds_def)

section \<open>Binding and unbinding\<close>

lemma pool_okD: "pool_ok c \<Longrightarrow> cpu_ok c"
  by (simp add: pool_ok_def)

lemma sized_strip:
  assumes st: "strip t = strip t'" and w: "wf_topo t'" and z: "sized_topo t'"
  shows "sized_topo t"
proof -
  note L = strip_lengths [OF st]
  have g: "num_cores (groups t ! i) = num_cores (groups t' ! i)" "os_cpus (groups t ! i) = os_cpus (groups t' ! i)"
    if "i < length (groups t')" for i
  proof -
    have "groups (strip t) ! i = groups (strip t') ! i" using st by simp
    then have e: "(groups t ! i)\<lparr>free_count := 0\<rparr> = (groups t' ! i)\<lparr>free_count := 0\<rparr>"
      using that L by (simp add: strip_def)
    from arg_cong [OF e, of num_cores] arg_cong [OF e, of os_cpus]
    show "num_cores (groups t ! i) = num_cores (groups t' ! i)" "os_cpus (groups t ! i) = os_cpus (groups t' ! i)" by simp_all
  qed
  have n: "n_num_cores (nodes t ! i) = n_num_cores (nodes t' ! i)" if "i < length (nodes t')" for i
  proof -
    have "nodes (strip t) ! i = nodes (strip t') ! i" using st by simp
    then have e: "(nodes t ! i)\<lparr>n_free_count := 0\<rparr> = (nodes t' ! i)\<lparr>n_free_count := 0\<rparr>"
      using that L by (simp add: strip_def)
    from arg_cong [OF e, of n_num_cores] show ?thesis by simp
  qed
  have "isum (\<lambda>g. num_cores (groups t ! g)) (group_ids (nodes t ! i)) =
      isum (\<lambda>g. num_cores (groups t' ! g)) (group_ids (nodes t' ! i))" if "i < length (nodes t')" for i
    using w that strip_node(1) [OF st that] g(1) by (auto simp: wf_topo_def intro!: arg_cong [of _ _ sum_list])
  then show ?thesis
    using z n g L by (simp add: sized_topo_def all_set_conv_all_nth)
qed

lemma pool_strip: "pool_ok c \<Longrightarrow> cpu_ok c' \<Longrightarrow> strip (topo c') = strip (topo c) \<Longrightarrow> pool_ok c'"
  using sized_strip [of "topo c'" "topo c"] by (simp add: pool_ok_def cpu_ok_def tables_ok_def)

interpretation sized_pool: cpu_allocator pool_ok "\<lambda>c. set (allocs c)" cpus_of
  cpu_bind_alloc_init cpu_bind_alloc_h cpu_bind_free
proof
  fix c h h'
  show "pool_ok c \<Longrightarrow> h \<in> set (allocs c) \<Longrightarrow> h' \<in> set (allocs c) \<Longrightarrow> h \<noteq> h' \<Longrightarrow>
    set (cpus_of c h) \<inter> set (cpus_of c h') = {}" using cpu_ok_disjoint pool_okD by blast
next
  fix c c' :: cpu_state and j n h
  assume c: "pool_ok c" "j \<noteq> 0" "cpu_bind_alloc_init j n c = (h, c')"
  have "topo c' = topo c" using c(3) by (auto simp: cpu_bind_alloc_init_def Let_def)
  with c pool.open_ok [OF pool_okD [OF c(1)] c(2,3)]
  show "pool_ok c' \<and> set (allocs c') = insert h (set (allocs c))
      \<and> h \<notin> set (allocs c) \<and> cpus_of c' h = [] \<and> (\<forall>k. k \<noteq> h \<longrightarrow> cpus_of c' k = cpus_of c k)"
    by (simp add: pool_ok_def)
next
  fix c :: cpu_state and h n
  assume c: "pool_ok c" "h \<in> set (allocs c)" "cpus_of c h = []"
  from cpu_bind_alloc_h_ok [OF pool_okD [OF c(1)] c(2,3), of n]
  show "returns (cpu_bind_alloc_h h n c) (\<lambda>c'. pool_ok c' \<and> set (allocs c') = set (allocs c)
      \<and> (\<forall>k. k \<noteq> h \<longrightarrow> cpus_of c' k = cpus_of c k))"
    using pool_strip [OF c(1)] by (auto simp: returns_iff cpus_of_def)
next
  fix c :: cpu_state and h
  assume c: "pool_ok c" "h \<in> set (allocs c)"
  from cpu_bind_free_ok [OF pool_okD [OF c(1)] c(2)] pool.close_ok [OF pool_okD [OF c(1)] c(2)]
  show "returns (cpu_bind_free h c) (\<lambda>c'. pool_ok c' \<and> set (allocs c') = set (allocs c) - {h}
      \<and> (\<forall>k. k \<noteq> h \<longrightarrow> cpus_of c' k = cpus_of c k))"
    using pool_strip [OF c(1)] by (auto simp: returns_iff)
qed

lemma attach_binds:
  assumes "pool_ok (cpu s)" "jobid p \<noteq> 0"
  shows "returns (attach_cpus p s) (\<lambda>(p', s'). pool_ok (cpu s') \<and> (\<forall>H. bound H p (cpu s) \<longrightarrow> bound H p' (cpu s')))"
proof -
  obtain h c1 where i: "cpu_bind_alloc_init (jobid p) (num_allocated p) (cpu s) = (h, c1)" by fastforce
  obtain c2 where c2: "cpu_bind_alloc_h h (num_allocated p) c1 = Inr c2" "pool_ok c2"
      "set (allocs c2) = insert h (set (allocs (cpu s)))" "h \<notin> set (allocs (cpu s))"
    using sized_pool.acquire [OF assms i, of "num_allocated p"] by (auto simp: returns_iff)
  then have h: "h \<in> set (allocs c2)" by simp
  have "\<exists>a. alloc_at c2 h = Inr a"
    by (rule cpu_okD [OF pool_okD [OF c2(2)] h]) (simp add: alloc_at_def)
  then obtain a where a: "alloc_at c2 h = Inr a" by blast
  obtain c3 where c3: "cpu_bind_free h c2 = Inr c3" "pool_ok c3" "set (allocs c3) = set (allocs (cpu s))"
    using sized_pool.close_ok [OF c2(2) h] c2(3,4) by (auto simp: returns_iff)
  show ?thesis using i c2 a c3 by (auto simp: attach_cpus_def bound_def)
qed

lemma attach_rebinds:
  assumes "attach_cpus p s = Inr (p', s')" "jobid p \<noteq> 0"
  shows "rebinds p s p' s'"
  unfolding rebinds_def
proof (intro allI impI)
  fix H assume b: "bound H p (cpu s)"
  then have "pool_ok (cpu s)" by (simp add: bound_def)
  from attach_binds [OF this assms(2)] b show "bound H p' (cpu s')" by (simp add: assms(1))
qed

lemma detach_binds:
  assumes "bound H p (cpu s)"
  shows "returns (detach_cpus p s) (\<lambda>(p', s'). bound H p' (cpu s'))"
proof (cases "TS_CPU_BIND (world s) \<and> cpu_alloc p \<noteq> None")
  case False
  then show ?thesis using assms by (auto simp: detach_cpus_def split: option.splits)
next
  case True
  then obtain h where h: "cpu_alloc p = Some h" by blast
  then have b: "pool_ok (cpu s)" "h \<in> set (allocs (cpu s))" "H \<subseteq> set (allocs (cpu s)) - {h}"
    using assms by (auto simp: bound_def)
  from sized_pool.close_ok [OF b(1,2)] show ?thesis
    using True h b(3) by (auto simp: detach_cpus_def bound_def returns_iff)
qed

lemma detach_rebinds: "detach_cpus p s = Inr (p', s') \<Longrightarrow> rebinds p s p' s'"
  using detach_binds [of _ p s] by (simp add: rebinds_def)

section \<open>Operations on one job\<close>

named_theorems cpu_frame \<open>operations that leave the pool and the pointer alone\<close>

lemma freezer_cpu [simp]:
  "cpu (cgroups_freeze_job p s) = cpu s" "cpu (cgroups_thaw_job p s) = cpu s"
  "cpu (cgroups_clean_job p s) = cpu s" "cpu (cgroups_create_job p s) = cpu s"
  "cpu (update_field_int64 j f v s) = cpu s" "cpu (send_list_line sock l s) = cpu s"
  "cpu (insert_or_replace_DB p t s) = cpu s" "cpu (delete_DB j t s) = cpu s" "cpu (snd (insert_DB p t s)) = cpu s"
  by (simp_all add: cgroups_freeze_job_def cgroups_thaw_job_def cgroups_clean_job_def cgroups_create_job_def
      kill_cont_def update_field_int64_def send_list_line_def insert_or_replace_DB_def delete_DB_def insert_DB_def Let_def)

lemma upd_user_cpu [cpu_frame]: "upd_user u f s = Inr s' \<Longrightarrow> cpu s' = cpu s"
  by (auto simp: upd_user_eq)

lemma free_cores_cpu [cpu_frame]: "free_cores p s = Inr (p', s') \<Longrightarrow> cpu s' = cpu s \<and> cpu_alloc p' = cpu_alloc p"
  by (auto simp: free_cores_def rbind_eq_Inr dest: upd_user_cpu split: if_splits)

lemma pause_config_cpu [cpu_frame]: "pause_job_config p s = (p', s') \<Longrightarrow> cpu s' = cpu s \<and> cpu_alloc p' = cpu_alloc p"
  by (auto simp: pause_job_config_def Let_def split: if_splits)

lemma rerun_config_cpu [cpu_frame]: "rerun_job_config p s = (p', s') \<Longrightarrow> cpu s' = cpu s \<and> cpu_alloc p' = cpu_alloc p \<and> jobid p' = jobid p"
  by (auto simp: rerun_job_config_def Let_def split: if_splits)

lemma config_running_rebinds:
  assumes "config_running p s = Inr (err, p', s')" "jobid p \<noteq> 0"
  shows "rebinds p s p' s'"
proof (cases "state p \<noteq> PAUSE \<and> state p \<noteq> QUEUED")
  case True
  then show ?thesis using assms(1) by (auto simp: config_running_def intro: rebinds_same)
next
  case False
  define s1 where "s1 = (if is_sleep p s = 1 then cgroups_thaw_job p s else s)"
  from assms(1) False obtain s2 where
    s2: "upd_user (user p) (\<lambda>u. u\<lparr>busy := busy u + num_slots p, njobs := njobs u + 1\<rparr>) s1 = Inr s2"
    and rest: "(case rerun_job_config (p\<lparr>num_allocated := num_slots p, state := RUNNING, wall_time := i64abs (wall_time p)\<rparr>)
        (update_field_int64 (jobid p) ''wall_time'' (i64abs (wall_time p)) (s2\<lparr>busy_slots := busy_slots s2 + num_slots p\<rparr>)) of
        (p2, s5) \<Rightarrow> if TS_CPU_BIND (world s) \<and> pid p2 \<noteq> 0 \<and> cpu_alloc p2 = None
                    \<and> cpu_bind_enabled (cpu s5) \<and> no_cpu_binding p2 = 0 \<and> num_allocated p2 > 0
                 then rbind (attach_cpus p2 s5) (\<lambda>(p3, s6). Inr (False, p3, s6))
                 else Inr (False, p2, s5)) = Inr (err, p', s')"
    by (simp add: config_running_def Let_def rbind_eq_Inr flip: s1_def) blast
  obtain p2 s5 where r: "rerun_job_config (p\<lparr>num_allocated := num_slots p, state := RUNNING, wall_time := i64abs (wall_time p)\<rparr>)
      (update_field_int64 (jobid p) ''wall_time'' (i64abs (wall_time p)) (s2\<lparr>busy_slots := busy_slots s2 + num_slots p\<rparr>)) = (p2, s5)"
    by fastforce
  have f: "cpu s5 = cpu s" "cpu_alloc p2 = cpu_alloc p" "jobid p2 \<noteq> 0"
    using rerun_config_cpu [OF r] upd_user_cpu [OF s2] assms(2) by (auto simp: s1_def)
  have "rebinds p2 s5 p' s'"
    using rest r f(3) attach_rebinds [of p2 s5 p' s']
    by (auto simp: rbind_eq_Inr split: if_splits intro: rebinds_same)
  then show ?thesis using rebinds_cong [of p2 s5 p' s' p s p' s'] f by simp
qed

lemma safe_pause_rebinds:
  assumes "safe_pause_job p s = Inr (p', s')"
  shows "rebinds p s p' s'"
proof -
  obtain p1 s1 p2 s2 where f: "free_cores p (cgroups_freeze_job p s) = Inr (p1, s1)"
    and d: "detach_cpus p1 s1 = Inr (p2, s2)" and c: "pause_job_config p2 s2 = (p', s')"
    using assms by (auto simp: safe_pause_job_def rbind_eq_Inr)
  show ?thesis
    using rebinds_cong [OF detach_rebinds [OF d], of p s p' s'] free_cores_cpu [OF f] pause_config_cpu [OF c] by simp
qed

lemma relegate_rebinds:
  assumes "s_relegate_job p s = Inr (p', s')"
  shows "rebinds p s p' s'"
proof -
  obtain p1 s1 where "(if state p = RUNNING then safe_pause_job p s else Inr (p, s)) = Inr (p1, s1)"
    "cpu_alloc p' = cpu_alloc p1" "cpu s' = cpu s1"
    using assms by (auto simp: s_relegate_job_def rbind_eq_Inr Let_def)
  then show ?thesis
    using rebinds_cong [of p s p1 s1 p s p' s'] safe_pause_rebinds [of p s p1 s1] rebinds_same [of p p s s]
    by (auto split: if_splits)
qed

lemma check_timeout_rebinds: "check_timeout p s = Inr (late, p', s') \<Longrightarrow> rebinds p s p' s'"
  using relegate_rebinds [of p s p' s']
  by (auto simp: check_timeout_def Let_def rbind_eq_Inr split: if_splits intro: rebinds_same)

lemma mark_running_rebinds:
  assumes "mark_running_body p s = Inr (p', s')" "jobid p \<noteq> 0"
  shows "rebinds p s p' s'"
proof -
  define p1 where "p1 = (if output_filename p = None
    then p\<lparr>output_filename := stdout_link (world s) (pid p)\<rparr> else p)"
  have p1: "cpu_alloc p1 = cpu_alloc p" "jobid p1 \<noteq> 0" using assms(2) by (simp_all add: p1_def)
  have "p' = p1\<lparr>state := PAUSE\<rparr> \<and> s' = s \<or> config_running p1 s = Inr (False, p', s')"
    using assms(1) by (auto simp: mark_running_body_def Let_def rbind_eq_Inr simp flip: p1_def split: if_splits)
  then show ?thesis
    using p1 rebinds_cong [OF config_running_rebinds [of p1 s False p' s'], of p s p' s'] by (auto intro: rebinds_same)
qed

lemma runjob_ok_rebinds:
  assumes "runjob_ok_body oname pd p s = Inr (p', s')" "jobid p \<noteq> 0"
  shows "rebinds p s p' s'"
proof (cases "state p = RUNNING")
  case True
  define att where "att = (if TS_CPU_BIND (world s) \<and> cpu_bind_enabled (cpu s) \<and> no_cpu_binding p = 0
        \<and> num_allocated p > 0 then attach_cpus (p\<lparr>pid := pd\<rparr>) s else Inr (p\<lparr>pid := pd\<rparr>, s))"
  obtain p1 s1 where a: "att = Inr (p1, s1)" "cpu_alloc p' = cpu_alloc p1" "cpu s' = cpu s1"
    using assms(1) True unfolding runjob_ok_body_def att_def [symmetric]
    by (auto simp: rbind_eq_Inr Let_def split: if_splits option.splits)
  have "rebinds (p\<lparr>pid := pd\<rparr>) s p1 s1"
    using a(1) assms(2) attach_rebinds [of "p\<lparr>pid := pd\<rparr>" s p1 s1]
    by (auto simp: att_def split: if_splits intro: rebinds_same)
  then show ?thesis by (rule rebinds_cong) (use a in simp_all)
next
  case False
  then show ?thesis using assms(1) by (auto simp: runjob_ok_body_def split: if_splits intro: rebinds_same)
qed

end
