(* ===== verification/Recount.thy ===== *)
theory Recount
  imports Dispatch
begin

text \<open>
  The recount of \<open>s_update_slots_usage\<close> makes the counters exact whatever they were, and the
  whole of \<open>s_update_slots_usage\<close>, the periodic checks and the removal requests keep the server
  invariant.
\<close>

section \<open>The dispatcher, when it returns\<close>

lemma send_runjob_view: "s_send_runjob sock jid s = Inr s' \<Longrightarrow> view s' = view s"
  by (auto simp: s_send_runjob_def split: option.splits)

lemma findjob_idx_self:
  "srv_ok b s \<Longrightarrow> j < length (active_jobs s) \<Longrightarrow> findjob_idx (jobid (active_jobs s ! j)) s = Some j"
  using find_idx_distinct [of jobid "active_jobs s" j] by (simp add: findjob_idx_def srv_ok_def ids_ok_def)

lemma queue_update_view:
  assumes "upd_user u (\<lambda>x. x\<lparr>queue := f x\<rparr>) s = Inr s'"
  shows "view s' = view s" "active_jobs s' = active_jobs s" "length (users_vec s') = length (users_vec s)"
  using assms by (auto simp: upd_user_eq view_def map_update list_update_same_conv)

lemma dispatch_inv:
  assumes "dispatch u j s = Inr s'" "srv_ok b s" "j < length (active_jobs s)" "dispatchable u s j"
  shows "srv_ok b s'"
proof -
  let ?p = "active_jobs s ! j"
  obtain s1 s2 where s1: "(if state ?p = QUEUED
       then rbind (upd_user (Some u) (\<lambda>x. x\<lparr>queue := queue x - 1\<rparr>) s) (s_mark_job_running (jobid ?p))
       else on_active j (\<lambda>p s. rbind (config_running p s) (\<lambda>(err, p', s'). Inr (p', s'))) s) = Inr s1"
    and s2: "s_send_runjob (client_socket ?p) (jobid ?p) s1 = Inr s2"
    and s': "s' = s2\<lparr>last_uid := (u + 1) mod length (users_vec s2)\<rparr>"
    using assms(1) by (auto simp: dispatch_def Let_def rbind_eq_Inr)
  have "srv_ok b s1"
  proof (cases "state ?p = QUEUED")
    case True
    then obtain s0 where s0: "upd_user (Some u) (\<lambda>x. x\<lparr>queue := queue x - 1\<rparr>) s = Inr s0"
      and m: "s_mark_job_running (jobid ?p) s0 = Inr s1" using s1 by (auto simp: rbind_eq_Inr)
    note q = queue_update_view [OF s0]
    then have ok0: "srv_ok b s0" using srv_ok_view assms(2) by blast
    have "on_active j mark_running_body s0 = Inr s1"
      using m findjob_idx_self [OF ok0, of j] assms(3) q(2) by (simp add: s_mark_job_running_def)
    then show ?thesis
      by (rule srv_ok_on_active [OF _ ok0])
        (use True q mark_running_moves moves_exact in \<open>metis (no_types, lifting)\<close>)
  next
    case False
    then have "on_active j (\<lambda>p s. rbind (config_running p s) (\<lambda>(err, p', s'). Inr (p', s'))) s = Inr s1"
      using s1 by simp
    then show ?thesis
    proof (rule srv_ok_on_active [OF _ assms(2)])
      fix p p' s1
      assume ok: "job_ok b (length (users_vec s)) p"
        and r: "rbind (config_running p s) (\<lambda>(err, p', s'). Inr (p', s')) = Inr (p', s1)"
      then obtain err where "config_running p s = Inr (err, p', s1)" by (auto simp: rbind_eq_Inr)
      from config_running_moves [OF this ok] show "moves b p s p' s1 \<and> job_ok b (length (users_vec s)) p'"
        using moves_exact by blast
    qed
  qed
  then show ?thesis using srv_ok_view [of s' s1] send_runjob_view [OF s2] by (simp add: s')
qed

lemma round_inv: "round is d s = Inr (k, s') \<Longrightarrow> srv_ok b s \<Longrightarrow> srv_ok b s'"
proof (induction "is" arbitrary: d s)
  case (Cons i "is")
  let ?u = "(last_uid s + i) mod length (users_vec s)"
  show ?case
  proof (cases "queue (users_vec s ! ?u) = 0 \<or> free_slots s \<le> 0 \<or> pick_job ?u s = None")
    case True
    then show ?thesis using Cons by (auto simp: Let_def split: if_splits option.splits)
  next
    case False
    then obtain j where j: "pick_job ?u s = Some j" by blast
    then obtain s1 where "dispatch ?u j s = Inr s1" "round is (d + 1) s1 = Inr (k, s')"
      using Cons.prems(1) False by (auto simp: Let_def rbind_eq_Inr)
    then show ?thesis
      using Cons.IH dispatch_inv [OF _ Cons.prems(2) pick_jobD(1,2) [OF j]] by blast
  qed
qed simp

lemma run_loop_inv: "run_loop fuel d s = Inr (k, s') \<Longrightarrow> srv_ok b s \<Longrightarrow> srv_ok b s'"
proof (induction fuel arbitrary: d s)
  case 0
  then show ?case
    using round_inv by (auto simp: run_loop.simps [of 0] rbind_eq_Inr split: if_splits)
next
  case (Suc fuel)
  show ?case
  proof (cases "active_jobs s = []")
    case True
    then show ?thesis using Suc.prems by (simp add: run_loop.simps)
  next
    case False
    then obtain m s1 where r: "round [0..<length (users_vec s)] 0 s = Inr (m, s1)"
      and n: "(if m = 0 then Inr (d, s1) else run_loop fuel (d + m) (wake_all_held_clients s1)) = Inr (k, s')"
      using Suc.prems(1)
      by (auto simp: run_loop.simps [of "Suc fuel"] rbind_eq_Inr cong del: if_weak_cong)
    have ok1: "srv_ok b s1" using round_inv [OF r Suc.prems(2)] .
    then show ?thesis
      using n Suc.IH [of "d + m" "wake_all_held_clients s1"] wake_all_ok [OF ok1] by (auto split: if_splits)
  qed
qed

lemma next_run_job_inv: "next_run_job s = Inr (d, s') \<Longrightarrow> srv_ok b s \<Longrightarrow> srv_ok b s'"
  by (simp add: next_run_job_def run_loop_inv)

section \<open>The recount\<close>

definition user_waits :: "nat \<Rightarrow> job \<Rightarrow> int" where
  "user_waits u p = (if state p \<noteq> RUNNING \<and> user p = Some u then 1 else 0)"

lemma count_jobs:
  assumes "\<forall>p \<in> set ps. \<exists>u < length (users_vec s). user p = Some u"
  shows "\<exists>s'. rfold count_job ps (k, s) = Inr (k + isum run_slots ps, s') \<and> core s' = core s
    \<and> busy_slots s' = busy_slots s \<and> cpu s' = cpu s \<and> out s' = out s
    \<and> (\<forall>u < length (users_vec s). busy (users_vec s' ! u) = busy (users_vec s ! u) + isum (user_slots u) ps
         \<and> njobs (users_vec s' ! u) = njobs (users_vec s ! u) + isum (user_runs u) ps
         \<and> queue (users_vec s' ! u) = queue (users_vec s ! u) + isum (user_waits u) ps)"
  using assms
proof (induction ps arbitrary: k s)
  case (Cons p ps)
  obtain v where v: "v < length (users_vec s)" "user p = Some v" using Cons.prems by auto
  define f where "f = (\<lambda>u. if state p = RUNNING then u\<lparr>busy := busy u + num_slots p, njobs := njobs u + 1\<rparr>
    else (u::user_t)\<lparr>queue := queue u + 1\<rparr>)"
  define s1 where "s1 = s\<lparr>users_vec := (users_vec s)[v := f (users_vec s ! v)]\<rparr>"
  have up: "upd_user (user p) f s = Inr s1" using v by (simp add: upd_user_def s1_def)
  have c: "count_job p (k, s) = Inr (k + run_slots p, s1)"
    using up by (auto simp: count_job_def f_def run_slots_def split: if_splits)
  have core1: "core s1 = core s" using upd_user_core [OF up] by (simp add: f_def user_id_def)
  then have n: "length (users_vec s1) = length (users_vec s)" by (simp add: s1_def)
  have u1: "busy (users_vec s1 ! u) = busy (users_vec s ! u) + user_slots u p
      \<and> njobs (users_vec s1 ! u) = njobs (users_vec s ! u) + user_runs u p
      \<and> queue (users_vec s1 ! u) = queue (users_vec s ! u) + user_waits u p" if "u < length (users_vec s)" for u
    using v that by (cases "u = v") (auto simp: s1_def f_def user_slots_def user_runs_def user_waits_def nth_list_update)
  obtain s' where s': "rfold count_job ps (k + run_slots p, s1) = Inr (k + run_slots p + isum run_slots ps, s')"
    "core s' = core s1" "busy_slots s' = busy_slots s1" "cpu s' = cpu s1" "out s' = out s1"
    "\<forall>u < length (users_vec s1). busy (users_vec s' ! u) = busy (users_vec s1 ! u) + isum (user_slots u) ps
         \<and> njobs (users_vec s' ! u) = njobs (users_vec s1 ! u) + isum (user_runs u) ps
         \<and> queue (users_vec s' ! u) = queue (users_vec s1 ! u) + isum (user_waits u) ps"
    using Cons.IH [of s1 "k + run_slots p"] Cons.prems n by auto
  then show ?case
    using c core1 n u1 by (intro exI [of _ s']) (simp add: s1_def)
qed simp

text \<open>After a recount every counter is what it stands for, whatever it was before.\<close>

lemma recount_exact:
  assumes "\<forall>p \<in> set (active_jobs s). \<exists>u < length (users_vec s). user p = Some u"
  shows "\<exists>s'. recount s = Inr (isum run_slots (active_jobs s), s') \<and> core s' = core s \<and> cpu s' = cpu s
    \<and> busy_slots s' = isum run_slots (active_jobs s)
    \<and> (\<forall>u < length (users_vec s). busy (users_vec s' ! u) = isum (user_slots u) (active_jobs s)
         \<and> njobs (users_vec s' ! u) = isum (user_runs u) (active_jobs s)
         \<and> queue (users_vec s' ! u) = isum (user_waits u) (active_jobs s))"
proof -
  define s0 where "s0 = s\<lparr>users_vec := map zero_user (users_vec s)\<rparr>"
  have "\<forall>p \<in> set (active_jobs s). \<exists>u < length (users_vec s0). user p = Some u"
    using assms by (simp add: s0_def)
  from count_jobs [OF this, of 0] obtain s1 where
    s1: "rfold count_job (active_jobs s) (0, s0) = Inr (isum run_slots (active_jobs s), s1)"
    "core s1 = core s0" "busy_slots s1 = busy_slots s0" "cpu s1 = cpu s0"
    "\<forall>u < length (users_vec s0). busy (users_vec s1 ! u) = busy (users_vec s0 ! u) + isum (user_slots u) (active_jobs s)
         \<and> njobs (users_vec s1 ! u) = njobs (users_vec s0 ! u) + isum (user_runs u) (active_jobs s)
         \<and> queue (users_vec s1 ! u) = queue (users_vec s0 ! u) + isum (user_waits u) (active_jobs s)"
    by auto
  have c0: "core s0 = core s"
    by (simp add: s0_def core_def comp_def zero_user_def user_id_def)
  define s2 where "s2 = (if isum run_slots (active_jobs s) \<noteq> busy_slots s1
    then s1\<lparr>busy_slots := isum run_slots (active_jobs s)\<rparr> else s1)"
  have s2: "core s2 = core s1" "cpu s2 = cpu s1" "users_vec s2 = users_vec s1"
    "busy_slots s2 = isum run_slots (active_jobs s)"
    by (simp_all add: s2_def core_def)
  have "recount s = Inr (isum run_slots (active_jobs s), s2)"
    using s1(1) by (simp add: recount_def s0_def s2_def)
  moreover have "busy (users_vec s0 ! u) = 0" "njobs (users_vec s0 ! u) = 0" "queue (users_vec s0 ! u) = 0"
    if "u < length (users_vec s)" for u
    using that by (simp_all add: s0_def zero_user_def)
  ultimately show ?thesis
    using s1 s2 c0 by (intro exI [of _ s2]) (simp add: s0_def)
qed

text \<open>The sums as counts over the jobs they are about.\<close>

lemma run_slots_filter: "isum run_slots ps = isum num_slots (filter (\<lambda>p. state p = RUNNING) ps)"
  by (induction ps) (simp_all add: run_slots_def)

lemma user_slots_filter: "isum (user_slots u) ps = isum num_slots (filter (\<lambda>p. state p = RUNNING \<and> user p = Some u) ps)"
  by (induction ps) (simp_all add: user_slots_def)

lemma user_runs_filter: "isum (user_runs u) ps = int (length (filter (\<lambda>p. state p = RUNNING \<and> user p = Some u) ps))"
  by (induction ps) (simp_all add: user_runs_def)

lemma user_waits_filter: "isum (user_waits u) ps = int (length (filter (\<lambda>p. state p \<noteq> RUNNING \<and> user p = Some u) ps))"
  by (induction ps) (simp_all add: user_waits_def)

lemma srv_ok_users: "srv_ok b s \<Longrightarrow> \<forall>p \<in> set (active_jobs s). \<exists>u < length (users_vec s). user p = Some u"
  by (auto simp: srv_ok_def acct_def job_ok_def)

lemma recount_ok:
  assumes "recount s = Inr (usage, s')" "srv_ok b s"
  shows "srv_ok b s'"
proof -
  from recount_exact [OF srv_ok_users [OF assms(2)]] assms(1) have
    c: "core s' = core s" and b: "busy_slots s' = isum run_slots (active_jobs s)"
    and u: "\<forall>u < length (users_vec s). busy (users_vec s' ! u) = isum (user_slots u) (active_jobs s)
         \<and> njobs (users_vec s' ! u) = isum (user_runs u) (active_jobs s)" by auto
  note F = core_fields [OF c]
  show ?thesis
    using assms(2) b u F by (simp add: srv_ok_def acct_def ids_ok_def)
qed

lemma s_update_slots_usage_inv:
  assumes "s_update_slots_usage s = Inr (usage, s')" "srv_ok b s"
  shows "srv_ok b s'"
proof -
  obtain fl s1 s2 s3 d where t: "s_check_timeout s = Inr (fl, s1)"
    and r: "rfold reap_step (rev [0..<length (active_jobs s1)]) s1 = Inr s2"
    and c: "recount s2 = Inr (usage, s3)"
    and n: "(if fl then next_run_job s3 else Inr (0, s3)) = Inr (d, s')"
    using assms(1) by (auto simp: s_update_slots_usage_def rbind_eq_Inr)
  have "srv_ok b s1" using s_check_timeout_ok [OF t assms(2)] .
  then have "srv_ok b s2" by (rule rfold_keeps [OF r]) (rule reap_step_ok)
  then have "srv_ok b s3" using recount_ok [OF c] by blast
  then show ?thesis using n next_run_job_inv by (auto split: if_splits)
qed

section \<open>Periodic checks\<close>

lemma health_step_ok:
  assumes "health_step i s = Inr s'" "srv_ok b s"
  shows "srv_ok b s'"
proof -
  let ?p = "active_jobs s ! i"
  have i: "i < length (active_jobs s)" using assms(1) by (auto simp: health_step_def split: if_splits)
  note jok = job_okD [OF assms(2) i]
  consider "s' = s" | "s' = set_active i (?p\<lparr>health_state := 1\<rparr>) s"
    | s1 where "state ?p = RUNNING" "on_active i (\<lambda>p s. rbind (free_cores (p\<lparr>state := ABNORMAL\<rparr>) s) (\<lambda>(p1, s1). detach_cpus p1 s1)) s = Inr s1"
      "cpu_bind_defrag_start s1 = Inr s'"
    using assms(1) i by (auto simp: health_step_def Let_def rbind_eq_Inr health_due_def split: if_splits)
  then show ?thesis
  proof cases
    case 1
    then show ?thesis using assms(2) by simp
  next
    case 2
    then show ?thesis using srv_ok_set_same [OF i] assms(2) by (simp add: same_job_def)
  next
    case (3 s1)
    have "srv_ok b s1"
    proof (rule srv_ok_on_active [OF 3(2) assms(2)])
      fix p p' s2
      assume ok: "job_ok b (length (users_vec s)) p" and p: "p = active_jobs s ! i"
        and r: "rbind (free_cores (p\<lparr>state := ABNORMAL\<rparr>) s) (\<lambda>(p1, s1). detach_cpus p1 s1) = Inr (p', s2)"
      from r obtain p1 s1 where f: "free_cores (p\<lparr>state := ABNORMAL\<rparr>) s = Inr (p1, s1)"
        and d: "detach_cpus p1 s1 = Inr (p', s2)" by (auto simp: rbind_eq_Inr)
      obtain q where q: "free_cores p s = Inr (q, s1)" "p1 = q\<lparr>state := ABNORMAL\<rparr>"
        using f by (auto simp: free_cores_def rbind_eq_Inr split: if_splits)
      have m1: "moves b p s p1 s1" "num_allocated p1 = 0"
        using free_cores_delta [OF q(1) ok, of ABNORMAL] q(2) by auto
      note D = detach_cpus_same [OF d]
      have "moves b p s p' s2"
        using moves_same_right [OF moves_job_cong [OF m1(1)] D(2), of p'] D(1) by (simp add: same_job_def)
      then show "moves b p s p' s2 \<and> job_ok b (length (users_vec s)) p'"
        using job_ok_parked [of b p s p' s2] ok D(1) m1(2) q(2) by (simp add: same_job_def live_def)
    qed
    then show ?thesis using srv_ok_view [OF same_counters_view [OF defrag_same [OF 3(3)]]] by simp
  qed
qed

lemma s_check_running_health_inv:
  "s_check_running_health s = Inr s' \<Longrightarrow> srv_ok b s \<Longrightarrow> srv_ok b s'"
  unfolding s_check_running_health_def by (erule rfold_keeps) (auto intro: health_step_ok)

lemma s_check_holdon_view: "view (s_check_holdon s) = view s"
proof -
  have "view (foldl (\<lambda>s p. if pid p \<noteq> 0 \<and> state p = PAUSE \<and> is_sleep p s = 0 then cgroups_freeze_job p s else s) s ps) = view s" for ps
    by (induction ps arbitrary: s) (simp_all add: same_counters_view)
  then show ?thesis by (simp add: s_check_holdon_def)
qed

lemma orphan_step_ok:
  assumes "orphan_step i s = Inr s'" "srv_ok b s"
  shows "srv_ok b s'"
proof (cases "s' = s")
  case False
  then have i: "i < length (active_jobs s)" "state (active_jobs s ! i) = QUEUED"
    and d: "s_delete_job (jobid (active_jobs s ! i)) s = Inr s'"
    using assms(1) by (auto simp: orphan_step_def Let_def split: if_splits)
  have "\<not> job_is_running (jobid (active_jobs s ! i)) s"
    using findjob_idx_self [OF assms(2) i(1)] i(2)
    by (simp add: job_is_running_def job_is_in_state_def findjob_def)
  then show ?thesis using s_delete_job_ok [OF d assms(2)] by blast
qed (use assms in simp)

lemma s_cleanup_orphan_inv:
  "s_cleanup_orphan_queued s = Inr s' \<Longrightarrow> srv_ok b s \<Longrightarrow> srv_ok b s'"
  unfolding s_cleanup_orphan_queued_def by (erule rfold_keeps) (auto intro: orphan_step_ok)

end
