(* ===== verification/Bind_Queue.thy ===== *)
theory Bind_Queue
  imports Bind_Inv Recount
begin

text \<open>
  Pool and jobs across the queue operations: finishing a job, the waiting list, time-outs and
  dead processes, the recount, the dispatcher and the periodic checks. With both invariants
  these return: no pointer of theirs dangles, and no internal check of theirs fails.
\<close>

section \<open>Finishing a job\<close>

lemma defrag_start_binds:
  assumes "bind_ok s"
  shows "returns (cpu_bind_defrag_start s) (\<lambda>s'. bind_ok s' \<and> same_counters s s' \<and> first_notify s' = first_notify s
    \<and> finished_jobs s' = finished_jobs s)"
proof (cases "\<not> TS_CPU_BIND (world s) \<or> \<not> cpu_bind_defrag_enabled (cpu s) \<or> allocs (cpu s) = []")
  case True
  then show ?thesis using assms by (simp add: cpu_bind_defrag_start_def)
next
  case False
  have p: "cpu_ok (cpu s)" "sized_topo (topo (cpu s))" using assms by (simp_all add: bind_ok_def pool_ok_def)
  obtain moved c' where d: "defrag_compute (cpu s) = Inr (moved, c')" "cpu_ok c'" "mset (allocs c') = mset (allocs (cpu s))"
      "strip (topo c') = strip (topo (cpu s))"
    using defrag_compute_ok [OF p] by blast
  have "pool_ok c'" using pool_strip [of "cpu s" c'] d p by (simp add: pool_ok_def)
  moreover have "set (allocs c') = set (allocs (cpu s))" using d(3) mset_eq_setD by blast
  ultimately show ?thesis
    using False assms d(1) by (auto simp: cpu_bind_defrag_start_def bind_ok_def)
qed

lemma notify_one_cpu:
  "map cpu_alloc (active_jobs (notify_one lev s jid)) = map cpu_alloc (active_jobs s)
   \<and> cpu (notify_one lev s jid) = cpu s \<and> first_notify (notify_one lev s jid) = first_notify s"
proof (cases "findjob_idx jid s")
  case None
  then show ?thesis by (auto simp: notify_one_def Let_def split: option.splits)
next
  case (Some i)
  then have "i < length (active_jobs s)" using findjob_idx_bound by blast
  then show ?thesis by (simp add: notify_one_def Some Let_def set_active_def map_update list_update_same_conv)
qed

lemma notify_errorlevel_cpu:
  "map cpu_alloc (active_jobs (notify_errorlevel p s)) = map cpu_alloc (active_jobs s)"
  "cpu (notify_errorlevel p s) = cpu s" "first_notify (notify_errorlevel p s) = first_notify s"
proof -
  have "map cpu_alloc (active_jobs (foldl (notify_one lev) s js)) = map cpu_alloc (active_jobs s)
     \<and> cpu (foldl (notify_one lev) s js) = cpu s \<and> first_notify (foldl (notify_one lev) s js) = first_notify s" for lev s js
    by (induction js arbitrary: s) (simp_all add: notify_one_cpu)
  then show "map cpu_alloc (active_jobs (notify_errorlevel p s)) = map cpu_alloc (active_jobs s)"
    "cpu (notify_errorlevel p s) = cpu s" "first_notify (notify_errorlevel p s) = first_notify s"
    by (simp_all add: notify_errorlevel_def)
qed

text \<open>A job that has left the queue with its pointer: it is unbound and stored.\<close>

lemma new_finished_binds:
  assumes "distinct (handles (active_jobs s))" "bound (set (handles (active_jobs s))) j (cpu s)"
  shows "returns (new_finished_job j s) (\<lambda>s'. bind_ok s' \<and> view s' = view s \<and> first_notify s' = first_notify s
    \<and> (\<exists>fs j'. finished_jobs s' = fs @ [j'] \<and> jobid j' = jobid j \<and> state j' = state j
         \<and> set fs \<subseteq> set (finished_jobs s)))"
proof -
  let ?old = "int (length (finished_jobs s)) \<ge> get_max_finished_jobs s"
  define s1 where "s1 = (if ?old then s\<lparr>finished_jobs := remove_nth 0 (finished_jobs s)\<rparr> else s)"
  obtain ok s2 where i: "insert_DB j Finished s1 = (ok, s2)" by fastforce
  define s4 where "s4 = cgroups_clean_job j (if ok then delete_DB (jobid j) Jobs s2 else s2)"
  have F: "cpu s4 = cpu s" "active_jobs s4 = active_jobs s" "first_notify s4 = first_notify s" "view s4 = view s"
      "finished_jobs s4 = finished_jobs s1"
    using i by (auto simp: s4_def s1_def insert_DB_def delete_DB_def cgroups_clean_job_def view_def)
  have sub: "set (finished_jobs s1) \<subseteq> set (finished_jobs s)" by (simp add: s1_def set_remove_nth)
  obtain j' s5 where d: "detach_cpus j s4 = Inr (j', s5)" "bound (set (handles (active_jobs s))) j' (cpu s5)"
    using detach_binds [of "set (handles (active_jobs s))" j s4] assms(2) F(1) by (auto simp: returns_iff)
  note D = detach_cpus_same [OF d(1)]
  have f5: "finished_jobs s5 = finished_jobs s4" "first_notify s5 = first_notify s4"
    using d(1) by (auto simp: detach_cpus_def rbind_eq_Inr split: if_splits option.splits)
  define s6 where "s6 = s5\<lparr>finished_jobs := finished_jobs s5 @ [j']\<rparr>"
  have a6: "active_jobs s6 = active_jobs s" "cpu s6 = cpu s5" "view s6 = view s"
    using core_fields(1) [of s5 s4] same_counters_view [OF D(2)] D(2) F by (simp_all add: s6_def same_counters_def)
  then have "bind_ok s6" using assms(1) d(2) by (simp add: bind_ok_def bound_def)
  from defrag_start_binds [OF this]
  have "returns (cpu_bind_defrag_start s6) (\<lambda>s'. bind_ok s' \<and> view s' = view s \<and> first_notify s' = first_notify s
      \<and> (\<exists>fs j'. finished_jobs s' = fs @ [j'] \<and> jobid j' = jobid j \<and> state j' = state j \<and> set fs \<subseteq> set (finished_jobs s)))"
  proof (rule returns_mono)
    fix s' assume s': "bind_ok s' \<and> same_counters s6 s' \<and> first_notify s' = first_notify s6 \<and> finished_jobs s' = finished_jobs s6"
    moreover from this have "view s' = view s" using same_counters_view [of s6 s'] a6(3) by simp
    moreover have "finished_jobs s6 = finished_jobs s1 @ [j']" "first_notify s6 = first_notify s"
      using f5 F by (simp_all add: s6_def)
    ultimately show "bind_ok s' \<and> view s' = view s \<and> first_notify s' = first_notify s
      \<and> (\<exists>fs j'. finished_jobs s' = fs @ [j'] \<and> jobid j' = jobid j \<and> state j' = state j \<and> set fs \<subseteq> set (finished_jobs s))"
      using D(1) sub by (auto simp: same_job_def)
  qed
  then show ?thesis
    using i d(1) by (simp add: new_finished_job_def Let_def s4_def [symmetric] s6_def [symmetric] flip: s1_def)
qed

lemma busy_nonneg:
  assumes "srv_ok b s"
  shows "0 \<le> busy_slots s"
proof -
  have "0 \<le> isum run_slots (active_jobs s)"
    using assms by (intro isum_nonneg) (auto simp: srv_ok_def acct_def job_ok_def run_slots_def dest!: bspec)
  then show ?thesis using assms by (auto simp: srv_ok_def acct_def at_least_def split: if_splits)
qed

lemma free_cores_returns:
  assumes "job_ok b (length (users_vec s)) p"
  shows "\<exists>p' s'. free_cores p s = Inr (p', s')"
  using assms by (auto simp: free_cores_def job_ok_def upd_user_def)

lemma job_finished_binds:
  assumes ok: "srv_ok b s" "bind_ok s" and i: "findjob_idx jid s = Some i"
  shows "returns (job_finished r jid s) (\<lambda>s'. bind_ok s' \<and> first_notify s' = first_notify s
    \<and> length (users_vec s') = length (users_vec s)
    \<and> map jobid (active_jobs s') = remove_nth i (map jobid (active_jobs s))
    \<and> jid \<in> jobid ` set (finished_jobs s'))"
proof -
  let ?p = "active_jobs s ! i" and ?st = "if skipped r \<noteq> 0 then SKIPPED else FINISHED"
  note ib = findjob_idx_bound [OF i]
  have jok: "job_ok b (length (users_vec s)) ?p" using job_okD [OF ok(1)] ib by blast
  obtain p1 s1 where f: "free_cores ?p s = Inr (p1, s1)" using free_cores_returns [OF jok] by blast
  note D = free_cores_delta [OF f jok, of ?st]
  have m: "moves b ?p s (p1\<lparr>state := ?st\<rparr>) s1" "jobid p1 = jobid ?p" using D(1,6) by auto
  note F = moves_fields [OF m(1)]
  define p2 where "p2 = p1\<lparr>state := ?st, result := r\<rparr>"
  define s2 where "s2 = notify_errorlevel p2 ((set_active i p2 s1)\<lparr>last_finished_jobid := jobid p2\<rparr>)"
  define p3 where "p3 = finish_info r (active_jobs s2 ! i) s2"
  have len: "length (active_jobs s2) = length (active_jobs s)"
    by (simp add: s2_def notify_errorlevel_keys set_active_def F)
  have keys: "map acct_key (active_jobs s2) = map acct_key ((active_jobs s)[i := p2])"
    by (simp add: s2_def notify_errorlevel_keys set_active_def F)
  have al: "map cpu_alloc (active_jobs s2) = map cpu_alloc (active_jobs s)"
    using free_cores_cpu [OF f] ib
    by (simp add: s2_def notify_errorlevel_cpu set_active_def F map_update list_update_same_conv p2_def)
  have c2: "cpu s2 = cpu s" "first_notify s2 = first_notify s"
    using free_cores_cpu [OF f] F by (simp_all add: s2_def notify_errorlevel_cpu set_active_def)
  have "bind_ok s2" using bind_ok_unbinds [OF ok(2) unbinds_same [OF c2(1) al]] .
  then have b: "bound (set (handles (active_jobs (remove_active i s2)))) (active_jobs s2 ! i) (cpu s2)"
      "distinct (handles (active_jobs (remove_active i s2)))"
    using bind_ok_bound [of s2 i] bind_ok_unbinds [OF _ unbinds_remove, of s2 i] ib len
    by (simp_all add: remove_active_def bind_ok_def)
  have k3: "acct_key (active_jobs s2 ! i) = acct_key p2"
    using arg_cong [OF keys, of "\<lambda>l. l ! i"] ib len by simp
  have p3: "cpu_alloc p3 = cpu_alloc (active_jobs s2 ! i)" "jobid p3 = jid" "state p3 = ?st"
    using k3 m(2) ib by (simp_all add: p3_def finish_info_def Let_def acct_key_def p2_def)
  have "returns (new_finished_job p3 (remove_active i s2)) (\<lambda>s'. bind_ok s' \<and> view s' = view (remove_active i s2)
      \<and> first_notify s' = first_notify (remove_active i s2)
      \<and> (\<exists>fs j'. finished_jobs s' = fs @ [j'] \<and> jobid j' = jobid p3 \<and> state j' = state p3
         \<and> set fs \<subseteq> set (finished_jobs (remove_active i s2))))"
    by (rule new_finished_binds) (use b p3 bound_cong [of p3 "active_jobs s2 ! i"] in \<open>simp_all add: remove_active_def\<close>)
  moreover have "job_finished r jid s = new_finished_job p3 (remove_active i s2)"
    using i f busy_nonneg [OF ok(1)] by (simp add: job_finished_def Let_def p2_def s2_def p3_def)
  moreover have "map jobid (active_jobs s2) = map jobid (active_jobs s)"
  proof -
    have "map (fst \<circ> acct_key) (active_jobs s2) = map (fst \<circ> acct_key) ((active_jobs s)[i := p2])"
      using arg_cong [OF keys, of "map fst"] by simp
    then show ?thesis using ib m(2) by (simp add: acct_key_def comp_def map_update list_update_same_conv p2_def)
  qed
  moreover have "length (users_vec s2) = length (users_vec s)"
    using F by (simp add: s2_def notify_errorlevel_keys set_active_def)
  ultimately show ?thesis
    using c2(2) p3(2)
    by (auto simp: returns_iff view_def remove_active_def dest: map_eq_imp_length_eq simp flip: remove_nth_map)
qed

section \<open>The waiting list\<close>

lemma remove_notification_suffix:
  assumes "first_notify s = pre @ (sock, jid) # ns"
  shows "\<exists>pre'. first_notify (s_remove_notification sock s) = pre' @ ns"
proof -
  have "find_idx fst sock (pre @ (sock, jid) # ns) \<noteq> None" by (simp add: find_idx_None)
  then obtain i where i: "find_idx fst sock (pre @ (sock, jid) # ns) = Some i" by blast
  have "i \<le> length pre" using find_idx_SomeD [OF i] by (metis fst_conv leI nth_append_length)
  then have "remove_nth i (pre @ (sock, jid) # ns) = (if i = length pre then pre else remove_nth i pre @ [(sock, jid)]) @ ns"
    by (auto simp: remove_nth_def)
  then show ?thesis using assms i by (auto simp: s_remove_notification_def)
qed

lemma wait_fields [simp]:
  "cpu (send_waitjob_ok sock lev s) = cpu s" "first_notify (send_waitjob_ok sock lev s) = first_notify s"
  "active_jobs (send_waitjob_ok sock lev s) = active_jobs s" "finished_jobs (send_waitjob_ok sock lev s) = finished_jobs s"
  "cpu (s_remove_notification sock s) = cpu s" "active_jobs (s_remove_notification sock s) = active_jobs s"
  "finished_jobs (s_remove_notification sock s) = finished_jobs s"
  by (simp_all add: send_waitjob_ok_def s_remove_notification_def split: option.splits)

lemma get_job_exists:
  assumes "jid \<in> jobid ` set (active_jobs s) \<union> jobid ` set (finished_jobs s)"
  shows "\<exists>j. get_job jid s = Some j \<and> jobid j = jid"
proof (cases "findjob_idx jid s")
  case (Some i)
  then show ?thesis using findjob_idx_bound [OF Some] by (simp add: get_job_def findjob_def)
next
  case None
  then have "jid \<in> jobid ` set (finished_jobs s)" using assms by (simp add: findjob_idx_def find_idx_None)
  then obtain i where i: "find_idx jobid jid (finished_jobs s) = Some i" by (metis find_idx_None not_None_eq)
  then show ?thesis
    using None find_idx_SomeD [OF i] by (simp add: get_job_def findjob_def find_finished_job_def find_finished_idx_def)
qed

lemma destroy_returns:
  assumes "jid \<in> jobid ` set (finished_jobs s)"
  shows "\<exists>s'. destroy_finished_job jid s = Inr s' \<and> cpu s' = cpu s \<and> active_jobs s' = active_jobs s \<and> first_notify s' = first_notify s"
  using assms find_idx_None [of jobid jid "finished_jobs s"]
  by (cases "find_finished_idx jid s") (auto simp: destroy_finished_job_def find_finished_idx_def)

text \<open>Telling the waiters of a job that is not in the queue returns: the job is destroyed after the last one only.\<close>

lemma notify_loop_returns:
  assumes "jid \<notin> jobid ` set (active_jobs s)" "\<exists>pre. first_notify s = pre @ ns"
    "jid \<in> snd ` set ns \<Longrightarrow> jid \<in> jobid ` set (finished_jobs s)"
  shows "returns (notify_loop jid ns s) (\<lambda>s'. cpu s' = cpu s \<and> active_jobs s' = active_jobs s)"
  using assms
proof (induction ns arbitrary: s)
  case (Cons n ns)
  obtain pre where pre: "first_notify s = pre @ n # ns" using Cons.prems(2) by blast
  show ?case
  proof (cases "snd n = jid")
    case False
    have "returns (notify_loop jid ns s) (\<lambda>s'. cpu s' = cpu s \<and> active_jobs s' = active_jobs s)"
      by (rule Cons.IH) (use Cons.prems pre in \<open>auto intro: exI [of _ "pre @ [n]"]\<close>)
    then show ?thesis using False by simp
  next
    case True
    then have f: "jid \<in> jobid ` set (finished_jobs s)" using Cons.prems(3) by auto
    obtain j where j: "get_job jid s = Some j" "jobid j = jid" using get_job_exists [of jid s] f by auto
    define s1 where "s1 = s_remove_notification (fst n) (send_waitjob_ok (fst n) (errorlevel (result j)) s)"
    have s1: "cpu s1 = cpu s" "active_jobs s1 = active_jobs s" "finished_jobs s1 = finished_jobs s" by (simp_all add: s1_def)
    have "first_notify (send_waitjob_ok (fst n) (errorlevel (result j)) s) = pre @ (fst n, snd n) # ns" using pre by simp
    from remove_notification_suffix [OF this] have suf: "\<exists>pre. first_notify s1 = pre @ ns" by (simp add: s1_def)
    have plain: "returns (notify_loop jid ns t) (\<lambda>s'. cpu s' = cpu s \<and> active_jobs s' = active_jobs s)"
      if "cpu t = cpu s" "active_jobs t = active_jobs s" "\<exists>pre. first_notify t = pre @ ns"
        "jid \<in> snd ` set ns \<Longrightarrow> jid \<in> jobid ` set (finished_jobs t)" for t
      using Cons.IH [of t] that Cons.prems(1) by simp
    have gone: "jid \<notin> snd ` set ns" if "\<not> in_notify_list jid s1"
      using that suf by (auto simp: in_notify_list_def list_ex_iff)
    obtain s2 where s2: "destroy_finished_job jid s1 = Inr s2" "cpu s2 = cpu s1" "active_jobs s2 = active_jobs s1"
        "first_notify s2 = first_notify s1"
      using destroy_returns [of jid s1] f s1(3) by auto
    have "returns (notify_loop jid ns s2) (\<lambda>s'. cpu s' = cpu s \<and> active_jobs s' = active_jobs s)" if "\<not> in_notify_list jid s1"
      using plain [of s2] s1 s2 suf gone [OF that] by auto
    moreover have "returns (notify_loop jid ns s1) (\<lambda>s'. cpu s' = cpu s \<and> active_jobs s' = active_jobs s)"
      using plain [of s1] s1 suf f by simp
    moreover have "returns (notify_loop jid ns s) (\<lambda>s'. cpu s' = cpu s \<and> active_jobs s' = active_jobs s)"
      using plain [of s] pre f by (auto intro: exI [of _ "pre @ [n]"])
    ultimately show ?thesis
      using True j s2(1) by (simp add: Let_def s1_def [symmetric])
  qed
qed simp

section \<open>Both invariants together\<close>

definition healthy :: "bool \<Rightarrow> srv \<Rightarrow> bool" where
  "healthy b s \<longleftrightarrow> srv_ok b s \<and> bind_ok s \<and> users_vec s \<noteq> []"

lemma healthyD: "healthy b s \<Longrightarrow> srv_ok b s" "healthy b s \<Longrightarrow> bind_ok s" "healthy b s \<Longrightarrow> users_vec s \<noteq> []"
  by (simp_all add: healthy_def)

lemma healthy_same:
  assumes "healthy b s" "view s' = view s" "cpu s' = cpu s"
  shows "healthy b s'"
proof -
  have "length (users_vec s') = length (users_vec s)" using assms(2) by (auto simp: view_def dest: map_eq_imp_length_eq)
  moreover have "bind_ok s'" using assms bind_ok_unbinds [OF _ unbinds_same, of s s'] by (simp add: healthy_def view_def)
  ultimately show ?thesis using assms srv_ok_view [OF assms(2)] by (auto simp: healthy_def)
qed

lemma view_users_ne: "view s' = view s \<Longrightarrow> users_vec s \<noteq> [] \<Longrightarrow> users_vec s' \<noteq> []"
  by (auto simp: view_def)

lemma moves_users_ne: "moves b p s p' s' \<Longrightarrow> users_vec s \<noteq> [] \<Longrightarrow> users_vec s' \<noteq> []"
  using moves_fields(4) by fastforce

lemma jobid_nonzero: "srv_ok b s \<Longrightarrow> i < length (active_jobs s) \<Longrightarrow> jobid (active_jobs s ! i) \<noteq> 0"
  by (simp add: srv_ok_def ids_ok_def)

text \<open>A change of the job at one position that both invariants allow.\<close>

lemma healthy_set_active:
  assumes h: "healthy b s" and i: "i < length (active_jobs s)"
    and m: "moves b (active_jobs s ! i) s p' s'" "job_ok b (length (users_vec s)) p'" "rebinds (active_jobs s ! i) s p' s'"
  shows "healthy b (set_active i p' s')"
proof -
  have "srv_ok b (set_active i p' s')" using srv_ok_set_active [OF healthyD(1) [OF h] i m(1)] m(2) by simp
  moreover have "bind_ok (set_active i p' s')"
    using bind_ok_set_active [OF healthyD(2) [OF h] i m(3)] moves_fields(1) [OF m(1)] by simp
  moreover have "users_vec (set_active i p' s') \<noteq> []"
    using moves_users_ne [OF m(1) healthyD(3) [OF h]] by (simp add: set_active_def)
  ultimately show ?thesis by (simp add: healthy_def)
qed

text \<open>Loops that walk a vector downwards and may remove the current element.\<close>

lemma returns_downward:
  assumes "\<And>i s. P s \<Longrightarrow> i < len s \<Longrightarrow> returns (f i s) (\<lambda>s'. P s' \<and> i \<le> len s')" "P s" "n \<le> (len s :: nat)"
  shows "returns (rfold f (rev [0..<n]) s) P"
  using assms(2,3)
proof (induction n arbitrary: s)
  case (Suc n)
  have "returns (f n s) (\<lambda>s'. P s' \<and> n \<le> len s')" using assms(1) Suc.prems by simp
  then show ?case by (auto intro: returns_bind Suc.IH)
qed simp

lemma reap_step_returns:
  assumes h: "healthy b s" and i: "i < length (active_jobs s)"
  shows "returns (reap_step i s) (\<lambda>s'. healthy b s' \<and> i \<le> length (active_jobs s'))"
proof -
  let ?p = "active_jobs s ! i"
  note ok = healthyD [OF h]
  define r where "r = killed_result (get_work_time_by_job ?p s)"
  note f = findjob_idx_self [OF ok(1) i]
  obtain s1 where s1: "job_finished r (jobid ?p) s = Inr s1" "bind_ok s1" "length (users_vec s1) = length (users_vec s)"
      "map jobid (active_jobs s1) = remove_nth i (map jobid (active_jobs s))" "jobid ?p \<in> jobid ` set (finished_jobs s1)"
    using job_finished_binds [OF ok(1,2) f, of r] by (auto simp: returns_iff)
  have ok1: "srv_ok b s1" using job_finished_ok [OF s1(1) ok(1)] .
  have d: "distinct (map jobid (active_jobs s))" using ok(1) by (simp add: srv_ok_def ids_ok_def)
  have "mset (map jobid (active_jobs s)) = mset (jobid ?p # map jobid (active_jobs s1))"
    using s1(4) i mset_remove_nth [of i "map jobid (active_jobs s)"] by simp
  with d have "distinct (jobid ?p # map jobid (active_jobs s1))" using mset_eq_imp_distinct_iff by blast
  then have "returns (check_notify_list (jobid ?p) s1) (\<lambda>s'. cpu s' = cpu s1 \<and> active_jobs s' = active_jobs s1)"
    unfolding check_notify_list_def using s1(5) by (intro notify_loop_returns) auto
  then obtain s2 where s2: "check_notify_list (jobid ?p) s1 = Inr s2" "cpu s2 = cpu s1" by (auto simp: returns_iff)
  have "length (active_jobs s1) = length (active_jobs s) - 1"
    using arg_cong [OF s1(4), of length] i by (simp add: length_remove_nth)
  moreover have "users_vec s1 \<noteq> []" using s1(3) ok(3) by auto
  ultimately have "healthy b s2 \<and> i \<le> length (active_jobs s2)"
    using healthy_same [of b s1 s2] check_notify_view [OF s2(1)] s2(2) ok1 s1(2) i by (auto simp: healthy_def view_def)
  then show ?thesis using i h s1(1) s2(1) by (auto simp: reap_step_def Let_def r_def)
qed

section \<open>Time-outs\<close>

lemma safe_pause_returns:
  assumes "job_ok b (length (users_vec s)) p" "bound H p (cpu s)"
  shows "\<exists>p' s'. safe_pause_job p s = Inr (p', s')"
proof -
  have "users_vec (cgroups_freeze_job p s) = users_vec s"
    by (simp add: cgroups_freeze_job_def kill_cont_def Let_def)
  then obtain p1 s1 where f: "free_cores p (cgroups_freeze_job p s) = Inr (p1, s1)"
    using free_cores_returns [of b "cgroups_freeze_job p s" p] assms(1) by auto
  then have "bound H p1 (cpu s1)" using free_cores_cpu [OF f] assms(2) bound_cong [of p1 p] by simp
  then obtain p2 s2 where "detach_cpus p1 s1 = Inr (p2, s2)" using detach_binds by (fastforce simp: returns_iff)
  then show ?thesis using f by (cases "pause_job_config p2 s2") (simp add: safe_pause_job_def)
qed

lemma relegate_returns:
  assumes "job_ok b (length (users_vec s)) p" "bound H p (cpu s)"
  shows "\<exists>p' s'. s_relegate_job p s = Inr (p', s')"
  using safe_pause_returns [OF assms] by (auto simp: s_relegate_job_def Let_def)

lemma check_timeout_returns:
  assumes "job_ok b (length (users_vec s)) p" "bound H p (cpu s)"
  shows "\<exists>late p' s'. check_timeout p s = Inr (late, p', s')"
  using relegate_returns [OF assms] by (auto simp: check_timeout_def Let_def)

definition scanning :: "bool \<Rightarrow> job list \<times> srv \<Rightarrow> bool" where
  "scanning b ts \<longleftrightarrow> scan_ok b ts \<and> healthy b ((snd ts)\<lparr>active_jobs := active_jobs (snd ts) @ fst ts\<rparr>)"

lemma timeout_step_returns:
  assumes sc: "scanning b ts" and i: "i < length (active_jobs (snd ts))"
  shows "returns (timeout_step i ts) (\<lambda>ts'. scanning b ts' \<and> i \<le> length (active_jobs (snd ts')))"
proof -
  obtain to s where ts: "ts = (to, s)" by fastforce
  let ?p = "active_jobs s ! i"
  define s0 where "s0 = s\<lparr>active_jobs := active_jobs s @ to\<rparr>"
  have h0: "healthy b s0" using sc by (simp add: scanning_def ts s0_def)
  have at: "active_jobs s0 ! i = ?p" "i < length (active_jobs s0)" "i < length (active_jobs s)"
    using i ts by (simp_all add: s0_def nth_append)
  show ?thesis
  proof (cases "state ?p = RUNNING")
    case False
    then show ?thesis using sc at(3) by (simp add: timeout_step_def ts Let_def)
  next
    case True
    have jok: "job_ok b (length (users_vec s)) ?p"
      using job_okD [OF healthyD(1) [OF h0] at(2)] at(1) by (simp add: s0_def)
    have "bound (set (handles (remove_nth i (active_jobs s0)))) ?p (cpu s)"
      using bind_ok_bound [OF healthyD(2) [OF h0] at(2)] at(1) by (simp add: s0_def)
    from check_timeout_returns [OF jok this] obtain late p' s' where c: "check_timeout ?p s = Inr (late, p', s')" by blast
    note m = check_timeout_moves [OF c jok]
    then have act: "active_jobs s' = active_jobs s" using moves_fields(1) by blast
    define s1 where "s1 = s'\<lparr>active_jobs := active_jobs s' @ to\<rparr>"
    have m0: "moves b (active_jobs s0 ! i) s0 p' s1"
      unfolding at(1) using m act by (simp add: moves_def delta_def s0_def s1_def core_active_update)
    have r0: "rebinds (active_jobs s0 ! i) s0 p' s1"
      unfolding at(1) using check_timeout_rebinds [OF c] by (simp add: rebinds_def s0_def s1_def)
    have h1: "healthy b (set_active i p' s1)"
      using healthy_set_active [OF h0 at(2) m0 _ r0] m by (simp add: s0_def)
    define ts' where "ts' = (if late then (to @ [p'], remove_active i s') else (to, set_active i p' s'))"
    have step: "timeout_step i ts = Inr ts'" using True c at(3) by (simp add: timeout_step_def ts Let_def ts'_def)
    have "mset (active_jobs (snd ts') @ fst ts') = mset (active_jobs (set_active i p' s1))"
      using mset_remove_nth [of i "(active_jobs s)[i := p']"] at(3) act
      by (simp add: ts'_def s1_def set_active_def remove_active_def list_update_append remove_nth_update)
    moreover have v: "cpu (snd ts') = cpu s1" "users_vec (snd ts') = users_vec s1"
      by (simp_all add: ts'_def s1_def set_active_def remove_active_def)
    ultimately have "bind_ok ((snd ts')\<lparr>active_jobs := active_jobs (snd ts') @ fst ts'\<rparr>)"
      by (intro bind_ok_unbinds [OF healthyD(2) [OF h1] unbinds_perm]) (simp_all add: set_active_def)
    moreover have "scan_ok b ts'" using timeout_step_ok [OF step] sc by (simp add: scanning_def)
    moreover have "i \<le> length (active_jobs (snd ts'))"
      using at(3) act by (auto simp: ts'_def remove_active_def set_active_def length_remove_nth)
    ultimately show ?thesis
      using step healthyD(3) [OF h1] v by (simp add: scanning_def healthy_def scan_ok_def set_active_def)
  qed
qed

lemma s_check_timeout_returns:
  assumes "healthy b s"
  shows "returns (s_check_timeout s) (\<lambda>(fl, s'). healthy b s')"
proof -
  have "returns (rfold timeout_step (rev [0..<length (active_jobs s)]) ([], s)) (scanning b)"
  proof (rule returns_downward [where len = "\<lambda>ts. length (active_jobs (snd ts))"])
    show "scanning b ([], s)" using assms by (simp add: scanning_def scan_ok_def healthy_def)
  qed (simp_all add: timeout_step_returns)
  then obtain to s1 where r: "rfold timeout_step (rev [0..<length (active_jobs s)]) ([], s) = Inr (to, s1)"
      and sc: "scanning b (to, s1)" by (auto simp: returns_iff)
  have "cpu (requeue_timed_out to s1) = cpu s1"
    unfolding requeue_timed_out_def by (induction to arbitrary: s1) (simp_all add: push_active_def)
  then have "healthy b (requeue_timed_out to s1)"
    using sc healthy_same [OF _ requeue_timed_out_eq] by (simp add: scanning_def)
  then show ?thesis using r by (simp add: s_check_timeout_def)
qed

section \<open>Dispatching and the whole recount\<close>

lemma healthy_on_active:
  assumes "on_active i f s = Inr s'" and h: "healthy b s"
    and f: "\<And>p p' s1. job_ok b (length (users_vec s)) p \<Longrightarrow> p = active_jobs s ! i \<Longrightarrow> jobid p \<noteq> 0 \<Longrightarrow> f p s = Inr (p', s1) \<Longrightarrow>
       moves b p s p' s1 \<and> job_ok b (length (users_vec s)) p' \<and> rebinds p s p' s1"
  shows "healthy b s'"
proof -
  obtain p' s1 where i: "i < length (active_jobs s)" and r: "f (active_jobs s ! i) s = Inr (p', s1)"
    and s': "s' = set_active i p' s1"
    using assms(1) by (auto simp: on_active_def rbind_eq_Inr split: if_splits)
  have "job_ok b (length (users_vec s)) (active_jobs s ! i)" "jobid (active_jobs s ! i) \<noteq> 0"
    using job_okD [OF healthyD(1) [OF h] i] jobid_nonzero [OF healthyD(1) [OF h] i] by simp_all
  from f [OF this(1) refl this(2) r] show ?thesis using healthy_set_active [OF h i] s' by blast
qed

lemma dispatch_healthy:
  assumes "dispatch u j s = Inr s'" "healthy b s" "j < length (active_jobs s)" "dispatchable u s j"
  shows "healthy b s'"
proof -
  let ?p = "active_jobs s ! j"
  obtain s1 s2 where s1: "(if state ?p = QUEUED
       then rbind (upd_user (Some u) (\<lambda>x. x\<lparr>queue := queue x - 1\<rparr>) s) (s_mark_job_running (jobid ?p))
       else on_active j (\<lambda>p s. rbind (config_running p s) (\<lambda>(err, p', s'). Inr (p', s'))) s) = Inr s1"
    and s2: "s_send_runjob (client_socket ?p) (jobid ?p) s1 = Inr s2"
    and s': "s' = s2\<lparr>last_uid := (u + 1) mod length (users_vec s2)\<rparr>"
    using assms(1) by (auto simp: dispatch_def Let_def rbind_eq_Inr)
  have "healthy b s1"
  proof (cases "state ?p = QUEUED")
    case True
    then obtain s0 where s0: "upd_user (Some u) (\<lambda>x. x\<lparr>queue := queue x - 1\<rparr>) s = Inr s0"
      and m: "s_mark_job_running (jobid ?p) s0 = Inr s1" using s1 by (auto simp: rbind_eq_Inr)
    note q = queue_update_view [OF s0]
    have h0: "healthy b s0" using healthy_same [OF assms(2) q(1) upd_user_cpu [OF s0]] .
    have "on_active j mark_running_body s0 = Inr s1"
      using m findjob_idx_self [OF healthyD(1) [OF h0], of j] assms(3) q(2) by (simp add: s_mark_job_running_def)
    then show ?thesis
    proof (rule healthy_on_active [OF _ h0])
      fix p p' s1
      assume p: "job_ok b (length (users_vec s0)) p" "p = active_jobs s0 ! j" "jobid p \<noteq> 0" "mark_running_body p s0 = Inr (p', s1)"
      then have "state p = QUEUED" using True q(2) by simp
      then show "moves b p s0 p' s1 \<and> job_ok b (length (users_vec s0)) p' \<and> rebinds p s0 p' s1"
        using mark_running_moves [OF p(4,1)] mark_running_rebinds [OF p(4,3)] moves_exact by blast
    qed
  next
    case False
    then have "on_active j (\<lambda>p s. rbind (config_running p s) (\<lambda>(err, p', s'). Inr (p', s'))) s = Inr s1"
      using s1 by simp
    then show ?thesis
    proof (rule healthy_on_active [OF _ assms(2)])
      fix p p' s1
      assume p: "job_ok b (length (users_vec s)) p" "jobid p \<noteq> 0"
        and r: "rbind (config_running p s) (\<lambda>(err, p', s'). Inr (p', s')) = Inr (p', s1)"
      then obtain err where c: "config_running p s = Inr (err, p', s1)" by (auto simp: rbind_eq_Inr)
      from config_running_moves [OF c p(1)] config_running_rebinds [OF c p(2)]
      show "moves b p s p' s1 \<and> job_ok b (length (users_vec s)) p' \<and> rebinds p s p' s1" using moves_exact by blast
    qed
  qed
  moreover have "cpu s2 = cpu s1" using s2 by (auto simp: s_send_runjob_def split: option.splits)
  ultimately show ?thesis using healthy_same [of b s1 s'] send_runjob_view [OF s2] by (simp add: s')
qed

lemma round_healthy: "round is d s = Inr (k, s') \<Longrightarrow> healthy b s \<Longrightarrow> healthy b s'"
proof (induction "is" arbitrary: d s)
  case (Cons i "is")
  let ?u = "(last_uid s + i) mod length (users_vec s)"
  show ?case
  proof (cases "queue (users_vec s ! ?u) = 0 \<or> free_slots s \<le> 0 \<or> pick_job ?u s = None")
    case True
    then show ?thesis using Cons by (auto simp: Let_def split: if_splits option.splits)
  next
    case False
    then obtain j where j: "pick_job ?u s = Some j" by blast
    then obtain s1 where "dispatch ?u j s = Inr s1" "round is (d + 1) s1 = Inr (k, s')"
      using Cons.prems(1) False by (auto simp: Let_def rbind_eq_Inr)
    then show ?thesis
      using Cons.IH dispatch_healthy [OF _ Cons.prems(2) pick_jobD(1,2) [OF j]] by blast
  qed
qed simp

lemma wake_all_cpu:
  "cpu (wake_all_held_clients s) = cpu s \<and> map cpu_alloc (active_jobs (wake_all_held_clients s)) = map cpu_alloc (active_jobs s)
   \<and> users_vec (wake_all_held_clients s) = users_vec s"
proof (induction s rule: wake_all_held_clients.induct)
  case (1 s)
  obtain jo s' where w: "wake_hold_client s = (jo, s')" by fastforce
  have f: "cpu s' = cpu s \<and> map cpu_alloc (active_jobs s') = map cpu_alloc (active_jobs s) \<and> users_vec s' = users_vec s"
    using w by (auto simp: wake_hold_client_def set_active_def findjob_holding_client_def map_update list_update_same_conv
        split: option.splits dest!: find_idx_SomeD)
  show ?case
  proof (cases jo)
    case None
    then show ?thesis using w f by (simp add: wake_all_held_clients.simps [of s])
  next
    case (Some jid)
    then show ?thesis
      using 1 [OF w [symmetric] Some] w f
      by (simp add: wake_all_held_clients.simps [of s] s_send_newjob_ok_def split: option.splits)
  qed
qed

lemma wake_all_healthy: "healthy b s \<Longrightarrow> healthy b (wake_all_held_clients s)"
  using wake_all_cpu [of s] wake_all_ok [of b s] bind_ok_unbinds [OF _ unbinds_same, of s "wake_all_held_clients s"]
  by (simp add: healthy_def)

lemma run_loop_healthy: "run_loop fuel d s = Inr (k, s') \<Longrightarrow> healthy b s \<Longrightarrow> healthy b s'"
proof (induction fuel arbitrary: d s)
  case 0
  then show ?case
    using round_healthy by (auto simp: run_loop.simps [of 0] rbind_eq_Inr split: if_splits)
next
  case (Suc fuel)
  show ?case
  proof (cases "active_jobs s = []")
    case True
    then show ?thesis using Suc.prems by (simp add: run_loop.simps)
  next
    case False
    then obtain m s1 where r: "round [0..<length (users_vec s)] 0 s = Inr (m, s1)"
      and n: "(if m = 0 then Inr (d, s1) else run_loop fuel (d + m) (wake_all_held_clients s1)) = Inr (k, s')"
      using Suc.prems(1)
      by (auto simp: run_loop.simps [of "Suc fuel"] rbind_eq_Inr cong del: if_weak_cong)
    have "healthy b s1" using round_healthy [OF r Suc.prems(2)] .
    then show ?thesis
      using n Suc.IH [of "d + m" "wake_all_held_clients s1"] wake_all_healthy by (auto split: if_splits)
  qed
qed

lemma next_run_job_returns:
  assumes "healthy b s"
  shows "returns (next_run_job s) (\<lambda>(d, s'). healthy b s' \<and> 0 \<le> d)"
proof -
  have "cpu_ok (cpu s)" using assms by (simp add: healthy_def bind_ok_def pool_ok_def)
  from next_run_job_ok [OF healthyD(1) [OF assms] this healthyD(3) [OF assms]]
  obtain d s' where "next_run_job s = Inr (d, s')" "0 \<le> d" by blast
  then show ?thesis using run_loop_healthy [of _ 0 s d s' b] assms by (auto simp: next_run_job_def)
qed

lemma recount_returns:
  assumes "healthy b s"
  shows "returns (recount s) (\<lambda>(usage, s'). healthy b s')"
proof -
  note ok = healthyD [OF assms]
  obtain s' where s': "recount s = Inr (isum run_slots (active_jobs s), s')" "core s' = core s" "cpu s' = cpu s"
    using recount_exact [OF srv_ok_users [OF ok(1)]] by blast
  have "bind_ok s'" using bind_ok_unbinds [OF ok(2) unbinds_same] s'(3) core_fields(1) [OF s'(2)] by simp
  moreover have "users_vec s' \<noteq> []" using core_fields(4) [OF s'(2)] ok(3) by auto
  ultimately show ?thesis using s'(1) recount_ok [OF s'(1) ok(1)] by (simp add: healthy_def)
qed

lemma s_update_slots_usage_returns:
  assumes "healthy b s"
  shows "returns (s_update_slots_usage s) (\<lambda>(usage, s'). healthy b s')"
proof -
  obtain fl s1 where 1: "s_check_timeout s = Inr (fl, s1)" "healthy b s1"
    using s_check_timeout_returns [OF assms] by (auto simp: returns_iff)
  obtain s2 where 2: "rfold reap_step (rev [0..<length (active_jobs s1)]) s1 = Inr s2" "healthy b s2"
    using returns_downward [of "healthy b" "\<lambda>s. length (active_jobs s)" reap_step, OF reap_step_returns 1(2)]
    by (auto simp: returns_iff)
  obtain u s3 where 3: "recount s2 = Inr (u, s3)" "healthy b s3"
    using recount_returns [OF 2(2)] by (auto simp: returns_iff)
  obtain d s4 where "next_run_job s3 = Inr (d, s4)" "healthy b s4"
    using next_run_job_returns [OF 3(2)] by (auto simp: returns_iff)
  then show ?thesis using 1 2 3 by (simp add: s_update_slots_usage_def)
qed

section \<open>Periodic checks\<close>

lemma defrag_start_healthy:
  assumes "healthy b s"
  shows "returns (cpu_bind_defrag_start s) (\<lambda>s'. healthy b s' \<and> active_jobs s' = active_jobs s)"
  using defrag_start_binds [OF healthyD(2) [OF assms]]
proof (rule returns_mono)
  fix s' assume s': "bind_ok s' \<and> same_counters s s' \<and> first_notify s' = first_notify s \<and> finished_jobs s' = finished_jobs s"
  then have "view s' = view s" using same_counters_view by blast
  then show "healthy b s' \<and> active_jobs s' = active_jobs s"
    using s' assms srv_ok_view [of s' s b] view_users_ne [of s' s] by (simp add: healthy_def view_def)
qed

lemma abnormal_moves:
  assumes "rbind (free_cores (p\<lparr>state := ABNORMAL\<rparr>) s) (\<lambda>(p1, s1). detach_cpus p1 s1) = Inr (p', s2)"
    "job_ok b (length (users_vec s)) p"
  shows "moves b p s p' s2 \<and> job_ok b (length (users_vec s)) p' \<and> rebinds p s p' s2"
proof -
  obtain p1 s1 where f: "free_cores (p\<lparr>state := ABNORMAL\<rparr>) s = Inr (p1, s1)"
    and d: "detach_cpus p1 s1 = Inr (p', s2)" using assms(1) by (auto simp: rbind_eq_Inr)
  obtain q where q: "free_cores p s = Inr (q, s1)" "p1 = q\<lparr>state := ABNORMAL\<rparr>"
    using f by (auto simp: free_cores_def rbind_eq_Inr split: if_splits)
  have m1: "moves b p s p1 s1" "num_allocated p1 = 0"
    using free_cores_delta [OF q(1) assms(2), of ABNORMAL] q(2) by auto
  note D = detach_cpus_same [OF d]
  have m: "moves b p s p' s2"
    using moves_same_right [OF moves_job_cong [OF m1(1)] D(2), of p'] D(1) by (simp add: same_job_def)
  moreover have "job_ok b (length (users_vec s)) p'"
    using job_ok_parked [OF m assms(2)] D(1) m1(2) q(2) by (simp add: same_job_def live_def)
  moreover have "rebinds p s p' s2"
    using rebinds_cong [OF detach_rebinds [OF d], of p s p' s2] free_cores_cpu [OF f] by simp
  ultimately show ?thesis by blast
qed

lemma health_step_returns:
  assumes h: "healthy b s" and i: "i < length (active_jobs s)"
  shows "returns (health_step i s) (\<lambda>s'. healthy b s' \<and> length (active_jobs s') = length (active_jobs s))"
proof -
  let ?p = "active_jobs s ! i" and ?f = "\<lambda>p s. rbind (free_cores (p\<lparr>state := ABNORMAL\<rparr>) s) (\<lambda>(p1, s1). detach_cpus p1 s1)"
  have jok: "job_ok b (length (users_vec s)) ?p" using job_okD [OF healthyD(1) [OF h] i] .
  obtain q s1 where f: "free_cores (?p\<lparr>state := ABNORMAL\<rparr>) s = Inr (q, s1)"
    using jok by (auto simp: free_cores_def job_ok_def upd_user_def)
  have "bound (set (handles (remove_nth i (active_jobs s)))) q (cpu s1)"
    using bind_ok_bound [OF healthyD(2) [OF h] i] free_cores_cpu [OF f] bound_cong [of q ?p] by simp
  then obtain p' s2 where d: "detach_cpus q s1 = Inr (p', s2)" using detach_binds by (fastforce simp: returns_iff)
  then have r: "?f ?p s = Inr (p', s2)" using f by simp
  note m = abnormal_moves [OF r jok]
  then have "healthy b (set_active i p' s2)" using healthy_set_active [OF h i] by blast
  from defrag_start_healthy [OF this] have "returns (rbind (on_active i ?f s) cpu_bind_defrag_start)
      (\<lambda>s'. healthy b s' \<and> length (active_jobs s') = length (active_jobs s))"
    using r i moves_fields(1) [of b ?p s p' s2] m by (auto simp: on_active_def returns_iff set_active_def)
  moreover have "healthy b (set_active i (?p\<lparr>health_state := 1\<rparr>) s)"
    by (rule healthy_set_active [OF h i moves_same]) (use jok in \<open>simp_all add: job_ok_def rebinds_same\<close>)
  ultimately show ?thesis using h i by (auto simp: health_step_def Let_def set_active_def)
qed

lemma s_check_running_health_returns:
  assumes "healthy b s"
  shows "returns (s_check_running_health s) (healthy b)"
proof -
  let ?n = "length (active_jobs s)"
  have "returns (rfold health_step [0..<?n] s) (\<lambda>s'. healthy b s' \<and> length (active_jobs s') = ?n)"
    by (rule returns_rfold) (use assms health_step_returns in \<open>fastforce simp: returns_iff\<close>)+
  then show ?thesis by (auto simp: s_check_running_health_def returns_iff)
qed

lemma s_check_holdon_healthy: "healthy b s \<Longrightarrow> healthy b (s_check_holdon s)"
proof (rule healthy_same)
  have "cpu (foldl (\<lambda>s p. if pid p \<noteq> 0 \<and> state p = PAUSE \<and> is_sleep p s = 0 then cgroups_freeze_job p s else s) s ps) = cpu s" for ps
    by (induction ps arbitrary: s) simp_all
  then show "cpu (s_check_holdon s) = cpu s" by (simp add: s_check_holdon_def)
qed (simp_all add: s_check_holdon_view)

lemma s_delete_job_binds:
  assumes "s_delete_job jid s = Inr s'" "bind_ok s"
  shows "bind_ok s' \<and> users_vec s' = users_vec s"
proof -
  obtain i where i: "findjob_idx jid s = Some i" "s' = delete_DB jid Jobs (remove_active i s)"
    using assms(1) by (auto simp: s_delete_job_def split: option.splits)
  then have "unbinds s s'" using unbinds_remove findjob_idx_bound [OF i(1)] by (simp add: delete_DB_def)
  then show ?thesis using bind_ok_unbinds assms(2) i(2) by (simp add: delete_DB_def remove_active_def)
qed

lemma orphan_step_returns:
  assumes h: "healthy b s" and i: "i < length (active_jobs s)"
  shows "returns (orphan_step i s) (\<lambda>s'. healthy b s' \<and> i \<le> length (active_jobs s'))"
proof (cases "state (active_jobs s ! i) = QUEUED \<and> client_socket (active_jobs s ! i) \<le> 0")
  case False
  then show ?thesis using h i by (auto simp: orphan_step_def Let_def)
next
  case True
  let ?j = "jobid (active_jobs s ! i)"
  have d: "s_delete_job ?j s = Inr (delete_DB ?j Jobs (remove_active i s))"
    using findjob_idx_self [OF healthyD(1) [OF h] i] by (simp add: s_delete_job_def)
  moreover have "orphan_step i s = s_delete_job ?j s" using True i by (simp add: orphan_step_def Let_def)
  moreover from calculation have "srv_ok b (delete_DB ?j Jobs (remove_active i s))"
    using orphan_step_ok [OF _ healthyD(1) [OF h]] by simp
  ultimately show ?thesis
    using s_delete_job_binds [OF d healthyD(2) [OF h]] healthyD(3) [OF h] i
    by (auto simp: healthy_def delete_DB_def remove_active_def length_remove_nth)
qed

lemma s_cleanup_orphan_returns: "healthy b s \<Longrightarrow> returns (s_cleanup_orphan_queued s) (healthy b)"
  unfolding s_cleanup_orphan_queued_def
  by (rule returns_downward [where len = "\<lambda>s. length (active_jobs s)", OF orphan_step_returns]) simp_all

end
