(* ===== verification/Server_User.thy ===== *)
theory Server_User
  imports Scheduler
begin

text \<open>
  The user table of \<open>user.c\<close> and the user requests of \<open>server_user.c\<close>: the user file and its
  refresh with roll-back, suspending and resuming a user, the server lock, and holding,
  continuing and requeueing a job. A \<open>struct User *\<close> is a position of \<open>users_vec\<close>.
\<close>

section \<open>The user table\<close>

definition find_user_by_uid :: "int \<Rightarrow> srv \<Rightarrow> nat option" where
  "find_user_by_uid ident s = find_idx uid ident (users_vec s)"

definition USER_MAX :: nat where "USER_MAX = 100"

definition new_user :: "string \<Rightarrow> int \<Rightarrow> int \<Rightarrow> user_t" where
  "new_user nm ident slots = \<lparr>uname = take 255 nm, uid = ident, umax_slots = slots, busy = 0, njobs = 0,
     queue = 0, locked = 0\<rparr>"

definition read_user_line :: "srv \<Rightarrow> user_file_line \<Rightarrow> srv" where
  "read_user_line s l =
     (case l of
        Comment \<Rightarrow> s
      | Malformed \<Rightarrow> s
      | Slots n \<Rightarrow> if n > 0 then s_set_max_slots 0 n s else s
      | Entry nm slots \<Rightarrow>
          (case passwd (world s) nm of None \<Rightarrow> s
           | Some ident \<Rightarrow>
               (case find_user_by_uid ident s of
                  Some i \<Rightarrow> s\<lparr>users_vec := (users_vec s)[i := (users_vec s ! i)\<lparr>umax_slots := slots\<rparr>]\<rparr>
                | None \<Rightarrow>
                    if length (users_vec s) \<ge> USER_MAX then s
                    else s\<lparr>users_vec := users_vec s @ [new_user nm ident slots]\<rparr>)))"

definition read_user_file :: "srv \<Rightarrow> srv res" where
  "read_user_file s =
     (case user_file (world s) of None \<Rightarrow> Inl (Error_exit ''exit(EXIT_FAILURE)'')
      | Some ls \<Rightarrow> Inr (foldl read_user_line s ls))"

section \<open>Status and refresh\<close>

definition user_status_line :: "user_t \<Rightarrow> line" where
  "user_status_line u = Line ''[%04d] %3d/%-4d Q:%-3d %16s Run. %2d %s''
     [AInt (uid u), AInt (busy u), AInt \<bar>umax_slots u\<bar>, AInt (queue u), AStr (uname u), AInt (njobs u),
      AStr (if locked u \<noteq> 0 then ''Locked'' else '''')]"

definition s_user_status_all :: "int \<Rightarrow> srv \<Rightarrow> srv" where
  "s_user_status_all sock s =
     send_list_line sock (Line ''Service at UID:%d'' [AInt (server_uid (world s))])
       (foldl (\<lambda>s u. if umax_slots u = 0 \<and> busy u = 0 then s else send_list_line sock (user_status_line u) s)
          (send_list_line sock (Line ''-- Users ----------- '' []) s) (users_vec s))"

definition s_user_status :: "int \<Rightarrow> nat option \<Rightarrow> srv \<Rightarrow> srv res" where
  "s_user_status sock u s = rbind (the_user u s) (\<lambda>x. Inr (send_list_line sock (user_status_line x) s))"

definition s_get_job_user :: "int \<Rightarrow> srv \<Rightarrow> nat option" where
  "s_get_job_user jid s = (case get_job jid s of None \<Rightarrow> None | Some p \<Rightarrow> user p)"

text \<open>The verification loop of the refresh: the first user that was removed or changed.\<close>

fun refresh_check :: "(int \<times> int) list \<Rightarrow> srv \<Rightarrow> line option" where
  "refresh_check [] s = None"
| "refresh_check ((ident, slots) # olds) s =
     (case find_user_by_uid ident s of
        None \<Rightarrow> Some (Line ''Error: refresh would remove uid=%d, rejected'' [AInt ident])
      | Some i \<Rightarrow>
          if umax_slots (users_vec s ! i) \<noteq> slots
          then Some (Line ''Error: slots for uid=%d changed %d->%d, rejected''
                       [AInt ident, AInt slots, AInt (umax_slots (users_vec s ! i))])
          else refresh_check olds s)"

definition rollback_users :: "(int \<times> int) list \<Rightarrow> srv \<Rightarrow> srv" where
  "rollback_users olds s =
     s\<lparr>users_vec := map (\<lambda>(u, o'). u\<lparr>umax_slots := snd o'\<rparr>) (zip (take (length olds) (users_vec s)) olds)\<rparr>"

definition s_refresh_users :: "int \<Rightarrow> srv \<Rightarrow> srv res" where
  "s_refresh_users sock s =
     (let olds = map (\<lambda>u. (uid u, umax_slots u)) (users_vec s) in
      rbind (read_user_file s) (\<lambda>s1.
        case refresh_check olds s1 of
          Some l \<Rightarrow> Inr (send_list_line sock l (rollback_users olds s1))
        | None \<Rightarrow> rbind (s_update_slots_usage (send_list_line sock (Line ''refresh the list success!'' []) s1))
                    (\<lambda>(usage, s2). Inr s2)))"

section \<open>Suspending and resuming a user\<close>

definition resume_step :: "nat \<Rightarrow> nat \<Rightarrow> srv \<Rightarrow> srv res" where
  "resume_step u i s =
     (if i < length (active_jobs s)
      then (let p = active_jobs s ! i in
            if user p = Some u \<and> state p = PAUSE \<and> pid p \<noteq> 0
            then on_active i (\<lambda>p s. rbind (config_running p s) (\<lambda>(err, p', s'). Inr (p', s'))) s
            else Inr s)
      else Inl Null_deref)"

definition s_resume_user :: "int \<Rightarrow> nat option \<Rightarrow> srv \<Rightarrow> srv res" where
  "s_resume_user sock uo s =
     rbind (upd_user uo (\<lambda>u. u\<lparr>umax_slots := \<bar>umax_slots u\<bar>, locked := 0\<rparr>) s) (\<lambda>s1.
     rbind (rfold (resume_step (the uo)) [0..<length (active_jobs s1)] s1) (\<lambda>s2.
     rbind (the_user uo s2) (\<lambda>u.
       Inr (send_list_line sock (Line ''Resume user: [%04d] %-20s'' [AInt (uid u), AStr (uname u)]) s2))))"

definition suspend_step :: "int \<Rightarrow> nat \<Rightarrow> nat \<Rightarrow> srv \<Rightarrow> srv res" where
  "suspend_step sock u i s =
     (if i < length (active_jobs s)
      then (let p = active_jobs s ! i in
            if user p = Some u \<and> state p = RUNNING
            then (if pid p \<noteq> 0
                  then on_active i (\<lambda>p s. rbind (safe_pause_job p s) (\<lambda>(p', s'). Inr (p'\<lparr>state := PAUSE\<rparr>, s'))) s
                  else Inr (send_list_line sock (Line ''Error in stop %s [%d] %s | %s''
                         [AStr (uname (users_vec s ! u)), AInt (jobid p),
                          AStr (case label p of None \<Rightarrow> ''(...)'' | Some l \<Rightarrow> l),
                          AStr (case command p of None \<Rightarrow> '''' | Some c \<Rightarrow> c)]) s))
            else Inr s)
      else Inl Null_deref)"

definition s_suspend_user :: "int \<Rightarrow> nat option \<Rightarrow> srv \<Rightarrow> srv res" where
  "s_suspend_user sock uo s =
     rbind (upd_user uo (\<lambda>u. u\<lparr>umax_slots := - \<bar>umax_slots u\<bar>, locked := 1\<rparr>) s) (\<lambda>s1.
     rbind (rfold (suspend_step sock (the uo)) [0..<length (active_jobs s1)] s1) (\<lambda>s2.
     rbind (the_user uo s2) (\<lambda>u.
     rbind (s_update_slots_usage
              (send_list_line sock (Line ''Suspend user: [%04d] %-20s'' [AInt (uid u), AStr (uname u)]) s2))
       (\<lambda>(usage, s3). Inr s3))))"

definition s_suspend_user_all :: "int \<Rightarrow> srv \<Rightarrow> srv res" where
  "s_suspend_user_all sock s = rfold (\<lambda>i. s_suspend_user sock (Some i)) [1..<length (users_vec s)] s"

definition s_resume_user_all :: "int \<Rightarrow> srv \<Rightarrow> srv res" where
  "s_resume_user_all sock s = rfold (\<lambda>i. s_resume_user sock (Some i)) [1..<length (users_vec s)] s"

section \<open>The server lock\<close>

definition s_check_locker :: "nat option \<Rightarrow> srv \<Rightarrow> bool \<times> srv" where
  "s_check_locker u s =
     (let s1 = (if user_locker s \<noteq> None \<and> get_monotonic_sec s - locker_time s > 30
                then s\<lparr>user_locker := None\<rparr> else s)
      in (user_locker s1 \<noteq> None \<and> user_locker s1 \<noteq> u, s1))"

definition s_lock_server :: "int \<Rightarrow> nat option \<Rightarrow> srv \<Rightarrow> srv res" where
  "s_lock_server sock uo s =
     rbind (the_user uo s) (\<lambda>u.
       if uid u = 0
       then rbind (s_update_slots_usage s) (\<lambda>(usage, s1).
              Inr (send_list_line sock (Line ''lock the task-spooler server by Root'' [])
                     (s1\<lparr>user_locker := Some 0, locker_time := get_monotonic_sec s1\<rparr>)))
       else (case user_locker s of
          None \<Rightarrow> Inr (send_list_line sock
                    (Line ''lock the task-spooler server by [%d] `%s`'' [AInt (uid u), AStr (uname u)])
                    (s\<lparr>user_locker := uo, locker_time := get_monotonic_sec s\<rparr>))
        | Some l \<Rightarrow>
            rbind (the_user (Some l) s) (\<lambda>lu.
              Inr (send_list_line sock
                (Line (if user_locker s = uo
                       then ''The task-spooler server has already been locked by [%d] `%s`''
                       else ''Error: the task-spooler server has already been locked by other user [%d] `%s`'')
                   [AInt (uid lu), AStr (uname lu)]) s))))"

definition s_unlock_server :: "int \<Rightarrow> nat option \<Rightarrow> srv \<Rightarrow> srv res" where
  "s_unlock_server sock uo s =
     (if user_locker s = None
      then Inr (send_list_line sock (Line ''The task-spooler server has already been unlocked'' []) s)
      else rbind (the_user uo s) (\<lambda>u.
        if uid u = 0
        then Inr (send_list_line sock (Line ''Unlock the task-spooler server by Root'' []) (s\<lparr>user_locker := None\<rparr>))
        else if user_locker s = uo
        then Inr (send_list_line sock (Line ''Unlock the task-spooler server by [%d] `%s`'' [AInt (uid u), AStr (uname u)])
                    (s\<lparr>user_locker := None\<rparr>))
        else Inr (send_list_line sock
                    (Line ''Error: the task-spooler server locked by other user cannot be unlocked by [%d] `%s`''
                       [AInt (uid u), AStr (uname u)]) s)))"

section \<open>Holding and continuing a job\<close>

definition s_lock_queue :: "job \<Rightarrow> srv \<Rightarrow> (job \<times> srv) res" where
  "s_lock_queue p s =
     (if state p = QUEUED
      then rbind (upd_user (user p) (\<lambda>u. u\<lparr>queue := queue u - 1\<rparr>) s)
             (\<lambda>s'. Inr (p\<lparr>state := LOCKED\<rparr>, emit (Db (Set_state (jobid p) LOCKED)) s'))
      else Inr (p, s))"

definition s_unlock_queue :: "job \<Rightarrow> srv \<Rightarrow> (job \<times> srv) res" where
  "s_unlock_queue p s =
     (if state p = LOCKED
      then rbind (upd_user (user p) (\<lambda>u. u\<lparr>queue := queue u + 1\<rparr>) s)
             (\<lambda>s'. Inr (p\<lparr>state := QUEUED\<rparr>, emit (Db (Set_state (jobid p) QUEUED)) s'))
      else Inr (p, s))"

text \<open>The job part of \<open>s_hold_job\<close>; \<open>own\<close> is the test \<open>p->user == u || u->uid == 0\<close>.\<close>

definition hold_body :: "int \<Rightarrow> int \<Rightarrow> nat option \<Rightarrow> user_t \<Rightarrow> job \<Rightarrow> srv \<Rightarrow> (job \<times> srv) res" where
  "hold_body sock jid uo u p s =
     (let own = (user p = uo \<or> uid u = 0); say = (\<lambda>t. send_list_line sock (Line t [AInt jid])) in
      if state p = QUEUED
      then (if own
            then rbind (s_lock_queue p s) (\<lambda>(p', s'). Inr (p', say ''The queued job [%d] is hold on.'' s'))
            else Inr (p, say ''Cannot hold on the queued job [%d].'' s))
      else if state p = LOCKED then Inr (p, say ''The queued job [%d] is already in locked.'' s)
      else if state p = PAUSE
      then (if wall_time p < 0
            then (let p' = p\<lparr>wall_time := i64abs (wall_time p)\<rparr>
                  in Inr (p', say ''To pause job [%d] successfully (was timeout wait)!''
                            (update_field_int64 (jobid p) ''wall_time'' (wall_time p') s)))
            else Inr (p, say ''The job [%d] is already in PAUSE.'' s))
      else if pid p \<noteq> 0 \<and> own
      then rbind (safe_pause_job p s) (\<lambda>(p', s').
             Inr (p'\<lparr>state := PAUSE\<rparr>, say ''To pause job [%d] successfully!'' s'))
      else Inr (p, say ''Error: cannot pause job [%d]'' s))"

definition s_hold_job :: "int \<Rightarrow> int \<Rightarrow> nat option \<Rightarrow> srv \<Rightarrow> srv res" where
  "s_hold_job sock jid uo s =
     rbind (the_user uo s) (\<lambda>u.
       if umax_slots u < 0
       then Inr (send_list_line sock (Line ''Error: The owner `%s` is locked'' [AStr (uname u)]) s)
       else case findjob_idx jid s of
         None \<Rightarrow> Inr (send_list_line sock (Line ''Error: cannot find job [%d]'' [AInt jid]) s)
       | Some i \<Rightarrow> on_active i (hold_body sock jid uo u) s)"

text \<open>The job part of \<open>s_cont_job\<close>.\<close>

definition cont_body :: "int \<Rightarrow> int \<Rightarrow> nat option \<Rightarrow> user_t \<Rightarrow> job \<Rightarrow> srv \<Rightarrow> (job \<times> srv) res" where
  "cont_body sock jid uo u p s =
     (let own = (user p = uo \<or> uid u = 0); say = (\<lambda>t. send_list_line sock (Line t [AInt jid])) in
      if state p = LOCKED
      then (if own
            then rbind (s_unlock_queue p s) (\<lambda>(p', s'). Inr (p', say ''The locked job [%d] is in queue.'' s'))
            else Inr (p, say ''Cannot unlock the locked job [%d].'' s))
      else if state p = QUEUED then Inr (p, say ''The job [%d] is already in queue.'' s)
      else
        (let p1 = p\<lparr>wall_time := i64abs (wall_time p)\<rparr> in
         if state p1 = RUNNING
         then (if is_sleep p1 s = 0 then Inr (p1, say ''job [%d] is already in RUNNING.'' s)
               else Inr (p1, say ''job [%d] is continued.'' (cgroups_thaw_job p1 s)))
         else if pid p1 \<noteq> 0 \<and> own
         then (if busy u + num_slots p1 \<le> umax_slots u \<and> busy_slots s + num_slots p1 \<le> max_slots s
               then rbind (config_running p1 s) (\<lambda>(err, p2, s2).
                      Inr (p2, say ''To rerun job [%d] successfully!'' s2))
               else (let p2 = p1\<lparr>wall_time := - i64abs (wall_time p1)\<rparr>
                     in Inr (p2, say ''Not enough slots for job [%d], set as time-out wait''
                               (update_field_int64 (jobid p2) ''wall_time'' (wall_time p2) s))))
         else Inr (p1, say ''Error: cannot rerun job [%d]'' s)))"

definition s_cont_job :: "int \<Rightarrow> int \<Rightarrow> nat option \<Rightarrow> srv \<Rightarrow> srv res" where
  "s_cont_job sock jid uo s0 =
     rbind (s_update_slots_usage s0) (\<lambda>(usage, s).
     rbind (the_user uo s) (\<lambda>u.
       if umax_slots u < 0
       then Inr (send_list_line sock (Line ''Error: The owner `%s` is locked'' [AStr (uname u)]) s)
       else case findjob_idx jid s of
         None \<Rightarrow> Inr (send_list_line sock (Line ''Error: cannot find job [%d]'' [AInt jid]) s)
       | Some i \<Rightarrow> on_active i (cont_body sock jid uo u) s))"

definition s_requeue_job :: "int \<Rightarrow> int \<Rightarrow> nat option \<Rightarrow> srv \<Rightarrow> srv res" where
  "s_requeue_job sock jid uo s =
     (case findjob_idx jid s of
        None \<Rightarrow> Inr (send_list_line sock (Line ''Error: cannot find job [%d]'' [AInt jid]) s)
      | Some i \<Rightarrow>
          rbind (the_user uo s) (\<lambda>u.
            let p = active_jobs s ! i in
            if user p \<noteq> uo \<and> uid u \<noteq> 0
            then Inr (send_list_line sock (Line ''Error: job [%d] belongs to another user'' [AInt jid]) s)
            else if state p \<noteq> RUNNING \<and> state p \<noteq> PAUSE
            then Inr (send_list_line sock (Line ''Error: job [%d] is not running or paused'' [AInt jid]) s)
            else rbind (s_relegate_job p s) (\<lambda>(p', s1).
                   Inr (send_list_line sock (Line ''Job [%d] requeued'' [AInt jid])
                          (emit (Db (Movebottom (jobid p'))) (push_active p' (remove_active i s1)))))))"

end
