(* ===== verification/New_Job.thy ===== *)
theory New_Job
  imports Server_User
begin

text \<open>
  Submitting a job: \<open>s_newjob\<close> of \<open>jobs.c\<close>, cut at the steps of its body. The job under
  construction already stands in \<open>active_jobs\<close>, at the position the steps carry.

  The payload that follows the message on the socket is part of the model's message: a
  field that is read with \<open>recv_bytes\<close> is \<open>None\<close> when the read fails, an optional field is
  \<open>None\<close> when its announced size is 0.
\<close>

record newjob_msg =
  m_jobid :: int
  m_num_slots :: int
  m_no_cpu_binding :: int
  m_store_output :: int
  m_should_keep_finished :: int
  m_depend_on :: "int list"
  m_wall_time :: int
  m_schedule_time :: int
  m_command :: "string option"
  m_command_strip :: int
  m_path :: "string option option"
  m_label :: "string option option"
  m_env :: "string option option"
  m_wait_enqueuing :: bool

section \<open>The slot in the queue\<close>

text \<open>\<open>None\<close>: the id is taken by a job that cannot be linked again, the client was told.\<close>

definition newjob_slot :: "int \<Rightarrow> newjob_msg \<Rightarrow> srv \<Rightarrow> nat option \<times> srv" where
  "newjob_slot sock m s =
     (case (if m_jobid m \<noteq> 0 then findjob_idx (m_jobid m) s else None) of
        Some i \<Rightarrow>
          if state (active_jobs s ! i) \<in> {DELINK, WAIT, LOCKED} then (Some i, s)
          else (None, send_list_line sock
                  (Line ''Error: jobid %d already exists and is not available'' [AInt (m_jobid m)]) s)
      | None \<Rightarrow>
          (let i = length (active_jobs s);
               s1 = push_active zero_job s;
               (jid, nxt) = (if m_jobid m \<noteq> 0
                             then (m_jobid m, if jobids s > m_jobid m then jobids s else m_jobid m + 1)
                             else (jobids s, jobids s + 1));
               p = zero_job\<lparr>jobid := jid,
                     state := (if count_not_finished_jobs s1 < max_jobs s1 then QUEUED else HOLDING_CLIENT)\<rparr>
           in (Some i, (set_active i p s1)\<lparr>jobids := nxt\<rparr>)))"

definition newjob_owner :: "int \<Rightarrow> nat option \<Rightarrow> newjob_msg \<Rightarrow> job \<Rightarrow> job" where
  "newjob_owner sock uo m p =
     p\<lparr>user := uo, client_socket := sock, num_slots := m_num_slots m, no_cpu_binding := m_no_cpu_binding m\<rparr>"

definition newjob_rejected :: "user_t \<Rightarrow> job \<Rightarrow> bool" where
  "newjob_rejected u p = (umax_slots u > 0 \<and> num_slots p > umax_slots u)"

text \<open>The wall time is cut to the server's limit, which a job that is linked again keeps.\<close>

definition newjob_wall_time :: "newjob_msg \<Rightarrow> srv \<Rightarrow> job \<Rightarrow> job res" where
  "newjob_wall_time m s p =
     (if state p \<noteq> DELINK
      then rbind (get_max_wall_time s) (\<lambda>limit.
             Inr (p\<lparr>wall_time := (if limit > m_wall_time m then m_wall_time m else limit)\<rparr>))
      else Inr p)"

definition newjob_fields :: "newjob_msg \<Rightarrow> srv \<Rightarrow> job \<Rightarrow> job res" where
  "newjob_fields m s p =
     (let p1 = p\<lparr>store_output := m_store_output m, should_keep_finished := m_should_keep_finished m,
                 notify_errorlevel_to := [], depend_on := []\<rparr>
      in rbind (newjob_wall_time m s p1) (\<lambda>p2.
           let p3 = (if state p2 \<noteq> WAIT \<and> state p2 \<noteq> DELINK then p2\<lparr>schedule_time := m_schedule_time m\<rparr> else p2)
           in Inr (p3\<lparr>dependency_errorlevel := 0\<rparr>)))"

section \<open>Dependencies\<close>

text \<open>
  The dependency on a job that is not finished: that job will pass its error level on. When
  the queue does not hold it any more only a warning is printed.
\<close>

definition depend_on_queued :: "nat \<Rightarrow> int \<Rightarrow> srv \<Rightarrow> srv" where
  "depend_on_queued i d s =
     (let jid = jobid (active_jobs s ! i) in
      case findjob_idx d s of None \<Rightarrow> s
      | Some k \<Rightarrow> set_active k (add_notify_errorlevel_to (active_jobs s ! k) jid) s)"

definition add_dependency :: "nat \<Rightarrow> int \<Rightarrow> int \<Rightarrow> srv \<Rightarrow> srv" where
  "add_dependency i d lev s =
     (let p = active_jobs s ! i
      in set_active i (p\<lparr>depend_on := depend_on p @ [d],
                         dependency_errorlevel := dependency_errorlevel p + lev\<rparr>) s)"

definition dep_step :: "nat \<Rightarrow> int \<Rightarrow> srv \<Rightarrow> srv res" where
  "dep_step i d s =
     (let jid = jobid (active_jobs s ! i) in
      if d \<ge> jid then Inr s
      else if d = - 1
      then (let q = find_last_jobid_in_queue jid s;
                q' = (if last_finished_jobid s > q then - 1 else q)
            in if q' \<noteq> - 1 then Inr (depend_on_queued i q' (add_dependency i q' 0 s))
               else (let l = find_last_stored_jobid_finished s in
                     if last_finished_jobid s < l
                     then (case find_finished_job l s of
                             None \<Rightarrow> Inl (Error_exit ''jobid %i suddenly disappeared from the finished list'')
                           | Some parent \<Rightarrow> Inr (add_dependency i l \<bar>errorlevel (result parent)\<bar> s))
                     else Inr (add_dependency i l \<bar>last_errorlevel s\<bar> s)))
      else (case findjob d s of
              Some _ \<Rightarrow> Inr (depend_on_queued i d (add_dependency i d 0 s))
            | None \<Rightarrow>
                (case find_finished_job d s of
                   Some parent \<Rightarrow> Inr (add_dependency i d \<bar>errorlevel (result parent)\<bar> s)
                 | None \<Rightarrow> Inr (add_dependency i d 1 s))))"

section \<open>Payload and enqueueing\<close>

definition recv_or_exit :: "string option \<Rightarrow> string res" where
  "recv_or_exit b = (case b of None \<Rightarrow> Inl (Error_exit ''wrong bytes received'') | Some x \<Rightarrow> Inr x)"

definition recv_optional :: "string option option \<Rightarrow> string option res" where
  "recv_optional b = (case b of None \<Rightarrow> Inr None | Some x \<Rightarrow> rbind (recv_or_exit x) (\<lambda>t. Inr (Some t)))"

definition newjob_payload :: "newjob_msg \<Rightarrow> srv \<Rightarrow> job \<Rightarrow> job res" where
  "newjob_payload m s p =
     (let p0 = (if state p \<noteq> DELINK \<and> state p \<noteq> WAIT \<and> state p \<noteq> LOCKED
                then p\<lparr>info := pinfo_set_enqueue_time pinfo_init s\<rparr> else p)
      in rbind (recv_or_exit (m_command m)) (\<lambda>cmd.
         rbind (recv_optional (m_path m)) (\<lambda>path.
         rbind (recv_optional (m_label m)) (\<lambda>lab.
         rbind (recv_optional (m_env m)) (\<lambda>en.
           let p1 = p0\<lparr>command := Some cmd, command_strip := m_command_strip m, work_dir := path, label := lab\<rparr>
           in Inr (case en of None \<Rightarrow> p1
                   | Some e \<Rightarrow> p1\<lparr>info := pinfo_addinfo (info p1) (int (length e) + 100)
                                           (''Environment:'' @ [CHR 0x0A] @ e)\<rparr>))))))"

definition newjob_enqueue :: "nat \<Rightarrow> srv \<Rightarrow> srv res" where
  "newjob_enqueue i s =
     (let p = active_jobs s ! i; queue_one = upd_user (user p) (\<lambda>u. u\<lparr>queue := queue u + 1\<rparr>) in
      if state p = WAIT then queue_one (set_active i (p\<lparr>state := QUEUED\<rparr>) s)
      else if state p = LOCKED then Inr s
      else queue_one (snd (insert_DB p Jobs s)))"

text \<open>
  The rest of \<open>s_newjob\<close> once the job has its slot and its owner: the check of the user's
  limit, then the fields, the dependencies and the payload. The result is the job id,
  \<open>-1\<close> for a refusal.
\<close>

definition newjob_fill :: "int \<Rightarrow> newjob_msg \<Rightarrow> nat \<Rightarrow> user_t \<Rightarrow> srv \<Rightarrow> (int \<times> srv) res" where
  "newjob_fill sock m i u s =
     (let p = active_jobs s ! i in
      if newjob_rejected u p
      then Inr (- 1, remove_active i (send_list_line sock
             (Line ''Error: job [%d] requests %d slots but user '%s' max is %d''
                [AInt (jobid p), AInt (num_slots p), AStr (uname u), AInt (umax_slots u)]) s))
      else
        rbind (newjob_fields m s p) (\<lambda>p3.
        rbind (rfold (dep_step i) (m_depend_on m) (set_active i p3 s)) (\<lambda>s4.
        rbind (newjob_payload m s4 (active_jobs s4 ! i)) (\<lambda>p5.
        rbind (newjob_enqueue i (set_active i p5 s4)) (\<lambda>s6.
          Inr (jobid p5, emit (Db (Set_jobids (jobids s6))) s6))))))"

definition owned_slot :: "int \<Rightarrow> newjob_msg \<Rightarrow> nat option \<Rightarrow> nat \<Rightarrow> srv \<Rightarrow> srv" where
  "owned_slot sock m uo i s = set_active i (newjob_owner sock uo m (active_jobs s ! i)) s"

definition s_newjob :: "int \<Rightarrow> newjob_msg \<Rightarrow> nat option \<Rightarrow> srv \<Rightarrow> (int \<times> srv) res" where
  "s_newjob sock m uo s0 =
     rbind (s_update_slots_usage s0) (\<lambda>(usage, s1).
     case newjob_slot sock m s1 of
       (None, s2) \<Rightarrow> Inr (- 1, s2)
     | (Some i, s2) \<Rightarrow>
         (let s3 = owned_slot sock m uo i s2
          in rbind (the_user uo s3) (\<lambda>u. newjob_fill sock m i u s3)))"

end
