(* ===== verification/Cpuset_Text.thy ===== *)
theory Cpuset_Text
  imports Cpu_Bind Text_Utils
begin

text \<open>
  The text of CPU and memory sets: what \<open>cpu_bind.c\<close> prints for a control group, the parser that
  reads the kernel's form (\<open>0-3,6\<close>) back after a restart, and the fixed buffers of \<open>cgroups.c\<close>
  in between. The parser's loop does not end on every input, so it is a partial function: \<open>None\<close>
  is a call that never returns.
\<close>

section \<open>Parsing\<close>

definition is_sep :: "char \<Rightarrow> bool" where
  "is_sep c = (c = CHR '' '' \<or> c = CHR '','')"

text \<open>Digits are accumulated in an \<open>int\<close>.\<close>

definition scan_num :: "string \<Rightarrow> int \<times> string" where
  "scan_num p = (foldl (\<lambda>n c. wrap32 (n * 10 + int (digit_val c))) 0 (takeWhile is_digit p), dropWhile is_digit p)"

partial_function (option) cpuset_loop :: "int \<Rightarrow> nat \<Rightarrow> string \<Rightarrow> int list \<Rightarrow> int list option option" where
  "cpuset_loop lim mx p cpus =
     (let q = dropWhile is_sep p in
      if q = [] then Some (Some cpus)
      else let start = fst (scan_num q); r = snd (scan_num q) in
        if start < 0 \<or> start \<ge> lim then Some None
        else if r \<noteq> [] \<and> hd r = CHR ''-''
        then (let e = fst (scan_num (tl r)); r' = snd (scan_num (tl r)) in
              if e \<ge> lim \<or> e < start then Some None
              else cpuset_loop lim mx r' (cpus @ take (mx - length cpus) [start..e]))
        else cpuset_loop lim mx r (if length cpus < mx then cpus @ [start] else cpus))"

declare cpuset_loop.simps [code]

text \<open>\<open>Some None\<close> is the return value -1, otherwise the array that was filled.\<close>

definition cpu_bind_parse_cpuset :: "int \<Rightarrow> nat \<Rightarrow> string option \<Rightarrow> int list option option" where
  "cpu_bind_parse_cpuset lim mx str =
     (case str of None \<Rightarrow> Some None
      | Some p \<Rightarrow> if p = [] then Some None else cpuset_loop lim mx p [])"

section \<open>Printing\<close>

text \<open>
  One \<open>snprintf\<close> per CPU into a buffer of \<open>12 * count + 1\<close> bytes; an entry that does not fit is
  cut off at the position reached before it.
\<close>

fun format_loop :: "nat \<Rightarrow> string \<Rightarrow> bool \<Rightarrow> nat list \<Rightarrow> string" where
  "format_loop sz buf first [] = buf"
| "format_loop sz buf first (c # cs) =
     (if length buf < sz - 1
      then (let piece = (if first then [] else '','') @ show_int (int c) in
            if length buf + length piece \<ge> sz - 1 then buf
            else format_loop sz (buf @ piece) False cs)
      else buf)"

definition cpu_bind_format_cpus :: "cpu_alloc_t option \<Rightarrow> string" where
  "cpu_bind_format_cpus alloc =
     (case alloc of None \<Rightarrow> []
      | Some a \<Rightarrow> format_loop (length (a_cpus a) * 12 + 1) [] True (a_cpus a))"

fun mems_loop :: "int \<Rightarrow> string \<Rightarrow> bool \<Rightarrow> nat list \<Rightarrow> string" where
  "mems_loop m buf first [] = buf"
| "mems_loop m buf first (b # bs) =
     (if length buf < 126
      then (if bit m b
            then (let buf' = buf @ (if first then [] else '',''); piece = show_int (int b) in
                  if length buf' + length piece \<ge> 126 then buf' else mems_loop m (buf' @ piece) False bs)
            else mems_loop m buf first bs)
      else buf)"

definition cpu_bind_format_mems :: "nat \<Rightarrow> cpu_alloc_t option \<Rightarrow> string" where
  "cpu_bind_format_mems num_nodes alloc =
     (case alloc of None \<Rightarrow> []
      | Some a \<Rightarrow> if primary_node a \<ge> 0 then show_int (primary_node a)
                  else mems_loop (mem_nodes a) [] True [0..<num_nodes])"

section \<open>Control-group files\<close>

text \<open>
  \<open>cg_write\<close> formats into 256 bytes but writes as many bytes as the whole text has: a longer
  text makes it read past the buffer.
\<close>

definition cg_write_text :: "string \<Rightarrow> string res" where
  "cg_write_text t = (if length t < 256 then Inr t else Inl Out_of_bounds)"

text \<open>\<open>cg_read_file\<close>: at most 4095 bytes; trailing newlines and spaces are removed.\<close>

definition cg_read_file :: "string option \<Rightarrow> string option" where
  "cg_read_file f =
     (case f of None \<Rightarrow> None
      | Some t \<Rightarrow> let b = take 4095 t in
          if b = [] then None
          else Some (rev (dropWhile (\<lambda>c. c = CHR 0x0A \<or> c = CHR '' '') (rev b))))"

fun mems_tokens :: "nat \<Rightarrow> string list \<Rightarrow> int \<times> int \<Rightarrow> int \<times> int" where
  "mems_tokens num_nodes [] pm = pm"
| "mems_tokens num_nodes (t # ts) pm =
     (let n = atoi t in
      mems_tokens num_nodes ts
        (if n \<ge> 0 \<and> n < int num_nodes
         then (if fst pm < 0 then n else fst pm, set_bit (nat n) (snd pm))
         else pm))"

text \<open>The primary node and the set of nodes as bits.\<close>

definition parse_mems :: "nat \<Rightarrow> string option \<Rightarrow> int \<times> int" where
  "parse_mems num_nodes str =
     (case str of None \<Rightarrow> (- 1, 0)
      | Some t \<Rightarrow> if t = [] then (- 1, 0) else mems_tokens num_nodes (strtok (CHR '','') (take 127 t)) (- 1, 0))"

section \<open>Lemmas\<close>

lemma format_loop_all:
  assumes "\<forall>c \<in> set cs. c < 10 ^ 11" "length buf + 12 * length cs + (if first then 0 else 1) < sz"
  shows "format_loop sz buf first cs
    = buf @ (if cs = [] then [] else (if first then [] else '','') @ ints_to_chars (map int cs) (CHR '',''))"
  using assms
proof (induction cs arbitrary: buf first)
  case (Cons c cs)
  have l: "length (show_int (int c)) \<le> 11"
    using Cons.prems(1) show_nat_length [of 11 c] by (simp add: show_int_def)
  have i: "ints_to_chars (map int (c # cs)) (CHR '','') = show_int (int c) @ (if cs = [] then [] else CHR '','' # ints_to_chars (map int cs) (CHR '',''))"
    by (cases cs) auto
  show ?case
    using Cons.IH [of "buf @ (if first then [] else '','') @ show_int (int c)" False] Cons.prems l i by (auto simp: Let_def)
qed simp

lemma format_cpus_text:
  assumes "\<forall>c \<in> set (a_cpus a). c < 10 ^ 11"
  shows "cpu_bind_format_cpus (Some a) = ints_to_chars (map int (a_cpus a)) (CHR '','')"
  using format_loop_all [OF assms, of "[]" True "length (a_cpus a) * 12 + 1"] by (simp add: cpu_bind_format_cpus_def)

text \<open>The kernel's form: numbers and ranges, separated by commas.\<close>

definition range_text :: "nat \<times> nat \<Rightarrow> string" where
  "range_text r = show_nat (fst r) @ (if fst r = snd r then [] else CHR ''-'' # show_nat (snd r))"

fun ranges_text :: "(nat \<times> nat) list \<Rightarrow> string" where
  "ranges_text [] = []"
| "ranges_text [r] = range_text r"
| "ranges_text (r # r' # rs) = range_text r @ CHR '','' # ranges_text (r' # rs)"

lemma scan_digits:
  assumes "list_all is_digit ds" "read_digits ds < 2147483648"
  shows "foldl (\<lambda>n c. wrap32 (n * 10 + int (digit_val c))) 0 ds = int (read_digits ds)"
  using assms
proof (induction ds rule: rev_induct)
  case (snoc c ds)
  have "read_digits ds < 2147483648" "int (read_digits ds) * 10 + int (digit_val c) < 2147483648"
    using snoc.prems(2) by (simp_all add: read_digits_snoc)
  then show ?case using snoc by (simp add: read_digits_snoc wrap32_def)
qed (simp add: read_digits_def)

lemma scan_num_show:
  assumes "n < 2147483648" "rest = [] \<or> \<not> is_digit (hd rest)"
  shows "scan_num (show_nat n @ rest) = (int n, rest)"
proof -
  have d: "list_all is_digit (show_nat n)" using show_nat_digits by blast
  have "takeWhile is_digit (show_nat n @ rest) = show_nat n" "dropWhile is_digit (show_nat n @ rest) = rest"
    using d assms(2) by (cases rest; auto simp: takeWhile_append2 dropWhile_append2 list_all_iff takeWhile_eq_all_conv)+
  then show ?thesis using scan_digits [OF d] assms(1) by (simp add: scan_num_def read_show_nat)
qed

lemma show_nat_head: "dropWhile is_sep (show_nat n @ rest) = show_nat n @ rest"
proof -
  obtain c cs where c: "show_nat n = c # cs" using show_nat_digits [of n] by (cases "show_nat n") auto
  then have "is_digit c" using show_nat_digits [of n] by simp
  then have "\<not> is_sep c" using digit_plain [of c] by (auto simp: is_sep_def is_space_def)
  then show ?thesis using c by simp
qed

lemma not_digit_seps: "\<not> is_digit (CHR '','')" "\<not> is_digit (CHR ''-'')"
  by (simp_all add: is_digit_def)

lemma loop_range:
  assumes "fst r \<le> snd r" "int (snd r) < lim" "lim \<le> 2147483648" "rest = [] \<or> hd rest = CHR '',''"
    "length cpus + (snd r - fst r) < mx"
  shows "cpuset_loop lim mx (range_text r @ rest) cpus = cpuset_loop lim mx rest (cpus @ [int (fst r)..int (snd r)])"
proof -
  obtain a b where r: "r = (a, b)" by fastforce
  have nd: "rest = [] \<or> \<not> is_digit (hd rest)" "rest = [] \<or> hd rest \<noteq> CHR ''-''" using assms(4) not_digit_seps by auto
  have ne: "show_nat a \<noteq> []" using show_nat_digits by blast
  show ?thesis
  proof (cases "a = b")
    case True
    have s: "scan_num (show_nat a @ rest) = (int a, rest)" using assms nd r by (intro scan_num_show) auto
    show ?thesis
      using True assms r nd s ne
      by (subst cpuset_loop.simps) (auto simp: Let_def range_text_def show_nat_head)
  next
    case False
    have s: "scan_num (show_nat a @ CHR ''-'' # show_nat b @ rest) = (int a, CHR ''-'' # show_nat b @ rest)"
      using assms r not_digit_seps by (intro scan_num_show) auto
    have s2: "scan_num (show_nat b @ rest) = (int b, rest)" using assms nd r by (intro scan_num_show) auto
    have "take (mx - length cpus) [int a..int b] = [int a..int b]" using assms(1,5) r by simp
    then show ?thesis
      using False assms r s s2 ne
      by (subst cpuset_loop.simps) (simp add: Let_def range_text_def show_nat_head)
  qed
qed

lemma loop_nil: "cpuset_loop lim mx [] cpus = Some (Some cpus)"
  by (subst cpuset_loop.simps) simp

lemma loop_comma: "cpuset_loop lim mx (CHR '','' # p) cpus = cpuset_loop lim mx p cpus"
  by (subst (1 2) cpuset_loop.simps) (simp add: is_sep_def)

definition range_size :: "(nat \<times> nat) list \<Rightarrow> nat" where
  "range_size rs = sum_list (map (\<lambda>r. Suc (snd r) - fst r) rs)"

lemma loop_ranges:
  assumes "\<forall>r \<in> set rs. fst r \<le> snd r \<and> int (snd r) < lim" "lim \<le> 2147483648" "length cpus + range_size rs \<le> mx"
  shows "cpuset_loop lim mx (ranges_text rs) cpus = Some (Some (cpus @ concat (map (\<lambda>r. [int (fst r)..int (snd r)]) rs)))"
  using assms
proof (induction rs arbitrary: cpus rule: ranges_text.induct)
  case 1
  show ?case by (simp add: loop_nil)
next
  case (2 r)
  then show ?case using loop_range [of r lim "[]" cpus mx] by (auto simp: range_size_def loop_nil)
next
  case (3 r r' rs)
  have "fst r \<le> snd r" "int (snd r) < lim" using "3.prems"(1) by auto
  moreover from this have "length cpus + (snd r - fst r) < mx" using "3.prems"(3) by (simp add: range_size_def)
  ultimately have "cpuset_loop lim mx (ranges_text (r # r' # rs)) cpus
      = cpuset_loop lim mx (ranges_text (r' # rs)) (cpus @ [int (fst r)..int (snd r)])"
    using loop_range [of r lim "CHR '','' # ranges_text (r' # rs)" cpus mx] "3.prems"(2) by (simp add: loop_comma)
  moreover have "length (cpus @ [int (fst r)..int (snd r)]) + range_size (r' # rs) \<le> mx"
    using "3.prems"(1,3) by (auto simp: range_size_def)
  ultimately show ?case using 3 by simp
qed

lemma single_ranges: "ints_to_chars (map int cs) (CHR '','') = ranges_text (map (\<lambda>c. (c, c)) cs)"
proof (induction cs rule: induct_list012)
  case (3 x y zs)
  then show ?case by (simp add: range_text_def show_int_def)
qed (simp_all add: range_text_def show_int_def)

lemma parse_format:
  assumes "a_cpus a \<noteq> []" "\<forall>c \<in> set (a_cpus a). int c < lim" "lim \<le> 2147483648" "length (a_cpus a) \<le> mx"
  shows "cpu_bind_parse_cpuset lim mx (Some (cpu_bind_format_cpus (Some a))) = Some (Some (map int (a_cpus a)))"
proof -
  let ?rs = "map (\<lambda>c. (c, c)) (a_cpus a)"
  have t: "cpu_bind_format_cpus (Some a) = ranges_text ?rs"
    using assms(2,3) by (subst format_cpus_text) (fastforce simp: single_ranges)+
  have "ranges_text ?rs \<noteq> []"
    using assms(1) show_nat_digits by (cases "a_cpus a" rule: remdups_adj.cases) (auto simp: range_text_def)
  moreover have "range_size ?rs = length (a_cpus a)" by (simp add: range_size_def comp_def sum_list_triv)
  moreover have "concat (map (\<lambda>r. [int (fst r)..int (snd r)]) ?rs) = map int (a_cpus a)"
    by (induction "a_cpus a" arbitrary: a) (auto simp: comp_def) 
  ultimately show ?thesis
    using loop_ranges [of ?rs lim "[]" mx] assms t by (simp add: cpu_bind_parse_cpuset_def)
qed

text \<open>The loop consumes a character in every turn while it meets only digits, separators and dashes.\<close>

definition cpuset_char :: "char \<Rightarrow> bool" where
  "cpuset_char c \<longleftrightarrow> is_digit c \<or> is_sep c \<or> c = CHR ''-''"

lemma scan_num_rest: "snd (scan_num p) = dropWhile is_digit p"
  by (simp add: scan_num_def)

lemma all_dropWhile: "list_all P xs \<Longrightarrow> list_all P (dropWhile Q xs)"
  by (auto simp: list_all_iff dest: set_dropWhileD)

lemma loop_returns:
  assumes "list_all cpuset_char p"
  shows "\<exists>r. cpuset_loop lim mx p cpus = Some r"
  using assms
proof (induction "length p" arbitrary: p cpus rule: less_induct)
  case less
  define q where "q = dropWhile is_sep p"
  define r where "r = dropWhile is_digit q"
  have q: "list_all cpuset_char q" "length q \<le> length p"
    using less.prems by (simp_all add: q_def all_dropWhile length_dropWhile_le)
  have r: "list_all cpuset_char r" "length r \<le> length q" using q by (simp_all add: r_def all_dropWhile length_dropWhile_le)
  have go: "\<exists>x. cpuset_loop lim mx r' c = Some x" if "list_all cpuset_char r'" "length r' < length p" for r' c
    using less.hyps that by blast
  show ?case
  proof (cases "q = []")
    case True
    then show ?thesis by (subst cpuset_loop.simps) (simp flip: q_def)
  next
    case False
    then have h: "\<not> is_sep (hd q)" "cpuset_char (hd q)"
      using hd_dropWhile [of is_sep p] q(1) by (auto simp: q_def list_all_iff)
    have dash: "\<exists>x. cpuset_loop lim mx (dropWhile is_digit (tl r)) c = Some x" if "r \<noteq> []" for c
    proof (rule go)
      show "list_all cpuset_char (dropWhile is_digit (tl r))" using r(1) that by (cases r) (simp_all add: all_dropWhile)
      show "length (dropWhile is_digit (tl r)) < length p"
        using that r(2) q(2) length_dropWhile_le [of is_digit "tl r"] by (cases r) auto
    qed
    have num: "\<exists>x. cpuset_loop lim mx r c = Some x" if "\<not> (r \<noteq> [] \<and> hd r = CHR ''-'')" for c
    proof (rule go [OF r(1)])
      have "is_digit (hd q)" using h that False not_digit_seps by (cases q) (auto simp: r_def cpuset_char_def split: if_splits)
      then have "length r < length q" using False length_dropWhile_le [of is_digit "tl q"] by (cases q) (auto simp: r_def)
      then show "length r < length p" using q(2) by simp
    qed
    show ?thesis using dash num
      by (subst cpuset_loop.simps) (simp add: Let_def scan_num_rest flip: q_def r_def)
  qed
qed

text \<open>A character that is none of them is never consumed, and the loop never ends.\<close>

lemma loop_stuck:
  assumes "cpuset_loop lim mx p cpus = Some y"
  shows "0 < lim \<longrightarrow> dropWhile is_sep p \<noteq> [] \<longrightarrow> cpuset_char (hd (dropWhile is_sep p))"
proof (rule cpuset_loop.raw_induct [OF _ assms], goal_cases)
  case (1 loop lim mx p cpus y)
  let ?q = "dropWhile is_sep p"
  show ?case
  proof (intro impI, rule ccontr)
    assume l: "0 < lim" and q: "?q \<noteq> []" and bad: "\<not> cpuset_char (hd ?q)"
    then have nd: "\<not> is_digit (hd ?q)" "hd ?q \<noteq> CHR ''-''" "\<not> is_sep (hd ?q)" by (auto simp: cpuset_char_def)
    then have s: "scan_num ?q = (0, ?q)" using q by (cases ?q) (simp_all add: scan_num_def)
    then have "loop lim mx ?q (if length cpus < mx then cpus @ [0] else cpus) = Some y"
      using 1(2) q l nd(2) by (simp add: Let_def s del: dropWhile_eq_Nil_conv)
    from 1(1) [OF this] have "dropWhile is_sep ?q \<noteq> [] \<longrightarrow> cpuset_char (hd (dropWhile is_sep ?q))" using l by blast
    moreover have "dropWhile is_sep ?q = ?q" by (rule dropWhile_idem)
    ultimately show False using bad q by simp
  qed
qed

section \<open>Memory nodes\<close>

lemma mems_loop_all:
  assumes "\<forall>b \<in> set bs. b < 100" "length buf + 3 * length bs < 126"
  shows "mems_loop m buf first bs = buf @ (let fs = filter (bit m) bs in
    if fs = [] then [] else (if first then [] else '','') @ ints_to_chars (map int fs) (CHR '',''))"
  using assms
proof (induction bs arbitrary: buf first)
  case (Cons b bs)
  have l: "length (show_int (int b)) \<le> 2" using Cons.prems(1) show_nat_length [of 2 b] by (simp add: show_int_def)
  have i: "ints_to_chars (map int (b # fs)) (CHR '','') = show_int (int b) @ (if fs = [] then [] else CHR '','' # ints_to_chars (map int fs) (CHR '',''))" for fs
    by (cases fs) auto
  show ?case
    using Cons.IH [of buf first] Cons.IH [of "buf @ (if first then [] else '','') @ show_int (int b)" False] Cons.prems l
      i [of "filter (bit m) bs"]
    by (auto simp: Let_def)
qed simp

lemma ints_length:
  assumes "\<forall>b \<in> set bs. b < 100"
  shows "length (ints_to_chars (map int bs) (CHR '','')) \<le> 3 * length bs"
proof -
  have l: "length (show_int (int b)) \<le> 2" if "b < 100" for b :: nat
    using that show_nat_length [of 2 b] by (simp add: show_int_def)
  show ?thesis using assms
    by (induction bs rule: induct_list012) (auto dest!: l)
qed

lemma mems_tokens_nodes:
  assumes "\<forall>b \<in> set bs. b < n" "n \<le> 100" "mems_tokens n (map show_int (map int bs)) pm = (p, m)"
  shows "p = (if fst pm < 0 \<and> bs \<noteq> [] then int (hd bs) else fst pm) \<and> (\<forall>k. bit m k \<longleftrightarrow> k \<in> set bs \<or> bit (snd pm) k)"
  using assms
proof (induction bs arbitrary: pm)
  case (Cons b bs)
  have a: "atoi (show_int (int b)) = int b" using Cons.prems(1,2) by (intro atoi_show_int) auto
  let ?pm = "(if fst pm < 0 then int b else fst pm, set_bit b (snd pm))"
  have "mems_tokens n (map show_int (map int bs)) ?pm = (p, m)"
    using Cons.prems(1,3) by (simp add: a Let_def)
  then show ?case using Cons.IH [of ?pm] Cons.prems(1,2) by (auto simp: bit_set_bit_iff)
qed simp

text \<open>The nodes survive the text form, but the first of them becomes the primary node.\<close>

lemma parse_format_mems:
  assumes "primary_node a < 0" "n \<le> 31" "\<forall>k. bit (mem_nodes a) k \<longrightarrow> k < n" "bit (mem_nodes a) b"
    "\<forall>k < b. \<not> bit (mem_nodes a) k"
  shows "parse_mems n (Some (cpu_bind_format_mems n (Some a))) = (int b, mem_nodes a)"
proof -
  let ?fs = "filter (bit (mem_nodes a)) [0..<n]"
  have b: "b < n" using assms(3,4) by blast
  then have split: "[0..<n] = [0..<b] @ b # [Suc b..<n]"
    by (metis le0 less_imp_le_nat upt_add_eq_append upt_conv_Cons add_0 le_add_diff_inverse)
  have "filter (bit (mem_nodes a)) [0..<b] = []" using assms(5) by (simp add: filter_empty_conv)
  then have h: "?fs = b # filter (bit (mem_nodes a)) [Suc b..<n]" using assms(4) by (subst split) simp
  have lt: "\<forall>k \<in> set [0..<n]. k < 100" "\<forall>k \<in> set ?fs. k < 100" using assms(2) by auto
  have t: "cpu_bind_format_mems n (Some a) = ints_to_chars (map int ?fs) (CHR '','')"
    using mems_loop_all [OF lt(1), of "[]" "mem_nodes a" True] assms(1,2) h by (simp add: cpu_bind_format_mems_def)
  have "length (ints_to_chars (map int ?fs) (CHR '','')) \<le> 3 * length ?fs" by (rule ints_length [OF lt(2)])
  moreover have "length ?fs \<le> n" using length_filter_le [of "bit (mem_nodes a)" "[0..<n]"] by simp
  ultimately have k: "take 127 (ints_to_chars (map int ?fs) (CHR '','')) = ints_to_chars (map int ?fs) (CHR '','')"
    using assms(2) by simp
  have tok: "strtok (CHR '','') (ints_to_chars (map int ?fs) (CHR '','')) = map show_int (map int ?fs)"
    by (rule strtok_ints(1)) (simp_all add: is_digit_def)
  then have ne: "ints_to_chars (map int ?fs) (CHR '','') \<noteq> []" unfolding h by auto
  obtain p m where pm: "mems_tokens n (map show_int (map int ?fs)) (- 1, 0) = (p, m)" by fastforce
  have hd: "?fs \<noteq> []" "hd ?fs = b" using h by simp_all
  have ltn: "\<forall>k \<in> set ?fs. k < n" by simp
  have "p = int b \<and> (\<forall>k. bit m k \<longleftrightarrow> k \<in> set ?fs)"
    using mems_tokens_nodes [OF ltn _ pm] assms(2) hd by simp
  moreover from this have "m = mem_nodes a" using assms(3) by (intro bit_eqI) auto
  ultimately show ?thesis using pm ne by (simp only: parse_mems_def t option.case k tok) simp
qed

end
