(* ===== verification/Listing.thy ===== *)
theory Listing
  imports Server_User Cpuset_Text
begin

text \<open>
  What the server shows of a job: the rows of \<open>list.c\<close>, the JSON object and the information
  block of \<open>job_ops.c\<close>. A row is its format string with the arguments; numbers printed with
  decimals are fractions, and dates are the time stamp handed to the C library. The text that
  \<open>printf\<close> makes of such arguments is needed only for widths (\<open>render\<close>). The formats are
  written without their tabs and line breaks.
\<close>

text \<open>A list of results, up to the first fault.\<close>

fun rmap :: "('a \<Rightarrow> 'b res) \<Rightarrow> 'a list \<Rightarrow> 'b list res" where
  "rmap f [] = Inr []"
| "rmap f (x # xs) = rbind (f x) (\<lambda>y. rbind (rmap f xs) (\<lambda>ys. Inr (y # ys)))"

section \<open>Times and labels\<close>

text \<open>Seconds up to 250, minutes up to 100, hours up to 50, then days: divisor and unit.\<close>

definition format_time :: "int \<Rightarrow> int \<times> char" where
  "format_time t = (if t \<le> 250 then (1, CHR ''s'') else if t \<le> 6000 then (60, CHR ''m'')
     else if t \<le> 180000 then (3600, CHR ''h'') else (86400, CHR ''d''))"

definition time_args :: "int \<Rightarrow> arg list" where
  "time_args t = [ARat t (fst (format_time t)), AStr [snd (format_time t)]]"

fun jstate2string :: "jobstate \<Rightarrow> string" where
  "jstate2string QUEUED = ''queued  ''"
| "jstate2string RUNNING = ''running ''"
| "jstate2string FINISHED = ''finished''"
| "jstate2string SKIPPED = ''skipped ''"
| "jstate2string HOLDING_CLIENT = ''skipped ''"
| "jstate2string WAIT = ''wait    ''"
| "jstate2string DELINK = ''delink  ''"
| "jstate2string LOCKED = ''locked  ''"
| "jstate2string ABNORMAL = ''abnormal''"
| "jstate2string PAUSE = ''pause   ''"

definition jstate2string_result :: "job \<Rightarrow> string" where
  "jstate2string_result p =
     (if errorlevel (result p) \<noteq> 0 \<or> signal (result p) \<noteq> 0 \<or> died_by_signal (result p) \<noteq> 0
      then ''failed'' else jstate2string (state p))"

text \<open>The state column of \<open>print_noresult\<close>.\<close>

definition shown_state :: "job \<Rightarrow> srv \<Rightarrow> string" where
  "shown_state p s =
     (if schedule_time p > 0 \<and> state p = QUEUED then ''Wait   ''
      else if state p = PAUSE \<and> is_sleep p s = 1 then (if wall_time p < 0 then ''requeue'' else ''pause  '')
      else if state p = RUNNING \<and> pid p = 0 then ''N/A''
      else if state p = RUNNING \<and> is_sleep p s = 1 then ''sleep  ''
      else jstate2string (state p))"

section \<open>Columns\<close>

definition shorten :: "nat \<Rightarrow> string \<Rightarrow> string" where
  "shorten len t = (if length t \<le> len then t else take (len - 5) t @ ''...'')"

definition shown_user :: "job \<Rightarrow> srv \<Rightarrow> string" where
  "shown_user p s = (case user p of None \<Rightarrow> ''???'' | Some u \<Rightarrow> uname (users_vec s ! u))"

definition start_date :: "job \<Rightarrow> srv \<Rightarrow> int" where
  "start_date p s = schedule_time p + (wallclock (world s) - get_monotonic_sec s)"

text \<open>The buffer of the scheduled text has 96 bytes.\<close>

definition ofilename_shown :: "job \<Rightarrow> srv \<Rightarrow> string" where
  "ofilename_shown p s =
     (if schedule_time p > 0 \<and> state p = QUEUED
      then (let left = schedule_time p - get_monotonic_sec s in
            take 95 (if left > 0
              then render (world s) ''Run at %s, after %.2f%c'' (ADate (start_date p s) # time_args left)
              else render (world s) ''Run at %s'' [ADate (start_date p s)]))
      else if state p = SKIPPED then ''(no output)''
      else if store_output p \<noteq> 0
      then (if state p = QUEUED then ''(file)''
            else case output_filename p of None \<Rightarrow> ''(...)'' | Some f \<Rightarrow> f)
      else ''stdout'')"

text \<open>
  \<open>dependstr\<close>: every \<open>snprintf\<close> is given the size of the whole buffer, whatever part of it is
  left, so a text that is too long runs over its end.
\<close>

fun depend_rest :: "int list \<Rightarrow> string" where
  "depend_rest [] = []"
| "depend_rest (d # ds) = (if d = - 1 then '', '' else CHR '','' # show_int d) @ depend_rest ds"

definition depend_text :: "string \<Rightarrow> job \<Rightarrow> string" where
  "depend_text tail p =
     (case depend_on p of [] \<Rightarrow> []
      | d # ds \<Rightarrow> (if d = - 1 then ''[ '' else CHR ''['' # show_int d) @ depend_rest ds @ tail)"

definition depend_fits :: "nat \<Rightarrow> string \<Rightarrow> job \<Rightarrow> bool" where
  "depend_fits n tail p = (length (depend_text tail p) < n)"

definition the_command :: "job \<Rightarrow> string res" where
  "the_command p = (case command p of None \<Rightarrow> Inl Null_deref | Some c \<Rightarrow> Inr c)"

definition line_maxlen :: "job \<Rightarrow> string \<Rightarrow> srv \<Rightarrow> int" where
  "line_maxlen p c s =
     72 + int (length c) + 20 + int (length (shown_user p s)) + 240 + int (length (ofilename_shown p s))
     + (case label p of None \<Rightarrow> 0 | Some l \<Rightarrow> 3 + int (length l)) + (if depend_on p = [] then 0 else 1024)"

definition shown_command :: "job \<Rightarrow> string \<Rightarrow> srv \<Rightarrow> string" where
  "shown_command p c s =
     shorten (nat (max (int (length c) + (term_width (world s) - line_maxlen p c s)) 20))
       (drop (nat (command_strip p)) c)"

definition shown_label :: "job \<Rightarrow> string" where
  "shown_label p = (case label p of None \<Rightarrow> ''(..)'' | Some l \<Rightarrow> shorten 10 l)"

text \<open>The time column: nothing has run yet, or the time with the share of it spent paused.\<close>

definition time_column :: "job \<Rightarrow> srv \<Rightarrow> arg list" where
  "time_column p s =
     (if state p = QUEUED \<or> pid p = 0 then [ARat 0 1, AStr '' '']
      else (let t_pause = get_pause_time_by_job p s; t_real = get_work_time_by_job p s + t_pause;
                r = format_time t_real in
            [ARat t_real (fst r),
             if t_real > 0 \<and> \<not> 100 * t_pause < 5 * t_real
             then ALine ''%c (%.0f%%)'' [AStr [snd r], ARat (100 * t_pause) t_real] else AStr [snd r]]))"

section \<open>Rows\<close>

definition print_noresult :: "job \<Rightarrow> srv \<Rightarrow> line res" where
  "print_noresult p s =
     rbind (the_command p) (\<lambda>c.
       if \<not> depend_fits 1024 '']'' p then Inl Out_of_bounds
       else Inr (Line ''%-4i %-9s %-6i %-7s %-10s %6.2f%s  %-21s | %s''
             ([AInt (jobid p), AStr (shown_state p s), AInt (num_slots p), AStr (shown_user p s),
              AStr (shown_label p)] @ time_column p s @ [AStr (shown_command p c s), AStr (ofilename_shown p s)])))"

definition shown_real :: "job \<Rightarrow> int" where
  "shown_real p = (if real_sec (result p) = 0 then end_time (info p) - start_time (info p) else real_sec (result p))"

definition print_result :: "job \<Rightarrow> srv \<Rightarrow> line res" where
  "print_result p s =
     rbind (the_command p) (\<lambda>c.
       if \<not> depend_fits 1024 '']&& '' p then Inl Out_of_bounds
       else Inr (Line ''%-4i %-9s %-6i %-7s %-10s %6.2f%c  %-21s | %s''
             ([AInt (jobid p), AStr (jstate2string_result p), AInt (num_slots p),
              AStr (shown_user p s), AStr (shown_label p)] @ time_args (shown_real p)
              @ [AStr (shown_command p c s), AStr (ofilename_shown p s)])))"

definition joblist_line :: "job \<Rightarrow> srv \<Rightarrow> line res" where
  "joblist_line p s = (if state p = FINISHED then print_result p s else print_noresult p s)"

text \<open>
  \<open>USER(p->user)\<close> uses the pointer as an index: a null pointer finds the root user, any other
  one is past the table, and the null pointer it yields is dereferenced.
\<close>

definition plain_user :: "job \<Rightarrow> srv \<Rightarrow> string res" where
  "plain_user p s =
     (if user p = None \<and> users_vec s \<noteq> [] then Inr (uname (users_vec s ! 0)) else Inl Null_deref)"

definition plain_label :: "job \<Rightarrow> string" where
  "plain_label p = (case label p of None \<Rightarrow> ''(..)'' | Some l \<Rightarrow> l)"

text \<open>The room for the line leaves out the output file, so the end of the line may be cut.\<close>

definition plain_maxlen :: "int \<Rightarrow> string \<Rightarrow> job \<Rightarrow> string \<Rightarrow> int" where
  "plain_maxlen margin nm p c =
     72 + int (length c) + margin + int (length nm) + 3 + int (length (plain_label p))
     + (if depend_on p = [] then 0 else 256)"

definition plain_line :: "int \<Rightarrow> string \<Rightarrow> arg list \<Rightarrow> srv \<Rightarrow> line" where
  "plain_line maxlen fmt args s = Line ''%s'' [AStr (take (nat (maxlen - 1)) (render (world s) fmt args))]"

definition plainprint_noresult :: "job \<Rightarrow> srv \<Rightarrow> line res" where
  "plainprint_noresult p s =
     rbind (the_command p) (\<lambda>c.
       if \<not> depend_fits 256 '']&& '' p then Inl Out_of_bounds
       else (let t_pause = get_pause_time_by_job p s; t_real = get_work_time_by_job p s + t_pause;
                 r = format_time t_real;
                 buf = (if t_real > 0 then (if 100 * t_pause < 5 * t_real then AStr [snd r]
                          else ALine ''%c (%.0f%%)'' [AStr [snd r], ARat (100 * t_pause) t_real]) else AStr []);
                 st = (if schedule_time p > 0 \<and> state p = QUEUED then ''Wait   '' else jstate2string (state p));
                 deps = (if depend_on p = [] then ''[]&&'' else depend_text '']&& '' p)
             in rbind (plain_user p s) (\<lambda>nm.
                  Inr (plain_line (plain_maxlen 22 (shown_user p s) p c) ''%i %s %d %s %s %i %.2f%s %s %s %s''
                    [AInt (jobid p), AStr st, AInt (num_slots p), AStr nm, AStr (plain_label p),
                     AInt (errorlevel (result p)), ARat t_real (fst r), buf,
                     AStr (drop (nat (command_strip p)) c), AStr deps, AStr (ofilename_shown p s)] s))))"

definition plainprint_result :: "job \<Rightarrow> srv \<Rightarrow> line res" where
  "plainprint_result p s =
     rbind (the_command p) (\<lambda>c. rbind (plain_user p s) (\<lambda>nm.
       if \<not> depend_fits 256 '']'' p then Inl Out_of_bounds
       else Inr (plain_line (plain_maxlen 30 nm p c) ''%i %s %d %s %s %i %.2f%c %s %s %s''
              ([AInt (jobid p), AStr (jstate2string_result p), AInt (num_slots p), AStr nm, AStr (plain_label p),
                AInt (errorlevel (result p))] @ time_args (shown_real p)
               @ [AStr (drop (nat (command_strip p)) c),
                  AStr (if depend_on p = [] then ''[]'' else depend_text '']'' p), AStr (ofilename_shown p s)]) s)))"

definition joblist_line_plain :: "job \<Rightarrow> srv \<Rightarrow> line res" where
  "joblist_line_plain p s = (if state p = FINISHED then plainprint_result p s else plainprint_noresult p s)"

definition list_headers :: "srv \<Rightarrow> line" where
  "list_headers s =
     Line ''[%s] ID State Proc. User Label Time Command Log [run=%i/%i %.2f%%] %s''
       [AStr ''intel_laptop'', AInt (busy_slots s), AInt (max_slots s), ARat (100 * busy_slots s) (max_slots s),
        case user_locker s of None \<Rightarrow> AStr []
        | Some u \<Rightarrow> ALine ''Locked by `%s` for %3.2f%c.''
            (AStr (uname (users_vec s ! u)) # time_args (get_monotonic_sec s - locker_time s))]"

section \<open>JSON\<close>

text \<open>
  The strings are added by reference. The texts of the CPU set are freed before the document
  is printed, so their references dangle.
\<close>

datatype json = JNum int | JStr string | JNull | JInts "int list" | JFreed

definition json_opt :: "bool \<Rightarrow> string \<Rightarrow> json \<Rightarrow> (string \<times> json) list" where
  "json_opt b k v = (if b then [(k, v)] else [])"

definition boot_wallclock :: "job \<Rightarrow> srv \<Rightarrow> int" where
  "boot_wallclock p s =
     (if boot_time (info p) = 0 then wallclock (world s) - get_monotonic_sec s else boot_time (info p))"

definition json_identity :: "job \<Rightarrow> string \<Rightarrow> srv \<Rightarrow> (string \<times> json) list" where
  "json_identity p c s =
     [(''jobid'', JNum (jobid p)), (''state'', JStr (jstate2string (state p))),
      (''command'', JStr (drop (nat (command_strip p)) c)), (''slots'', JNum (num_slots p))]
     @ (case user p of Some u \<Rightarrow> [(''user'', JStr (uname (users_vec s ! u))), (''uid'', JNum (uid (users_vec s ! u)))]
        | None \<Rightarrow> [(''user'', JNull), (''uid'', JNull)])
     @ [(''label'', case label p of Some l \<Rightarrow> JStr l | None \<Rightarrow> JNull)]
     @ json_opt (pid p \<noteq> 0) ''pid'' (JNum (pid p))
     @ [(''output'', JStr (case output_filename p of None \<Rightarrow> [] | Some f \<Rightarrow> f))]
     @ (case work_dir p of None \<Rightarrow> [] | Some w \<Rightarrow> [(''workdir'', JStr w)])
     @ json_opt (depend_on p \<noteq> []) ''depend_on'' (JInts (depend_on p))
     @ [(''wall_time'', JNum (i64abs (wall_time p)))]
     @ json_opt (TS_CPU_BIND (world s) \<and> cpu_alloc p \<noteq> None) ''cpu_set'' JFreed
     @ json_opt (TS_CPU_BIND (world s) \<and> cpu_alloc p \<noteq> None) ''numa_mems'' JFreed"

definition json_times :: "job \<Rightarrow> srv \<Rightarrow> (string \<times> json) list" where
  "json_times p s =
     (let g = boot_wallclock p s; t = get_monotonic_sec s; i = info p; work = get_work_time_by_job p s;
          pause = pause_duration i + (if pause_time i \<noteq> 0 then t - pause_time i else 0);
          left = schedule_time p - t in
      [(''enqueue_ts'', JNum (enqueue_time i + g)), (''start_ts'', JNum (start_time i + g))]
      @ json_opt (pause_time i \<noteq> 0) ''pause_ts'' (JNum (pause_time i + g))
      @ json_opt (state p = FINISHED) ''end_ts'' (JNum (end_time i + g))
      @ json_opt (schedule_time p > 0) ''schedule_ts'' (JNum (start_date p s))
      @ json_opt (schedule_time p > 0) ''schedule_left'' (JNum (if left > 0 then left else 0))
      @ json_opt (work > 0) ''work_time'' (JNum work)
      @ (if state p = FINISHED \<and> real_sec (result p) > 0 then [(''elapsed_time'', JNum (real_sec (result p)))]
         else json_opt (state p = RUNNING \<and> start_time i > 0) ''elapsed_time'' (JNum (t - start_time i)))
      @ json_opt (pause > 0) ''pause_time'' (JNum pause))"

text \<open>A process that cannot be looked at (-1) counts as asleep here.\<close>

definition json_end :: "job \<Rightarrow> srv \<Rightarrow> (string \<times> json) list" where
  "json_end p s =
     (if state p = FINISHED
      then [(''exitcode'', JNum (errorlevel (result p))), (''signal'', JNum (signal (result p))),
            (''realtime'', JNum (real_sec (result p))), (''cputime_us'', JNum (user_sec (result p))),
            (''cputime_sys'', JNum (system_sec (result p)))] else [])
     @ json_opt (state p \<noteq> FINISHED \<and> state p \<noteq> PAUSE \<and> is_sleep p s \<noteq> 0) ''in_sleep'' (JNum 1)"

definition add_job_to_json_array :: "srv \<Rightarrow> job \<Rightarrow> (string \<times> json) list res" where
  "add_job_to_json_array s p =
     rbind (the_command p) (\<lambda>c. Inr (json_identity p c s @ json_times p s @ json_end p s))"

fun json_arg :: "json \<Rightarrow> arg res" where
  "json_arg (JNum i) = Inr (AInt i)"
| "json_arg (JStr t) = Inr (AStr t)"
| "json_arg JNull = Inr (ALine ''null'' [])"
| "json_arg (JInts xs) = Inr (ALine ''[]'' (map AInt xs))"
| "json_arg JFreed = Inl Use_after_free"

definition print_json :: "(string \<times> json) list list \<Rightarrow> line res" where
  "print_json objs =
     rbind (rmap (\<lambda>fs. rbind (rmap (\<lambda>(k, v). rbind (json_arg v) (\<lambda>a. Inr (ALine k [a]))) fs)
       (\<lambda>as. Inr (ALine ''{}'' as))) objs) (\<lambda>os. Inr (Line ''json'' os))"

section \<open>The information block\<close>

text \<open>\<open>fd_nprintf\<close> writes as many bytes as the whole text has, from a buffer of \<open>n\<close> bytes.\<close>

definition fd_nprintf :: "nat \<Rightarrow> nat \<Rightarrow> line \<Rightarrow> line res" where
  "fd_nprintf n bytes l = (if bytes > n then Inl Out_of_bounds else Inr l)"

definition info_command :: "job \<Rightarrow> string \<Rightarrow> line list" where
  "info_command p c =
     (case ptr (info p) of None \<Rightarrow> [] | Some t \<Rightarrow> [Line ''%s'' [AStr (take (nat (nchars (info p))) t)]])
     @ [Line ''Command: '' []]
     @ (case depend_on p of [] \<Rightarrow> []
        | d # ds \<Rightarrow> [Line ''[%i,'' [AInt d]] @ map (\<lambda>x. Line '',%i'' [AInt x]) ds @ [Line '']&& '' []])
     @ [Line ''%s'' [AStr (drop (nat (command_strip p)) c)]]"

definition info_user :: "user_t \<Rightarrow> line res" where
  "info_user u = fd_nprintf 100 (length (uname u) + length (show_int (uid u)) + 10)
     (Line ''User: %s [%d]'' [AStr (uname u), AInt (uid u)])"

definition info_state :: "job \<Rightarrow> srv \<Rightarrow> line" where
  "info_state p s = Line ''State: %9s PID: %-6d%s'' [AStr (jstate2string (state p)), AInt (pid p),
     AStr (if state p \<noteq> FINISHED \<and> state p \<noteq> PAUSE \<and> is_sleep p s = 1 then '' in SLEEP!'' else [])]"

definition info_slots :: "job \<Rightarrow> srv \<Rightarrow> line res" where
  "info_slots p s =
     (if \<not> TS_CPU_BIND (world s) then Inr (Line ''Slots: %-3d'' [AInt (num_slots p)])
      else case cpu_alloc p of
        None \<Rightarrow> Inr (Line ''Slots: %-3d  CPU: free'' [AInt (num_slots p)])
      | Some h \<Rightarrow>
          (let cs = cpu_bind_format_cpus (store (cpu s) h);
               ms = cpu_bind_format_mems (length (nodes (topo (cpu s)))) (store (cpu s) h)
           in fd_nprintf 200 (23 + max 3 (length (show_int (num_slots p))) + length cs + length ms)
                (Line ''Slots: %-3d  CPU: %s  NUMA: %s'' [AInt (num_slots p), AStr cs, AStr ms])))"

definition info_place :: "job \<Rightarrow> line res" where
  "info_place p =
     (case output_filename p of Some f \<Rightarrow> Inr (Line ''Ouput: %s'' [AStr f])
      | None \<Rightarrow> (case work_dir p of None \<Rightarrow> Inl Null_deref | Some w \<Rightarrow> Inr (Line ''Workdir: %s'' [AStr w])))"

definition info_times :: "job \<Rightarrow> srv \<Rightarrow> line list" where
  "info_times p s =
     (let g = boot_wallclock p s; i = info p; left = schedule_time p - get_monotonic_sec s;
          work = get_work_time_by_job p s; pause = get_pause_time_by_job p s in
      [Line ''Enqueue time: %s'' [ADate (enqueue_time i + g)], Line ''Start time: %s'' [ADate (start_time i + g)]]
      @ (if pause_time i \<noteq> 0 then [Line ''Pause time: %s'' [ADate (pause_time i + g)]] else [])
      @ (if state p = FINISHED then [Line ''End time: %s'' [ADate (end_time i + g)]] else [])
      @ (if schedule_time p > 0
         then [if left > 0 then Line ''Schedule: %s (in %.2f%c)'' (ADate (start_date p s) # time_args left)
               else Line ''Schedule: %s (now)'' [ADate (start_date p s)]] else [])
      @ [Line ''Wall-time: %.4f %c ----'' (time_args (i64abs (wall_time p)))]
      @ (if work > 0 then [Line ''Work time: %.4f %c'' (time_args work)] else [])
      @ (if pause + work > 0
         then [Line ''Pause time: %.4f %c'' (time_args pause), Line ''Elapsed time: %.4f %c'' (time_args (pause + work))]
         else [])
      @ (if state p = FINISHED
         then [Line ''Error: %d Signal: %d Die: %d'' [AInt (errorlevel (result p)), AInt (signal (result p)),
                 AInt (died_by_signal (result p))]] else []))"

definition info_lines :: "job \<Rightarrow> user_t \<Rightarrow> srv \<Rightarrow> line list res" where
  "info_lines p u s =
     rbind (the_command p) (\<lambda>c. rbind (info_user u) (\<lambda>l1. rbind (info_slots p s) (\<lambda>l2.
     rbind (info_place p) (\<lambda>l3.
       Inr (info_command p c @ [l1, info_state p s, l2, l3] @ info_times p s)))))"

end
