(* ===== verification/Job_Ops.thy ===== *)
theory Job_Ops
  imports Listing
begin

text \<open>
  The queries of \<open>job_ops.c\<close> and the restart path of \<open>jobs.c\<close>.
\<close>

section \<open>Listing\<close>

definition visible :: "nat option \<Rightarrow> job \<Rightarrow> bool" where
  "visible u p = (u = None \<or> user p = u \<or> u = Some 0)"

definition send_lines :: "int \<Rightarrow> line list \<Rightarrow> srv \<Rightarrow> srv" where
  "send_lines sock ls s = foldl (\<lambda>s l. send_list_line sock l s) s ls"

definition shown_jobs :: "srv \<Rightarrow> job list" where
  "shown_jobs s = filter (\<lambda>p. state p \<noteq> HOLDING_CLIENT) (active_jobs s)"

definition list_default :: "int \<Rightarrow> nat option \<Rightarrow> srv \<Rightarrow> srv res" where
  "list_default sock u s =
     rbind (rmap (\<lambda>p. joblist_line p s) (filter (visible u) (shown_jobs s))) (\<lambda>ls.
     rbind (rmap (\<lambda>p. joblist_line p s) (filter (visible u) (finished_jobs s))) (\<lambda>fs.
       let s1 = send_lines sock (list_headers s # ls) s;
           s2 = (if finished_jobs s \<noteq> [] \<and> active_jobs s \<noteq> []
                 then send_list_line sock (Line ''----- Finished -----'' []) s1 else s1);
           s3 = send_lines sock fs s2
       in if u = None \<or> u = Some 0 then Inr (s_user_status_all sock s3) else s_user_status sock u s3))"

definition json_jobs :: "int \<Rightarrow> srv \<Rightarrow> job list" where
  "json_jobs jid s =
     (if jid > 0
      then (case findjob jid s of
              Some p \<Rightarrow> if state p \<noteq> HOLDING_CLIENT then [p] else []
            | None \<Rightarrow> (case find_finished_job jid s of Some p \<Rightarrow> [p] | None \<Rightarrow> []))
      else shown_jobs s @ finished_jobs s)"

definition s_list :: "int \<Rightarrow> nat option \<Rightarrow> list_format \<Rightarrow> int \<Rightarrow> srv \<Rightarrow> srv res" where
  "s_list sock u fmt jid s0 =
     rbind (s_update_slots_usage s0) (\<lambda>(usage, s).
       case fmt of
         DEFAULT \<Rightarrow> list_default sock u s
       | JSON \<Rightarrow>
           rbind (rmap (add_job_to_json_array s) (json_jobs jid s)) (\<lambda>objs.
           rbind (print_json objs) (\<lambda>l. Inr (send_list_line sock l s)))
       | TAB \<Rightarrow>
           rbind (rmap (\<lambda>p. joblist_line_plain p s) (shown_jobs s @ finished_jobs s)) (\<lambda>ls. Inr (send_lines sock ls s)))"

definition s_list_all :: "int \<Rightarrow> srv \<Rightarrow> srv res" where
  "s_list_all sock s =
     rbind (rmap (\<lambda>p. joblist_line p s) (shown_jobs s)) (\<lambda>ls.
     rbind (rmap (\<lambda>p. joblist_line p s) (finished_jobs s)) (\<lambda>fs.
       let s1 = send_lines sock (list_headers s # ls) s;
           s2 = (if finished_jobs s \<noteq> [] \<and> active_jobs s \<noteq> []
                 then send_list_line sock (Line '' ----- Finished -----'' []) s1 else s1)
       in Inr (send_lines sock fs s2)))"

section \<open>One job\<close>

definition no_job :: "int \<Rightarrow> string \<Rightarrow> int \<Rightarrow> srv \<Rightarrow> srv" where
  "no_job sock t jid s = send_list_line sock (Line t [AInt jid]) s"

definition s_job_info :: "int \<Rightarrow> int \<Rightarrow> srv \<Rightarrow> srv res" where
  "s_job_info sock jid s =
     (let answer = (\<lambda>p. rbind (the_user (user p) s) (\<lambda>u. rbind (info_lines p u s) (\<lambda>ls.
           Inr (emit (Send sock (INFO_DATA ls)) s))))
      in if jid = - 1
         then rbind (running_or_last s) (\<lambda>po. case po of
                None \<Rightarrow> Inr (send_list_line sock (Line ''No jobs.'' []) s) | Some p \<Rightarrow> answer p)
         else (case get_job jid s of
                None \<Rightarrow> Inr (no_job sock ''[s_job_info] Job %i not finished or not running.'' jid s)
              | Some p \<Rightarrow> answer p))"

text \<open>
  \<open>sprintf\<close> of the text and a line break into a fresh buffer of the length of the text plus
  one: with the terminating null it is one byte short.
\<close>

definition sprintf_line :: "nat \<Rightarrow> string \<Rightarrow> line res" where
  "sprintf_line room t = (if length t + 2 > room then Inl Out_of_bounds else Inr (Line ''%s'' [AStr t]))"

definition text_and_newline :: "string \<Rightarrow> line res" where
  "text_and_newline t = sprintf_line (length t + 1) t"

definition s_get_label :: "int \<Rightarrow> int \<Rightarrow> srv \<Rightarrow> srv res" where
  "s_get_label sock jid s =
     (case (if jid = - 1 then last_job s else get_job jid s) of
        None \<Rightarrow> Inr (no_job sock ''[get_label] Job %i not finished or not running.'' jid s)
      | Some p \<Rightarrow> (case label p of None \<Rightarrow> Inr (send_list_line sock (Line [] []) s)
                   | Some l \<Rightarrow> rbind (text_and_newline l) (\<lambda>t. Inr (send_list_line sock t s))))"

definition s_send_cmd :: "int \<Rightarrow> int \<Rightarrow> srv \<Rightarrow> srv res" where
  "s_send_cmd sock jid s =
     (case (if jid = - 1 then last_job s else get_job jid s) of
        None \<Rightarrow> Inr (no_job sock ''[get_cmd] Job %i not finished or not running.'' jid s)
      | Some p \<Rightarrow> (case command p of None \<Rightarrow> Inl Null_deref
                   | Some c \<Rightarrow> rbind (text_and_newline c) (\<lambda>t. Inr (send_list_line sock t s))))"

definition s_send_state :: "int \<Rightarrow> int \<Rightarrow> srv \<Rightarrow> srv" where
  "s_send_state sock jid s =
     (case (if jid = - 1 then last_job s else get_job jid s) of
        None \<Rightarrow> no_job sock ''The job %i cannot be stated.'' jid s
      | Some p \<Rightarrow> emit (Send sock (ANSWER_STATE (state p))) s)"

definition output_answer :: "int \<Rightarrow> int \<Rightarrow> job \<Rightarrow> srv \<Rightarrow> srv" where
  "output_answer sock jid p s =
     (if state p = SKIPPED
      then send_list_line sock
             (if jid = - 1 then Line ''The last job was skipped due to a dependency.'' []
              else Line ''Job %i was skipped due to a dependency.'' [AInt jid]) s
      else emit (Send sock (ANSWER_OUTPUT (store_output p) (pid p)
                  (if store_output p \<noteq> 0 then output_filename p else None))) s)"

definition s_send_output :: "int \<Rightarrow> int \<Rightarrow> srv \<Rightarrow> srv res" where
  "s_send_output sock jid s =
     (if jid = - 1
      then rbind (running_or_last s) (\<lambda>po. case po of
             None \<Rightarrow> Inr (send_list_line sock (Line ''No jobs.'' []) s)
           | Some p \<Rightarrow> Inr (output_answer sock jid p s))
      else (case get_job jid s of
              None \<Rightarrow> Inr (no_job sock ''[s_send_output] Job %i not finished or not running.'' jid s)
            | Some p \<Rightarrow>
                if state p \<in> {RUNNING, FINISHED, SKIPPED, PAUSE, ABNORMAL}
                then Inr (output_answer sock jid p (if state p = PAUSE then cgroups_thaw_job p s else s))
                else Inr (no_job sock ''[s_send_output] Job %i not finished or not running.'' jid s)))"

section \<open>Restart\<close>

text \<open>A job read from the database joins the queue, or is dropped.\<close>

definition restore_push :: "job \<Rightarrow> srv \<Rightarrow> srv" where
  "restore_push j s =
     (push_active (j\<lparr>client_socket := 0\<rparr>) s)\<lparr>jobids := (if jobids s > jobid j then jobids s else jobid j + 1)\<rparr>"

definition restore_paused :: "job \<Rightarrow> srv \<Rightarrow> srv" where
  "restore_paused j s =
     restore_push (j\<lparr>state := PAUSE, info := (if pause_time (info j) = 0
                      then (info j)\<lparr>pause_time := get_monotonic_sec s\<rparr> else info j)\<rparr>) s"

definition s_add_job :: "job \<Rightarrow> srv \<Rightarrow> srv res" where
  "s_add_job j s =
     (if state j = RUNNING
      then (if pause_time (info j) > 0 \<and> pid j > 0 \<and> s_check_running_pid (pid j) s = 1
            then Inr (restore_paused j s)
            else if pid j > 0 \<and> s_check_running_pid (pid j) s = 1 then Inr (restore_push j s)
            else Inr (delete_DB (jobid j) Jobs s))
      else if state j = QUEUED \<or> state j = LOCKED
      then rbind (if user j \<noteq> None then upd_user (user j) (\<lambda>u. u\<lparr>queue := queue u + 1\<rparr>) s else Inr s)
             (\<lambda>s'. Inr (restore_push j s'))
      else if state j = PAUSE then Inr (restore_paused j s)
      else Inr s)"

text \<open>The two tables, as the jobs \<open>read_DB\<close> returned.\<close>

definition s_read_sqlite :: "job list \<Rightarrow> job list \<Rightarrow> srv \<Rightarrow> srv res" where
  "s_read_sqlite jobs finished s =
     rbind (rfold s_add_job jobs s) (\<lambda>s'. Inr (s'\<lparr>finished_jobs := finished_jobs s' @ finished\<rparr>))"

text \<open>Users are capped to the server's slots when it starts; root is left alone.\<close>

definition cap_users :: "srv \<Rightarrow> srv" where
  "cap_users s =
     s\<lparr>users_vec := map (\<lambda>u. if uid u \<noteq> 0 \<and> umax_slots u > max_slots s
                              then u\<lparr>umax_slots := max_slots s\<rparr> else u) (users_vec s)\<rparr>"

end
