(* ===== verification/Server_Env.thy ===== *)
theory Server_Env
  imports Server_State
begin

text \<open>
  The environment requests of \<open>server_env.c\<close>: any client may read and change the server's
  environment variables and its log directory. The bytes after the message are \<open>None\<close> when
  they do not all arrive.
\<close>

definition s_get_logdir :: "int \<Rightarrow> srv \<Rightarrow> srv" where
  "s_get_logdir sock s = send_list_line sock (Line (logdir s) []) s"

definition s_set_logdir :: "string \<Rightarrow> srv \<Rightarrow> srv" where
  "s_set_logdir dir s = s\<lparr>logdir := dir\<rparr>"

definition recv_var :: "string option \<Rightarrow> string res" where
  "recv_var b = (case b of None \<Rightarrow> Inl (Error_exit ''Receiving environment variable name'') | Some x \<Rightarrow> Inr x)"

definition s_get_env :: "int \<Rightarrow> string option \<Rightarrow> srv \<Rightarrow> srv res" where
  "s_get_env sock b s =
     rbind (recv_var b) (\<lambda>var.
       Inr (case getenv (world s) var of
              None \<Rightarrow> emit (Send sock (LIST_LINE (Line '''' []))) s
            | Some v \<Rightarrow> emit (Send sock (LIST_LINE (Line v []))) s))"

definition set_getenv :: "string \<Rightarrow> string option \<Rightarrow> srv \<Rightarrow> srv" where
  "set_getenv nm v s = s\<lparr>world := (world s)\<lparr>getenv := (getenv (world s))(nm := v)\<rparr>\<rparr>"

text \<open>
  The value is what stands before the second \<open>=\<close>; \<open>setenv\<close> refuses a null name and reads
  through a null value.
\<close>

definition s_set_env :: "string option \<Rightarrow> srv \<Rightarrow> srv res" where
  "s_set_env b s =
     rbind (recv_var b) (\<lambda>var.
       case strtok (CHR ''='') var of
         [] \<Rightarrow> Inr s
       | [nm] \<Rightarrow> Inl Null_deref
       | nm # v # _ \<Rightarrow> Inr (set_getenv nm (Some v) s))"

definition s_unset_env :: "string option \<Rightarrow> srv \<Rightarrow> srv res" where
  "s_unset_env b s = rbind (recv_var b) (\<lambda>var. Inr (set_getenv var None s))"

end
