(* ===== verification/Server.thy ===== *)
theory Server
  imports New_Job Job_Ops Server_Env
begin

text \<open>
  The server process of \<open>server.c\<close>: its connection table, the handler of each message
  (\<open>client_read\<close>, one definition per case of its \<open>switch\<close> that does more than one call), and
  one turn of \<open>server_loop\<close>. A connection is named by its position in \<open>client_cs\<close>, as in
  the code; positions shift when a connection is removed.
\<close>

section \<open>Messages\<close>

text \<open>
  The requests with the payload read after them. In \<open>RUNJOB_OK\<close> the file name is \<open>None\<close> when
  the runner does not store output and \<open>Some None\<close> when reading it failed.
\<close>

datatype msg =
  REFRESH_USERS | LOCK_SERVER | UNLOCK_SERVER
| HOLD_JOB int | CONT_JOB int | REQUEUE_JOB int
| SUSPEND_USER int | RESUME_USER int
| KILL_SERVER
| NEWJOB newjob_msg
| RUNJOB_OK "string option option" int
| KILL_ALL list_format int | LIST list_format int | LIST_ALL list_format int
| INFO int | REQ_LAST_ID | GET_LABEL int | ADD_WTIME int int | GET_CMD int
| RECONNECT int int
| ENDJOB result_t
| CLEAR_FINISHED | ASK_OUTPUT int | REMOVEJOB int
| WAITJOB int | WAIT_RUNNING_JOB int | REQ_COUNT_RUNNING
| URGENT int | SET_MAX_SLOTS int | GET_MAX_SLOTS | SWAP_JOBS int int
| GET_STATE int | FIND_PID int bool
| BIND_OFF | BIND_ON | GET_VERSION
| GET_ENV "string option" | SET_ENV "string option" | UNSET_ENV "string option"
| GET_LOGDIR | SET_LOGDIR string
| UNKNOWN_MSG int

datatype brk = BREAK | NOBREAK | CLOSE

section \<open>Connections\<close>

definition upd_conn :: "nat \<Rightarrow> (client_conn \<Rightarrow> client_conn) \<Rightarrow> srv \<Rightarrow> srv" where
  "upd_conn i f s = s\<lparr>client_cs := (client_cs s)[i := f (client_cs s ! i)]\<rparr>"

text \<open>
  Removing a connection deletes its job. A position past \<open>nconnections\<close> reads a stale entry
  and shortens the table by the wrong connection; the model stops there.
\<close>

definition remove_connection :: "nat \<Rightarrow> srv \<Rightarrow> srv res" where
  "remove_connection i s =
     (if i < length (client_cs s)
      then rbind (if hasjob (client_cs s ! i) then s_delete_job (c_jobid (client_cs s ! i)) s else Inr s)
             (\<lambda>s'. Inr (s'\<lparr>client_cs := remove_nth i (client_cs s')\<rparr>))
      else Inl Out_of_bounds)"

definition close_connection :: "nat \<Rightarrow> int \<Rightarrow> srv \<Rightarrow> srv res" where
  "close_connection i sock s = remove_connection i (emit (Close sock) s)"

text \<open>\<open>SIGTERM\<close> to the group, \<open>SIGKILL\<close> when the process survives half a second.\<close>

definition kill_orphan :: "job \<Rightarrow> srv \<Rightarrow> srv" where
  "kill_orphan p s =
     (if pid p > 0
      then (let s1 = emit (Kill (- pid p) SIGTERM) s
            in if pid_alive (world s) (pid p) then emit (Kill (- pid p) SIGKILL) s1 else s1)
      else s)"

definition orphaned_job :: "int \<Rightarrow> srv \<Rightarrow> srv res" where
  "orphaned_job jid s =
     (case findjob jid s of None \<Rightarrow> Inr s
      | Some p \<Rightarrow>
          if state p = RUNNING \<or> state p = PAUSE
          then rbind (job_finished (killed_result 0) jid (kill_orphan p s)) (check_notify_list jid)
          else s_delete_job jid s)"

definition clean_after_client_disappeared :: "int \<Rightarrow> nat \<Rightarrow> srv \<Rightarrow> srv res" where
  "clean_after_client_disappeared sock i s =
     (if i < length (client_cs s)
      then rbind (if hasjob (client_cs s ! i)
                  then rbind (orphaned_job (c_jobid (client_cs s ! i)) s)
                         (\<lambda>s'. Inr (upd_conn i (\<lambda>c. c\<lparr>hasjob := False\<rparr>) s'))
                  else Inr (s_remove_notification sock s))
             (close_connection i sock)
      else Inl Out_of_bounds)"

text \<open>
  The loop of \<open>s_remove_all_queues\<close>: each turn advances or drops a connection. That a
  connection is dropped needs that finishing a job leaves the connection table alone.
\<close>

lemma job_ops_conns:
  "upd_user u f s = Inr s' \<Longrightarrow> client_cs s' = client_cs s"
  "free_cores p s = Inr (p', s') \<Longrightarrow> client_cs s' = client_cs s"
  "detach_cpus p s = Inr (p', s') \<Longrightarrow> client_cs s' = client_cs s"
  "cpu_bind_defrag_start s = Inr s' \<Longrightarrow> client_cs s' = client_cs s"
  "client_cs (cgroups_clean_job p s) = client_cs s"
  by (auto simp: upd_user_def free_cores_def detach_cpus_def cpu_bind_defrag_start_def cgroups_clean_job_def
      rbind_eq_Inr Let_def split: option.splits if_splits prod.splits)

lemma notify_one_conns [simp]: "client_cs (notify_one lev s j) = client_cs s"
  by (auto simp: notify_one_def Let_def set_active_def split: option.splits)

lemma notify_errorlevel_conns [simp]: "client_cs (notify_errorlevel p s) = client_cs s"
proof -
  have "client_cs (foldl (notify_one lev) s js) = client_cs s" for lev s js
    by (induction js arbitrary: s) simp_all
  then show ?thesis by (simp add: notify_errorlevel_def)
qed

lemma new_finished_conns: "new_finished_job j s = Inr s' \<Longrightarrow> client_cs s' = client_cs s"
  by (auto simp: new_finished_job_def Let_def insert_DB_def delete_DB_def rbind_eq_Inr job_ops_conns(5)
      dest!: job_ops_conns(3,4) split: if_splits prod.splits)

lemma job_finished_conns: "job_finished r jid s = Inr s' \<Longrightarrow> client_cs s' = client_cs s"
  by (auto simp: job_finished_def Let_def rbind_eq_Inr set_active_def remove_active_def
      dest!: new_finished_conns job_ops_conns(2) split: if_splits option.splits)

lemma notify_loop_conns: "notify_loop jid ns s = Inr s' \<Longrightarrow> client_cs s' = client_cs s"
proof (induction ns arbitrary: s jid)
  case (Cons n ns)
  have rm: "client_cs (s_remove_notification k (send_waitjob_ok k l s)) = client_cs s" for k l s
    by (simp add: s_remove_notification_def send_waitjob_ok_def split: option.splits)
  from Cons.prems show ?case
    by (auto simp: Let_def rbind_eq_Inr destroy_finished_job_def rm dest!: Cons.IH split: if_splits option.splits)
qed simp

lemma orphaned_job_conns: "orphaned_job jid s = Inr s' \<Longrightarrow> client_cs s' = client_cs s"
  by (auto simp: orphaned_job_def kill_orphan_def Let_def rbind_eq_Inr check_notify_list_def s_delete_job_def
      delete_DB_def remove_active_def dest!: notify_loop_conns job_finished_conns split: if_splits option.splits)

lemma clean_after_drops:
  assumes "clean_after_client_disappeared sock i s = Inr s'"
  shows "length (client_cs s) = Suc (length (client_cs s'))"
proof -
  obtain s1 where i: "i < length (client_cs s)" and c: "close_connection i sock s1 = Inr s'"
    and s1: "length (client_cs s1) = length (client_cs s)"
    using assms orphaned_job_conns
    by (fastforce simp: clean_after_client_disappeared_def rbind_eq_Inr upd_conn_def s_remove_notification_def
        split: if_splits option.splits)
  have "s_delete_job j t = Inr t' \<Longrightarrow> client_cs t' = client_cs t" for j t t'
    by (auto simp: s_delete_job_def delete_DB_def remove_active_def split: option.splits)
  then show ?thesis
    using c i s1 by (auto simp: close_connection_def remove_connection_def rbind_eq_Inr length_remove_nth split: if_splits)
qed

function remove_queues_loop :: "nat option \<Rightarrow> nat \<Rightarrow> srv \<Rightarrow> srv res" where
  "remove_queues_loop u i s =
     (if i < length (client_cs s)
      then (let c = client_cs s ! i in
            if (u = Some 0 \<or> c_user c = u) \<and> \<not> job_is_running (c_jobid c) s
            then rbind (clean_after_client_disappeared (socket c) i s) (remove_queues_loop u i)
            else remove_queues_loop u (Suc i) s)
      else Inr s)"
  by pat_completeness auto

termination remove_queues_loop
  by (relation "measure (\<lambda>(u, i, s). length (client_cs s) - i)") (auto dest: clean_after_drops)

declare remove_queues_loop.simps [simp del]

definition s_remove_all_queues :: "nat option \<Rightarrow> srv \<Rightarrow> srv res" where
  "s_remove_all_queues u s = remove_queues_loop u 0 s"

section \<open>Handlers\<close>

definition DEFAULT_ROOT_LOCK_TIME :: int where "DEFAULT_ROOT_LOCK_TIME = 86400"
definition DEFAULT_USER_LOCK_TIME :: int where "DEFAULT_USER_LOCK_TIME = 30"

definition timeout_unlock :: "srv \<Rightarrow> srv res" where
  "timeout_unlock s =
     (case user_locker s of None \<Rightarrow> Inr s
      | Some l \<Rightarrow>
          rbind (the_user (Some l) s) (\<lambda>u.
            let dt = get_monotonic_sec s - locker_time s;
                limit = (if uid u = 0 then DEFAULT_ROOT_LOCK_TIME else DEFAULT_USER_LOCK_TIME)
            in Inr (if dt > limit then s\<lparr>user_locker := None\<rparr> else s)))"

text \<open>Root may name a user by uid or mean all of them; others act on themselves.\<close>

definition handle_suspend :: "int \<Rightarrow> nat option \<Rightarrow> int \<Rightarrow> srv \<Rightarrow> srv res" where
  "handle_suspend sock u target s =
     (if u = Some 0
      then (if target \<noteq> 0
            then rbind (s_suspend_user sock (find_user_by_uid target s) s)
                   (s_user_status sock (find_user_by_uid target s))
            else rbind (s_suspend_user_all sock s) (\<lambda>s'. Inr (s_user_status_all sock s')))
      else rbind (s_suspend_user sock u s) (s_user_status sock u))"

definition handle_resume :: "int \<Rightarrow> nat option \<Rightarrow> int \<Rightarrow> srv \<Rightarrow> srv res" where
  "handle_resume sock u target s =
     (if u = Some 0
      then (if target \<noteq> 0
            then rbind (s_resume_user sock (find_user_by_uid target s) s)
                   (s_user_status sock (find_user_by_uid target s))
            else rbind (s_resume_user_all sock s) (\<lambda>s'. Inr (s_user_status_all sock s')))
      else rbind (s_resume_user sock u s) (s_user_status sock u))"

definition s_newjob_ok :: "nat \<Rightarrow> srv \<Rightarrow> srv res" where
  "s_newjob_ok i s =
     (if \<not> hasjob (client_cs s ! i)
      then Inl (Error_exit ''Run job of the client %i which doesn't have any job'')
      else Inr (emit (Send (socket (client_cs s ! i)) (NEWJOB_OK (c_jobid (client_cs s ! i)))) s))"

definition s_newjob_nok :: "nat \<Rightarrow> srv \<Rightarrow> srv res" where
  "s_newjob_nok i s =
     (if \<not> hasjob (client_cs s ! i)
      then Inl (Error_exit ''Run job of the client %i which doesn't have any job'')
      else Inr (emit (Send (socket (client_cs s ! i)) NEWJOB_NOK) s))"

text \<open>The answer to a submission; the connection takes the job, or is dropped with it.\<close>

definition answer_newjob :: "nat \<Rightarrow> int \<Rightarrow> newjob_msg \<Rightarrow> int \<Rightarrow> srv \<Rightarrow> srv res" where
  "answer_newjob i sock m jid s =
     (let s2 = upd_conn i (\<lambda>c. c\<lparr>c_jobid := jid, hasjob := True\<rparr>) s in
      if jid = - 1
      then rbind (s_newjob_nok i s2) (\<lambda>s3.
             clean_after_client_disappeared sock i (upd_conn i (\<lambda>c. c\<lparr>hasjob := False\<rparr>) s3))
      else if \<not> job_is_holding_client jid s2 then s_newjob_ok i s2
      else if \<not> m_wait_enqueuing m
      then rbind (s_newjob_nok i s2) (clean_after_client_disappeared sock i)
      else Inr s2)"

definition handle_newjob :: "nat \<Rightarrow> int \<Rightarrow> newjob_msg \<Rightarrow> nat option \<Rightarrow> srv \<Rightarrow> srv res" where
  "handle_newjob i sock m u s0 =
     (case s_check_locker u s0 of (refused, s) \<Rightarrow>
        if refused then Inr s
        else if u = None then Inr (emit (Send sock NEWJOB_PID_NOK) s)
        else rbind (s_newjob sock m u s) (\<lambda>(jid, s1). answer_newjob i sock m jid s1))"

definition handle_runjob_ok :: "nat \<Rightarrow> string option option \<Rightarrow> int \<Rightarrow> srv \<Rightarrow> srv res" where
  "handle_runjob_ok i oname pd s =
     (case oname of Some None \<Rightarrow> Inl (Error_exit ''Reading the ofilename'')
      | _ \<Rightarrow> if pd > 0
             then s_process_runjob_ok (c_jobid (client_cs s ! i)) (case oname of Some f \<Rightarrow> f | None \<Rightarrow> None) pd s
             else Inr s)"

definition handle_list :: "nat \<Rightarrow> int \<Rightarrow> nat option \<Rightarrow> list_format \<Rightarrow> int \<Rightarrow> srv \<Rightarrow> srv res" where
  "handle_list i sock u fmt jid s = rbind (s_list sock u fmt jid s) (close_connection i sock)"

text \<open>There is no \<open>break\<close> after \<open>KILL_ALL\<close>: it goes on as \<open>LIST\<close>, with the same position.\<close>

definition handle_kill_all :: "nat \<Rightarrow> int \<Rightarrow> nat option \<Rightarrow> list_format \<Rightarrow> int \<Rightarrow> srv \<Rightarrow> srv res" where
  "handle_kill_all i sock u fmt jid s =
     rbind (s_remove_all_queues u (s_kill_all_jobs sock u s)) (handle_list i sock u fmt jid)"

definition reconnect_refused :: "job \<Rightarrow> nat option \<Rightarrow> int \<Rightarrow> bool" where
  "reconnect_refused jp u cpid =
     (\<not> (state jp \<in> {QUEUED, DELINK, RUNNING, LOCKED, WAIT} \<and> user jp = u)
      \<or> pid jp \<noteq> 0 \<and> pid jp \<noteq> cpid \<and> cpid \<noteq> 0)"

definition drop_old_owner :: "nat \<Rightarrow> int \<Rightarrow> srv \<Rightarrow> srv" where
  "drop_old_owner i jid s =
     s\<lparr>client_cs := map (\<lambda>c. let cn = client_cs s ! c in
         if c \<noteq> i \<and> hasjob cn \<and> c_jobid cn = jid then cn\<lparr>hasjob := False\<rparr> else cn)
       [0..<length (client_cs s)]\<rparr>"

definition handle_reconnect :: "nat \<Rightarrow> int \<Rightarrow> nat option \<Rightarrow> int \<Rightarrow> int \<Rightarrow> srv \<Rightarrow> srv res" where
  "handle_reconnect i sock u jid cpid s =
     (case get_job jid s of
        None \<Rightarrow> Inr (emit (Send sock (ERROR_INFO jid)) s)
      | Some jp \<Rightarrow>
          if state jp = FINISHED \<or> state jp = SKIPPED \<or> reconnect_refused jp u cpid
          then Inr (emit (Send sock (ERROR_INFO jid)) s)
          else
            (case findjob_idx jid s of None \<Rightarrow> Inl Null_deref
             | Some k \<Rightarrow>
                 (let jp' = jp\<lparr>state := (if state jp = DELINK then RUNNING else state jp), client_socket := sock\<rparr>;
                      s1 = set_active k jp' (drop_old_owner i jid s);
                      s2 = emit (Send sock (RECONNECT_OK jid))
                             (upd_conn i (\<lambda>c. c\<lparr>hasjob := True, c_jobid := jid\<rparr>) s1)
                  in if state jp' = RUNNING \<and> pid jp' = 0 then s_send_runjob sock (jobid jp') s2 else Inr s2)))"

definition handle_endjob :: "nat \<Rightarrow> int \<Rightarrow> result_t \<Rightarrow> srv \<Rightarrow> srv res" where
  "handle_endjob i sock r s =
     (let jid = c_jobid (client_cs s ! i) in
      rbind (job_finished r jid s) (\<lambda>s1.
      rbind (check_notify_list jid s1) (\<lambda>s2.
        Inr (upd_conn i (\<lambda>c. c\<lparr>hasjob := False\<rparr>)
          (emit (Send sock (ENDJOB_OK jid
             (map_option (\<lambda>jp. (result jp, info jp, num_slots jp)) (get_job jid s2)))) s2)))))"

text \<open>The \<open>for\<close> loop goes on at the next position after a removal, so it skips one connection.\<close>

fun drop_connections_of :: "int \<Rightarrow> nat \<Rightarrow> nat \<Rightarrow> srv \<Rightarrow> srv res" where
  "drop_connections_of jid 0 i s = Inr s"
| "drop_connections_of jid (Suc n) i s =
     (if i < length (client_cs s)
      then (let c = client_cs s ! i in
            if hasjob c \<and> c_jobid c = jid
            then rbind (remove_connection i (upd_conn i (\<lambda>c. c\<lparr>hasjob := False\<rparr>) (emit (Close (socket c)) s)))
                   (drop_connections_of jid n (Suc i))
            else drop_connections_of jid n (Suc i) s)
      else Inr s)"

definition handle_removejob :: "int \<Rightarrow> nat option \<Rightarrow> int \<Rightarrow> srv \<Rightarrow> srv res" where
  "handle_removejob sock u jid s =
     rbind (s_remove_job sock jid u s) (\<lambda>(removed, s1).
       case removed of None \<Rightarrow> Inr s1
       | Some j \<Rightarrow> drop_connections_of j (length (client_cs s1)) 0 s1)"

definition maybe_sort :: "srv \<Rightarrow> srv" where
  "maybe_sort s = (if jobsort_flag s then s_sort_jobs s else s)"

definition handle_urgent :: "nat \<Rightarrow> int \<Rightarrow> nat option \<Rightarrow> int \<Rightarrow> srv \<Rightarrow> srv res" where
  "handle_urgent i sock u jid s =
     close_connection i sock
       (maybe_sort (if u = Some 0 \<or> u = s_get_job_user jid s then s_move_urgent sock jid s else s))"

definition handle_swap :: "nat \<Rightarrow> int \<Rightarrow> nat option \<Rightarrow> int \<Rightarrow> int \<Rightarrow> srv \<Rightarrow> srv res" where
  "handle_swap i sock u j1 j2 s =
     close_connection i sock
       (maybe_sort (if u = Some 0 \<or> u = s_get_job_user j1 s \<and> u = s_get_job_user j2 s
                    then s_swap_jobs sock j1 j2 s else s))"

definition PROTOCOL_VERSION :: int where "PROTOCOL_VERSION = 732"

definition s_send_version :: "int \<Rightarrow> srv \<Rightarrow> srv" where
  "s_send_version sock s = emit (Send sock (VERSION PROTOCOL_VERSION)) s"

text \<open>The \<open>switch\<close> of \<open>client_read\<close>, first half: user requests and the life of a job.\<close>

definition handle_user_msg :: "nat \<Rightarrow> int \<Rightarrow> nat option \<Rightarrow> msg \<Rightarrow> srv \<Rightarrow> srv res option" where
  "handle_user_msg i sock u m s =
     (let done = (\<lambda>r. Some (rbind r (close_connection i sock))) in
      case m of
        REFRESH_USERS \<Rightarrow> done (if u = Some 0 then s_refresh_users sock s else Inr s)
      | LOCK_SERVER \<Rightarrow> done (s_lock_server sock u s)
      | UNLOCK_SERVER \<Rightarrow> done (s_unlock_server sock u s)
      | HOLD_JOB j \<Rightarrow> done (s_hold_job sock j u s)
      | CONT_JOB j \<Rightarrow> done (s_cont_job sock j u s)
      | REQUEUE_JOB j \<Rightarrow> done (s_requeue_job sock j u s)
      | SUSPEND_USER t \<Rightarrow> done (handle_suspend sock u t s)
      | RESUME_USER t \<Rightarrow> done (handle_resume sock u t s)
      | NEWJOB nm \<Rightarrow> Some (handle_newjob i sock nm u s)
      | RUNJOB_OK oname pd \<Rightarrow> Some (handle_runjob_ok i oname pd s)
      | KILL_ALL fmt j \<Rightarrow> Some (handle_kill_all i sock u fmt j s)
      | LIST fmt j \<Rightarrow> Some (handle_list i sock u fmt j s)
      | LIST_ALL fmt j \<Rightarrow> Some (handle_list i sock None fmt j s)
      | INFO j \<Rightarrow> done (s_job_info sock j s)
      | RECONNECT j cp \<Rightarrow> Some (handle_reconnect i sock u j cp s)
      | ENDJOB r \<Rightarrow> Some (handle_endjob i sock r s)
      | _ \<Rightarrow> None)"

text \<open>Second half: queries, reordering and settings.\<close>

definition handle_query_msg :: "nat \<Rightarrow> int \<Rightarrow> nat option \<Rightarrow> msg \<Rightarrow> srv \<Rightarrow> srv res option" where
  "handle_query_msg i sock u m s =
     (let done = (\<lambda>s'. Some (close_connection i sock s')) in
      case m of
        REQ_LAST_ID \<Rightarrow> Some (Inr (s_send_last_id sock s))
      | GET_LABEL j \<Rightarrow> Some (s_get_label sock j s)
      | ADD_WTIME j w \<Rightarrow> done (if u = Some 0 then s_add_wtime sock j w s else s)
      | GET_CMD j \<Rightarrow> Some (s_send_cmd sock j s)
      | CLEAR_FINISHED \<Rightarrow> Some (Inr (s_clear_finished u s))
      | ASK_OUTPUT j \<Rightarrow> Some (s_send_output sock j s)
      | REMOVEJOB j \<Rightarrow> Some (handle_removejob sock u j s)
      | WAITJOB j \<Rightarrow> Some (Inr (s_wait_job sock j s))
      | WAIT_RUNNING_JOB j \<Rightarrow> Some (s_wait_running_job sock j s)
      | REQ_COUNT_RUNNING \<Rightarrow> Some (Inr (s_count_running_jobs sock u s))
      | URGENT j \<Rightarrow> Some (handle_urgent i sock u j s)
      | SET_MAX_SLOTS n \<Rightarrow> done (if u = Some 0 then s_set_max_slots sock n s else s)
      | GET_MAX_SLOTS \<Rightarrow> Some (Inr (s_get_max_slots sock s))
      | SWAP_JOBS j1 j2 \<Rightarrow> Some (handle_swap i sock u j1 j2 s)
      | GET_STATE j \<Rightarrow> Some (Inr (s_send_state sock j s))
      | FIND_PID p deep \<Rightarrow> Some (Inr (emit (Send sock (FIND_PID_RESULT (s_find_pid 64 p deep s))) s))
      | BIND_OFF \<Rightarrow> done (if u = Some 0 \<and> TS_CPU_BIND (world s) then s\<lparr>cpu := cpu_bind_set_disabled True (cpu s)\<rparr> else s)
      | BIND_ON \<Rightarrow> done (if u = Some 0 \<and> TS_CPU_BIND (world s) then s\<lparr>cpu := cpu_bind_set_disabled False (cpu s)\<rparr> else s)
      | GET_VERSION \<Rightarrow> Some (Inr (s_send_version sock s))
      | GET_ENV b \<Rightarrow> Some (s_get_env sock b s)
      | SET_ENV b \<Rightarrow> Some (s_set_env b s)
      | UNSET_ENV b \<Rightarrow> Some (s_unset_env b s)
      | GET_LOGDIR \<Rightarrow> Some (Inr (s_get_logdir sock s))
      | SET_LOGDIR dir \<Rightarrow> done (s_set_logdir dir s)
      | _ \<Rightarrow> None)"

text \<open>
  \<open>client_read\<close>: no message means that \<open>recv_msg\<close> failed or the client closed the socket.
\<close>

definition client_read :: "nat \<Rightarrow> msg option \<Rightarrow> srv \<Rightarrow> (brk \<times> srv) res" where
  "client_read i mo s =
     (let sock = socket (client_cs s ! i); u = c_user (client_cs s ! i) in
      case mo of
        None \<Rightarrow> rbind (clean_after_client_disappeared sock i s) (\<lambda>s'. Inr (NOBREAK, s'))
      | Some m \<Rightarrow>
          rbind (timeout_unlock s) (\<lambda>s1.
            if m = KILL_SERVER then Inr (if u = Some 0 then BREAK else NOBREAK, s1)
            else case handle_user_msg i sock u m s1 of
              Some r \<Rightarrow> rbind r (\<lambda>s'. Inr (NOBREAK, s'))
            | None \<Rightarrow>
                (case handle_query_msg i sock u m s1 of
                   Some r \<Rightarrow> rbind r (\<lambda>s'. Inr (NOBREAK, s'))
                 | None \<Rightarrow> Inr (CLOSE, s1))))"

section \<open>The main loop\<close>

text \<open>The slot of the new connection keeps the job id of its last user (\<open>stale\<close>).\<close>

definition accept_connection :: "int \<Rightarrow> int \<Rightarrow> int \<Rightarrow> srv \<Rightarrow> srv" where
  "accept_connection sock peer stale s =
     (case find_user_by_uid peer s of
        None \<Rightarrow> emit (Close sock) (emit (Send sock (ERROR_INFO 0)) s)
      | Some u \<Rightarrow> s\<lparr>client_cs := client_cs s @ [\<lparr>socket = sock, hasjob = False, c_jobid = stale, c_user = Some u\<rparr>]\<rparr>)"

text \<open>
  Serving the connections whose socket is readable, position by position; \<open>ready\<close> gives for a
  socket nothing, the end of the stream, or a message. The flag tells the loop to end.
\<close>

fun serve :: "nat \<Rightarrow> (int \<Rightarrow> msg option option) \<Rightarrow> nat \<Rightarrow> bool \<times> srv \<Rightarrow> (bool \<times> srv) res" where
  "serve 0 ready i ks = Inr ks"
| "serve (Suc n) ready i ks =
     (case ks of (keep, s) \<Rightarrow>
        if i < length (client_cs s)
        then (case ready (socket (client_cs s ! i)) of
                None \<Rightarrow> serve n ready (Suc i) (keep, s)
              | Some mo \<Rightarrow>
                  rbind (client_read i mo s) (\<lambda>(b, s1).
                    case b of
                      CLOSE \<Rightarrow> rbind (clean_after_client_disappeared (socket (client_cs s1 ! i)) i s1)
                                 (\<lambda>s2. serve n ready (Suc i) (keep, s2))
                    | BREAK \<Rightarrow> serve n ready (Suc i) (False, s1)
                    | NOBREAK \<Rightarrow> serve n ready (Suc i) (keep, s1)))
        else Inr (keep, s))"

definition health_tick :: "srv \<Rightarrow> srv res" where
  "health_tick s =
     (if health_ticks s + 1 \<ge> 10 then s_check_running_health (s\<lparr>health_ticks := 0\<rparr>)
      else Inr (s\<lparr>health_ticks := health_ticks s + 1\<rparr>))"

definition orphan_tick :: "srv \<Rightarrow> srv res" where
  "orphan_tick s =
     (if cleanup_done s then Inr s
      else if cleanup_start s = 0 then Inr (s\<lparr>cleanup_start := get_monotonic_sec s\<rparr>)
      else if get_monotonic_sec s - cleanup_start s > 1800
      then rbind (s_cleanup_orphan_queued s) (\<lambda>s'. Inr (s'\<lparr>cleanup_done := True\<rparr>))
      else Inr s)"

definition server_turn :: "(int \<times> int \<times> int) option \<Rightarrow> (int \<Rightarrow> msg option option) \<Rightarrow> srv \<Rightarrow> (bool \<times> srv) res" where
  "server_turn acc ready s =
     (let s1 = (case acc of None \<Rightarrow> s | Some (sock, peer, stale) \<Rightarrow> accept_connection sock peer stale s) in
      rbind (serve (length (client_cs s1)) ready 0 (True, s1)) (\<lambda>(keep, s2).
      rbind (health_tick s2) (\<lambda>s3.
      rbind (orphan_tick s3) (\<lambda>s4.
      rbind (next_run_job s4) (\<lambda>(d, s5). Inr (keep, s_check_holdon s5))))))"

end
