(* ===== verification/Request_Inv.thy ===== *)
theory Request_Inv
  imports Recount Server
begin

text \<open>
  The server invariant across the requests of \<open>server_user.c\<close>: suspending and resuming
  users, holding, continuing and requeueing jobs, and refreshing the user table. The
  predicate \<open>res_ok\<close> composes the statements along the sequence of calls of a handler.
\<close>

section \<open>Composing calls\<close>

text \<open>If the call returns, the state it returns satisfies the invariant.\<close>

definition res_ok :: "bool \<Rightarrow> srv res \<Rightarrow> bool" where
  "res_ok b r \<longleftrightarrow> (\<forall>s'. r = Inr s' \<longrightarrow> srv_ok b s')"

lemma res_okI: "(\<And>s'. r = Inr s' \<Longrightarrow> srv_ok b s') \<Longrightarrow> res_ok b r"
  by (simp add: res_ok_def)

lemma res_okD: "res_ok b r \<Longrightarrow> r = Inr s' \<Longrightarrow> srv_ok b s'"
  by (simp add: res_ok_def)

lemma res_ok_simps [simp]: "res_ok b (Inr s) = srv_ok b s" "res_ok b (Inl e)"
  by (simp_all add: res_ok_def)

lemma res_ok_bind: "res_ok b r \<Longrightarrow> (\<And>s1. srv_ok b s1 \<Longrightarrow> res_ok b (f s1)) \<Longrightarrow> res_ok b (rbind r f)"
  by (auto simp: res_ok_def rbind_eq_Inr)

lemma res_ok_any: "(\<And>x. r = Inr x \<Longrightarrow> res_ok b (f x)) \<Longrightarrow> res_ok b (rbind r f)"
  by (auto simp: res_ok_def rbind_eq_Inr)

lemma srv_ok_fields [simp]:
  "srv_ok b (s\<lparr>finished_jobs := x1\<rparr>) = srv_ok b s" "srv_ok b (s\<lparr>first_notify := x2\<rparr>) = srv_ok b s"
  "srv_ok b (s\<lparr>client_cs := x3\<rparr>) = srv_ok b s" "srv_ok b (s\<lparr>max_slots := x4\<rparr>) = srv_ok b s"
  "srv_ok b (s\<lparr>user_locker := x5\<rparr>) = srv_ok b s" "srv_ok b (s\<lparr>locker_time := x6\<rparr>) = srv_ok b s"
  "srv_ok b (s\<lparr>health_ticks := x7\<rparr>) = srv_ok b s" "srv_ok b (s\<lparr>cleanup_done := x8\<rparr>) = srv_ok b s"
  "srv_ok b (s\<lparr>cleanup_start := x9\<rparr>) = srv_ok b s" "srv_ok b (s\<lparr>cpu := x10\<rparr>) = srv_ok b s"
  "srv_ok b (s\<lparr>last_errorlevel := x11\<rparr>) = srv_ok b s"
  by (rule srv_ok_view, simp add: view_def)+

lemma send_list_ok [simp]: "srv_ok b (send_list_line sock l s) = srv_ok b s"
  by (simp add: send_list_line_def)

section \<open>User requests\<close>

lemma send_list_view [simp]: "view (send_list_line sock l s) = view s"
  by (simp add: send_list_line_def)

lemma status_all_view [simp]: "view (s_user_status_all sock s) = view s"
proof -
  have "view (foldl (\<lambda>s u. if umax_slots u = 0 \<and> busy u = 0 then s else send_list_line sock (user_status_line u) s) s us) = view s" for s us
    by (induction us arbitrary: s) simp_all
  then show ?thesis by (simp add: s_user_status_all_def)
qed

lemma status_view: "s_user_status sock u s = Inr s' \<Longrightarrow> view s' = view s"
  by (auto simp: s_user_status_def rbind_eq_Inr)

lemma limit_update_view:
  assumes "upd_user u f s = Inr s'" "\<And>x. busy (f x) = busy x \<and> njobs (f x) = njobs x"
  shows "view s' = view s" "active_jobs s' = active_jobs s" "length (users_vec s') = length (users_vec s)"
  using assms by (auto simp: upd_user_eq view_def map_update list_update_same_conv)

lemma resume_step_ok: "resume_step u i s = Inr s' \<Longrightarrow> srv_ok b s \<Longrightarrow> srv_ok b s'"
proof -
  assume r: "resume_step u i s = Inr s'" and ok: "srv_ok b s"
  show "srv_ok b s'"
  proof (cases "s' = s")
    case False
    then have "on_active i (\<lambda>p s. rbind (config_running p s) (\<lambda>(err, p', s'). Inr (p', s'))) s = Inr s'"
      using r by (auto simp: resume_step_def Let_def split: if_splits)
    then show ?thesis
    proof (rule srv_ok_on_active [OF _ ok])
      fix p p' s1
      assume jok: "job_ok b (length (users_vec s)) p"
        and c: "rbind (config_running p s) (\<lambda>(err, p', s'). Inr (p', s')) = Inr (p', s1)"
      then obtain err where "config_running p s = Inr (err, p', s1)" by (auto simp: rbind_eq_Inr)
      from config_running_moves [OF this jok] show "moves b p s p' s1 \<and> job_ok b (length (users_vec s)) p'"
        using moves_exact by blast
    qed
  qed (use ok in simp)
qed

lemma s_resume_user_ok:
  assumes "s_resume_user sock uo s = Inr s'" "srv_ok b s"
  shows "srv_ok b s'"
proof -
  obtain s1 s2 l where u: "upd_user uo (\<lambda>u. u\<lparr>umax_slots := \<bar>umax_slots u\<bar>, locked := 0\<rparr>) s = Inr s1"
    and r: "rfold (resume_step (the uo)) [0..<length (active_jobs s1)] s1 = Inr s2"
    and s': "s' = send_list_line sock l s2"
    using assms(1) unfolding s_resume_user_def rbind_eq_Inr by blast
  have "srv_ok b s1" using srv_ok_view [OF limit_update_view(1) [OF u]] assms(2) by simp
  then have "srv_ok b s2" by (rule rfold_keeps [OF r]) (rule resume_step_ok)
  then show ?thesis using srv_ok_view [of s' s2] by (simp add: s')
qed

lemma pause_moves:
  assumes "rbind (safe_pause_job p s) (\<lambda>(p', s'). Inr (p'\<lparr>state := PAUSE\<rparr>, s')) = Inr (p2, s2)"
    "job_ok b (length (users_vec s)) p"
  shows "moves b p s p2 s2 \<and> job_ok b (length (users_vec s)) p2"
proof -
  obtain p' where c: "safe_pause_job p s = Inr (p', s2)" and p2: "p2 = p'\<lparr>state := PAUSE\<rparr>"
    using assms(1) by (auto simp: rbind_eq_Inr)
  have m: "moves b p s p2 s2" "num_allocated p2 = 0"
    using safe_pause_job_moves [OF c assms(2), of PAUSE] p2 by auto
  then show ?thesis using job_ok_parked [OF m(1) assms(2) m(2)] p2 by (simp add: live_def)
qed

lemma suspend_step_ok: "suspend_step sock u i s = Inr s' \<Longrightarrow> srv_ok b s \<Longrightarrow> srv_ok b s'"
proof -
  assume r: "suspend_step sock u i s = Inr s'" and ok: "srv_ok b s"
  consider "view s' = view s"
    | "on_active i (\<lambda>p s. rbind (safe_pause_job p s) (\<lambda>(p', s'). Inr (p'\<lparr>state := PAUSE\<rparr>, s'))) s = Inr s'"
    using r by (auto simp: suspend_step_def Let_def split: if_splits)
  then show "srv_ok b s'"
    by cases (use ok srv_ok_view in blast, rule srv_ok_on_active [OF _ ok], auto dest: pause_moves)
qed

lemma s_suspend_user_ok:
  assumes "s_suspend_user sock uo s = Inr s'" "srv_ok b s"
  shows "srv_ok b s'"
proof -
  obtain s1 s2 l usage where u: "upd_user uo (\<lambda>u. u\<lparr>umax_slots := - \<bar>umax_slots u\<bar>, locked := 1\<rparr>) s = Inr s1"
    and r: "rfold (suspend_step sock (the uo)) [0..<length (active_jobs s1)] s1 = Inr s2"
    and c: "s_update_slots_usage (send_list_line sock l s2) = Inr (usage, s')"
    using assms(1) unfolding s_suspend_user_def rbind_eq_Inr by (force split: prod.splits)
  have "srv_ok b s1" using srv_ok_view [OF limit_update_view(1) [OF u]] assms(2) by simp
  then have "srv_ok b s2" by (rule rfold_keeps [OF r]) (rule suspend_step_ok)
  then show ?thesis
    using s_update_slots_usage_inv [OF c] srv_ok_view [OF send_list_view [of sock _ s2]] by metis
qed

lemma s_suspend_user_all_ok: "s_suspend_user_all sock s = Inr s' \<Longrightarrow> srv_ok b s \<Longrightarrow> srv_ok b s'"
  unfolding s_suspend_user_all_def by (erule rfold_keeps) (auto intro: s_suspend_user_ok)

lemma s_resume_user_all_ok: "s_resume_user_all sock s = Inr s' \<Longrightarrow> srv_ok b s \<Longrightarrow> srv_ok b s'"
  unfolding s_resume_user_all_def by (erule rfold_keeps) (auto intro: s_resume_user_ok)

lemma status_ok: "srv_ok b s \<Longrightarrow> res_ok b (s_user_status sock u s)"
  using srv_ok_view [OF status_view] by (blast intro: res_okI)

lemma status_all_ok [simp]: "srv_ok b (s_user_status_all sock s) = srv_ok b s"
  by (rule srv_ok_view) simp

lemma suspend_res: "srv_ok b s \<Longrightarrow> res_ok b (s_suspend_user sock u s)"
  by (rule res_okI) (erule s_suspend_user_ok)

lemma suspend_all_res: "srv_ok b s \<Longrightarrow> res_ok b (s_suspend_user_all sock s)"
  by (rule res_okI) (erule s_suspend_user_all_ok)

lemma handle_suspend_ok: "srv_ok b s \<Longrightarrow> res_ok b (handle_suspend sock u t s)"
  unfolding handle_suspend_def by (auto intro!: res_ok_bind status_ok suspend_res suspend_all_res)

lemma resume_res: "srv_ok b s \<Longrightarrow> res_ok b (s_resume_user sock u s)"
  by (rule res_okI) (erule s_resume_user_ok)

lemma resume_all_res: "srv_ok b s \<Longrightarrow> res_ok b (s_resume_user_all sock s)"
  by (rule res_okI) (erule s_resume_user_all_ok)

lemma handle_resume_ok: "srv_ok b s \<Longrightarrow> res_ok b (handle_resume sock u t s)"
  unfolding handle_resume_def by (auto intro!: res_ok_bind status_ok resume_res resume_all_res)

lemma queue_state_moves:
  assumes "upd_user (user p) (\<lambda>u. u\<lparr>queue := f u\<rparr>) s = Inr s1" "s' = emit ev s1"
    "state p \<noteq> RUNNING" "st \<noteq> RUNNING"
  shows "moves b p s (p\<lparr>state := st\<rparr>) s'"
proof -
  have "core s1 = core s" using upd_user_core [OF assms(1)] by (simp add: user_id_def)
  then show ?thesis
    using assms by (auto simp: upd_user_eq moves_def delta_def weight_defs nth_list_update)
qed

lemma relabel_ok:
  "job_ok b n p \<Longrightarrow> state p \<noteq> RUNNING \<Longrightarrow> st = LOCKED \<or> st = QUEUED \<Longrightarrow> job_ok b n (p\<lparr>state := st\<rparr>)"
  by (auto simp: job_ok_def live_def)

lemma lock_queue_moves:
  assumes "s_lock_queue p s = Inr (p', s')" "job_ok b (length (users_vec s)) p"
  shows "moves b p s p' s' \<and> job_ok b (length (users_vec s)) p'"
proof (cases "state p = QUEUED")
  case True
  then obtain s1 where "upd_user (user p) (\<lambda>u. u\<lparr>queue := queue u - 1\<rparr>) s = Inr s1" "p' = p\<lparr>state := LOCKED\<rparr>"
    "s' = emit (Db (Set_state (jobid p) LOCKED)) s1"
    using assms(1) by (auto simp: s_lock_queue_def rbind_eq_Inr)
  then show ?thesis using queue_state_moves relabel_ok [OF assms(2)] True by simp
qed (use assms in \<open>auto simp: s_lock_queue_def intro: moves_same\<close>)

lemma unlock_queue_moves:
  assumes "s_unlock_queue p s = Inr (p', s')" "job_ok b (length (users_vec s)) p"
  shows "moves b p s p' s' \<and> job_ok b (length (users_vec s)) p'"
proof (cases "state p = LOCKED")
  case True
  then obtain s1 where "upd_user (user p) (\<lambda>u. u\<lparr>queue := queue u + 1\<rparr>) s = Inr s1" "p' = p\<lparr>state := QUEUED\<rparr>"
    "s' = emit (Db (Set_state (jobid p) QUEUED)) s1"
    using assms(1) by (auto simp: s_unlock_queue_def rbind_eq_Inr)
  then show ?thesis using queue_state_moves relabel_ok [OF assms(2)] True by simp
qed (use assms in \<open>auto simp: s_unlock_queue_def intro: moves_same\<close>)

lemma send_list_same [simp]: "same_counters s (send_list_line sock l s') = same_counters s s'"
  by (simp add: send_list_line_def)

lemma moves_send: "moves b p s p' s1 \<Longrightarrow> moves b p s p' (send_list_line sock l s1)"
  by (erule moves_same_right) simp

lemma hold_body_moves:
  assumes "hold_body sock jid uo u p s = Inr (p', s')" "job_ok b (length (users_vec s)) p"
  shows "moves b p s p' s' \<and> job_ok b (length (users_vec s)) p'"
proof -
  consider "same_job p p'" "same_counters s s'"
    | l s1 where "s_lock_queue p s = Inr (p', s1)" "s' = send_list_line sock l s1"
    | l s1 where "rbind (safe_pause_job p s) (\<lambda>(p', s'). Inr (p'\<lparr>state := PAUSE\<rparr>, s')) = Inr (p', s1)" "s' = send_list_line sock l s1"
    using assms(1)
    by (auto simp: hold_body_def Let_def rbind_eq_Inr update_field_int64_def same_job_def split: if_splits)
  then show ?thesis
  proof cases
    case 1
    then show ?thesis using same_job_moves same_job_ok assms(2) by blast
  next
    case 2
    then show ?thesis using lock_queue_moves [OF _ assms(2)] moves_send by blast
  next
    case 3
    then show ?thesis using pause_moves [OF _ assms(2)] moves_send by blast
  qed
qed

lemma cont_body_moves:
  assumes "cont_body sock jid uo u p s = Inr (p', s')" "job_ok b (length (users_vec s)) p"
  shows "moves b p s p' s' \<and> job_ok b (length (users_vec s)) p'"
proof -
  let ?p = "p\<lparr>wall_time := i64abs (wall_time p)\<rparr>"
  consider "same_job p p'" "same_counters s s'"
    | l s1 where "s_unlock_queue p s = Inr (p', s1)" "s' = send_list_line sock l s1"
    | l err s1 where "config_running ?p s = Inr (err, p', s1)" "s' = send_list_line sock l s1"
    using assms(1)
    by (auto simp: cont_body_def Let_def rbind_eq_Inr update_field_int64_def same_job_def split: if_splits)
  then show ?thesis
  proof cases
    case 1
    then show ?thesis using same_job_moves same_job_ok assms(2) by blast
  next
    case 2
    then show ?thesis using unlock_queue_moves [OF _ assms(2)] moves_send by blast
  next
    case 3
    have sj: "same_job p ?p" by (simp add: same_job_def)
    then have "job_ok b (length (users_vec s)) ?p" using same_job_ok assms(2) by blast
    from config_running_moves [OF 3(1) this] have "moves b ?p s p' s1" "job_ok b (length (users_vec s)) p'"
      using moves_exact by blast+
    then show ?thesis
      using moves_trans [OF same_job_moves [OF same_counters_refl sj]] moves_send 3(2) by blast
  qed
qed

lemma s_hold_job_ok: "s_hold_job sock jid uo s = Inr s' \<Longrightarrow> srv_ok b s \<Longrightarrow> srv_ok b s'"
proof -
  assume r: "s_hold_job sock jid uo s = Inr s'" and ok: "srv_ok b s"
  consider "view s' = view s" | i u where "on_active i (hold_body sock jid uo u) s = Inr s'"
    using r by (auto simp: s_hold_job_def rbind_eq_Inr split: if_splits option.splits)
  then show "srv_ok b s'"
    by cases (use ok srv_ok_view in blast, rule srv_ok_on_active [OF _ ok], auto dest: hold_body_moves)
qed

lemma s_cont_job_ok: "s_cont_job sock jid uo s = Inr s' \<Longrightarrow> srv_ok b s \<Longrightarrow> srv_ok b s'"
proof -
  assume r: "s_cont_job sock jid uo s = Inr s'" and ok: "srv_ok b s"
  obtain usage s1 where s1: "s_update_slots_usage s = Inr (usage, s1)"
    and c: "view s' = view s1 \<or> (\<exists>i u. on_active i (cont_body sock jid uo u) s1 = Inr s')"
    using r by (auto simp: s_cont_job_def rbind_eq_Inr split: if_splits option.splits)
  have ok1: "srv_ok b s1" using s_update_slots_usage_inv [OF s1 ok] .
  from c show "srv_ok b s'"
  proof
    assume "view s' = view s1"
    then show ?thesis using ok1 srv_ok_view by blast
  next
    assume "\<exists>i u. on_active i (cont_body sock jid uo u) s1 = Inr s'"
    then obtain i u where "on_active i (cont_body sock jid uo u) s1 = Inr s'" by blast
    then show ?thesis by (rule srv_ok_on_active [OF _ ok1]) (auto dest: cont_body_moves)
  qed
qed

lemma srv_ok_move_back:
  assumes "srv_ok b (set_active i p s)" "i < length (active_jobs s)"
  shows "srv_ok b (push_active p (remove_active i s))"
proof -
  have "mset (remove_nth i (active_jobs s) @ [p]) = mset ((active_jobs s)[i := p])"
    using mset_remove_nth [of i "(active_jobs s)[i := p]"] assms(2) by (simp add: remove_nth_update)
  then show ?thesis
    using assms(1) srv_ok_perm [of "push_active p (remove_active i s)" "set_active i p s"]
    by (simp add: push_active_def remove_active_def set_active_def)
qed

lemma s_requeue_job_ok:
  assumes "s_requeue_job sock jid uo s = Inr s'" "srv_ok b s"
  shows "srv_ok b s'"
proof (cases "view s' = view s")
  case False
  then obtain i p' s1 l ev where i: "findjob_idx jid s = Some i"
    and r: "s_relegate_job (active_jobs s ! i) s = Inr (p', s1)"
    and s': "s' = send_list_line sock l (emit ev (push_active p' (remove_active i s1)))"
    using assms(1)
    by (auto simp: s_requeue_job_def rbind_eq_Inr Let_def split: if_splits option.splits)
  note i' = findjob_idx_bound [OF i]
  have jok: "job_ok b (length (users_vec s)) (active_jobs s ! i)" using job_okD [OF assms(2)] i' by blast
  note m = s_relegate_job_moves [OF r jok]
  have "srv_ok b (set_active i p' s1)" using srv_ok_set_active [OF assms(2)] i' m by blast
  moreover have "i < length (active_jobs s1)" using moves_fields(1) m i' by metis
  ultimately have "srv_ok b (push_active p' (remove_active i s1))" using srv_ok_move_back by blast
  then show ?thesis using srv_ok_view [of s' "push_active p' (remove_active i s1)"] by (simp add: s')
qed (use assms srv_ok_view in blast)

section \<open>Refreshing the user table\<close>

text \<open>Users are only appended, with empty counters.\<close>

definition users_ext :: "srv \<Rightarrow> srv \<Rightarrow> bool" where
  "users_ext s s' \<longleftrightarrow> active_jobs s' = active_jobs s \<and> busy_slots s' = busy_slots s \<and> jobids s' = jobids s
     \<and> (\<exists>k. map (\<lambda>u. (busy u, njobs u)) (users_vec s') =
          map (\<lambda>u. (busy u, njobs u)) (users_vec s) @ replicate k (0, 0))"

lemma users_ext_refl: "users_ext s s"
  by (auto simp: users_ext_def intro!: exI [of _ 0])

lemma users_ext_trans: "users_ext s s1 \<Longrightarrow> users_ext s1 s2 \<Longrightarrow> users_ext s s2"
  by (auto simp: users_ext_def simp flip: replicate_add)

lemma read_user_line_ext: "users_ext s (read_user_line s l)"
proof (cases l)
  case (Slots n)
  then show ?thesis
    using users_ext_refl by (auto simp: read_user_line_def s_set_max_slots_def Let_def users_ext_def intro!: exI [of _ 0])
next
  case (Entry nm slots)
  show ?thesis
  proof (cases "passwd (world s) nm")
    case None
    then show ?thesis using Entry users_ext_refl by (simp add: read_user_line_def)
  next
    case (Some k)
    show ?thesis
    proof (cases "find_user_by_uid k s")
      case None
      then show ?thesis
        using Entry Some users_ext_refl
        by (auto simp: read_user_line_def users_ext_def new_user_def intro!: exI [of _ 1])
    next
      case (Some i)
      then have "i < length (users_vec s)" using find_idx_SomeD [of uid k "users_vec s" i] by (simp add: find_user_by_uid_def)
      then show ?thesis
        using Entry Some \<open>passwd (world s) nm = Some k\<close>
        by (auto simp: read_user_line_def users_ext_def map_update list_update_same_conv intro!: exI [of _ 0])
    qed
  qed
qed (use users_ext_refl in \<open>simp_all add: read_user_line_def\<close>)

lemma read_user_file_ext: "read_user_file s = Inr s' \<Longrightarrow> users_ext s s'"
proof -
  have "users_ext s (foldl read_user_line s ls)" for ls
    by (induction ls arbitrary: s) (use users_ext_refl users_ext_trans read_user_line_ext in \<open>auto, blast\<close>)
  then show "read_user_file s = Inr s' \<Longrightarrow> users_ext s s'"
    by (auto simp: read_user_file_def split: option.splits)
qed

lemma acct_users_ext:
  assumes "acct b s" "users_ext s s'"
  shows "acct b s'"
proof -
  obtain k where j: "active_jobs s' = active_jobs s" and bs: "busy_slots s' = busy_slots s"
    and k: "map (\<lambda>u. (busy u, njobs u)) (users_vec s') = map (\<lambda>u. (busy u, njobs u)) (users_vec s) @ replicate k (0, 0)"
    using assms(2) by (auto simp: users_ext_def)
  have len: "length (users_vec s') = length (users_vec s) + k" using arg_cong [OF k, of length] by simp
  have new: "(busy (users_vec s' ! u), njobs (users_vec s' ! u)) =
      (if u < length (users_vec s) then (busy (users_vec s ! u), njobs (users_vec s ! u)) else (0, 0))"
    if "u < length (users_vec s')" for u
    using arg_cong [OF k, of "\<lambda>xs. xs ! u"] that len by (auto simp: nth_append)
  have none: "isum (user_slots u) (active_jobs s) = 0" "isum (user_runs u) (active_jobs s) = 0"
    if "length (users_vec s) \<le> u" for u
  proof -
    have "user p \<noteq> Some u" if "p \<in> set (active_jobs s)" for p
      using assms(1) that \<open>length (users_vec s) \<le> u\<close> by (fastforce simp: acct_def job_ok_def)
    then show "isum (user_slots u) (active_jobs s) = 0" "isum (user_runs u) (active_jobs s) = 0"
      by (auto simp: weight_defs intro!: sum_list_0 cong: map_cong)
  qed
  have jobs: "\<forall>p \<in> set (active_jobs s). job_ok b (length (users_vec s')) p"
    using assms(1) len by (fastforce simp: acct_def job_ok_def)
  have "at_least b (busy (users_vec s' ! u)) (isum (user_slots u) (active_jobs s))
      \<and> at_least b (njobs (users_vec s' ! u)) (isum (user_runs u) (active_jobs s))"
    if "u < length (users_vec s')" for u
    using new [OF that] none [of u] assms(1) by (cases "u < length (users_vec s)") (auto simp: acct_def at_least_def)
  then show ?thesis using jobs assms(1) by (auto simp: acct_def j bs)
qed

lemma srv_ok_users_ext: "srv_ok b s \<Longrightarrow> users_ext s s' \<Longrightarrow> srv_ok b s'"
  using acct_users_ext by (auto simp: srv_ok_def ids_ok_def users_ext_def)

text \<open>A rejected refresh leaves every user with its limit and its counters.\<close>

lemma limits_keep_counters:
  fixes os :: "(int \<times> int) list"
  shows "length us = length os \<Longrightarrow> map (\<lambda>u. (busy u, njobs u)) (map (\<lambda>(u, o'). u\<lparr>umax_slots := snd o'\<rparr>) (zip us os))
    = map (\<lambda>u. (busy u, njobs u)) us"
  by (induction us os rule: list_induct2) auto

lemma rollback_view:
  assumes "users_ext s s'"
  shows "view (rollback_users (map (\<lambda>u. (uid u, umax_slots u)) (users_vec s)) s') = view s"
proof -
  obtain k where k: "map (\<lambda>u. (busy u, njobs u)) (users_vec s') = map (\<lambda>u. (busy u, njobs u)) (users_vec s) @ replicate k (0, 0)"
    using assms by (auto simp: users_ext_def)
  have len: "length (users_vec s) \<le> length (users_vec s')" using arg_cong [OF k, of length] by simp
  have "map (\<lambda>u. (busy u, njobs u)) (take (length (users_vec s)) (users_vec s')) =
      map (\<lambda>u. (busy u, njobs u)) (users_vec s)"
    using arg_cong [OF k, of "take (length (users_vec s))"] by (simp add: take_map)
  then have "map (\<lambda>u. (busy u, njobs u)) (users_vec (rollback_users (map (\<lambda>u. (uid u, umax_slots u)) (users_vec s)) s'))
      = map (\<lambda>u. (busy u, njobs u)) (users_vec s)"
    using len limits_keep_counters [of "take (length (users_vec s)) (users_vec s')"
        "map (\<lambda>u. (uid u, umax_slots u)) (users_vec s)"]
    by (simp add: rollback_users_def min_def)
  then show ?thesis using assms by (simp add: view_def users_ext_def rollback_users_def)
qed

lemma s_refresh_users_ok: "srv_ok b s \<Longrightarrow> res_ok b (s_refresh_users sock s)"
  unfolding s_refresh_users_def Let_def
proof (rule res_ok_any)
  fix s1
  let ?olds = "map (\<lambda>u. (uid u, umax_slots u)) (users_vec s)"
  assume ok: "srv_ok b s" and r: "read_user_file s = Inr s1"
  note ext = read_user_file_ext [OF r]
  show "res_ok b (case refresh_check ?olds s1 of
          Some l \<Rightarrow> Inr (send_list_line sock l (rollback_users ?olds s1))
        | None \<Rightarrow> rbind (s_update_slots_usage (send_list_line sock (Line ''refresh the list success!'' []) s1))
                    (\<lambda>(usage, s2). Inr s2))"
  proof (cases "refresh_check ?olds s1")
    case None
    then show ?thesis
      using s_update_slots_usage_inv srv_ok_users_ext [OF ok ext] send_list_ok
      by (auto intro!: res_ok_any)
  next
    case (Some l)
    then show ?thesis using ok srv_ok_view [OF rollback_view [OF ext]] by simp
  qed
qed

section \<open>The server lock\<close>

lemma s_lock_server_ok: "srv_ok b s \<Longrightarrow> res_ok b (s_lock_server sock uo s)"
  unfolding s_lock_server_def
  by (auto intro!: res_ok_any split: option.splits) (metis s_update_slots_usage_inv)+

lemma s_unlock_server_ok: "srv_ok b s \<Longrightarrow> res_ok b (s_unlock_server sock uo s)"
  unfolding s_unlock_server_def by (auto intro!: res_ok_any)

end
