(* ===== verification/Submit_Inv.thy ===== *)
theory Submit_Inv
  imports Request_Inv
begin

text \<open>
  The server invariant across the life of a job: submission (\<open>s_newjob\<close>), the runner's
  answers, reconnection, completion and removal. A submitted job must ask for at least one
  slot: \<open>free_cores\<close> takes a job without slots for one that holds none and would not count
  it down.
\<close>

section \<open>States with the same accounting\<close>

definition key_view :: "srv \<Rightarrow> (int \<times> nat option \<times> int \<times> jobstate \<times> int) list \<times> (int \<times> int) list \<times> int \<times> int" where
  "key_view s = (map acct_key (active_jobs s), map (\<lambda>u. (busy u, njobs u)) (users_vec s), busy_slots s, jobids s)"

lemma srv_ok_key_view: "key_view s' = key_view s \<Longrightarrow> srv_ok b s' = srv_ok b s"
  by (rule srv_ok_key) (simp_all add: key_view_def)

lemma view_key: "view s' = view s \<Longrightarrow> key_view s' = key_view s"
  by (simp add: view_def key_view_def)

lemma key_view_emit [simp]: "key_view (emit ev s) = key_view s"
  by (simp add: key_view_def)

lemma key_view_set:
  assumes "i < length (active_jobs s) \<Longrightarrow> same_job (active_jobs s ! i) p"
  shows "key_view (set_active i p s) = key_view s"
proof (cases "i < length (active_jobs s)")
  case True
  then show ?thesis
    using assms by (simp add: key_view_def set_active_def map_update list_update_same_conv same_job_key)
qed (simp add: key_view_def set_active_def list_update_beyond)

lemma key_view_nth:
  assumes "key_view s' = key_view s" "i < length (active_jobs s)"
  shows "i < length (active_jobs s')" "acct_key (active_jobs s' ! i) = acct_key (active_jobs s ! i)"
proof -
  have m: "map acct_key (active_jobs s') = map acct_key (active_jobs s)" using assms(1) by (simp add: key_view_def)
  show l: "i < length (active_jobs s')" using arg_cong [OF m, of length] assms(2) by simp
  show "acct_key (active_jobs s' ! i) = acct_key (active_jobs s ! i)"
    using arg_cong [OF m, of "\<lambda>xs. xs ! i"] l assms(2) by simp
qed

section \<open>Submission\<close>

lemma add_dependency_key [simp]: "key_view (add_dependency i d lev s) = key_view s"
  unfolding add_dependency_def Let_def by (rule key_view_set) (simp add: same_job_def)

lemma depend_on_queued_key [simp]: "key_view (depend_on_queued i d s) = key_view s"
  by (auto simp: depend_on_queued_def Let_def same_job_def add_notify_errorlevel_to_def
      intro!: key_view_set split: option.splits)

lemma dep_step_key: "dep_step i d s = Inr s' \<Longrightarrow> key_view s' = key_view s"
  by (auto simp: dep_step_def Let_def split: if_splits option.splits)

lemma deps_key: "rfold (dep_step i) ds s = Inr s' \<Longrightarrow> key_view s' = key_view s"
  by (erule rfold_keeps [where P = "\<lambda>t. key_view t = key_view s"]) (auto dest: dep_step_key)

lemma newjob_wall_time_same: "newjob_wall_time m s p = Inr p' \<Longrightarrow> same_job p p'"
  by (auto simp: newjob_wall_time_def same_job_def rbind_eq_Inr split: if_splits)

lemma newjob_fields_same:
  assumes "newjob_fields m s p = Inr p'"
  shows "same_job p p'"
proof -
  obtain p2 where "newjob_wall_time m s (p\<lparr>store_output := m_store_output m,
      should_keep_finished := m_should_keep_finished m, notify_errorlevel_to := [], depend_on := []\<rparr>) = Inr p2"
    "same_job p2 p'"
    using assms by (auto simp: newjob_fields_def Let_def rbind_eq_Inr same_job_def)
  then show ?thesis using newjob_wall_time_same by (fastforce simp: same_job_def)
qed

lemma newjob_payload_same: "newjob_payload m s p = Inr p' \<Longrightarrow> same_job p p'"
  by (auto simp: newjob_payload_def Let_def rbind_eq_Inr same_job_def split: option.splits)

lemma newjob_enqueue_view:
  assumes "newjob_enqueue i s = Inr s'" "state (active_jobs s ! i) \<noteq> WAIT"
  shows "view s' = view s"
  using assms queue_update_view(1) [of "user (active_jobs s ! i)" "\<lambda>u. queue u + 1"]
  by (fastforce simp: newjob_enqueue_def Let_def insert_DB_def split: if_splits)

text \<open>A job that does not run can be replaced by another that does not run.\<close>

lemma srv_ok_replace_parked:
  assumes "srv_ok b s" "i < length (active_jobs s)" "state (active_jobs s ! i) \<noteq> RUNNING" "state p \<noteq> RUNNING"
    "jobid p = jobid (active_jobs s ! i)" "job_ok b (length (users_vec s)) p"
  shows "srv_ok b (set_active i p s)"
proof -
  have "map jobid ((active_jobs s)[i := p]) = map jobid (active_jobs s)"
    using assms(2,5) by (simp add: map_update list_update_same_conv)
  then have "ids_ok (set_active i p s)"
    using assms(1,2,5) set_update_subset_insert [of "active_jobs s" i p] nth_mem [OF assms(2)]
    by (auto simp: srv_ok_def ids_ok_def set_active_def)
  moreover have "acct b (set_active i p s)"
    using assms set_update_subset_insert [of "active_jobs s" i p]
    by (auto simp: srv_ok_def acct_def set_active_def isum_update weight_defs)
  ultimately show ?thesis by (simp add: srv_ok_def)
qed

text \<open>The slot with its owner is a job of the queue like the others.\<close>

lemma fresh_slot_ok:
  assumes "srv_ok b s" "0 < m_num_slots m" "u < length (users_vec s)"
    "m_jobid m = 0 \<or> findjob_idx (m_jobid m) s = None" "newjob_slot sock m s = (Some i, s2)"
    "m_jobid m \<noteq> 0 \<or> jobids s \<noteq> 0"
  shows "srv_ok b (owned_slot sock m (Some u) i s2)"
proof -
  define jid where "jid = (if m_jobid m \<noteq> 0 then m_jobid m else jobids s)"
  define nxt where "nxt = (if m_jobid m \<noteq> 0 then (if jobids s > m_jobid m then jobids s else m_jobid m + 1) else jobids s + 1)"
  define p where "p = zero_job\<lparr>jobid := jid,
     state := (if count_not_finished_jobs (push_active zero_job s) < max_jobs s then QUEUED else HOLDING_CLIENT)\<rparr>"
  have i: "i = length (active_jobs s)" and s2: "s2 = (push_active p s)\<lparr>jobids := nxt\<rparr>"
    using assms(4,5)
    by (auto simp: newjob_slot_def Let_def p_def jid_def nxt_def push_active_def set_active_def split: if_splits)
  have fresh: "jid \<notin> jobid ` set (active_jobs s)"
    using assms(1,4) find_idx_None [of jobid "m_jobid m" "active_jobs s"]
    by (auto simp: jid_def findjob_idx_def srv_ok_def ids_ok_def)
  have "jid < nxt" "jid \<noteq> 0" "jobids s \<le> nxt"
    using assms(6) by (auto simp: jid_def nxt_def)
  have ok: "srv_ok b (s\<lparr>jobids := nxt\<rparr>)"
    using assms(1) \<open>jobids s \<le> nxt\<close> by (fastforce simp: srv_ok_def acct_def ids_ok_def)
  have "srv_ok b (push_active (newjob_owner sock (Some u) m p) (s\<lparr>jobids := nxt\<rparr>))"
    by (rule srv_ok_push [OF ok])
      (use assms(2,3) fresh \<open>jid < nxt\<close> \<open>jid \<noteq> 0\<close> in
        \<open>auto simp: newjob_owner_def p_def job_ok_def live_def zero_job_def\<close>)
  moreover have "owned_slot sock m (Some u) i s2 = push_active (newjob_owner sock (Some u) m p) (s\<lparr>jobids := nxt\<rparr>)"
    by (simp add: owned_slot_def i s2 push_active_def set_active_def)
  ultimately show ?thesis by simp
qed

lemma reused_slot_ok:
  assumes "srv_ok b s" "0 < m_num_slots m" "u < length (users_vec s)"
    "findjob_idx (m_jobid m) s = Some i" "state (active_jobs s ! i) \<in> {DELINK, WAIT, LOCKED}"
  shows "srv_ok b (owned_slot sock m (Some u) i s)"
proof -
  note i = findjob_idx_bound [OF assms(4)]
  have jok: "job_ok b (length (users_vec s)) (active_jobs s ! i)" using job_okD [OF assms(1)] i by blast
  moreover have "job_ok b (length (users_vec s)) (newjob_owner sock (Some u) m (active_jobs s ! i))"
    using jok assms(2,3,5) by (auto simp: job_ok_def newjob_owner_def)
  ultimately show ?thesis
    unfolding owned_slot_def using srv_ok_replace_parked [OF assms(1)] i assms(5) by (auto simp: newjob_owner_def)
qed

lemma newjob_slot_ok:
  assumes "srv_ok b s" "0 < m_num_slots m" "newjob_slot sock m s = (Some i, s2)" "u < length (users_vec s2)"
  shows "srv_ok b (owned_slot sock m (Some u) i s2)" "i < length (active_jobs s2)"
proof -
  have pos: "jobids s \<noteq> 0" using assms(1) by (simp add: srv_ok_def ids_ok_def)
  show "srv_ok b (owned_slot sock m (Some u) i s2)"
  proof (cases "m_jobid m = 0 \<or> findjob_idx (m_jobid m) s = None")
    case True
    then have "users_vec s2 = users_vec s"
      using assms(3) by (auto simp: newjob_slot_def Let_def push_active_def set_active_def split: if_splits)
    then show ?thesis using fresh_slot_ok [OF assms(1,2) _ True assms(3)] pos assms(4) by simp
  next
    case False
    then show ?thesis
      using reused_slot_ok [OF assms(1,2)] assms(3,4) by (auto simp: newjob_slot_def split: if_splits)
  qed
  show "i < length (active_jobs s2)"
    using assms(3) findjob_idx_bound
    by (fastforce simp: newjob_slot_def Let_def push_active_def set_active_def split: if_splits option.splits)
qed

lemma newjob_slot_parked:
  assumes "newjob_slot sock m s = (Some i, s2)"
  shows "state (active_jobs (owned_slot sock m uo i s2) ! i) \<noteq> RUNNING"
proof -
  have "i < length (active_jobs s2) \<and> state (active_jobs s2 ! i) \<noteq> RUNNING"
    using assms findjob_idx_bound
    by (fastforce simp: newjob_slot_def Let_def push_active_def set_active_def split: if_splits option.splits)
  then show ?thesis by (simp add: owned_slot_def set_active_def newjob_owner_def)
qed

lemma newjob_refused_ok: "srv_ok b s \<Longrightarrow> newjob_slot sock m s = (None, s2) \<Longrightarrow> srv_ok b s2"
  by (auto simp: newjob_slot_def Let_def split: option.splits if_splits)

lemma newjob_rest_key:
  assumes "newjob_fields m s3 (active_jobs s3 ! i) = Inr p3" "rfold (dep_step i) ds (set_active i p3 s3) = Inr s4"
    "newjob_payload m s4 (active_jobs s4 ! i) = Inr p5"
  shows "key_view (set_active i p5 s4) = key_view s3"
proof -
  have "key_view s4 = key_view s3"
    using deps_key [OF assms(2)] key_view_set [of i s3 p3] newjob_fields_same [OF assms(1)] by simp
  moreover have "key_view (set_active i p5 s4) = key_view s4"
    using newjob_payload_same [OF assms(3)] by (rule key_view_set)
  ultimately show ?thesis by simp
qed

text \<open>A job is accepted, with its id, or the request is refused and leaves no job behind.\<close>

lemma newjob_fill_ok:
  assumes "newjob_fill sock m i u s = Inr (jid, s')" "srv_ok b s" "i < length (active_jobs s)"
    "state (active_jobs s ! i) \<noteq> RUNNING"
  shows "srv_ok b s'"
proof (cases "newjob_rejected u (active_jobs s ! i)")
  case True
  then show ?thesis
    using acct_remove_parked [of b "send_list_line sock l s" i for l] assms
    by (auto simp: newjob_fill_def Let_def send_list_line_def)
next
  case False
  then obtain p3 s4 p5 s6 where fl: "newjob_fields m s (active_jobs s ! i) = Inr p3"
    and d: "rfold (dep_step i) (m_depend_on m) (set_active i p3 s) = Inr s4"
    and pl: "newjob_payload m s4 (active_jobs s4 ! i) = Inr p5"
    and e: "newjob_enqueue i (set_active i p5 s4) = Inr s6" and s': "s' = emit (Db (Set_jobids (jobids s6))) s6"
    using assms(1) by (auto simp: newjob_fill_def Let_def rbind_eq_Inr)
  note kv = newjob_rest_key [OF fl d pl]
  have "state (active_jobs (set_active i p5 s4) ! i) = state (active_jobs s ! i)"
    using key_view_nth(2) [OF kv assms(3)] by (simp add: acct_key_def)
  then have "state (active_jobs (set_active i p5 s4) ! i) \<noteq> WAIT"
    using job_okD [OF assms(2,3)] by (auto simp: job_ok_def live_def)
  then have "srv_ok b s6"
    using srv_ok_view [OF newjob_enqueue_view [OF e]] srv_ok_key_view [OF kv] assms(2) by simp
  then show ?thesis by (simp add: s')
qed

lemma s_newjob_inv:
  assumes "s_newjob sock m uo s = Inr (jid, s')" "srv_ok b s" "0 < m_num_slots m"
  shows "srv_ok b s'"
proof -
  obtain usage s1 where u: "s_update_slots_usage s = Inr (usage, s1)"
    using assms(1) by (auto simp: s_newjob_def rbind_eq_Inr)
  obtain io s2 where sl: "newjob_slot sock m s1 = (io, s2)" by fastforce
  have ok1: "srv_ok b s1" using s_update_slots_usage_inv [OF u assms(2)] .
  show ?thesis
  proof (cases io)
    case None
    then show ?thesis
      using assms(1) u sl newjob_refused_ok [OF ok1, of sock m s2] by (simp add: s_newjob_def)
  next
    case (Some i)
    then obtain x where x: "the_user uo (owned_slot sock m uo i s2) = Inr x"
      and f: "newjob_fill sock m i x (owned_slot sock m uo i s2) = Inr (jid, s')"
      using assms(1) u sl by (auto simp: s_newjob_def Let_def rbind_eq_Inr)
    from x obtain k where k: "uo = Some k" "k < length (users_vec s2)"
      by (auto simp: the_user_def owned_slot_def set_active_def split: option.splits if_splits)
    note ok3 = newjob_slot_ok [OF ok1 assms(3) sl [unfolded Some] k(2)]
    show ?thesis
      using newjob_fill_ok [OF f] ok3 newjob_slot_parked [OF sl [unfolded Some], of uo] k(1)
      by (simp add: owned_slot_def set_active_def)
  qed
qed

section \<open>Running, ending and reconnecting\<close>

lemma s_process_runjob_ok_inv: "srv_ok b s \<Longrightarrow> res_ok b (s_process_runjob_ok jid oname pd s)"
proof (rule res_okI)
  fix s'
  assume ok: "srv_ok b s" and r: "s_process_runjob_ok jid oname pd s = Inr s'"
  then obtain i where "on_active i (runjob_ok_body oname pd) s = Inr s'"
    by (auto simp: s_process_runjob_ok_def split: option.splits)
  then show "srv_ok b s'"
    by (rule srv_ok_on_active [OF _ ok]) (use runjob_ok_moves same_job_moves same_job_ok in blast)
qed

lemma handle_runjob_ok_inv: "srv_ok b s \<Longrightarrow> res_ok b (handle_runjob_ok i oname pd s)"
  by (auto simp: handle_runjob_ok_def s_process_runjob_ok_inv split: option.splits)

lemma upd_conn_ok [simp]: "srv_ok b (upd_conn i f s) = srv_ok b s"
  by (simp add: upd_conn_def)

lemma handle_endjob_inv: "srv_ok b s \<Longrightarrow> res_ok b (handle_endjob i sock r s)"
  unfolding handle_endjob_def Let_def
  by (intro res_ok_bind) (auto intro: res_okI job_finished_ok simp: srv_ok_view [OF check_notify_view])

lemma handle_reconnect_inv: "srv_ok b s \<Longrightarrow> res_ok b (handle_reconnect i sock u jid cpid s)"
proof (rule res_okI)
  fix s'
  assume ok: "srv_ok b s" and r: "handle_reconnect i sock u jid cpid s = Inr s'"
  show "srv_ok b s'"
  proof (cases "view s' = view s")
    case False
    then obtain k jp where k: "findjob_idx jid s = Some k" and jp: "get_job jid s = Some jp"
      and v: "view s' = view (set_active k
          (jp\<lparr>state := (if state jp = DELINK then RUNNING else state jp), client_socket := sock\<rparr>) s)"
      using r send_runjob_view
      by (fastforce simp: handle_reconnect_def Let_def upd_conn_def drop_old_owner_def set_active_def view_def
          split: option.splits if_splits)
    note k' = findjob_idx_bound [OF k]
    have "jp = active_jobs s ! k" using jp k by (simp add: get_job_def findjob_def)
    moreover have "state (active_jobs s ! k) \<noteq> DELINK"
      using job_okD [OF ok, of k] k' by (auto simp: job_ok_def live_def)
    ultimately show ?thesis
      using srv_ok_view [OF v] srv_ok_set_same [of k s] k' ok by (simp add: same_job_def)
  qed (use ok srv_ok_view in blast)
qed

section \<open>Removal\<close>

lemma retire_removed_view:
  assumes "retire_removed p s = Inr s'" "num_allocated p = 0"
  shows "view s' = view s"
proof (cases "pid p = 0")
  case False
  then obtain p1 p2 s2 p3 s3 s4 where f: "free_cores p1 s = Inr (p2, s2)" "num_allocated p1 = 0"
    and d: "detach_cpus p2 (cgroups_clean_job p2 s2) = Inr (p3, s3)" and g: "cpu_bind_defrag_start s3 = Inr s4"
    and n: "new_finished_job p3 s4 = Inr s'"
    using assms by (auto simp: retire_removed_def Let_def rbind_eq_Inr)
  have "s2 = s" using f by (simp add: free_cores_def)
  then show ?thesis
    using new_finished_view [OF n] same_counters_view [OF defrag_same [OF g]]
      same_counters_view [OF detach_cpus_same(2) [OF d]] same_counters_view [OF clean_same]
    by simp
qed (use assms in \<open>simp add: retire_removed_def\<close>)

lemma removable_parked:
  assumes "remove_refusal jid client s = Inr None" "remove_target jid s = Some (In_active i)" "srv_ok b s"
  shows "i < length (active_jobs s)" "state (active_jobs s ! i) \<noteq> RUNNING" "num_allocated (active_jobs s ! i) = 0"
proof -
  show i: "i < length (active_jobs s)"
    using assms(2) findjob_idx_bound by (auto simp: remove_target_def split: if_splits option.splits)
  show r: "state (active_jobs s ! i) \<noteq> RUNNING"
    using assms(1,2) by (auto simp: remove_refusal_def Let_def job_at_def rbind_eq_Inr split: if_splits)
  show "num_allocated (active_jobs s ! i) = 0" using job_okD [OF assms(3) i] r by (auto simp: job_ok_def)
qed

lemma remove_at_queue_ok:
  assumes "remove_at (In_active i) s = Inr s'" "srv_ok b s" "i < length (active_jobs s)"
    "state (active_jobs s ! i) \<noteq> RUNNING" "num_allocated (active_jobs s ! i) = 0"
  shows "srv_ok b s'"
proof -
  define p where "p = (active_jobs s ! i)\<lparr>state := FINISHED, result := (result (active_jobs s ! i))\<lparr>errorlevel := - 1\<rparr>\<rparr>"
  define s0 where "s0 = set_active i p (delete_DB (jobid p) Jobs s)"
  obtain s2 where c: "check_notify_list (jobid p) (notify_errorlevel p s0) = Inr s2"
    and t: "retire_removed (active_jobs s2 ! i) (remove_active i s2) = Inr s'"
    using assms(1)
    by (auto simp: remove_at_def drop_at_def job_at_def set_job_at_def Let_def rbind_eq_Inr p_def s0_def)
  have s2: "map acct_key (active_jobs s2) = map acct_key ((active_jobs s)[i := p])" "busy_slots s2 = busy_slots s"
    "jobids s2 = jobids s" "map (\<lambda>u. (busy u, njobs u)) (users_vec s2) = map (\<lambda>u. (busy u, njobs u)) (users_vec s)"
    using check_notify_view [OF c] notify_errorlevel_keys [of p s0]
    by (simp_all add: view_def s0_def set_active_def delete_DB_def)
  have "acct_key (active_jobs s2 ! i) = acct_key p"
    using arg_cong [OF s2(1), of "\<lambda>xs. xs ! i"] arg_cong [OF s2(1), of length] assms(3) by simp
  then have v: "view s' = view (remove_active i s2)"
    using retire_removed_view [OF t] assms(5) by (simp add: acct_key_def p_def)
  have "srv_ok b (remove_active i s2) = srv_ok b (remove_active i s)"
  proof (rule srv_ok_key)
    have "map acct_key (remove_nth i (active_jobs s2)) = map acct_key (remove_nth i ((active_jobs s)[i := p]))"
      using s2(1) by (simp flip: remove_nth_map)
    then show "mset (map acct_key (active_jobs (remove_active i s2))) = mset (map acct_key (active_jobs (remove_active i s)))"
      using assms(3) by (simp add: remove_active_def remove_nth_update)
  qed (use s2 in \<open>simp_all add: remove_active_def\<close>)
  then show ?thesis using acct_remove_parked [OF assms(2-4)] srv_ok_view [OF v] by simp
qed

lemma remove_at_finished_ok:
  assumes "remove_at (In_finished i) s = Inr s'" "srv_ok b s"
  shows "srv_ok b s'"
proof -
  define p where "p = (finished_jobs s ! i)\<lparr>state := FINISHED, result := (result (finished_jobs s ! i))\<lparr>errorlevel := - 1\<rparr>\<rparr>"
  define s0 where "s0 = (delete_DB (jobid p) Jobs s)\<lparr>finished_jobs := (finished_jobs s)[i := p]\<rparr>"
  obtain s2 where c: "check_notify_list (jobid p) (notify_errorlevel p s0) = Inr s2"
    and t: "drop_at (In_finished i) (jobid p) (length (finished_jobs (notify_errorlevel p s0))) s2 = Inr s'"
    using assms(1)
    by (auto simp: remove_at_def job_at_def set_job_at_def Let_def rbind_eq_Inr p_def s0_def delete_DB_def)
  have "key_view (notify_errorlevel p s0) = key_view s"
    using notify_errorlevel_keys [of p s0] by (simp add: key_view_def s0_def delete_DB_def)
  then have "srv_ok b s2" using srv_ok_key_view srv_ok_view [OF check_notify_view [OF c]] assms(2) by blast
  then show ?thesis using t by (auto simp: drop_at_def delete_DB_def split: if_splits)
qed

lemma s_remove_job_inv:
  assumes "s_remove_job sock jid client s = Inr (r, s')" "srv_ok b s"
  shows "srv_ok b s'"
proof (cases "view s' = view s")
  case False
  obtain ro where ro: "remove_refusal jid client s = Inr ro"
    using assms(1) False by (auto simp: s_remove_job_def rbind_eq_Inr s_send_removejob_nok_def split: if_splits)
  then have rf: "remove_refusal jid client s = Inr None"
    using assms(1) False by (cases ro) (auto simp: s_remove_job_def s_send_removejob_nok_def split: if_splits)
  then obtain pl s1 where pl: "remove_target jid s = Some pl" and r: "remove_at pl s = Inr s1" and s': "srv_ok b s' = srv_ok b s1"
    using assms(1) False
    by (auto simp: s_remove_job_def rbind_eq_Inr s_send_removejob_nok_def split: if_splits option.splits)
  show ?thesis
    using remove_at_queue_ok [OF _ assms(2)] removable_parked [OF rf _ assms(2)] remove_at_finished_ok [OF _ assms(2)]
      pl r s' by (cases pl) blast+
qed (use assms srv_ok_view in blast)

end
