(* ===== verification/Server_Inv.thy ===== *)
theory Server_Inv
  imports Submit_Inv
begin

text \<open>
  The server invariant across the connection table, the message switch \<open>client_read\<close> and one
  turn of \<open>server_loop\<close>. A connection that is closed while its job runs deletes the job
  without giving its slots back, so the statements that involve a closing connection are
  about the form that counters never under-report; the next recount makes them exact again.
\<close>

section \<open>Queries and reordering\<close>

lemma send_lines_ok [simp]: "srv_ok b (send_lines sock ls s) = srv_ok b s"
  unfolding send_lines_def by (induction ls arbitrary: s) simp_all

lemma move_urgent_ok [simp]: "srv_ok b (s_move_urgent sock jid s) = srv_ok b s"
proof (cases "findjob_idx jid s")
  case (Some i)
  then have "i < length (active_jobs s)" using findjob_idx_bound by blast
  then have "srv_ok b (s\<lparr>active_jobs := insert_nth 0 (active_jobs s ! i) (remove_nth i (active_jobs s))\<rparr>) = srv_ok b s"
    by (intro srv_ok_perm) (simp_all add: insert_nth_def mset_remove_nth)
  then show ?thesis using Some by (simp add: s_move_urgent_def Let_def)
qed (simp add: s_move_urgent_def Let_def)

lemma swap_jobs_ok [simp]: "srv_ok b (s_swap_jobs sock j1 j2 s) = srv_ok b s"
proof -
  have "srv_ok b (s\<lparr>active_jobs := (active_jobs s)[i := active_jobs s ! j, j := active_jobs s ! i]\<rparr>) = srv_ok b s"
    if "findjob_idx j1 s = Some i" "findjob_idx j2 s = Some j" for i j
    using findjob_idx_bound [OF that(1)] findjob_idx_bound [OF that(2)]
    by (intro srv_ok_perm) (simp_all add: mset_swap)
  then show ?thesis by (simp add: s_swap_jobs_def split: option.splits)
qed

lemma sort_jobs_ok [simp]: "srv_ok b (s_sort_jobs s) = srv_ok b s"
  unfolding s_sort_jobs_def by (intro srv_ok_perm) (simp_all add: multiset_partition [of "mset (active_jobs s)" "\<lambda>p. state p = RUNNING", symmetric] mset_filter)

lemma maybe_sort_ok [simp]: "srv_ok b (maybe_sort s) = srv_ok b s"
  by (simp add: maybe_sort_def)

lemma add_wtime_ok [simp]: "srv_ok b (s_add_wtime sock jid w s) = srv_ok b s"
  using findjob_idx_bound
  by (auto simp: s_add_wtime_def Let_def insert_or_replace_DB_def same_job_def srv_ok_set_same split: option.splits)

lemma clear_finished_ok [simp]: "srv_ok b (s_clear_finished u s) = srv_ok b s"
proof -
  have "srv_ok b (foldl (\<lambda>s i. clear_one u i s) s is) = srv_ok b s" for s "is"
    by (induction "is" arbitrary: s) (simp_all add: clear_one_def Let_def delete_DB_def)
  then show ?thesis by (simp add: s_clear_finished_def)
qed

lemma kill_all_ok [simp]: "srv_ok b (s_kill_all_jobs sock u s) = srv_ok b s"
proof -
  have "srv_ok b (foldl (\<lambda>s p. if state p = RUNNING \<and> sees u p then emit (Send sock (RAW_PID (pid p))) s else s) s ps)
      = srv_ok b s" for s ps
    by (induction ps arbitrary: s) simp_all
  then show ?thesis by (simp add: s_kill_all_jobs_def s_count_running_jobs_def)
qed

lemma wait_for_ok [simp]: "srv_ok b (wait_for sock jid p s) = srv_ok b s"
  by (simp add: wait_for_def send_waitjob_ok_def add_to_notify_list_def split: option.splits)

lemma simple_queries_ok [simp]:
  "srv_ok b (s_send_last_id sock s) = srv_ok b s"
  "srv_ok b (s_wait_job sock j s) = srv_ok b s" "srv_ok b (s_count_running_jobs sock u s) = srv_ok b s"
  "srv_ok b (s_set_max_slots sock k s) = srv_ok b s" "srv_ok b (s_get_max_slots sock s) = srv_ok b s"
  "srv_ok b (s_send_state sock j s) = srv_ok b s" "srv_ok b (s_send_version sock s) = srv_ok b s"
  by (simp_all add: s_send_last_id_def no_job_def s_wait_job_def s_count_running_jobs_def
      s_set_max_slots_def s_get_max_slots_def s_send_state_def s_send_version_def Let_def split: option.splits)

lemma freeze_thaw_ok [simp]: "srv_ok b (cgroups_thaw_job p s) = srv_ok b s"
  by (rule srv_ok_view, rule same_counters_view, rule thaw_same)

lemma fallible_queries_ok:
  assumes "srv_ok b s"
  shows "res_ok b (s_send_cmd sock j s)" "res_ok b (s_get_label sock j s)"
    "res_ok b (s_send_output sock j s)" "res_ok b (s_wait_running_job sock j s)"
    "res_ok b (s_job_info sock j s)"
  using assms
  by (auto simp: s_send_cmd_def s_get_label_def s_send_output_def s_wait_running_job_def s_job_info_def no_job_def output_answer_def
      Let_def intro!: res_ok_any split: option.splits)

lemma list_default_ok: "srv_ok b s \<Longrightarrow> res_ok b (list_default sock u s)"
  by (auto simp: list_default_def Let_def intro!: res_ok_any status_ok)

lemma s_list_ok: "srv_ok b s \<Longrightarrow> res_ok b (s_list sock u fmt jid s)"
  unfolding s_list_def using s_update_slots_usage_inv
  by (auto intro!: res_ok_any list_default_ok split: list_format.splits)

lemma srv_ok_world [simp]: "srv_ok b (s\<lparr>world := w\<rparr>) = srv_ok b s" "srv_ok b (s\<lparr>logdir := d\<rparr>) = srv_ok b s"
  by (rule srv_ok_view, simp add: view_def)+

lemma env_requests_ok:
  assumes "srv_ok b s"
  shows "res_ok b (s_get_env sock v s)" "res_ok b (s_set_env v s)" "res_ok b (s_unset_env v s)"
    "srv_ok b (s_get_logdir sock s)" "srv_ok b (s_set_logdir d s)"
  using assms
  by (auto simp: s_get_env_def s_set_env_def s_unset_env_def s_get_logdir_def s_set_logdir_def set_getenv_def
      intro!: res_ok_any split: option.splits list.splits)

section \<open>Connections\<close>

lemma remove_connection_ok: "srv_ok False s \<Longrightarrow> res_ok False (remove_connection i s)"
  unfolding remove_connection_def
  by (auto intro!: res_ok_bind intro: res_okI s_delete_job_ok)

lemma close_connection_ok: "srv_ok False s \<Longrightarrow> res_ok False (close_connection i sock s)"
  by (simp add: close_connection_def remove_connection_ok)

lemma kill_orphan_ok [simp]: "srv_ok b (kill_orphan p s) = srv_ok b s"
  by (simp add: kill_orphan_def Let_def)

text \<open>A job whose client disappeared is finished when it ran, and deleted when it waited.\<close>

lemma orphaned_job_ok: "srv_ok b s \<Longrightarrow> res_ok b (orphaned_job jid s)"
proof -
  assume ok: "srv_ok b s"
  show ?thesis
  proof (cases "findjob jid s")
    case (Some p)
    show ?thesis
    proof (cases "state p = RUNNING \<or> state p = PAUSE")
      case True
      have "res_ok b (rbind (job_finished r jid (kill_orphan p s)) (check_notify_list jid))" for r
      proof (rule res_ok_bind)
        show "res_ok b (job_finished r jid (kill_orphan p s))"
          using ok by (auto intro!: res_okI elim!: job_finished_ok)
      next
        fix s1
        assume "srv_ok b s1"
        then show "res_ok b (check_notify_list jid s1)" using srv_ok_view [OF check_notify_view] by (blast intro: res_okI)
      qed
      then show ?thesis using Some True by (simp add: orphaned_job_def)
    next
      case False
      then have "\<not> job_is_running jid s" using Some by (simp add: job_is_running_def job_is_in_state_def)
      then show ?thesis
        using Some False s_delete_job_ok [OF _ ok] by (auto simp: orphaned_job_def intro: res_okI)
    qed
  qed (use ok in \<open>simp add: orphaned_job_def\<close>)
qed

lemma remove_notification_ok [simp]: "srv_ok b (s_remove_notification sock s) = srv_ok b s"
  by (rule srv_ok_view) simp

lemma clean_after_ok: "srv_ok False s \<Longrightarrow> res_ok False (clean_after_client_disappeared sock i s)"
  unfolding clean_after_client_disappeared_def
  by (auto intro!: res_ok_bind orphaned_job_ok close_connection_ok)

lemma remove_queues_ok: "srv_ok False s \<Longrightarrow> res_ok False (remove_queues_loop u i s)"
proof (induction u i s rule: remove_queues_loop.induct)
  case (1 u i s)
  show ?case
  proof (cases "i < length (client_cs s) \<and> (u = Some 0 \<or> c_user (client_cs s ! i) = u)
      \<and> \<not> job_is_running (c_jobid (client_cs s ! i)) s")
    case True
    then have "res_ok False (rbind (clean_after_client_disappeared (socket (client_cs s ! i)) i s) (remove_queues_loop u i))"
      using 1 res_okD [OF clean_after_ok [OF "1.prems"]] by (intro res_ok_any) blast
    then show ?thesis using True by (subst remove_queues_loop.simps) (simp add: Let_def)
  next
    case False
    then show ?thesis
      using 1 by (subst remove_queues_loop.simps) (auto simp: Let_def)
  qed
qed

lemma drop_connections_ok: "srv_ok b s \<Longrightarrow> res_ok b (drop_connections_of jid n i s)"
  by (induction n arbitrary: i s)
    (auto simp: Let_def remove_connection_def upd_conn_def intro!: res_ok_bind)

section \<open>Handlers\<close>

lemma timeout_unlock_ok: "srv_ok b s \<Longrightarrow> res_ok b (timeout_unlock s)"
  by (auto simp: timeout_unlock_def Let_def intro!: res_ok_any split: option.splits)

lemma check_locker_ok: "s_check_locker u s = (r, s') \<Longrightarrow> srv_ok b s' = srv_ok b s"
  by (auto simp: s_check_locker_def Let_def split: if_splits)

lemma newjob_answers_ok: "srv_ok b s \<Longrightarrow> res_ok b (s_newjob_ok i s)" "srv_ok b s \<Longrightarrow> res_ok b (s_newjob_nok i s)"
  by (simp_all add: s_newjob_ok_def s_newjob_nok_def)

lemma answer_newjob_ok: "srv_ok False s \<Longrightarrow> res_ok False (answer_newjob i sock m jid s)"
  unfolding answer_newjob_def Let_def by (auto intro!: res_ok_bind newjob_answers_ok clean_after_ok)

lemma handle_newjob_ok:
  assumes "srv_ok False s" "0 < m_num_slots m"
  shows "res_ok False (handle_newjob i sock m u s)"
proof -
  obtain r s0 where c: "s_check_locker u s = (r, s0)" by fastforce
  have ok: "srv_ok False s0" using check_locker_ok [OF c] assms(1) by simp
  show ?thesis
    using ok s_newjob_inv [OF _ ok assms(2)] by (auto simp: handle_newjob_def c intro!: res_ok_any answer_newjob_ok)
qed

lemma handle_removejob_ok: "srv_ok b s \<Longrightarrow> res_ok b (handle_removejob sock u jid s)"
  unfolding handle_removejob_def using s_remove_job_inv
  by (auto intro!: res_ok_any drop_connections_ok split: option.splits)

lemma handle_list_ok: "srv_ok False s \<Longrightarrow> res_ok False (handle_list i sock u fmt jid s)"
  unfolding handle_list_def by (intro res_ok_bind s_list_ok close_connection_ok)

lemma handle_kill_all_ok: "srv_ok False s \<Longrightarrow> res_ok False (handle_kill_all i sock u fmt jid s)"
  unfolding handle_kill_all_def s_remove_all_queues_def
  by (intro res_ok_bind remove_queues_ok handle_list_ok) simp_all

lemma job_requests_ok:
  assumes "srv_ok b s"
  shows "res_ok b (s_hold_job sock j u s)" "res_ok b (s_cont_job sock j u s)" "res_ok b (s_requeue_job sock j u s)"
  using s_hold_job_ok [OF _ assms] s_cont_job_ok [OF _ assms] s_requeue_job_ok [OF _ assms]
  by (auto intro: res_okI)

text \<open>Every message but a submission without slots.\<close>

definition valid_msg :: "msg \<Rightarrow> bool" where
  "valid_msg m = (case m of NEWJOB nm \<Rightarrow> 0 < m_num_slots nm | _ \<Rightarrow> True)"

lemmas handler_oks = close_connection_ok s_refresh_users_ok s_lock_server_ok s_unlock_server_ok job_requests_ok
  handle_suspend_ok handle_resume_ok handle_newjob_ok handle_runjob_ok_inv handle_kill_all_ok handle_list_ok
  fallible_queries_ok env_requests_ok handle_reconnect_inv handle_endjob_inv handle_removejob_ok

lemma handle_user_msg_ok:
  assumes "handle_user_msg i sock u m s = Some r" "srv_ok False s" "valid_msg m"
  shows "res_ok False r"
proof -
  have close: "res_ok False (rbind q (close_connection i sock))" if "res_ok False q" for q
    using that close_connection_ok by (rule res_ok_bind)
  show ?thesis
    using assms by (cases m) (auto simp: handle_user_msg_def valid_msg_def Let_def intro!: close handler_oks)
qed

lemma handle_query_msg_ok:
  assumes "handle_query_msg i sock u m s = Some r" "srv_ok False s"
  shows "res_ok False r"
  using assms
  by (cases m) (auto simp: handle_query_msg_def handle_urgent_def handle_swap_def Let_def intro!: handler_oks split: if_splits)

lemma client_read_ok:
  assumes "client_read i mo s = Inr (k, s')" "srv_ok False s" "\<forall>m. mo = Some m \<longrightarrow> valid_msg m"
  shows "srv_ok False s'"
proof (cases mo)
  case None
  then show ?thesis
    using assms(1) res_okD [OF clean_after_ok [OF assms(2)]] by (auto simp: client_read_def Let_def rbind_eq_Inr)
next
  case (Some m)
  then obtain s1 where t: "timeout_unlock s = Inr s1" using assms(1) by (auto simp: client_read_def Let_def rbind_eq_Inr)
  note ok1 = res_okD [OF timeout_unlock_ok [OF assms(2)] t]
  show ?thesis
    using assms(1,3) Some t ok1 handle_user_msg_ok [OF _ ok1] handle_query_msg_ok [OF _ ok1] res_okD
    by (fastforce simp: client_read_def Let_def rbind_eq_Inr split: if_splits option.splits)
qed

section \<open>One turn of the server\<close>

lemma accept_ok [simp]: "srv_ok b (accept_connection sock peer stale s) = srv_ok b s"
  by (simp add: accept_connection_def split: option.splits)

definition valid_ready :: "(int \<Rightarrow> msg option option) \<Rightarrow> bool" where
  "valid_ready ready \<longleftrightarrow> (\<forall>k m. ready k = Some (Some m) \<longrightarrow> valid_msg m)"

lemma serve_ok:
  "serve n ready i (keep, s) = Inr (keep', s') \<Longrightarrow> srv_ok False s \<Longrightarrow> valid_ready ready \<Longrightarrow> srv_ok False s'"
proof (induction n arbitrary: i keep s)
  case (Suc n)
  show ?case
  proof (cases "i < length (client_cs s) \<and> ready (socket (client_cs s ! i)) \<noteq> None")
    case True
    then obtain mo where mo: "ready (socket (client_cs s ! i)) = Some mo" by blast
    then obtain k s1 where c: "client_read i mo s = Inr (k, s1)"
      using Suc.prems(1) True by (auto simp: rbind_eq_Inr)
    have "\<forall>m. mo = Some m \<longrightarrow> valid_msg m" using Suc.prems(3) mo by (auto simp: valid_ready_def)
    note ok1 = client_read_ok [OF c Suc.prems(2) this]
    show ?thesis
    proof (cases k)
      case CLOSE
      then obtain s2 where s2: "clean_after_client_disappeared (socket (client_cs s1 ! i)) i s1 = Inr s2"
        and r: "serve n ready (Suc i) (keep, s2) = Inr (keep', s')"
        using Suc.prems(1) True mo c by (auto simp: rbind_eq_Inr)
      show ?thesis using Suc.IH [OF r res_okD [OF clean_after_ok [OF ok1] s2] Suc.prems(3)] .
    qed (use Suc.prems True mo c Suc.IH [OF _ ok1] in auto)
  qed (use Suc in \<open>auto split: if_splits\<close>)
qed simp

lemma health_tick_ok: "srv_ok b s \<Longrightarrow> res_ok b (health_tick s)"
  unfolding health_tick_def by (auto intro!: res_okI elim!: s_check_running_health_inv split: if_splits)

lemma orphan_tick_ok: "srv_ok b s \<Longrightarrow> res_ok b (orphan_tick s)"
  unfolding orphan_tick_def by (auto intro!: res_ok_any) (erule (1) s_cleanup_orphan_inv)

lemma server_turn_inv:
  assumes "server_turn acc ready s = Inr (keep, s')" "srv_ok False s" "valid_ready ready"
  shows "srv_ok False s'"
proof -
  define s1 where "s1 = (case acc of None \<Rightarrow> s | Some (sock, peer, stale) \<Rightarrow> accept_connection sock peer stale s)"
  have ok1: "srv_ok False s1" using assms(2) by (simp add: s1_def split: option.splits prod.splits)
  obtain k s2 s3 s4 d s5 where sv: "serve (length (client_cs s1)) ready 0 (True, s1) = Inr (k, s2)"
    and h: "health_tick s2 = Inr s3" and c: "orphan_tick s3 = Inr s4" and nx: "next_run_job s4 = Inr (d, s5)"
    and s': "s' = s_check_holdon s5"
    using assms(1) by (auto simp: server_turn_def Let_def rbind_eq_Inr simp flip: s1_def)
  have "srv_ok False s2" using serve_ok [OF sv] ok1 assms(3) by simp
  then have "srv_ok False s4" using res_okD [OF orphan_tick_ok c] res_okD [OF health_tick_ok h] by blast
  then have "srv_ok False s5" by (rule next_run_job_inv [OF nx])
  then show ?thesis using srv_ok_view [OF s_check_holdon_view] by (simp add: s')
qed

end
