(* ===== verification/Cgroup_Restore.thy ===== *)
theory Cgroup_Restore
  imports Job_Queue Cpuset_Text
begin

text \<open>
  \<open>cgroups_restore_all_cpu_bind\<close> of \<open>cgroups.c\<close>, the last step of the start: the control groups that
  are left from the previous server are scanned, those of dead or unknown jobs are removed, and
  the CPUs of the others are claimed for their jobs.
\<close>

text \<open>
  A directory whose name matches \<open>TASK_SPOOLER_%d_%d\<close>, with the answer of \<open>kill(pid, 0)\<close> and
  the content of its two files where they can be opened.
\<close>

record cg_entry =
  cg_jobid :: int
  cg_pid :: int
  cg_alive :: bool
  cg_cpus :: "string option"
  cg_mems :: "string option"

definition cgroup_remove_orphan :: "cg_entry \<Rightarrow> srv \<Rightarrow> srv" where
  "cgroup_remove_orphan ent s = emit (Remove_orphan (cg_jobid ent) (cg_pid ent)) s"

definition restore_entry :: "cg_entry \<Rightarrow> srv \<Rightarrow> srv res" where
  "restore_entry ent s =
     (if cg_pid ent \<le> 0 then Inr s
      else if \<not> cg_alive ent then Inr (cgroup_remove_orphan ent s)
      else case findjob_idx (cg_jobid ent) s of
        None \<Rightarrow> Inr (cgroup_remove_orphan ent s)
      | Some i \<Rightarrow>
          (let p = active_jobs s ! i; t = topo (cpu s) in
           if state p = RUNNING \<or> state p = PAUSE
           then (case cg_read_file (cg_cpus ent) of
                   None \<Rightarrow> Inr s
                 | Some content \<Rightarrow>
                     (case cpu_bind_parse_cpuset (int (max_os_cpu t)) (max_os_cpu t) (Some content) of
                        None \<Rightarrow> Inl No_return
                      | Some None \<Rightarrow> Inr s
                      | Some (Some cs) \<Rightarrow>
                          if cs = [] then Inr s
                          else (let (prim, mems) = (case cg_read_file (cg_mems ent) of None \<Rightarrow> (- 1, 0)
                                                    | Some m \<Rightarrow> parse_mems (length (nodes t)) (Some m));
                                    (h, c) = cpu_bind_claim (jobid p) (map nat cs) mems prim (cpu s)
                                in Inr (set_active i (p\<lparr>cpu_alloc := h\<rparr>) (s\<lparr>cpu := c\<rparr>)))))
           else Inr s))"

definition cgroups_set_cpuset :: "job \<Rightarrow> srv \<Rightarrow> srv" where
  "cgroups_set_cpuset p s =
     (case Option.bind (cpu_alloc p) (store (cpu s)) of None \<Rightarrow> s
      | Some a \<Rightarrow> if a_error a \<noteq> 0 \<or> a_cpus a = [] then s
                  else emit (Set_cpuset (jobid p) (pid p) (map int (a_cpus a))) s)"

definition rewrite_cpuset :: "srv \<Rightarrow> job \<Rightarrow> srv" where
  "rewrite_cpuset s p =
     (if (state p \<noteq> RUNNING \<and> state p \<noteq> PAUSE) \<or> cpu_alloc p = None then s
      else if pid p \<le> 0 then s else cgroups_set_cpuset p s)"

text \<open>\<open>None\<close>: the directory cannot be opened.\<close>

definition cgroups_restore_all_cpu_bind :: "cg_entry list option \<Rightarrow> srv \<Rightarrow> srv res" where
  "cgroups_restore_all_cpu_bind dir s =
     (case dir of None \<Rightarrow> Inr s
      | Some es \<Rightarrow> rbind (rfold restore_entry es s) (\<lambda>s'. Inr (foldl rewrite_cpuset s' (active_jobs s'))))"

text \<open>Every process of the previous server has ended.\<close>

definition all_ended :: "cg_entry list option \<Rightarrow> bool" where
  "all_ended dir \<longleftrightarrow> (\<forall>es. dir = Some es \<longrightarrow> (\<forall>e \<in> set es. cg_pid e \<le> 0 \<or> \<not> cg_alive e))"

definition only_out :: "srv \<Rightarrow> srv \<Rightarrow> bool" where
  "only_out s s' \<longleftrightarrow> (\<exists>evs. s' = s\<lparr>out := evs\<rparr>)"

lemma only_out_refl: "only_out s s"
  unfolding only_out_def by (rule exI [of _ "out s"]) simp

lemma only_out_emit: "only_out s (emit ev s)"
  unfolding only_out_def emit_def by blast

lemma only_out_trans:
  assumes "only_out s s'" "only_out s' s''"
  shows "only_out s s''"
proof -
  obtain evs evs' where "s' = s\<lparr>out := evs\<rparr>" "s'' = s'\<lparr>out := evs'\<rparr>" using assms unfolding only_out_def by blast
  then have "s'' = s\<lparr>out := evs'\<rparr>" by simp
  then show ?thesis unfolding only_out_def by blast
qed

lemmas only_out_intros = only_out_refl only_out_emit

lemma rewrite_only_out: "only_out s (foldl rewrite_cpuset s ps)"
proof (induction ps arbitrary: s)
  case (Cons p ps)
  have "only_out s (rewrite_cpuset s p)"
    by (simp add: rewrite_cpuset_def cgroups_set_cpuset_def only_out_intros split: option.splits)
  then show ?case using Cons.IH only_out_trans by simp
qed (simp add: only_out_refl)

text \<open>Then the scan only removes directories and writes the sets of the jobs that have CPUs.\<close>

lemma restore_entry_ended:
  assumes "cg_pid e \<le> 0 \<or> \<not> cg_alive e"
  shows "returns (restore_entry e s) (only_out s)"
  using assms by (auto simp: restore_entry_def cgroup_remove_orphan_def only_out_intros)

lemma restore_ended:
  assumes "all_ended dir"
  shows "returns (cgroups_restore_all_cpu_bind dir s) (only_out s)"
proof (cases dir)
  case None
  then show ?thesis by (simp add: cgroups_restore_all_cpu_bind_def only_out_refl)
next
  case (Some es)
  have "\<forall>e \<in> set es. cg_pid e \<le> 0 \<or> \<not> cg_alive e" using assms Some by (simp add: all_ended_def)
  then have "returns (restore_entry e s') (only_out s)" if "e \<in> set es" "only_out s s'" for e s'
    using restore_entry_ended [of e s'] that only_out_trans by (blast intro: returns_mono)
  then have "returns (rfold restore_entry es s) (only_out s)" by (intro returns_rfold) (simp_all add: only_out_refl)
  then obtain s' where "rfold restore_entry es s = Inr s'" "only_out s s'" by (rule returnsE)
  then show ?thesis
    using Some only_out_trans [OF _ rewrite_only_out] by (simp add: cgroups_restore_all_cpu_bind_def)
qed

end
