(* ===== verification/Server_Run.thy ===== *)
theory Server_Run
  imports Server_Inv Cpu_Pool Cgroup_Restore
begin

text \<open>
  The server as a transition system: the state \<open>server_main\<close> builds before its loop, and one
  step per turn of \<open>server_loop\<close>, with whatever the operating system, a new connection and
  the readable sockets bring. The invariant of the accounting holds in every reachable
  state.
\<close>

section \<open>The state before the main loop\<close>

definition root_user :: user_t where
  "root_user = \<lparr>uname = ''Root'', uid = 0, umax_slots = 0, busy = 0, njobs = 0, queue = 0, locked = 0\<rparr>"

definition initialize_log_dir :: "env \<Rightarrow> string" where
  "initialize_log_dir w = (case getenv w ''TMPDIR'' of None \<Rightarrow> ''/tmp'' | Some d \<Rightarrow> d)"

text \<open>The initial values of the server's global variables, with the root user.\<close>

definition zero_server :: "env \<Rightarrow> int \<Rightarrow> cpu_state \<Rightarrow> srv" where
  "zero_server w limit c =
     \<lparr>active_jobs = [], finished_jobs = [], users_vec = [root_user], busy_slots = 0, max_slots = 1,
      jobids = 1000, last_errorlevel = 0, last_finished_jobid = 0, max_jobs = limit,
      user_locker = None, locker_time = 0, last_uid = 0, first_notify = [], client_cs = [],
      jobsort_flag = False, health_ticks = 0, cleanup_done = False, cleanup_start = 0, cpu = c,
      frozen = [], logdir = initialize_log_dir w, world = w, out = []\<rparr>"

text \<open>
  What \<open>server_main\<close> reads besides the user file and the environment: the command line, the
  stored job counter and the greatest id of each table (\<open>None\<close> when the query fails, 0 for
  an empty table), and the control groups that are left over.
\<close>

record boot =
  stored_jobids :: int
  max_in_Jobs :: "int option"
  max_in_Finished :: "int option"
  global_write_ok :: bool
  no_bind :: bool
  no_bind_defrag :: bool
  cgroup_dirs :: "cg_entry list option"

definition get_env :: "string \<Rightarrow> int \<Rightarrow> srv \<Rightarrow> int" where
  "get_env nm v0 s =
     (case getenv (world s) nm of None \<Rightarrow> v0
      | Some str \<Rightarrow> if str = [] then v0 else if atoi str < 0 then v0 else atoi str)"

text \<open>The second query overwrites the result of the first.\<close>

definition init_jobids_DB :: "boot \<Rightarrow> int \<Rightarrow> int" where
  "init_jobids_DB bt value =
     (let m1 = (case max_in_Jobs bt of None \<Rightarrow> 0 | Some m \<Rightarrow> m);
          max_id = (case max_in_Finished bt of None \<Rightarrow> m1 | Some m \<Rightarrow> m);
          v = (if value \<le> 0 then (if max_id > 0 then max_id + 1 else 1000)
               else if value \<le> max_id then max_id + 1 else value)
      in if global_write_ok bt then v else - 1)"

definition s_init_jobids :: "boot \<Rightarrow> int \<Rightarrow> int" where
  "s_init_jobids bt i =
     (let actual = init_jobids_DB bt i in if actual > 0 then actual else if i > 0 then i else 1000)"

definition set_default_maxslots :: "srv \<Rightarrow> srv" where
  "set_default_maxslots s =
     (case getenv (world s) ''TS_SLOTS'' of None \<Rightarrow> s | Some str \<Rightarrow> s_set_max_slots 0 \<bar>atoi str\<bar> s)"

definition total_cpus :: "cpu_state \<Rightarrow> int" where
  "total_cpus c = isum n_num_cores (nodes (topo c))"

definition boot_cpu :: "boot \<Rightarrow> srv \<Rightarrow> srv" where
  "boot_cpu bt s =
     (if TS_CPU_BIND (world s)
      then (let c1 = cpu_bind_init (cpu s);
                c2 = (if no_bind bt then cpu_bind_set_disabled True c1 else c1);
                c3 = (if no_bind_defrag bt then cpu_bind_set_defrag_disabled True c2 else c2);
                s1 = s\<lparr>cpu := c3\<rparr>
            in if cpu_bind_enabled c3 \<and> max_slots s1 > total_cpus c3 then s_set_max_slots 0 (total_cpus c3) s1 else s1)
      else s)"

definition boot_jobids :: "boot \<Rightarrow> srv \<Rightarrow> srv" where
  "boot_jobids bt s =
     s\<lparr>jobids := (if stored_jobids bt > 0 then stored_jobids bt
                  else s_init_jobids bt (get_env ''TS_FIRST_JOBID'' 1000 s))\<rparr>"

definition boot_settings :: "boot \<Rightarrow> srv \<Rightarrow> srv" where
  "boot_settings bt s =
     boot_jobids bt ((boot_cpu bt (cap_users (set_default_maxslots s)))
       \<lparr>jobsort_flag := (get_env ''TS_SORTJOBS'' 0 s \<noteq> 0)\<rparr>)"

definition server_main :: "boot \<Rightarrow> env \<Rightarrow> int \<Rightarrow> cpu_state \<Rightarrow> job list \<Rightarrow> job list \<Rightarrow> srv res" where
  "server_main bt w descriptors c jobs finished =
     rbind (read_user_file (zero_server w (descriptors - 5) c)) (\<lambda>s1.
     rbind (s_read_sqlite jobs finished (boot_settings bt s1)) (\<lambda>s2.
     rbind (s_update_slots_usage s2) (\<lambda>(usage, s3).
       if TS_CPU_BIND (world s3) then cgroups_restore_all_cpu_bind (cgroup_dirs bt) s3 else Inr s3)))"

lemma jobids_positive: "0 < s_init_jobids bt i"
  by (simp add: s_init_jobids_def Let_def)

lemma set_max_slots_fields:
  "active_jobs (s_set_max_slots sock n s) = active_jobs s" "users_vec (s_set_max_slots sock n s) = users_vec s"
  "busy_slots (s_set_max_slots sock n s) = busy_slots s"
  by (simp_all add: s_set_max_slots_def send_list_line_def Let_def)

text \<open>Nothing is counted before the jobs are read.\<close>

definition idle :: "srv \<Rightarrow> bool" where
  "idle s \<longleftrightarrow> busy_slots s = 0 \<and> (\<forall>u \<in> set (users_vec s). busy u = 0 \<and> njobs u = 0)"

lemma idle_ext:
  assumes "users_ext s s'" "idle s"
  shows "idle s'"
proof -
  obtain k where k: "map (\<lambda>u. (busy u, njobs u)) (users_vec s') = map (\<lambda>u. (busy u, njobs u)) (users_vec s) @ replicate k (0, 0)"
    and b: "busy_slots s' = busy_slots s"
    using assms(1) by (auto simp: users_ext_def)
  have "(busy u, njobs u) \<in> set (map (\<lambda>u. (busy u, njobs u)) (users_vec s))  \<union> {(0, 0)}" if "u \<in> set (users_vec s')" for u
    using imageI [OF that, of "\<lambda>u. (busy u, njobs u)"] arg_cong [OF k, of set] by (auto split: if_splits)
  then show ?thesis using assms(2) b by (fastforce simp: idle_def)
qed

lemma boot_settings_idle:
  assumes "read_user_file (zero_server w d c) = Inr s1"
  shows "idle (boot_settings bt s1)" "active_jobs (boot_settings bt s1) = []" "0 < jobids (boot_settings bt s1)"
    "length (users_vec (boot_settings bt s1)) = length (users_vec s1)"
proof -
  note ext = read_user_file_ext [OF assms]
  have "idle (zero_server w d c)" by (simp add: idle_def zero_server_def root_user_def)
  then have i1: "idle s1" by (rule idle_ext [OF ext])
  have e1: "active_jobs s1 = []" using ext by (simp add: users_ext_def zero_server_def)
  note defs = boot_settings_def boot_jobids_def boot_cpu_def Let_def set_max_slots_fields cap_users_def
    set_default_maxslots_def
  show "idle (boot_settings bt s1)" using i1 by (auto simp: defs idle_def split: option.splits)
  show "active_jobs (boot_settings bt s1) = []" "length (users_vec (boot_settings bt s1)) = length (users_vec s1)"
    using e1 by (auto simp: defs split: option.splits)
  show "0 < jobids (boot_settings bt s1)" using jobids_positive by (simp add: boot_settings_def boot_jobids_def)
qed

section \<open>Restoring the queue\<close>

text \<open>
  The rows of the table \<open>Jobs\<close> after every process ended: jobs that wait, are locked or
  paused, of known users; \<open>read_DB\<close> gives them no CPU allocation. Jobs that still run are
  restored without slots; for them the first recount establishes the counters.
\<close>

definition restorable :: "nat \<Rightarrow> job list \<Rightarrow> bool" where
  "restorable n jobs \<longleftrightarrow> distinct (map jobid jobs)
     \<and> (\<forall>j \<in> set jobs. jobid j \<noteq> 0 \<and> state j \<in> {QUEUED, LOCKED, PAUSE} \<and> 0 < num_slots j \<and> num_allocated j = 0
          \<and> cpu_alloc j = None \<and> (\<exists>u < n. user j = Some u))"

lemma restore_push_ok:
  assumes "srv_ok b s" "job_ok b (length (users_vec s)) j" "state j \<noteq> RUNNING" "jobid j \<noteq> 0"
    "jobid j \<notin> jobid ` set (active_jobs s)"
  shows "srv_ok b (restore_push j s)"
proof -
  let ?n = "if jobids s > jobid j then jobids s else jobid j + 1"
  have "srv_ok b (s\<lparr>jobids := ?n\<rparr>)"
    using assms(1) by (fastforce simp: srv_ok_def acct_def ids_ok_def)
  moreover have "restore_push j s = push_active (j\<lparr>client_socket := 0\<rparr>) (s\<lparr>jobids := ?n\<rparr>)"
    by (simp add: restore_push_def push_active_def)
  ultimately show ?thesis
    using srv_ok_push [of b "s\<lparr>jobids := ?n\<rparr>" "j\<lparr>client_socket := 0\<rparr>"] assms(2-5)
    by (simp add: job_ok_def)
qed

lemma s_add_job_ok:
  assumes "s_add_job j s = Inr s'" "srv_ok b s" "state j \<in> {QUEUED, LOCKED, PAUSE}"
    "job_ok b (length (users_vec s)) j" "jobid j \<noteq> 0" "jobid j \<notin> jobid ` set (active_jobs s)"
  shows "srv_ok b s' \<and> map jobid (active_jobs s') = map jobid (active_jobs s) @ [jobid j]
    \<and> length (users_vec s') = length (users_vec s)"
proof (cases "state j = PAUSE")
  case True
  then have "s' = restore_paused j s" using assms(1) by (simp add: s_add_job_def)
  moreover have "srv_ok b (restore_paused j s)" unfolding restore_paused_def
    by (rule restore_push_ok [OF assms(2)]) (use assms in \<open>auto simp: job_ok_def live_def\<close>)
  ultimately show ?thesis by (simp add: restore_paused_def restore_push_def push_active_def)
next
  case False
  then obtain s1 where s1: "s1 = s \<or> upd_user (user j) (\<lambda>u. u\<lparr>queue := queue u + 1\<rparr>) s = Inr s1"
    and s': "s' = restore_push j s1"
    using assms(1,3) by (auto simp: s_add_job_def rbind_eq_Inr split: if_splits)
  then have v: "view s1 = view s" "active_jobs s1 = active_jobs s" "length (users_vec s1) = length (users_vec s)"
    using queue_update_view [of "user j" "\<lambda>u. queue u + 1" s s1] by auto
  have "srv_ok b (restore_push j s1)"
    by (rule restore_push_ok) (use assms False v srv_ok_view [OF v(1)] in auto)
  then show ?thesis using v s' by (simp add: restore_push_def push_active_def)
qed

lemma restore_all_ok:
  assumes "rfold s_add_job jobs s = Inr s'" "srv_ok b s" "restorable (length (users_vec s)) jobs"
    "jobid ` set jobs \<inter> jobid ` set (active_jobs s) = {}"
  shows "srv_ok b s'"
  using assms
proof (induction jobs arbitrary: s)
  case (Cons j jobs)
  obtain s1 where s1: "s_add_job j s = Inr s1" and r: "rfold s_add_job jobs s1 = Inr s'"
    using Cons.prems(1) by (auto simp: rbind_eq_Inr)
  have "job_ok b (length (users_vec s)) j" using Cons.prems(3) by (auto simp: restorable_def job_ok_def live_def)
  then have k: "srv_ok b s1 \<and> map jobid (active_jobs s1) = map jobid (active_jobs s) @ [jobid j]
    \<and> length (users_vec s1) = length (users_vec s)"
    using Cons.prems by (intro s_add_job_ok [OF s1]) (auto simp: restorable_def)
  have "jobid ` set (active_jobs s1) = insert (jobid j) (jobid ` set (active_jobs s))"
    using k by (metis list.set_map set_append Un_insert_right list.simps(15) list.set(1) sup_bot_right)
  then show ?case
    using Cons.IH [OF r] Cons.prems k by (auto simp: restorable_def)
qed simp

lemma server_main_ok:
  assumes "server_main bt w d c jobs finished = Inr s'"
    "\<forall>s1. read_user_file (zero_server w (d - 5) c) = Inr s1 \<longrightarrow> restorable (length (users_vec s1)) jobs"
    "all_ended (cgroup_dirs bt)"
  shows "srv_ok True s'"
proof -
  obtain s1 s2 s3 usage where r: "read_user_file (zero_server w (d - 5) c) = Inr s1"
    and q: "rfold s_add_job jobs (boot_settings bt s1) = Inr s2"
    and u: "s_update_slots_usage (s2\<lparr>finished_jobs := finished_jobs s2 @ finished\<rparr>) = Inr (usage, s3)"
    and e: "s' = s3 \<or> cgroups_restore_all_cpu_bind (cgroup_dirs bt) s3 = Inr s'"
    using assms(1) by (auto simp: server_main_def s_read_sqlite_def rbind_eq_Inr split: if_splits)
  note b = boot_settings_idle [OF r, of bt]
  have "srv_ok True (boot_settings bt s1)"
    using b by (auto simp: srv_ok_def acct_def ids_ok_def idle_def)
  then have "srv_ok True s2" using restore_all_ok [OF q] assms(2) r b by simp
  then have "srv_ok True s3" using s_update_slots_usage_inv [OF u] by simp
  moreover have "only_out s3 s'" using e restore_ended [OF assms(3), of s3] only_out_refl by auto
  then have "view s' = view s3" unfolding only_out_def by (elim exE) (simp add: view_def)
  ultimately show ?thesis using srv_ok_view by blast
qed

section \<open>The transition system\<close>

text \<open>
  An invariant of a labelled transition system: it holds at the start and every step keeps it.
\<close>

locale invariant_of =
  fixes start :: "'s \<Rightarrow> bool" and step :: "'l \<Rightarrow> 's \<Rightarrow> 's \<Rightarrow> bool" and inv :: "'s \<Rightarrow> bool"
  assumes start_inv: "start s \<Longrightarrow> inv s"
    and step_inv: "step l s s' \<Longrightarrow> inv s \<Longrightarrow> inv s'"
begin

lemma trace_inv:
  assumes "\<forall>i < n. \<exists>l. step l (tr i) (tr (Suc i))" "start (tr 0)" "k \<le> n"
  shows "inv (tr k)"
  using assms(3)
proof (induction k)
  case 0
  show ?case using assms(2) by (rule start_inv)
next
  case (Suc k)
  then obtain l where "step l (tr k) (tr (Suc k))" using assms(1) by (meson Suc_le_lessD)
  then show ?case using Suc step_inv by (meson Suc_leD)
qed

end

type_synonym turn_label = "env \<times> (int \<times> int \<times> int) option \<times> (int \<Rightarrow> msg option option)"

text \<open>
  What the server finds: a topology table that is consistent (it is generated when the
  program is built) and, in a build without CPU binding, an allocator that stays unused.
\<close>

definition cpu_start :: "env \<Rightarrow> cpu_state \<Rightarrow> bool" where
  "cpu_start w c \<longleftrightarrow> wf_topo (topo c) \<and> sized_topo (topo c) \<and> (\<not> TS_CPU_BIND w \<longrightarrow> cpu_ok c)"

definition server_start :: "srv \<Rightarrow> bool" where
  "server_start s \<longleftrightarrow> (\<exists>bt w d c jobs finished. server_main bt w d c jobs finished = Inr s \<and> cpu_start w c \<and> all_ended (cgroup_dirs bt)
     \<and> (\<forall>s1. read_user_file (zero_server w (d - 5) c) = Inr s1 \<longrightarrow> restorable (length (users_vec s1)) jobs))"

text \<open>Between two turns the world changes as it likes.\<close>

inductive server_step :: "turn_label \<Rightarrow> srv \<Rightarrow> srv \<Rightarrow> bool" where
  turn: "valid_ready ready \<Longrightarrow> server_turn acc ready (s\<lparr>world := w\<rparr>) = Inr (True, s') \<Longrightarrow>
    server_step (w, acc, ready) s s'"

inductive_cases server_stepE: "server_step l s s'"

inductive reachable :: "srv \<Rightarrow> bool" where
  start: "server_start s \<Longrightarrow> reachable s"
| step: "reachable s \<Longrightarrow> server_step l s s' \<Longrightarrow> reachable s'"

lemma srv_ok_weaken: "srv_ok True s \<Longrightarrow> srv_ok False s"
  by (auto simp: srv_ok_def acct_def job_ok_def at_least_def)

interpretation accounting: invariant_of server_start server_step "srv_ok False"
proof
  show "server_start s \<Longrightarrow> srv_ok False s" for s
    unfolding server_start_def using server_main_ok srv_ok_weaken by metis
  show "server_step l s s' \<Longrightarrow> srv_ok False s \<Longrightarrow> srv_ok False s'" for l s s'
    by (erule server_stepE) (use server_turn_inv in force)
qed

lemma reachable_ok: "reachable s \<Longrightarrow> srv_ok False s"
  by (induction rule: reachable.induct) (auto intro: accounting.start_inv accounting.step_inv)

end
