(* ===== verification/Bind_Run.thy ===== *)
theory Bind_Run
  imports Bind_Queue Server_Run
begin

text \<open>
  Pool and jobs across the requests, the message switch and the turns of the server: in every
  reachable state the pointers of the jobs to their CPU allocations are live and distinct, so
  no CPU is bound to two jobs.
\<close>

section \<open>Composing calls\<close>

definition res_healthy :: "bool \<Rightarrow> srv res \<Rightarrow> bool" where
  "res_healthy b r \<longleftrightarrow> (\<forall>s'. r = Inr s' \<longrightarrow> healthy b s')"

lemma res_healthy_simps [simp]: "res_healthy b (Inr s) = healthy b s" "res_healthy b (Inl e)"
  by (simp_all add: res_healthy_def)

lemma res_healthyI: "(\<And>s'. r = Inr s' \<Longrightarrow> healthy b s') \<Longrightarrow> res_healthy b r"
  by (simp add: res_healthy_def)

lemma res_healthyD: "res_healthy b r \<Longrightarrow> r = Inr s' \<Longrightarrow> healthy b s'"
  by (simp add: res_healthy_def)

lemma res_healthy_bind: "res_healthy b r \<Longrightarrow> (\<And>s1. healthy b s1 \<Longrightarrow> res_healthy b (f s1)) \<Longrightarrow> res_healthy b (rbind r f)"
  by (auto simp: res_healthy_def rbind_eq_Inr)

lemma res_healthy_any: "(\<And>x. r = Inr x \<Longrightarrow> res_healthy b (f x)) \<Longrightarrow> res_healthy b (rbind r f)"
  by (auto simp: res_healthy_def rbind_eq_Inr)

lemma usage_healthy: "s_update_slots_usage s = Inr (u, s') \<Longrightarrow> healthy b s \<Longrightarrow> healthy b s'"
  using s_update_slots_usage_returns [of b s] by simp

text \<open>A request that touches neither the pool nor the pointers.\<close>

definition keeps :: "srv \<Rightarrow> srv \<Rightarrow> bool" where
  "keeps s s' \<longleftrightarrow> unbinds s s' \<and> (users_vec s \<noteq> [] \<longrightarrow> users_vec s' \<noteq> [])"

lemma keeps_refl [simp]: "keeps s s"
  by (simp add: keeps_def)

lemma keeps_trans: "keeps s s1 \<Longrightarrow> keeps s1 s2 \<Longrightarrow> keeps s s2"
  using unbinds_trans by (auto simp: keeps_def)

lemma keeps_healthy: "healthy b s \<Longrightarrow> keeps s s' \<Longrightarrow> srv_ok b s' \<Longrightarrow> healthy b s'"
  using bind_ok_unbinds by (auto simp: healthy_def keeps_def)

lemma keeps_fieldsI:
  "cpu s' = cpu s \<Longrightarrow> active_jobs s' = active_jobs s \<Longrightarrow> users_vec s' = users_vec s \<Longrightarrow> keeps s s'"
  by (simp add: keeps_def unbinds_def)

lemma res_keeps:
  assumes "healthy b s" "res_ok b r" "\<And>s'. r = Inr s' \<Longrightarrow> keeps s s'"
  shows "res_healthy b r"
  using assms keeps_healthy by (auto simp: res_healthy_def res_ok_def)

lemma keeps_emit [simp]: "keeps s (emit ev s') = keeps s s'"
  by (simp add: keeps_def)

lemma keeps_send [simp]: "keeps s (send_list_line sock l s') = keeps s s'"
  by (simp add: send_list_line_def)

lemma keeps_other [simp]:
  "keeps s (s'\<lparr>finished_jobs := x1\<rparr>) = keeps s s'" "keeps s (s'\<lparr>first_notify := x2\<rparr>) = keeps s s'"
  "keeps s (s'\<lparr>client_cs := x3\<rparr>) = keeps s s'" "keeps s (s'\<lparr>max_slots := x4\<rparr>) = keeps s s'"
  "keeps s (s'\<lparr>user_locker := x5\<rparr>) = keeps s s'" "keeps s (s'\<lparr>locker_time := x6\<rparr>) = keeps s s'"
  "keeps s (s'\<lparr>world := x7\<rparr>) = keeps s s'" "keeps s (s'\<lparr>logdir := x8\<rparr>) = keeps s s'"
  "keeps s (s'\<lparr>health_ticks := x9\<rparr>) = keeps s s'" "keeps s (s'\<lparr>cleanup_start := x10\<rparr>) = keeps s s'"
  "keeps s (s'\<lparr>cleanup_done := x11\<rparr>) = keeps s s'" "keeps s (s'\<lparr>frozen := x12\<rparr>) = keeps s s'"
  "keeps s (s'\<lparr>last_errorlevel := x13\<rparr>) = keeps s s'" "keeps s (s'\<lparr>jobids := x14\<rparr>) = keeps s s'"
  by (simp_all add: keeps_def unbinds_def)

section \<open>User requests\<close>

lemma limit_keeps: "upd_user u f s = Inr s' \<Longrightarrow> keeps s s'"
  by (auto simp: upd_user_eq keeps_def unbinds_def)

lemma config_body_ok:
  assumes "rbind (config_running p s) (\<lambda>(err, p', s'). Inr (p', s')) = Inr (p', s1)"
    "job_ok b (length (users_vec s)) p" "jobid p \<noteq> 0"
  shows "moves b p s p' s1 \<and> job_ok b (length (users_vec s)) p' \<and> rebinds p s p' s1"
proof -
  obtain err where c: "config_running p s = Inr (err, p', s1)" using assms(1) by (auto simp: rbind_eq_Inr)
  from config_running_moves [OF c assms(2)] config_running_rebinds [OF c assms(3)] show ?thesis using moves_exact by blast
qed

lemma resume_step_healthy:
  assumes "resume_step u i s = Inr s'" "healthy b s"
  shows "healthy b s'"
proof (cases "s' = s")
  case False
  then have "on_active i (\<lambda>p s. rbind (config_running p s) (\<lambda>(err, p', s'). Inr (p', s'))) s = Inr s'"
    using assms(1) by (auto simp: resume_step_def Let_def split: if_splits)
  then show ?thesis by (rule healthy_on_active [OF _ assms(2)]) (rule config_body_ok)
qed (use assms in simp)

lemma s_resume_user_healthy: "healthy b s \<Longrightarrow> res_healthy b (s_resume_user sock uo s)"
proof (rule res_healthyI)
  fix s' assume h: "healthy b s" and r: "s_resume_user sock uo s = Inr s'"
  obtain s1 s2 l where u: "upd_user uo (\<lambda>u. u\<lparr>umax_slots := \<bar>umax_slots u\<bar>, locked := 0\<rparr>) s = Inr s1"
    and f: "rfold (resume_step (the uo)) [0..<length (active_jobs s1)] s1 = Inr s2"
    and s': "s' = send_list_line sock l s2"
    using r unfolding s_resume_user_def rbind_eq_Inr by blast
  have "healthy b s1" using keeps_healthy [OF h limit_keeps [OF u]] srv_ok_view [OF limit_update_view(1) [OF u]] h
    by (simp add: healthy_def)
  then have "healthy b s2" by (rule rfold_keeps [OF f]) (rule resume_step_healthy)
  then show "healthy b s'" using keeps_healthy [of b s2 s'] by (simp add: s' healthy_def)
qed

lemma pause_rebinds:
  assumes "rbind (safe_pause_job p s) (\<lambda>(p', s'). Inr (p'\<lparr>state := PAUSE\<rparr>, s')) = Inr (p2, s2)"
  shows "rebinds p s p2 s2"
proof -
  obtain p' where "safe_pause_job p s = Inr (p', s2)" "p2 = p'\<lparr>state := PAUSE\<rparr>"
    using assms by (auto simp: rbind_eq_Inr)
  then show ?thesis using rebinds_cong [OF safe_pause_rebinds, of p s p' s2 p s p2 s2] by simp
qed

lemma suspend_step_healthy:
  assumes "suspend_step sock u i s = Inr s'" "healthy b s"
  shows "healthy b s'"
proof -
  consider "view s' = view s" "cpu s' = cpu s"
    | "on_active i (\<lambda>p s. rbind (safe_pause_job p s) (\<lambda>(p', s'). Inr (p'\<lparr>state := PAUSE\<rparr>, s'))) s = Inr s'"
    using assms(1) by (auto simp: suspend_step_def Let_def split: if_splits)
  then show ?thesis
  proof cases
    case 1
    then show ?thesis using healthy_same [OF assms(2)] by blast
  next
    case 2
    then show ?thesis
      by (rule healthy_on_active [OF _ assms(2)]) (use pause_moves pause_rebinds in blast)
  qed
qed

lemma s_suspend_user_healthy: "healthy b s \<Longrightarrow> res_healthy b (s_suspend_user sock uo s)"
proof (rule res_healthyI)
  fix s' assume h: "healthy b s" and r: "s_suspend_user sock uo s = Inr s'"
  obtain s1 s2 l usage where u: "upd_user uo (\<lambda>u. u\<lparr>umax_slots := - \<bar>umax_slots u\<bar>, locked := 1\<rparr>) s = Inr s1"
    and f: "rfold (suspend_step sock (the uo)) [0..<length (active_jobs s1)] s1 = Inr s2"
    and c: "s_update_slots_usage (send_list_line sock l s2) = Inr (usage, s')"
    using r unfolding s_suspend_user_def rbind_eq_Inr by (force split: prod.splits)
  have "healthy b s1" using keeps_healthy [OF h limit_keeps [OF u]] srv_ok_view [OF limit_update_view(1) [OF u]] h
    by (simp add: healthy_def)
  then have "healthy b s2" by (rule rfold_keeps [OF f]) (rule suspend_step_healthy)
  then have "healthy b (send_list_line sock l s2)" using keeps_healthy [of b s2] by (simp add: healthy_def)
  then show "healthy b s'" by (rule usage_healthy [OF c])
qed

lemma suspend_all_healthy: "healthy b s \<Longrightarrow> res_healthy b (s_suspend_user_all sock s)"
  unfolding s_suspend_user_all_def
  by (rule res_healthyI, erule rfold_keeps) (use res_healthyD [OF s_suspend_user_healthy] in blast)+

lemma resume_all_healthy: "healthy b s \<Longrightarrow> res_healthy b (s_resume_user_all sock s)"
  unfolding s_resume_user_all_def
  by (rule res_healthyI, erule rfold_keeps) (use res_healthyD [OF s_resume_user_healthy] in blast)+

lemma status_all_fields [simp]: "cpu (s_user_status_all sock s) = cpu s"
proof -
  have "cpu (foldl (\<lambda>s u. if umax_slots u = 0 \<and> busy u = 0 then s else send_list_line sock (user_status_line u) s) s us) = cpu s" for s us
    by (induction us arbitrary: s) simp_all
  then show ?thesis by (simp add: s_user_status_all_def)
qed

lemma status_all_healthy: "healthy b s \<Longrightarrow> healthy b (s_user_status_all sock s)"
  by (erule healthy_same) simp_all

lemma status_healthy: "healthy b s \<Longrightarrow> res_healthy b (s_user_status sock u s)"
  using healthy_same [of b s] by (auto simp: s_user_status_def intro!: res_healthy_any)

lemma handle_suspend_healthy: "healthy b s \<Longrightarrow> res_healthy b (handle_suspend sock u t s)"
  unfolding handle_suspend_def
  by (auto intro!: res_healthy_bind status_healthy status_all_healthy s_suspend_user_healthy suspend_all_healthy)

lemma handle_resume_healthy: "healthy b s \<Longrightarrow> res_healthy b (handle_resume sock u t s)"
  unfolding handle_resume_def
  by (auto intro!: res_healthy_bind status_healthy status_all_healthy s_resume_user_healthy resume_all_healthy)

section \<open>Holding, continuing, requeueing\<close>

lemma lock_queue_rebinds:
  "s_lock_queue p s = Inr (p', s') \<Longrightarrow> rebinds p s p' s'" "s_unlock_queue p s = Inr (p', s') \<Longrightarrow> rebinds p s p' s'"
  by (auto simp: s_lock_queue_def s_unlock_queue_def rbind_eq_Inr dest: upd_user_cpu intro!: rebinds_same split: if_splits)

lemma rebinds_send: "rebinds p s p' s1 \<Longrightarrow> rebinds p s p' (send_list_line sock l s1)"
  by (erule rebinds_cong) simp_all

lemma hold_body_rebinds:
  assumes "hold_body sock jid uo u p s = Inr (p', s')"
  shows "rebinds p s p' s'"
proof -
  consider "cpu_alloc p' = cpu_alloc p" "cpu s' = cpu s"
    | l s1 where "s_lock_queue p s = Inr (p', s1)" "s' = send_list_line sock l s1"
    | l s1 where "rbind (safe_pause_job p s) (\<lambda>(p', s'). Inr (p'\<lparr>state := PAUSE\<rparr>, s')) = Inr (p', s1)" "s' = send_list_line sock l s1"
    using assms(1) by (auto simp: hold_body_def Let_def rbind_eq_Inr split: if_splits)
  then show ?thesis
    by cases (auto intro: rebinds_same rebinds_send dest: lock_queue_rebinds(1) pause_rebinds)
qed

lemma cont_body_rebinds:
  assumes "cont_body sock jid uo u p s = Inr (p', s')" "jobid p \<noteq> 0"
  shows "rebinds p s p' s'"
proof -
  let ?p = "p\<lparr>wall_time := i64abs (wall_time p)\<rparr>"
  consider "cpu_alloc p' = cpu_alloc p" "cpu s' = cpu s"
    | l s1 where "s_unlock_queue p s = Inr (p', s1)" "s' = send_list_line sock l s1"
    | l err s1 where "config_running ?p s = Inr (err, p', s1)" "s' = send_list_line sock l s1"
    using assms(1) by (auto simp: cont_body_def Let_def rbind_eq_Inr split: if_splits)
  then show ?thesis
  proof cases
    case 3
    then have "rebinds ?p s p' s1" using config_running_rebinds assms(2) by fastforce
    then show ?thesis using rebinds_cong [of ?p s p' s1 p s p' s'] 3(2) by simp
  qed (auto intro: rebinds_same rebinds_send dest: lock_queue_rebinds(2))
qed

lemma s_hold_job_healthy: "healthy b s \<Longrightarrow> res_healthy b (s_hold_job sock jid uo s)"
proof (rule res_healthyI)
  fix s' assume h: "healthy b s" and r: "s_hold_job sock jid uo s = Inr s'"
  consider "view s' = view s" "cpu s' = cpu s" | i u where "on_active i (hold_body sock jid uo u) s = Inr s'"
    using r by (auto simp: s_hold_job_def rbind_eq_Inr split: if_splits option.splits)
  then show "healthy b s'"
  proof cases
    case 2
    then show ?thesis by (rule healthy_on_active [OF _ h]) (use hold_body_moves hold_body_rebinds in blast)
  qed (use healthy_same [OF h] in blast)
qed

lemma s_cont_job_healthy: "healthy b s \<Longrightarrow> res_healthy b (s_cont_job sock jid uo s)"
proof (rule res_healthyI)
  fix s' assume h: "healthy b s" and r: "s_cont_job sock jid uo s = Inr s'"
  obtain usage s1 where s1: "s_update_slots_usage s = Inr (usage, s1)"
    and c: "view s' = view s1 \<and> cpu s' = cpu s1 \<or> (\<exists>i u. on_active i (cont_body sock jid uo u) s1 = Inr s')"
    using r by (auto simp: s_cont_job_def rbind_eq_Inr split: if_splits option.splits)
  note h1 = usage_healthy [OF s1 h]
  from c show "healthy b s'"
  proof
    assume "\<exists>i u. on_active i (cont_body sock jid uo u) s1 = Inr s'"
    then obtain i u where "on_active i (cont_body sock jid uo u) s1 = Inr s'" by blast
    then show ?thesis by (rule healthy_on_active [OF _ h1]) (use cont_body_moves cont_body_rebinds in blast)
  qed (use healthy_same [OF h1] in blast)
qed

lemma s_requeue_job_healthy: "healthy b s \<Longrightarrow> res_healthy b (s_requeue_job sock jid uo s)"
proof (rule res_healthyI)
  fix s' assume h: "healthy b s" and r: "s_requeue_job sock jid uo s = Inr s'"
  show "healthy b s'"
  proof (cases "view s' = view s \<and> cpu s' = cpu s")
    case False
    then obtain i p' s1 l ev where i: "findjob_idx jid s = Some i"
      and c: "s_relegate_job (active_jobs s ! i) s = Inr (p', s1)"
      and s': "s' = send_list_line sock l (emit ev (push_active p' (remove_active i s1)))"
      using r by (auto simp: s_requeue_job_def rbind_eq_Inr Let_def split: if_splits option.splits)
    have ib: "i < length (active_jobs s)" using findjob_idx_bound [OF i] by simp
    note m = s_relegate_job_moves [OF c job_okD [OF healthyD(1) [OF h] ib]]
    have h1: "healthy b (set_active i p' s1)"
      using healthy_set_active [OF h ib] m relegate_rebinds [OF c] by blast
    have act: "active_jobs s1 = active_jobs s" using m moves_fields(1) by blast
    have "mset (active_jobs s') = mset (active_jobs (set_active i p' s1))"
      using mset_remove_nth [of i "(active_jobs s)[i := p']"] ib act
      by (simp add: s' push_active_def remove_active_def set_active_def remove_nth_update send_list_line_def)
    then have "keeps (set_active i p' s1) s'"
      using unbinds_perm [of s' "set_active i p' s1"]
      by (simp add: keeps_def s' set_active_def push_active_def remove_active_def send_list_line_def)
    then show ?thesis using keeps_healthy [OF h1] s_requeue_job_ok [OF r healthyD(1) [OF h]] by blast
  qed (use healthy_same [OF h] in blast)
qed

section \<open>The user table and the lock\<close>

lemma read_user_file_cpu:
  assumes "read_user_file s = Inr s'"
  shows "cpu s' = cpu s"
proof -
  have "cpu (read_user_line s l) = cpu s" for s l
    by (auto simp: read_user_line_def s_set_max_slots_def Let_def split: user_file_line.splits option.splits)
  then have "cpu (foldl read_user_line s ls) = cpu s" for s ls by (induction ls arbitrary: s) simp_all
  then show ?thesis using assms by (auto simp: read_user_file_def split: option.splits)
qed

lemma users_ext_healthy:
  assumes "healthy b s" "users_ext s s'" "cpu s' = cpu s"
  shows "healthy b s'"
proof -
  have "users_vec s' \<noteq> []" using assms(1,2) by (auto simp: users_ext_def healthy_def)
  moreover have "keeps s s'" using assms(2,3) calculation by (simp add: keeps_def unbinds_def users_ext_def)
  ultimately show ?thesis using keeps_healthy [OF assms(1)] srv_ok_users_ext [OF healthyD(1) [OF assms(1)] assms(2)] by blast
qed

lemma send_healthy [simp]: "healthy b (send_list_line sock l s) = healthy b s"
  by (simp add: healthy_def bind_ok_def) (simp add: send_list_line_def)

lemma s_refresh_users_healthy: "healthy b s \<Longrightarrow> res_healthy b (s_refresh_users sock s)"
  unfolding s_refresh_users_def Let_def
proof (rule res_healthy_any)
  fix s1
  let ?olds = "map (\<lambda>u. (uid u, umax_slots u)) (users_vec s)"
  assume h: "healthy b s" and r: "read_user_file s = Inr s1"
  note ext = read_user_file_ext [OF r] and c = read_user_file_cpu [OF r]
  show "res_healthy b (case refresh_check ?olds s1 of
          Some l \<Rightarrow> Inr (send_list_line sock l (rollback_users ?olds s1))
        | None \<Rightarrow> rbind (s_update_slots_usage (send_list_line sock (Line ''refresh the list success!'' []) s1))
                    (\<lambda>(usage, s2). Inr s2))"
  proof (cases "refresh_check ?olds s1")
    case None
    then show ?thesis using usage_healthy users_ext_healthy [OF h ext c] by (auto intro!: res_healthy_any)
  next
    case (Some l)
    have "cpu (rollback_users ?olds s1) = cpu s" using c by (simp add: rollback_users_def)
    then show ?thesis using Some healthy_same [OF h rollback_view [OF ext]] by simp
  qed
qed

lemma healthy_other [simp]:
  "healthy b (s\<lparr>finished_jobs := x1\<rparr>) = healthy b s" "healthy b (s\<lparr>first_notify := x2\<rparr>) = healthy b s"
  "healthy b (s\<lparr>client_cs := x3\<rparr>) = healthy b s" "healthy b (s\<lparr>max_slots := x4\<rparr>) = healthy b s"
  "healthy b (s\<lparr>user_locker := x5\<rparr>) = healthy b s" "healthy b (s\<lparr>locker_time := x6\<rparr>) = healthy b s"
  "healthy b (s\<lparr>world := x7\<rparr>) = healthy b s" "healthy b (s\<lparr>logdir := x8\<rparr>) = healthy b s"
  "healthy b (s\<lparr>health_ticks := x9\<rparr>) = healthy b s" "healthy b (s\<lparr>cleanup_start := x10\<rparr>) = healthy b s"
  "healthy b (s\<lparr>cleanup_done := x11\<rparr>) = healthy b s" "healthy b (s\<lparr>last_errorlevel := x12\<rparr>) = healthy b s"
  "healthy b (emit ev s) = healthy b s"
  by (simp_all add: healthy_def bind_ok_def)

lemma s_lock_server_healthy: "healthy b s \<Longrightarrow> res_healthy b (s_lock_server sock uo s)"
  unfolding s_lock_server_def
  by (auto intro!: res_healthy_any split: option.splits) (metis usage_healthy)+

lemma s_unlock_server_healthy: "healthy b s \<Longrightarrow> res_healthy b (s_unlock_server sock uo s)"
  unfolding s_unlock_server_def by (auto intro!: res_healthy_any)

end
