(* ===== verification/Bind_Server.thy ===== *)
theory Bind_Server
  imports Bind_Run
begin

text \<open>
  Both invariants across submission, the runner's answers, removal, the connections and the
  message switch, up to the turns of the server: no CPU is bound to two jobs in any state the
  server reaches.
\<close>

section \<open>Submission\<close>

lemma keeps_set:
  assumes "i < length (active_jobs s) \<Longrightarrow> cpu_alloc p = cpu_alloc (active_jobs s ! i)"
  shows "keeps s (set_active i p s)"
proof (cases "i < length (active_jobs s)")
  case True
  then have "map cpu_alloc ((active_jobs s)[i := p]) = map cpu_alloc (active_jobs s)"
    using assms by (simp add: map_update list_update_same_conv)
  then show ?thesis using unbinds_same [of "set_active i p s" s] by (simp add: keeps_def set_active_def)
qed (simp add: set_active_def list_update_beyond)

lemma keeps_push: "cpu_alloc p = None \<Longrightarrow> keeps s (push_active p s)"
  by (simp add: keeps_def unbinds_def push_active_def)

lemma keeps_remove: "i < length (active_jobs s) \<Longrightarrow> keeps s (remove_active i s)"
  using unbinds_remove by (simp add: keeps_def remove_active_def)

lemma keeps_DB [simp]:
  "keeps s (insert_or_replace_DB p t s') = keeps s s'" "keeps s (delete_DB j t s') = keeps s s'"
  "keeps s (snd (insert_DB p t s')) = keeps s s'" "keeps s (update_field_int64 j f v s') = keeps s s'"
  by (simp_all add: insert_or_replace_DB_def delete_DB_def insert_DB_def update_field_int64_def Let_def)

lemma slot_keeps:
  assumes "newjob_slot sock m s = (io, s2)"
  shows "keeps s s2"
proof -
  have "keeps s ((set_active (length (active_jobs s)) p (push_active zero_job s))\<lparr>jobids := n\<rparr>)" if "cpu_alloc p = None" for p n
    using keeps_trans [OF keeps_push keeps_set] that by (simp add: zero_job_def push_active_def)
  then show ?thesis
    using assms by (auto simp: newjob_slot_def Let_def zero_job_def split: option.splits if_splits)
qed

lemma owned_keeps: "keeps s (owned_slot sock m uo i s)"
  unfolding owned_slot_def by (rule keeps_set) (simp add: newjob_owner_def)

lemma wall_time_cpu: "newjob_wall_time m s p = Inr p' \<Longrightarrow> cpu_alloc p' = cpu_alloc p"
  by (auto simp: newjob_wall_time_def rbind_eq_Inr split: if_splits)

lemma fields_cpu:
  assumes "newjob_fields m s p = Inr p'"
  shows "cpu_alloc p' = cpu_alloc p"
proof -
  obtain p2 where "newjob_wall_time m s (p\<lparr>store_output := m_store_output m,
      should_keep_finished := m_should_keep_finished m, notify_errorlevel_to := [], depend_on := []\<rparr>) = Inr p2"
    "cpu_alloc p' = cpu_alloc p2"
    using assms by (auto simp: newjob_fields_def Let_def rbind_eq_Inr)
  then show ?thesis using wall_time_cpu by fastforce
qed

lemma payload_cpu: "newjob_payload m s p = Inr p' \<Longrightarrow> cpu_alloc p' = cpu_alloc p"
  by (auto simp: newjob_payload_def Let_def rbind_eq_Inr split: option.splits if_splits)

lemma dep_step_keeps: "dep_step i d s = Inr s' \<Longrightarrow> keeps s s'"
proof -
  have a: "keeps s (add_dependency i d lev s)" for d lev s
    unfolding add_dependency_def Let_def by (rule keeps_set) simp
  have q: "keeps s (depend_on_queued i d s)" for d s
    by (auto simp: depend_on_queued_def Let_def add_notify_errorlevel_to_def intro!: keeps_set split: option.splits)
  show "dep_step i d s = Inr s' \<Longrightarrow> keeps s s'"
    using a keeps_trans [OF a q] by (auto simp: dep_step_def Let_def split: if_splits option.splits)
qed

lemma enqueue_keeps: "newjob_enqueue i s = Inr s' \<Longrightarrow> keeps s s'"
proof -
  let ?q = "upd_user (user (active_jobs s ! i)) (\<lambda>u. u\<lparr>queue := queue u + 1\<rparr>)"
  assume "newjob_enqueue i s = Inr s'"
  then obtain t where "keeps s t" "s' = t \<or> ?q t = Inr s'"
    using keeps_set [of i s "(active_jobs s ! i)\<lparr>state := QUEUED\<rparr>"]
      keeps_DB(3) [of s "active_jobs s ! i" Jobs s]
    by (auto simp: newjob_enqueue_def Let_def simp del: keeps_DB split: if_splits) (use keeps_refl in blast)
  then show ?thesis using keeps_trans limit_keeps by blast
qed

lemma fill_keeps:
  assumes "newjob_fill sock m i u s = Inr (jid, s')" "i < length (active_jobs s)"
  shows "keeps s s'"
proof (cases "newjob_rejected u (active_jobs s ! i)")
  case True
  then show ?thesis
    using assms keeps_remove [OF assms(2)]
    by (auto simp: newjob_fill_def Let_def send_list_line_def remove_active_def keeps_def unbinds_def)
next
  case False
  then obtain p3 s4 p5 s6 where fl: "newjob_fields m s (active_jobs s ! i) = Inr p3"
    and d: "rfold (dep_step i) (m_depend_on m) (set_active i p3 s) = Inr s4"
    and pl: "newjob_payload m s4 (active_jobs s4 ! i) = Inr p5"
    and e: "newjob_enqueue i (set_active i p5 s4) = Inr s6" and s': "s' = emit (Db (Set_jobids (jobids s6))) s6"
    using assms(1) by (auto simp: newjob_fill_def Let_def rbind_eq_Inr)
  have "keeps s (set_active i p3 s)" using fields_cpu [OF fl] by (rule keeps_set)
  then have "keeps s s4"
    by (rule rfold_keeps [OF d, where P = "keeps s"]) (use dep_step_keeps keeps_trans in blast)
  moreover have "keeps s4 (set_active i p5 s4)" using payload_cpu [OF pl] by (rule keeps_set)
  ultimately show ?thesis using enqueue_keeps [OF e] keeps_trans s' by (metis keeps_emit)
qed

lemma s_newjob_healthy:
  assumes "s_newjob sock m uo s = Inr (jid, s')" "healthy b s" "0 < m_num_slots m"
  shows "healthy b s'"
proof -
  obtain usage s1 where u: "s_update_slots_usage s = Inr (usage, s1)"
    using assms(1) by (auto simp: s_newjob_def rbind_eq_Inr)
  obtain io s2 where sl: "newjob_slot sock m s1 = (io, s2)" by fastforce
  note h1 = usage_healthy [OF u assms(2)]
  have "keeps s1 s'"
  proof (cases io)
    case None
    then show ?thesis using assms(1) u sl slot_keeps [OF sl] by (simp add: s_newjob_def)
  next
    case (Some i)
    then obtain x where x: "the_user uo (owned_slot sock m uo i s2) = Inr x"
      and f: "newjob_fill sock m i x (owned_slot sock m uo i s2) = Inr (jid, s')"
      using assms(1) u sl by (auto simp: s_newjob_def Let_def rbind_eq_Inr)
    have "uo \<noteq> None" using x by (auto simp: the_user_def split: option.splits)
    then obtain k where "uo = Some k" "k < length (users_vec s2)"
      using x by (auto simp: the_user_def owned_slot_def set_active_def split: option.splits if_splits)
    then have "i < length (active_jobs (owned_slot sock m uo i s2))"
      using newjob_slot_ok(2) [OF healthyD(1) [OF h1] assms(3) sl [unfolded Some]]
      by (simp add: owned_slot_def set_active_def)
    then show ?thesis
      using keeps_trans [OF slot_keeps [OF sl] keeps_trans [OF owned_keeps fill_keeps [OF f]]] by blast
  qed
  then show ?thesis
    using keeps_healthy [OF h1] s_newjob_inv [OF assms(1) healthyD(1) [OF assms(2)] assms(3)] by blast
qed

section \<open>Running, ending and reconnecting\<close>

lemma runjob_ok_healthy: "healthy b s \<Longrightarrow> res_healthy b (s_process_runjob_ok jid oname pd s)"
proof (rule res_healthyI)
  fix s' assume h: "healthy b s" and r: "s_process_runjob_ok jid oname pd s = Inr s'"
  then obtain i where "on_active i (runjob_ok_body oname pd) s = Inr s'"
    by (auto simp: s_process_runjob_ok_def split: option.splits)
  then show "healthy b s'"
  proof (rule healthy_on_active [OF _ h])
    fix p p' s1
    assume p: "job_ok b (length (users_vec s)) p" "jobid p \<noteq> 0" "runjob_ok_body oname pd p s = Inr (p', s1)"
    show "moves b p s p' s1 \<and> job_ok b (length (users_vec s)) p' \<and> rebinds p s p' s1"
      using runjob_ok_moves [OF p(3)] same_job_moves same_job_ok p(1) runjob_ok_rebinds [OF p(3,2)] by blast
  qed
qed

lemma handle_runjob_healthy: "healthy b s \<Longrightarrow> res_healthy b (handle_runjob_ok i oname pd s)"
  by (auto simp: handle_runjob_ok_def runjob_ok_healthy split: option.splits)

lemma job_finished_healthy: "healthy b s \<Longrightarrow> res_healthy b (job_finished r jid s)"
proof (rule res_healthyI)
  fix s' assume h: "healthy b s" and r: "job_finished r jid s = Inr s'"
  then obtain i where i: "findjob_idx jid s = Some i" by (auto simp: job_finished_def split: option.splits if_splits)
  from job_finished_binds [OF healthyD(1,2) [OF h] i, of r] r
  have "bind_ok s'" "length (users_vec s') = length (users_vec s)" by simp_all
  then show "healthy b s'" using job_finished_ok [OF r healthyD(1) [OF h]] healthyD(3) [OF h] by (auto simp: healthy_def)
qed

lemma notify_loop_cpu: "notify_loop jid ns s = Inr s' \<Longrightarrow> cpu s' = cpu s"
proof (induction ns arbitrary: s jid)
  case (Cons n ns)
  from Cons.prems show ?case
    by (auto simp: Let_def rbind_eq_Inr destroy_finished_job_def dest!: Cons.IH split: if_splits option.splits)
qed simp

lemma check_notify_healthy: "healthy b s \<Longrightarrow> res_healthy b (check_notify_list jid s)"
  using healthy_same [of b s] check_notify_view notify_loop_cpu
  by (intro res_healthyI) (metis check_notify_list_def)

lemma upd_conn_healthy [simp]: "healthy b (upd_conn i f s) = healthy b s"
  by (simp add: upd_conn_def)

lemma handle_endjob_healthy: "healthy b s \<Longrightarrow> res_healthy b (handle_endjob i sock r s)"
  unfolding handle_endjob_def Let_def
  by (intro res_healthy_bind job_finished_healthy check_notify_healthy) simp_all

lemma handle_reconnect_healthy: "healthy b s \<Longrightarrow> res_healthy b (handle_reconnect i sock u jid cpid s)"
proof (rule res_keeps)
  fix s' assume r: "handle_reconnect i sock u jid cpid s = Inr s'"
  have snd: "keeps s t'" if "s_send_runjob k j t = Inr t'" "keeps s t" for k j t t'
    using that by (auto simp: s_send_runjob_def split: option.splits)
  have set: "keeps s (set_active k q (drop_old_owner i jid s))"
    if "get_job jid s = Some jp" "findjob_idx jid s = Some k" "cpu_alloc q = cpu_alloc jp" for jp k q
  proof -
    have "jp = active_jobs s ! k" using that by (simp add: get_job_def findjob_def)
    then have "keeps (drop_old_owner i jid s) (set_active k q (drop_old_owner i jid s))"
      using that(3) by (intro keeps_set) (simp add: drop_old_owner_def)
    then show ?thesis by (rule keeps_trans [rotated]) (simp add: drop_old_owner_def)
  qed
  show "keeps s s'"
    using r set by (auto simp: handle_reconnect_def Let_def upd_conn_def split: option.splits if_splits)
      (auto elim!: snd)
qed (use handle_reconnect_inv healthyD(1) in blast)+

section \<open>Removal\<close>

lemma defrag_start_bound:
  assumes "cpu_bind_defrag_start s = Inr s'" "bound H p (cpu s)"
  shows "bound H p (cpu s') \<and> active_jobs s' = active_jobs s"
proof (cases "\<not> TS_CPU_BIND (world s) \<or> \<not> cpu_bind_defrag_enabled (cpu s) \<or> allocs (cpu s) = []")
  case True
  then show ?thesis using assms by (auto simp: cpu_bind_defrag_start_def)
next
  case False
  have p: "cpu_ok (cpu s)" "sized_topo (topo (cpu s))" using assms(2) by (simp_all add: bound_def pool_ok_def)
  obtain moved c' where d: "defrag_compute (cpu s) = Inr (moved, c')" "cpu_ok c'" "mset (allocs c') = mset (allocs (cpu s))"
      "strip (topo c') = strip (topo (cpu s))"
    using defrag_compute_ok [OF p] by blast
  have "pool_ok c'" using pool_strip [of "cpu s" c'] d p by (simp add: pool_ok_def)
  moreover have "set (allocs c') = set (allocs (cpu s))" using d(3) mset_eq_setD by blast
  ultimately show ?thesis
    using False assms d(1) by (auto simp: cpu_bind_defrag_start_def bound_def split: option.splits if_splits)
qed

lemma retire_removed_binds:
  assumes "retire_removed j s = Inr s'" "num_allocated j = 0"
    "distinct (handles (active_jobs s))" "bound (set (handles (active_jobs s))) j (cpu s)"
  shows "bind_ok s'"
proof (cases "pid j = 0")
  case True
  then show ?thesis using assms by (auto simp: retire_removed_def bind_ok_def bound_def split: option.splits)
next
  case False
  let ?H = "set (handles (active_jobs s))"
  obtain p1 p2 s2 p3 s3 s4 where f: "free_cores p1 s = Inr (p2, s2)" "num_allocated p1 = 0" "cpu_alloc p1 = cpu_alloc j"
    and d: "detach_cpus p2 (cgroups_clean_job p2 s2) = Inr (p3, s3)" and g: "cpu_bind_defrag_start s3 = Inr s4"
    and n: "new_finished_job p3 s4 = Inr s'"
    using assms(1,2) False by (auto simp: retire_removed_def Let_def rbind_eq_Inr)
  have s2: "s2 = s" "p2 = p1" using f(1,2) by (simp_all add: free_cores_def)
  have "bound ?H p2 (cpu (cgroups_clean_job p2 s2))" using assms(4) f(3) s2 bound_cong [of p1 j] by simp
  from detach_binds [OF this] d have b3: "bound ?H p3 (cpu s3)" by simp
  have a3: "active_jobs s3 = active_jobs s"
    using same_counters_view [OF detach_cpus_same(2) [OF d]] same_counters_view [OF clean_same] s2 by (simp add: view_def)
  from defrag_start_bound [OF g b3] have b4: "bound ?H p3 (cpu s4)" "active_jobs s4 = active_jobs s" using a3 by simp_all
  from new_finished_binds [of s4 p3] assms(3) b4 n show ?thesis by simp
qed

lemma remove_at_queue_healthy:
  assumes "remove_at (In_active i) s = Inr s'" "healthy b s" "i < length (active_jobs s)"
    "state (active_jobs s ! i) \<noteq> RUNNING" "num_allocated (active_jobs s ! i) = 0"
  shows "healthy b s'"
proof -
  define p where "p = (active_jobs s ! i)\<lparr>state := FINISHED, result := (result (active_jobs s ! i))\<lparr>errorlevel := - 1\<rparr>\<rparr>"
  define s0 where "s0 = set_active i p (delete_DB (jobid p) Jobs s)"
  obtain s2 where c: "check_notify_list (jobid p) (notify_errorlevel p s0) = Inr s2"
    and t: "retire_removed (active_jobs s2 ! i) (remove_active i s2) = Inr s'"
    using assms(1)
    by (auto simp: remove_at_def drop_at_def job_at_def set_job_at_def Let_def rbind_eq_Inr p_def s0_def)
  have a: "active_jobs s2 = active_jobs (notify_errorlevel p s0)" using check_notify_view [OF c] by (simp add: view_def)
  have "cpu s2 = cpu s" "map cpu_alloc (active_jobs s2) = map cpu_alloc (active_jobs s)"
    using notify_loop_cpu [OF c [unfolded check_notify_list_def]] assms(3) a
    by (simp_all add: notify_errorlevel_cpu s0_def set_active_def delete_DB_def map_update list_update_same_conv p_def)
  from bind_ok_unbinds [OF healthyD(2) [OF assms(2)] unbinds_same [OF this]] have b2: "bind_ok s2" .
  have keys: "map acct_key (active_jobs s2) = map acct_key ((active_jobs s)[i := p])"
    using notify_errorlevel_keys [of p s0] a by (simp add: s0_def set_active_def delete_DB_def)
  have i2: "i < length (active_jobs s2)" using arg_cong [OF keys, of length] assms(3) by simp
  have "acct_key (active_jobs s2 ! i) = acct_key p" using arg_cong [OF keys, of "\<lambda>xs. xs ! i"] i2 assms(3) by simp
  then have n2: "num_allocated (active_jobs s2 ! i) = 0" using assms(5) by (simp add: acct_key_def p_def)
  have "distinct (handles (active_jobs (remove_active i s2)))"
    using bind_ok_unbinds [OF b2 unbinds_remove [OF i2]] by (simp add: bind_ok_def)
  then have "bind_ok s'"
    using retire_removed_binds [OF t n2] bind_ok_bound [OF b2 i2] by (simp add: remove_active_def)
  moreover have "srv_ok b s'" using remove_at_queue_ok [OF assms(1) healthyD(1) [OF assms(2)] assms(3-5)] .
  moreover have "length (users_vec s') = length (users_vec s)"
  proof -
    have "view s' = view (remove_active i s2)" using retire_removed_view [OF t n2] .
    then have "length (users_vec s') = length (users_vec s2)" by (auto simp: view_def remove_active_def dest: map_eq_imp_length_eq)
    moreover have "length (users_vec s2) = length (users_vec (notify_errorlevel p s0))"
      using check_notify_view [OF c] by (auto simp: view_def dest: map_eq_imp_length_eq)
    ultimately show ?thesis by (simp add: notify_errorlevel_keys s0_def set_active_def delete_DB_def)
  qed
  ultimately show ?thesis using healthyD(3) [OF assms(2)] by (auto simp: healthy_def)
qed

lemma remove_at_finished_healthy:
  assumes "remove_at (In_finished i) s = Inr s'" "healthy b s"
  shows "healthy b s'"
proof -
  define p where "p = (finished_jobs s ! i)\<lparr>state := FINISHED, result := (result (finished_jobs s ! i))\<lparr>errorlevel := - 1\<rparr>\<rparr>"
  define s0 where "s0 = (delete_DB (jobid p) Jobs s)\<lparr>finished_jobs := (finished_jobs s)[i := p]\<rparr>"
  obtain s2 where c: "check_notify_list (jobid p) (notify_errorlevel p s0) = Inr s2"
    and t: "drop_at (In_finished i) (jobid p) (length (finished_jobs (notify_errorlevel p s0))) s2 = Inr s'"
    using assms(1)
    by (auto simp: remove_at_def job_at_def set_job_at_def Let_def rbind_eq_Inr p_def s0_def delete_DB_def)
  have "active_jobs s' = active_jobs s2" "cpu s' = cpu s2" "users_vec s' = users_vec s2"
    using t by (auto simp: drop_at_def delete_DB_def split: if_splits)
  moreover have "view s2 = view (notify_errorlevel p s0)" using check_notify_view [OF c] .
  moreover have "cpu s2 = cpu s"
    using notify_loop_cpu [OF c [unfolded check_notify_list_def]] by (simp add: notify_errorlevel_cpu s0_def delete_DB_def)
  ultimately have "cpu s' = cpu s" "map cpu_alloc (active_jobs s') = map cpu_alloc (active_jobs s)"
      "length (users_vec s') = length (users_vec s)"
    by (auto simp: view_def notify_errorlevel_cpu notify_errorlevel_keys s0_def delete_DB_def dest!: map_eq_imp_length_eq [of _ "users_vec s2"])
  then have "bind_ok s'" "users_vec s' \<noteq> []"
    using bind_ok_unbinds [OF healthyD(2) [OF assms(2)] unbinds_same] healthyD(3) [OF assms(2)] by auto
  then show ?thesis using remove_at_finished_ok [OF assms(1) healthyD(1) [OF assms(2)]] by (simp add: healthy_def)
qed

lemma s_remove_job_healthy:
  assumes "s_remove_job sock jid client s = Inr (r, s')" "healthy b s"
  shows "healthy b s'"
proof -
  have nok: "healthy b (s_send_removejob_nok sock l s)" for l using assms(2) by (simp add: s_send_removejob_nok_def)
  consider l where "s' = s_send_removejob_nok sock l s"
    | pl s1 where "remove_refusal jid client s = Inr None" "remove_target jid s = Some pl" "remove_at pl s = Inr s1"
        "healthy b s' = healthy b s1"
    using assms(1) by (auto simp: s_remove_job_def rbind_eq_Inr split: if_splits option.splits)
  then show ?thesis
  proof cases
    case 2
    show ?thesis
    proof (cases pl)
      case (In_active i)
      then show ?thesis
        using 2 remove_at_queue_healthy [OF _ assms(2)] removable_parked [OF 2(1) _ healthyD(1) [OF assms(2)], of i] by simp
    qed (use 2 remove_at_finished_healthy [OF _ assms(2)] in simp)
  qed (use nok in simp)
qed

section \<open>Queries and reordering\<close>

lemma healthy_perm: "healthy b s \<Longrightarrow> srv_ok b s' \<Longrightarrow> cpu s' = cpu s \<Longrightarrow> users_vec s' = users_vec s
  \<Longrightarrow> mset (active_jobs s') = mset (active_jobs s) \<Longrightarrow> healthy b s'"
  using keeps_healthy [of b s s'] unbinds_perm [of s' s] by (simp add: keeps_def)

lemma send_lines_healthy [simp]: "healthy b (send_lines sock ls s) = healthy b s"
  unfolding send_lines_def by (induction ls arbitrary: s) simp_all

lemma move_urgent_healthy:
  assumes "healthy b s"
  shows "healthy b (s_move_urgent sock jid s)"
proof (rule healthy_perm [OF assms])
  show "srv_ok b (s_move_urgent sock jid s)" using healthyD(1) [OF assms] by simp
  have "mset (insert_nth 0 (active_jobs s ! i) (remove_nth i (active_jobs s))) = mset (active_jobs s)"
    if "findjob_idx jid s = Some i" for i
    using findjob_idx_bound [OF that] mset_remove_nth [of i "active_jobs s"] by (simp add: insert_nth_def)
  then show "mset (active_jobs (s_move_urgent sock jid s)) = mset (active_jobs s)"
    by (auto simp: s_move_urgent_def Let_def send_list_line_def split: option.splits)
qed (use assms in \<open>auto simp: s_move_urgent_def Let_def send_list_line_def healthy_def split: option.splits\<close>)

lemma swap_jobs_healthy:
  assumes "healthy b s"
  shows "healthy b (s_swap_jobs sock j1 j2 s)"
proof (rule healthy_perm [OF assms])
  show "srv_ok b (s_swap_jobs sock j1 j2 s)" using healthyD(1) [OF assms] by simp
  have "mset ((active_jobs s)[i := active_jobs s ! j, j := active_jobs s ! i]) = mset (active_jobs s)"
    if "findjob_idx j1 s = Some i" "findjob_idx j2 s = Some j" for i j
    using findjob_idx_bound [OF that(1)] findjob_idx_bound [OF that(2)] by (simp add: mset_swap)
  then show "mset (active_jobs (s_swap_jobs sock j1 j2 s)) = mset (active_jobs s)"
    by (auto simp: s_swap_jobs_def send_list_line_def split: option.splits)
qed (use assms in \<open>auto simp: s_swap_jobs_def send_list_line_def healthy_def split: option.splits\<close>)

lemma maybe_sort_healthy:
  assumes "healthy b s"
  shows "healthy b (maybe_sort s)"
proof (rule healthy_perm [OF assms])
  show "srv_ok b (maybe_sort s)" using healthyD(1) [OF assms] by simp
  show "mset (active_jobs (maybe_sort s)) = mset (active_jobs s)"
    by (simp add: maybe_sort_def s_sort_jobs_def multiset_partition [of "mset (active_jobs s)" "\<lambda>p. state p = RUNNING", symmetric] mset_filter)
qed (use assms in \<open>auto simp: maybe_sort_def s_sort_jobs_def healthy_def\<close>)

lemma healthy_keeps: "healthy b s \<Longrightarrow> srv_ok b s' = srv_ok b s \<Longrightarrow> keeps s s' \<Longrightarrow> healthy b s'"
  using keeps_healthy healthyD(1) by blast

lemma add_wtime_healthy: "healthy b s \<Longrightarrow> healthy b (s_add_wtime sock jid w s)"
  by (erule healthy_keeps)
    (simp, auto simp: s_add_wtime_def Let_def intro!: keeps_set split: option.splits)

lemma clear_finished_healthy [simp]: "healthy b (s_clear_finished u s) = healthy b s"
proof -
  have "healthy b (foldl (\<lambda>s i. clear_one u i s) s is) = healthy b s" for s "is"
    by (induction "is" arbitrary: s) (simp_all add: clear_one_def Let_def delete_DB_def)
  then show ?thesis by (simp add: s_clear_finished_def)
qed

lemma kill_all_healthy [simp]: "healthy b (s_kill_all_jobs sock u s) = healthy b s"
proof -
  have "healthy b (foldl (\<lambda>s p. if state p = RUNNING \<and> sees u p then emit (Send sock (RAW_PID (pid p))) s else s) s ps)
      = healthy b s" for s ps
    by (induction ps arbitrary: s) simp_all
  then show ?thesis by (simp add: s_kill_all_jobs_def s_count_running_jobs_def)
qed

lemma wait_for_healthy [simp]: "healthy b (wait_for sock jid p s) = healthy b s"
  by (simp add: wait_for_def send_waitjob_ok_def add_to_notify_list_def split: option.splits)

lemma simple_queries_healthy [simp]:
  "healthy b (s_send_last_id sock s) = healthy b s"
  "healthy b (s_wait_job sock j s) = healthy b s" "healthy b (s_count_running_jobs sock u s) = healthy b s"
  "healthy b (s_set_max_slots sock k s) = healthy b s" "healthy b (s_get_max_slots sock s) = healthy b s"
  "healthy b (s_send_state sock j s) = healthy b s" "healthy b (s_send_version sock s) = healthy b s"
  by (simp_all add: s_send_last_id_def no_job_def s_wait_job_def s_count_running_jobs_def
      s_set_max_slots_def s_get_max_slots_def s_send_state_def s_send_version_def Let_def split: option.splits)

lemma thaw_healthy: "healthy b s \<Longrightarrow> healthy b (cgroups_thaw_job p s)"
  by (erule healthy_same) (simp_all add: same_counters_view [OF thaw_same])

lemma fallible_queries_healthy:
  assumes "healthy b s"
  shows "res_healthy b (s_send_cmd sock j s)" "res_healthy b (s_get_label sock j s)"
    "res_healthy b (s_send_output sock j s)"
    "res_healthy b (s_wait_running_job sock j s)" "res_healthy b (s_job_info sock j s)"
  using assms thaw_healthy [OF assms]
  by (auto simp: s_send_cmd_def s_get_label_def s_send_output_def s_wait_running_job_def s_job_info_def no_job_def output_answer_def
      Let_def intro!: res_healthy_any split: option.splits)

lemma s_list_healthy: "healthy b s \<Longrightarrow> res_healthy b (s_list sock u fmt jid s)"
  unfolding s_list_def using usage_healthy
  by (auto simp: list_default_def Let_def intro!: res_healthy_any status_healthy status_all_healthy split: list_format.splits)

lemma env_requests_healthy:
  assumes "healthy b s"
  shows "res_healthy b (s_get_env sock v s)" "res_healthy b (s_set_env v s)" "res_healthy b (s_unset_env v s)"
    "healthy b (s_get_logdir sock s)" "healthy b (s_set_logdir d s)"
  using assms
  by (auto simp: s_get_env_def s_set_env_def s_unset_env_def s_get_logdir_def s_set_logdir_def set_getenv_def
      intro!: res_healthy_any split: option.splits list.splits)

lemma pool_switch [simp]:
  "pool_ok (cpu_bind_set_disabled x c) = pool_ok c" "pool_ok (cpu_bind_set_defrag_disabled x c) = pool_ok c"
  "allocs (cpu_bind_set_disabled x c) = allocs c" "allocs (cpu_bind_set_defrag_disabled x c) = allocs c"
  by (simp_all add: pool_ok_def cpu_bind_set_disabled_def cpu_bind_set_defrag_disabled_def cpu_ok_def tables_ok_def
      counts_ok_def group_at_def node_at_def alloc_ok_def cpus_of_def)

lemma bind_switch_healthy: "healthy b s \<Longrightarrow> healthy b (s\<lparr>cpu := cpu_bind_set_disabled x (cpu s)\<rparr>)"
  by (simp add: healthy_def bind_ok_def)

section \<open>Connections\<close>

lemma s_delete_job_healthy: "healthy b s \<Longrightarrow> res_ok b (s_delete_job jid s) \<Longrightarrow> res_healthy b (s_delete_job jid s)"
  using s_delete_job_binds [of jid s] by (auto simp: res_healthy_def res_ok_def healthy_def)

lemma remove_connection_healthy: "healthy False s \<Longrightarrow> res_healthy False (remove_connection i s)"
  unfolding remove_connection_def
  by (auto intro!: res_healthy_bind s_delete_job_healthy intro: res_okI s_delete_job_ok dest: healthyD(1))

lemma close_connection_healthy: "healthy False s \<Longrightarrow> res_healthy False (close_connection i sock s)"
  by (simp add: close_connection_def remove_connection_healthy)

lemma kill_orphan_healthy [simp]: "healthy b (kill_orphan p s) = healthy b s"
  by (simp add: kill_orphan_def Let_def)

lemma orphaned_job_healthy: "healthy b s \<Longrightarrow> res_healthy b (orphaned_job jid s)"
proof -
  assume h: "healthy b s"
  show ?thesis
  proof (cases "findjob jid s")
    case (Some p)
    show ?thesis
    proof (cases "state p = RUNNING \<or> state p = PAUSE")
      case True
      then show ?thesis
        using Some h by (auto simp: orphaned_job_def intro!: res_healthy_bind job_finished_healthy check_notify_healthy)
    next
      case False
      then have "\<not> job_is_running jid s" using Some by (simp add: job_is_running_def job_is_in_state_def)
      then show ?thesis
        using Some False s_delete_job_ok [OF _ healthyD(1) [OF h], of jid] s_delete_job_healthy [OF h, of jid]
        by (simp add: orphaned_job_def res_ok_def)
    qed
  qed (use h in \<open>simp add: orphaned_job_def\<close>)
qed

lemma remove_notification_healthy: "healthy b s \<Longrightarrow> healthy b (s_remove_notification sock s)"
  by (erule healthy_same) simp_all

lemma clean_after_healthy: "healthy False s \<Longrightarrow> res_healthy False (clean_after_client_disappeared sock i s)"
  unfolding clean_after_client_disappeared_def
  by (auto intro!: res_healthy_bind orphaned_job_healthy close_connection_healthy remove_notification_healthy)

lemma remove_queues_healthy: "healthy False s \<Longrightarrow> res_healthy False (remove_queues_loop u i s)"
proof (induction u i s rule: remove_queues_loop.induct)
  case (1 u i s)
  show ?case
  proof (cases "i < length (client_cs s) \<and> (u = Some 0 \<or> c_user (client_cs s ! i) = u)
      \<and> \<not> job_is_running (c_jobid (client_cs s ! i)) s")
    case True
    then have "res_healthy False (rbind (clean_after_client_disappeared (socket (client_cs s ! i)) i s) (remove_queues_loop u i))"
      using 1 res_healthyD [OF clean_after_healthy [OF "1.prems"]] by (intro res_healthy_any) blast
    then show ?thesis using True by (subst remove_queues_loop.simps) (simp add: Let_def)
  next
    case False
    then show ?thesis using 1 by (subst remove_queues_loop.simps) (auto simp: Let_def)
  qed
qed

lemma drop_connections_healthy: "healthy b s \<Longrightarrow> res_healthy b (drop_connections_of jid n i s)"
  by (induction n arbitrary: i s)
    (auto simp: Let_def remove_connection_def upd_conn_def intro!: res_healthy_bind)

section \<open>Handlers\<close>

lemma timeout_unlock_healthy: "healthy b s \<Longrightarrow> res_healthy b (timeout_unlock s)"
  by (auto simp: timeout_unlock_def Let_def intro!: res_healthy_any split: option.splits)

lemma check_locker_healthy: "s_check_locker u s = (r, s') \<Longrightarrow> healthy b s' = healthy b s"
  by (auto simp: s_check_locker_def Let_def split: if_splits)

lemma newjob_answers_healthy: "healthy b s \<Longrightarrow> res_healthy b (s_newjob_ok i s)" "healthy b s \<Longrightarrow> res_healthy b (s_newjob_nok i s)"
  by (simp_all add: s_newjob_ok_def s_newjob_nok_def)

lemma answer_newjob_healthy: "healthy False s \<Longrightarrow> res_healthy False (answer_newjob i sock m jid s)"
  unfolding answer_newjob_def Let_def by (auto intro!: res_healthy_bind newjob_answers_healthy clean_after_healthy)

lemma handle_newjob_healthy:
  assumes "healthy False s" "0 < m_num_slots m"
  shows "res_healthy False (handle_newjob i sock m u s)"
proof -
  obtain r s0 where c: "s_check_locker u s = (r, s0)" by fastforce
  have h: "healthy False s0" using check_locker_healthy [OF c] assms(1) by simp
  show ?thesis
    using h s_newjob_healthy [OF _ h assms(2)] by (auto simp: handle_newjob_def c intro!: res_healthy_any answer_newjob_healthy)
qed

lemma handle_removejob_healthy: "healthy b s \<Longrightarrow> res_healthy b (handle_removejob sock u jid s)"
  unfolding handle_removejob_def using s_remove_job_healthy
  by (auto intro!: res_healthy_any drop_connections_healthy split: option.splits)

lemma handle_list_healthy: "healthy False s \<Longrightarrow> res_healthy False (handle_list i sock u fmt jid s)"
  unfolding handle_list_def by (intro res_healthy_bind s_list_healthy close_connection_healthy)

lemma handle_kill_all_healthy: "healthy False s \<Longrightarrow> res_healthy False (handle_kill_all i sock u fmt jid s)"
  unfolding handle_kill_all_def s_remove_all_queues_def
  by (intro res_healthy_bind remove_queues_healthy handle_list_healthy) simp_all

lemmas handlers_healthy = close_connection_healthy s_refresh_users_healthy s_lock_server_healthy s_unlock_server_healthy
  s_hold_job_healthy s_cont_job_healthy s_requeue_job_healthy handle_suspend_healthy handle_resume_healthy
  handle_newjob_healthy handle_runjob_healthy handle_kill_all_healthy handle_list_healthy fallible_queries_healthy
  env_requests_healthy handle_reconnect_healthy handle_endjob_healthy handle_removejob_healthy add_wtime_healthy
  maybe_sort_healthy move_urgent_healthy swap_jobs_healthy bind_switch_healthy

lemma handle_user_msg_healthy:
  assumes "handle_user_msg i sock u m s = Some r" "healthy False s" "valid_msg m"
  shows "res_healthy False r"
proof -
  have close: "res_healthy False (rbind q (close_connection i sock))" if "res_healthy False q" for q
    using that close_connection_healthy by (rule res_healthy_bind)
  show ?thesis
    using assms by (cases m) (auto simp: handle_user_msg_def valid_msg_def Let_def intro!: close handlers_healthy)
qed

lemma handle_query_msg_healthy:
  assumes "handle_query_msg i sock u m s = Some r" "healthy False s"
  shows "res_healthy False r"
  using assms
  by (cases m) (auto simp: handle_query_msg_def handle_urgent_def handle_swap_def Let_def intro!: handlers_healthy split: if_splits)

lemma client_read_healthy:
  assumes "client_read i mo s = Inr (k, s')" "healthy False s" "\<forall>m. mo = Some m \<longrightarrow> valid_msg m"
  shows "healthy False s'"
proof (cases mo)
  case None
  then show ?thesis
    using assms(1) res_healthyD [OF clean_after_healthy [OF assms(2)]] by (auto simp: client_read_def Let_def rbind_eq_Inr)
next
  case (Some m)
  then obtain s1 where t: "timeout_unlock s = Inr s1" using assms(1) by (auto simp: client_read_def Let_def rbind_eq_Inr)
  note h1 = res_healthyD [OF timeout_unlock_healthy [OF assms(2)] t]
  show ?thesis
    using assms(1,3) Some t h1 handle_user_msg_healthy [OF _ h1] handle_query_msg_healthy [OF _ h1] res_healthyD
    by (fastforce simp: client_read_def Let_def rbind_eq_Inr split: if_splits option.splits)
qed

section \<open>One turn of the server\<close>

lemma accept_healthy [simp]: "healthy b (accept_connection sock peer stale s) = healthy b s"
  by (simp add: accept_connection_def split: option.splits)

lemma serve_healthy:
  "serve n ready i (keep, s) = Inr (keep', s') \<Longrightarrow> healthy False s \<Longrightarrow> valid_ready ready \<Longrightarrow> healthy False s'"
proof (induction n arbitrary: i keep s)
  case (Suc n)
  show ?case
  proof (cases "i < length (client_cs s) \<and> ready (socket (client_cs s ! i)) \<noteq> None")
    case True
    then obtain mo where mo: "ready (socket (client_cs s ! i)) = Some mo" by blast
    then obtain k s1 where c: "client_read i mo s = Inr (k, s1)"
      using Suc.prems(1) True by (auto simp: rbind_eq_Inr)
    have "\<forall>m. mo = Some m \<longrightarrow> valid_msg m" using Suc.prems(3) mo by (auto simp: valid_ready_def)
    note h1 = client_read_healthy [OF c Suc.prems(2) this]
    show ?thesis
    proof (cases k)
      case CLOSE
      then obtain s2 where s2: "clean_after_client_disappeared (socket (client_cs s1 ! i)) i s1 = Inr s2"
        and r: "serve n ready (Suc i) (keep, s2) = Inr (keep', s')"
        using Suc.prems(1) True mo c by (auto simp: rbind_eq_Inr)
      show ?thesis using Suc.IH [OF r res_healthyD [OF clean_after_healthy [OF h1] s2] Suc.prems(3)] .
    qed (use Suc.prems True mo c Suc.IH [OF _ h1] in auto)
  qed (use Suc in \<open>auto split: if_splits\<close>)
qed simp

text \<open>The work of a turn after the messages always completes.\<close>

lemma health_tick_returns: "healthy b s \<Longrightarrow> returns (health_tick s) (healthy b)"
  using s_check_running_health_returns [of b "s\<lparr>health_ticks := 0\<rparr>"] by (simp add: health_tick_def)

lemma orphan_tick_returns: "healthy b s \<Longrightarrow> returns (orphan_tick s) (healthy b)"
  using s_cleanup_orphan_returns [of b s] by (auto simp: orphan_tick_def returns_iff)

definition turn_end :: "srv \<Rightarrow> srv res" where
  "turn_end s = rbind (health_tick s) (\<lambda>s3. rbind (orphan_tick s3) (\<lambda>s4.
     rbind (next_run_job s4) (\<lambda>(d, s5). Inr (s_check_holdon s5))))"

lemma turn_end_returns:
  assumes "healthy b s"
  shows "returns (turn_end s) (healthy b)"
proof -
  obtain s3 where 3: "health_tick s = Inr s3" "healthy b s3" using health_tick_returns [OF assms] by (auto simp: returns_iff)
  obtain s4 where 4: "orphan_tick s3 = Inr s4" "healthy b s4" using orphan_tick_returns [OF 3(2)] by (auto simp: returns_iff)
  obtain d s5 where "next_run_job s4 = Inr (d, s5)" "healthy b s5"
    using next_run_job_returns [OF 4(2)] by (auto simp: returns_iff)
  then show ?thesis using 3 4 s_check_holdon_healthy by (simp add: turn_end_def)
qed

lemma server_turn_split:
  "server_turn acc ready s =
     (let s1 = (case acc of None \<Rightarrow> s | Some (sock, peer, stale) \<Rightarrow> accept_connection sock peer stale s)
      in rbind (serve (length (client_cs s1)) ready 0 (True, s1)) (\<lambda>(keep, s2).
         rbind (turn_end s2) (\<lambda>s5. Inr (keep, s5))))"
  by (simp add: server_turn_def turn_end_def Let_def rbind_def split: option.splits sum.splits prod.splits)

lemma server_turn_healthy:
  assumes "server_turn acc ready s = Inr (keep, s')" "healthy False s" "valid_ready ready"
  shows "healthy False s'"
proof -
  define s1 where "s1 = (case acc of None \<Rightarrow> s | Some (sock, peer, stale) \<Rightarrow> accept_connection sock peer stale s)"
  have h1: "healthy False s1" using assms(2) by (simp add: s1_def split: option.splits prod.splits)
  obtain k s2 where sv: "serve (length (client_cs s1)) ready 0 (True, s1) = Inr (k, s2)" and e: "turn_end s2 = Inr s'"
    using assms(1) by (auto simp: server_turn_split Let_def rbind_eq_Inr simp flip: s1_def)
  from turn_end_returns [OF serve_healthy [OF sv h1 assms(3)]] e show ?thesis by simp
qed

section \<open>The start\<close>

lemma read_user_file_world:
  assumes "read_user_file s = Inr s'"
  shows "world s' = world s"
proof -
  have "world (read_user_line s l) = world s" for s l
    by (auto simp: read_user_line_def s_set_max_slots_def Let_def send_list_line_def split: user_file_line.splits option.splits)
  then have "world (foldl read_user_line s ls) = world s" for s ls by (induction ls arbitrary: s) simp_all
  then show ?thesis using assms by (auto simp: read_user_file_def split: option.splits)
qed

lemma init_pool: "wf_topo (topo c) \<Longrightarrow> sized_topo (topo c) \<Longrightarrow> pool_ok (cpu_bind_init c)"
  using cpu_bind_init_ok [of c] sized_strip [of "topo (cpu_bind_init c)" "topo c"]
  by (simp add: pool_ok_def cpu_bind_init_def reset_topo)

lemma set_max_slots_world [simp]: "world (s_set_max_slots sock n s) = world s" "cpu (s_set_max_slots sock n s) = cpu s"
  by (simp_all add: s_set_max_slots_def send_list_line_def Let_def)

lemma boot_settings_pool:
  assumes "cpu_start (world s) (cpu s)"
  shows "pool_ok (cpu (boot_settings bt s))"
proof -
  let ?s = "cap_users (set_default_maxslots s)"
  have s: "cpu ?s = cpu s" "world ?s = world s"
    by (simp_all add: cap_users_def set_default_maxslots_def split: option.splits)
  have "pool_ok (cpu s)" if "\<not> TS_CPU_BIND (world s)" using assms that by (simp add: cpu_start_def pool_ok_def)
  moreover have "pool_ok (cpu_bind_init (cpu s))" using assms init_pool by (simp add: cpu_start_def)
  ultimately have "pool_ok (cpu (boot_cpu bt ?s))" by (simp add: boot_cpu_def s Let_def)
  then show ?thesis by (simp add: boot_settings_def boot_jobids_def)
qed

lemma s_add_job_returns:
  assumes "restorable (length (users_vec s)) [j]"
  shows "returns (s_add_job j s) (\<lambda>s'. length (users_vec s') = length (users_vec s) \<and> keeps s s')"
proof -
  obtain u where u: "u < length (users_vec s)" "user j = Some u" and st: "state j = PAUSE \<or> state j = QUEUED \<or> state j = LOCKED"
    and c: "cpu_alloc j = None"
    using assms by (auto simp: restorable_def)
  have push: "keeps t (restore_push j' t) \<and> users_vec (restore_push j' t) = users_vec t" if "cpu_alloc j' = None" for j' t
    using that keeps_push [of "j'\<lparr>client_socket := 0\<rparr>" t] by (simp add: restore_push_def push_active_def keeps_def unbinds_def)
  obtain s1 where s1: "upd_user (user j) (\<lambda>u. u\<lparr>queue := queue u + 1\<rparr>) s = Inr s1" using u by (auto simp: upd_user_def)
  have l: "length (users_vec s1) = length (users_vec s)" using s1 by (auto simp: upd_user_eq)
  have q: "keeps s (restore_push j s1)" "length (users_vec (restore_push j s1)) = length (users_vec s)"
    using keeps_trans [OF limit_keeps [OF s1]] push [of j s1] c l by auto
  have p: "keeps s (restore_paused j s)" "length (users_vec (restore_paused j s)) = length (users_vec s)"
    using push [of "j\<lparr>state := PAUSE, info := x\<rparr>" s for x] c by (simp_all add: restore_paused_def)
  show ?thesis using st u s1 p q by (auto simp: s_add_job_def)
qed

lemma restore_all_returns:
  assumes "restorable (length (users_vec s)) jobs"
  shows "returns (rfold s_add_job jobs s) (\<lambda>s'. length (users_vec s') = length (users_vec s) \<and> keeps s s')"
  using assms
proof (induction jobs arbitrary: s)
  case (Cons j jobs)
  have "restorable (length (users_vec s)) [j]" using Cons.prems by (simp add: restorable_def)
  from s_add_job_returns [OF this] obtain s1 where s1: "s_add_job j s = Inr s1"
    "length (users_vec s1) = length (users_vec s)" "keeps s s1" by (auto simp: returns_iff)
  have "restorable (length (users_vec s1)) jobs" using Cons.prems s1(2) by (simp add: restorable_def)
  from Cons.IH [OF this] show ?case using s1 keeps_trans by (auto simp: returns_iff)
qed simp

lemma healthy_only_out:
  assumes "only_out s s'" "healthy b s"
  shows "healthy b s'"
proof -
  obtain evs where s': "s' = s\<lparr>out := evs\<rparr>" using assms(1) unfolding only_out_def by blast
  have "view s' = view s" unfolding s' by (simp add: view_def)
  then have v: "srv_ok b s' = srv_ok b s" by (rule srv_ok_view)
  have "cpu s' = cpu s" "active_jobs s' = active_jobs s" "users_vec s' = users_vec s" unfolding s' by simp_all
  then show ?thesis using assms(2) v unfolding healthy_def bind_ok_def by presburger
qed

text \<open>With a readable user file and a consistent table of jobs the server comes up.\<close>

lemma server_main_returns:
  assumes "user_file w \<noteq> None" "cpu_start w c"
    "\<forall>s1. read_user_file (zero_server w (d - 5) c) = Inr s1 \<longrightarrow> restorable (length (users_vec s1)) jobs"
    "all_ended (cgroup_dirs bt)"
  shows "returns (server_main bt w d c jobs finished) (healthy True)"
proof -
  let ?z = "zero_server w (d - 5) c"
  have "world ?z = w" "cpu ?z = c" by (simp_all add: zero_server_def)
  then obtain s1 where r: "read_user_file ?z = Inr s1" using assms(1) by (auto simp: read_user_file_def)
  define t where "t = boot_settings bt s1"
  note b = boot_settings_idle [OF r, of bt, folded t_def]
  have "pool_ok (cpu t)"
    unfolding t_def by (rule boot_settings_pool) (simp add: read_user_file_world [OF r] read_user_file_cpu [OF r] assms(2)
      \<open>world ?z = w\<close> \<open>cpu ?z = c\<close>)
  then have bt: "bind_ok t" using b(2) by (simp add: bind_ok_def)
  have ne: "users_vec t \<noteq> []"
  proof -
    have "length (users_vec ?z) \<le> length (users_vec s1)"
      using read_user_file_ext [OF r] by (metis users_ext_def length_append length_map le_add1)
    then show ?thesis using b(4) by (auto simp: zero_server_def)
  qed
  have ok: "srv_ok True t" using b by (auto simp: srv_ok_def acct_def ids_ok_def idle_def)
  have rest: "restorable (length (users_vec t)) jobs" using assms(3) r b(4) by simp
  obtain s2 where q: "rfold s_add_job jobs t = Inr s2" "length (users_vec s2) = length (users_vec t)" "keeps t s2"
    using restore_all_returns [OF rest] by (auto simp: returns_iff)
  have "srv_ok True s2" using restore_all_ok [OF q(1) ok rest] b(2) by simp
  moreover have "bind_ok s2" using bind_ok_unbinds [OF bt] q(3) by (simp add: keeps_def)
  moreover have "users_vec s2 \<noteq> []" using q(2) ne by auto
  ultimately have "healthy True (s2\<lparr>finished_jobs := finished_jobs s2 @ finished\<rparr>)" by (simp add: healthy_def bind_ok_def)
  from s_update_slots_usage_returns [OF this] obtain usage s3 where
    u: "s_update_slots_usage (s2\<lparr>finished_jobs := finished_jobs s2 @ finished\<rparr>) = Inr (usage, s3)" "healthy True s3"
    by (auto simp: returns_iff)
  have "returns (cgroups_restore_all_cpu_bind (cgroup_dirs bt) s3) (healthy True)"
    using restore_ended [OF assms(4), of s3] by (rule returns_mono) (rule healthy_only_out [OF _ u(2)])
  then show ?thesis using r q(1) u by (simp add: server_main_def s_read_sqlite_def t_def)
qed

section \<open>Reachable states\<close>

lemma healthy_weaken: "healthy True s \<Longrightarrow> healthy False s"
  using srv_ok_weaken by (simp add: healthy_def)

interpretation binding: invariant_of server_start server_step "healthy False"
proof
  fix s assume "server_start s"
  then obtain bt w d c jobs finished where m: "server_main bt w d c jobs finished = Inr s" and c: "cpu_start w c"
    and e: "all_ended (cgroup_dirs bt)" and r: "\<forall>s1. read_user_file (zero_server w (d - 5) c) = Inr s1 \<longrightarrow> restorable (length (users_vec s1)) jobs"
    by (auto simp: server_start_def)
  have "user_file w \<noteq> None"
    using m by (auto simp: server_main_def rbind_eq_Inr read_user_file_def zero_server_def split: option.splits)
  from server_main_returns [OF this c r e, of finished] m show "healthy False s" using healthy_weaken by simp
next
  show "server_step l s s' \<Longrightarrow> healthy False s \<Longrightarrow> healthy False s'" for l s s'
    by (erule server_stepE) (use server_turn_healthy in force)
qed

lemma reachable_healthy: "reachable s \<Longrightarrow> healthy False s"
  by (induction rule: reachable.induct) (auto intro: binding.start_inv binding.step_inv)

text \<open>Two jobs of the queue that hold allocations hold disjoint sets of CPUs.\<close>

lemma handle_mem: "k < length ps \<Longrightarrow> cpu_alloc (ps ! k) = Some h \<Longrightarrow> h \<in> set (handles ps)"
proof (induction ps arbitrary: k)
  case (Cons p ps)
  then show ?case by (cases k) auto
qed simp

lemma handles_nth:
  assumes "distinct (handles ps)" "i < length ps" "j < length ps" "cpu_alloc (ps ! i) = Some h" "cpu_alloc (ps ! j) = Some h"
  shows "i = j"
  using assms
proof (induction ps arbitrary: i j)
  case (Cons p ps)
  then show ?case
    using handle_mem [of _ ps h] by (cases i; cases j) (auto split: option.splits)
qed simp

lemma bind_ok_disjoint:
  assumes "bind_ok s" "i < length (active_jobs s)" "j < length (active_jobs s)" "i \<noteq> j"
    "cpu_alloc (active_jobs s ! i) = Some h" "cpu_alloc (active_jobs s ! j) = Some h'"
  shows "set (cpus_of (cpu s) h) \<inter> set (cpus_of (cpu s) h') = {}"
proof -
  have "h \<noteq> h'" using handles_nth [of "active_jobs s" i j h] assms by (auto simp: bind_ok_def)
  moreover have "h \<in> set (handles (active_jobs s))" "h' \<in> set (handles (active_jobs s))"
    using handle_mem assms(2,3,5,6) by blast+
  then have "h \<in> set (allocs (cpu s))" "h' \<in> set (allocs (cpu s))" using assms(1) by (auto simp: bind_ok_def)
  ultimately show ?thesis using assms(1) cpu_ok_disjoint pool_okD by (auto simp: bind_ok_def)
qed

end
