(* ===== verification/User_Requests.thy ===== *)
theory User_Requests
  imports Bind_Server Queue_Requests
begin

text \<open>
  What the requests of \<open>server_user.c\<close> and a submission do, on every branch: the server lock,
  holding and continuing a job, the refresh of the user table with its roll-back, and
  \<open>s_newjob\<close>.
\<close>

section \<open>The server lock\<close>

text \<open>A lock that still counts: it is younger than 30 seconds.\<close>

definition lock_fresh :: "srv \<Rightarrow> bool" where
  "lock_fresh s \<longleftrightarrow> get_monotonic_sec s - locker_time s \<le> 30"

lemma lock_request:
  assumes "u < length (users_vec s)" "uid (users_vec s ! u) \<noteq> 0" "s_lock_server sock (Some u) s = Inr s'"
  shows "user_locker s' = (if user_locker s = None then Some u else user_locker s)"
  using assms by (auto simp: s_lock_server_def the_user_def send_list_line_def rbind_eq_Inr split: option.splits if_splits)

lemma unlock_request:
  assumes "u < length (users_vec s)" "uid (users_vec s ! u) \<noteq> 0" "s_unlock_server sock (Some u) s = Inr s'"
  shows "user_locker s' = (if user_locker s = Some u then None else user_locker s)"
  using assms by (auto simp: s_unlock_server_def the_user_def send_list_line_def rbind_eq_Inr split: option.splits if_splits)

lemma lock_returns:
  assumes "u < length (users_vec s)" "uid (users_vec s ! u) \<noteq> 0"
    "\<forall>l. user_locker s = Some l \<longrightarrow> l < length (users_vec s)"
  shows "\<exists>s'. s_lock_server sock (Some u) s = Inr s'" "\<exists>s'. s_unlock_server sock (Some u) s = Inr s'"
  using assms by (auto simp: s_lock_server_def s_unlock_server_def the_user_def split: option.splits)

lemma newjob_locked:
  assumes "user_locker s = Some l" "u \<noteq> Some l" "lock_fresh s"
  shows "handle_newjob i sock m u s = Inr s"
  using assms by (auto simp: handle_newjob_def s_check_locker_def lock_fresh_def Let_def)

section \<open>Holding and continuing\<close>

text \<open>Locking a queued job and unlocking it gives back the job and the user table.\<close>

lemma lock_unlock_queue:
  assumes "state p = QUEUED" "user p = Some u" "u < length (users_vec s)"
  shows "\<exists>p1 s1 s2. s_lock_queue p s = Inr (p1, s1) \<and> state p1 = LOCKED
    \<and> queue (users_vec s1 ! u) = queue (users_vec s ! u) - 1
    \<and> s_unlock_queue p1 s1 = Inr (p, s2) \<and> users_vec s2 = users_vec s"
proof -
  let ?x = "users_vec s ! u"
  have "?x\<lparr>queue := queue ?x - 1 + 1\<rparr> = ?x" by simp
  moreover have "p\<lparr>state := LOCKED, state := QUEUED\<rparr> = p" using assms(1) by (cases p) simp
  ultimately show ?thesis
    using assms by (auto simp: s_lock_queue_def s_unlock_queue_def upd_user_def emit_def)
qed

text \<open>A paused job holds no slots; continuing it gives every counter its old value.\<close>

lemma pause_resume_counters:
  assumes "job_ok True (length (users_vec s)) p" "state p = RUNNING" "safe_pause_job p s = Inr (p1, s1)"
    "config_running (p1\<lparr>state := PAUSE\<rparr>) s1 = Inr (err, p2, s2)"
  shows "\<not> err \<and> state p2 = RUNNING \<and> num_allocated p2 = num_slots p \<and> busy_slots s2 = busy_slots s
    \<and> busy_slots s1 = busy_slots s - num_slots p
    \<and> map (\<lambda>u. (busy u, njobs u)) (users_vec s2) = map (\<lambda>u. (busy u, njobs u)) (users_vec s)"
proof -
  let ?q = "p1\<lparr>state := PAUSE\<rparr>"
  have pm: "moves True p s ?q s1 \<and> job_ok True (length (users_vec s)) ?q"
    using pause_moves [of p s ?q s1 True] assms(1,3) by simp
  then have m1: "moves True p s ?q s1" and ok: "job_ok True (length (users_vec s1)) ?q"
    using moves_fields(4) [of True p s ?q s1] by (metis, metis)
  note c = config_running_moves [OF assms(4) ok]
  then have m: "moves True p s p2 s2" using moves_trans [OF m1] by blast
  have st: "\<not> err" "state p2 = RUNNING" using c by auto
  note F = moves_fields [OF m] moves_fields [OF m1]
  have l: "length (users_vec s2) = length (users_vec s)" "num_slots p2 = num_slots p" "user p2 = user p" using F m by (auto simp: moves_def)
  have d: "delta True p s p2 s2" "delta True p s ?q s1" using m m1 by (simp_all add: moves_def)
  have "busy (users_vec s2 ! u) = busy (users_vec s ! u) \<and> njobs (users_vec s2 ! u) = njobs (users_vec s ! u)"
    if "u < length (users_vec s)" for u
  proof -
    have "user_slots u p2 = user_slots u p" "user_runs u p2 = user_runs u p"
      using l st(2) assms(2) by (simp_all add: weight_defs)
    then show ?thesis using d(1) that unfolding delta_def at_least_def by (metis eq_iff_diff_eq_0)
  qed
  then have "map (\<lambda>u. (busy u, njobs u)) (users_vec s2) = map (\<lambda>u. (busy u, njobs u)) (users_vec s)"
    using l(1) by (intro nth_equalityI) simp_all
  moreover have "num_allocated p2 = num_slots p2"
    using c st(2) by (auto simp: job_ok_def)
  ultimately show ?thesis
    using d l st assms(2) by (auto simp: delta_def at_least_def weight_defs)
qed

section \<open>The user table\<close>

text \<open>Reading the user file appends users and changes limits, nothing else of a user.\<close>

definition sans_limit :: "user_t \<Rightarrow> user_t" where
  "sans_limit u = u\<lparr>umax_slots := 0\<rparr>"

lemma read_user_line_users:
  "\<exists>new. map sans_limit (users_vec (read_user_line s l)) = map sans_limit (users_vec s) @ new"
proof -
  have "map sans_limit ((users_vec s)[i := (users_vec s ! i)\<lparr>umax_slots := k\<rparr>]) = map sans_limit (users_vec s)"
    if "i < length (users_vec s)" for i k
    using that by (simp add: map_update list_update_same_conv sans_limit_def)
  then show ?thesis
    using find_idx_SomeD [of uid _ "users_vec s"]
    by (auto simp: read_user_line_def s_set_max_slots_def Let_def find_user_by_uid_def split: user_file_line.splits option.splits)
qed

lemma read_user_file_users:
  assumes "read_user_file s = Inr s'"
  shows "\<exists>new. map sans_limit (users_vec s') = map sans_limit (users_vec s) @ new"
proof -
  have "\<exists>new. map sans_limit (users_vec (foldl read_user_line s ls)) = map sans_limit (users_vec s) @ new" for ls
  proof (induction ls arbitrary: s)
    case (Cons l ls)
    then show ?case using read_user_line_users [of s l] by (metis append.assoc foldl_Cons)
  qed simp
  then show ?thesis using assms by (auto simp: read_user_file_def split: option.splits)
qed

lemma restore_limits:
  "map sans_limit us = map sans_limit vs \<Longrightarrow>
   map (\<lambda>(u, o'). u\<lparr>umax_slots := snd o'\<rparr>) (zip us (map (\<lambda>u. (uid u, umax_slots u)) vs)) = vs"
proof (induction us vs rule: list_induct2')
  case (4 u us v vs)
  have "u\<lparr>umax_slots := umax_slots v\<rparr> = (sans_limit u)\<lparr>umax_slots := umax_slots v\<rparr>" by (simp add: sans_limit_def)
  also have "\<dots> = (sans_limit v)\<lparr>umax_slots := umax_slots v\<rparr>" using 4 by simp
  also have "\<dots> = v" by (simp add: sans_limit_def)
  finally show ?case using 4 by simp
qed simp_all

text \<open>The roll-back of a refresh gives back the user table, entry by entry.\<close>

lemma rollback_exact:
  assumes "read_user_file s = Inr s1"
  shows "users_vec (rollback_users (map (\<lambda>u. (uid u, umax_slots u)) (users_vec s)) s1) = users_vec s"
proof -
  obtain new where new: "map sans_limit (users_vec s1) = map sans_limit (users_vec s) @ new"
    using read_user_file_users [OF assms] by blast
  have "map sans_limit (take (length (users_vec s)) (users_vec s1)) = map sans_limit (users_vec s)"
    using arg_cong [OF new, of "take (length (users_vec s))"] by (simp add: take_map)
  from restore_limits [OF this] show ?thesis by (simp add: rollback_users_def)
qed

lemma refresh_check_None:
  "refresh_check olds s = None \<longleftrightarrow> (\<forall>(ident, slots) \<in> set olds. \<exists>i. find_user_by_uid ident s = Some i \<and> umax_slots (users_vec s ! i) = slots)"
  by (induction olds s rule: refresh_check.induct) (auto split: option.splits)

lemma refresh_kept:
  assumes "refresh_check (map (\<lambda>u. (uid u, umax_slots u)) (users_vec s)) s1 = None" "u \<in> set (users_vec s)"
  shows "\<exists>v \<in> set (users_vec s1). uid v = uid u \<and> umax_slots v = umax_slots u"
proof -
  obtain i where i: "find_user_by_uid (uid u) s1 = Some i" "umax_slots (users_vec s1 ! i) = umax_slots u"
    using assms by (auto simp: refresh_check_None)
  then show ?thesis using find_idx_SomeD [OF i(1) [unfolded find_user_by_uid_def]] nth_mem by blast
qed

section \<open>Submission\<close>

text \<open>
  A submission without a job id, after the recount: the new job stands at the end of the
  queue with the next id, and the jobs before it change at most in whom they will notify.
\<close>

definition same_but_notify :: "job \<Rightarrow> job \<Rightarrow> bool" where
  "same_but_notify p q \<longleftrightarrow> p\<lparr>notify_errorlevel_to := []\<rparr> = q\<lparr>notify_errorlevel_to := []\<rparr>"

lemma same_but_notify_refl [simp]: "same_but_notify p p"
  by (simp add: same_but_notify_def)

lemma same_but_notify_add [simp]: "same_but_notify (add_notify_errorlevel_to p j) q = same_but_notify p q"
  by (simp add: same_but_notify_def add_notify_errorlevel_to_def)

text \<open>The part of the new job that the dependencies leave alone.\<close>

definition request_of :: "job \<Rightarrow> int \<times> nat option \<times> int \<times> int \<times> jobstate" where
  "request_of p = (jobid p, user p, client_socket p, num_slots p, state p)"

definition others_kept :: "nat \<Rightarrow> srv \<Rightarrow> srv \<Rightarrow> bool" where
  "others_kept i s s' \<longleftrightarrow> length (active_jobs s') = length (active_jobs s)
     \<and> (\<forall>k < length (active_jobs s). k \<noteq> i \<longrightarrow> same_but_notify (active_jobs s' ! k) (active_jobs s ! k))
     \<and> request_of (active_jobs s' ! i) = request_of (active_jobs s ! i)
     \<and> finished_jobs s' = finished_jobs s \<and> jobids s' = jobids s \<and> length (users_vec s') = length (users_vec s)"

lemma others_kept_refl [simp]: "others_kept i s s"
  by (simp add: others_kept_def)

lemma others_kept_trans: "others_kept i s s1 \<Longrightarrow> others_kept i s1 s2 \<Longrightarrow> others_kept i s s2"
  by (auto simp: others_kept_def same_but_notify_def)

lemma others_kept_set:
  "request_of p = request_of (active_jobs s ! i) \<Longrightarrow> others_kept i s (set_active i p s)"
  by (cases "i < length (active_jobs s)") (auto simp: others_kept_def set_active_def list_update_beyond)

lemma others_kept_queued: "others_kept i s (depend_on_queued i d s)"
proof (cases "findjob_idx d s")
  case (Some k)
  then have "k < length (active_jobs s)" using findjob_idx_bound by blast
  then show ?thesis
    using Some by (auto simp: depend_on_queued_def Let_def others_kept_def set_active_def nth_list_update
        request_of_def add_notify_errorlevel_to_def same_but_notify_def)
qed (simp add: depend_on_queued_def)

lemma dep_step_kept: "dep_step i d s = Inr s' \<Longrightarrow> others_kept i s s'"
proof -
  have a: "others_kept i s (add_dependency i d lev s)" for d lev s
    unfolding add_dependency_def Let_def by (rule others_kept_set) (simp add: request_of_def)
  show "dep_step i d s = Inr s' \<Longrightarrow> others_kept i s s'"
    using a others_kept_trans [OF a others_kept_queued] by (auto simp: dep_step_def Let_def split: if_splits option.splits)
qed

lemma deps_kept: "rfold (dep_step i) ds s = Inr s' \<Longrightarrow> others_kept i s s'"
  by (erule rfold_keeps [where P = "others_kept i s"]) (auto dest: dep_step_kept intro: others_kept_trans)

lemma fresh_slot:
  assumes "m_jobid m = 0" "newjob_slot sock m s = (io, s2)"
  shows "io = Some (length (active_jobs s))"
    "s2 = (push_active (zero_job\<lparr>jobid := jobids s, state := (if int (length (active_jobs s)) + 1 < max_jobs s
        then QUEUED else HOLDING_CLIENT)\<rparr>) s)\<lparr>jobids := jobids s + 1\<rparr>"
  using assms by (auto simp: newjob_slot_def Let_def push_active_def set_active_def count_not_finished_jobs_def)

lemma fields_request: "newjob_fields m s p = Inr p' \<Longrightarrow> request_of p' = request_of p"
proof -
  have w: "newjob_wall_time m s q = Inr q' \<Longrightarrow> request_of q' = request_of q" for q q'
    by (auto simp: newjob_wall_time_def rbind_eq_Inr request_of_def split: if_splits)
  assume "newjob_fields m s p = Inr p'"
  then obtain p2 where "newjob_wall_time m s (p\<lparr>store_output := m_store_output m,
      should_keep_finished := m_should_keep_finished m, notify_errorlevel_to := [], depend_on := []\<rparr>) = Inr p2"
    "request_of p' = request_of p2"
    by (auto simp: newjob_fields_def Let_def rbind_eq_Inr request_of_def)
  then show ?thesis using w by (fastforce simp: request_of_def)
qed

lemma payload_request:
  "newjob_payload m s p = Inr p' \<Longrightarrow> request_of p' = request_of p \<and> m_command m \<noteq> None \<and> command p' = m_command m"
  by (auto simp: newjob_payload_def Let_def rbind_eq_Inr request_of_def recv_or_exit_def split: option.splits)

lemma enqueue_kept:
  assumes "newjob_enqueue i s = Inr s'" "state (active_jobs s ! i) \<noteq> WAIT"
  shows "active_jobs s' = active_jobs s \<and> finished_jobs s' = finished_jobs s \<and> jobids s' = jobids s
    \<and> length (users_vec s') = length (users_vec s)"
  using assms by (auto simp: newjob_enqueue_def Let_def upd_user_eq insert_DB_def split: if_splits)

lemma fill_accepts:
  assumes "newjob_fill sock m i u s = Inr (jid, s')" "\<not> newjob_rejected u (active_jobs s ! i)" "i < length (active_jobs s)"
    "state (active_jobs s ! i) \<noteq> WAIT"
  shows "others_kept i s s' \<and> jid = jobid (active_jobs s ! i) \<and> command (active_jobs s' ! i) = m_command m"
proof -
  obtain p3 s4 p5 s6 where fl: "newjob_fields m s (active_jobs s ! i) = Inr p3"
    and d: "rfold (dep_step i) (m_depend_on m) (set_active i p3 s) = Inr s4"
    and pl: "newjob_payload m s4 (active_jobs s4 ! i) = Inr p5"
    and e: "newjob_enqueue i (set_active i p5 s4) = Inr s6" and s': "s' = emit (Db (Set_jobids (jobids s6))) s6"
    and j: "jid = jobid p5"
    using assms(1,2) by (auto simp: newjob_fill_def Let_def rbind_eq_Inr)
  have k4: "others_kept i s s4"
    using others_kept_trans [OF others_kept_set [OF fields_request [OF fl]] deps_kept [OF d]] .
  note p5 = payload_request [OF pl]
  have k5: "others_kept i s (set_active i p5 s4)" using others_kept_trans [OF k4 others_kept_set] p5 by blast
  have i4: "i < length (active_jobs s4)" using k4 assms(3) by (simp add: others_kept_def)
  have r5: "request_of p5 = request_of (active_jobs s ! i)" using p5 k4 by (simp add: others_kept_def)
  have "state (active_jobs (set_active i p5 s4) ! i) \<noteq> WAIT" using r5 i4 assms(4) by (simp add: set_active_def request_of_def)
  from enqueue_kept [OF e this]
  have a: "active_jobs s' = active_jobs (set_active i p5 s4)" "others_kept i (set_active i p5 s4) s'"
    by (auto simp: s' others_kept_def)
  then show ?thesis
    using others_kept_trans [OF k5 a(2)] p5 r5 i4 j by (auto simp: set_active_def request_of_def)
qed

lemma s_newjob_effect:
  assumes "s_newjob sock m (Some u) s = Inr (jid, s')" "m_jobid m = 0" "s_update_slots_usage s = Inr (usage, s1)"
  shows "if 0 < umax_slots (users_vec s1 ! u) \<and> umax_slots (users_vec s1 ! u) < m_num_slots m
    then jid = - 1 \<and> active_jobs s' = active_jobs s1
    else jid = jobids s1 \<and> jobids s' = jid + 1 \<and> length (active_jobs s') = Suc (length (active_jobs s1))
      \<and> request_of (last (active_jobs s')) = (jid, Some u, sock, m_num_slots m,
           if int (length (active_jobs s1)) + 1 < max_jobs s1 then QUEUED else HOLDING_CLIENT)
      \<and> command (last (active_jobs s')) = m_command m
      \<and> (\<forall>k < length (active_jobs s1). same_but_notify (active_jobs s' ! k) (active_jobs s1 ! k))"
proof -
  let ?i = "length (active_jobs s1)" and ?st = "if int (length (active_jobs s1)) + 1 < max_jobs s1 then QUEUED else HOLDING_CLIENT"
  obtain io s2 where sl: "newjob_slot sock m s1 = (io, s2)" by fastforce
  define s3 where "s3 = owned_slot sock m (Some u) ?i s2"
  note f = fresh_slot [OF assms(2) sl]
  have a3: "active_jobs s3 = active_jobs s1 @ [newjob_owner sock (Some u) m (zero_job\<lparr>jobid := jobids s1, state := ?st\<rparr>)]"
      "jobids s3 = jobids s1 + 1" "users_vec s3 = users_vec s1"
    by (simp_all add: s3_def f(2) owned_slot_def set_active_def push_active_def)
  then have p: "request_of (active_jobs s3 ! ?i) = (jobids s1, Some u, sock, m_num_slots m, ?st)"
      "?i < length (active_jobs s3)" "\<And>k. k < ?i \<Longrightarrow> active_jobs s3 ! k = active_jobs s1 ! k"
    by (auto simp: request_of_def newjob_owner_def nth_append)
  obtain x where x: "the_user (Some u) s3 = Inr x" and fi: "newjob_fill sock m ?i x s3 = Inr (jid, s')"
    using assms(1,3) sl f(1) by (auto simp: s_newjob_def Let_def rbind_eq_Inr s3_def)
  have ux: "x = users_vec s1 ! u" using x a3(3) by (auto simp: the_user_def split: if_splits)
  show ?thesis
  proof (cases "newjob_rejected x (active_jobs s3 ! ?i)")
    case True
    then have "jid = - 1" "active_jobs s' = remove_nth ?i (active_jobs s3)"
      using fi by (auto simp: newjob_fill_def Let_def remove_active_def send_list_line_def)
    then show ?thesis using True p(1) a3(1) ux by (simp add: newjob_rejected_def request_of_def remove_nth_def)
  next
    case False
    have "state (active_jobs s3 ! ?i) \<noteq> WAIT" using p(1) by (auto simp: request_of_def)
    from fill_accepts [OF fi False p(2) this] have k: "others_kept ?i s3 s'" "jid = jobid (active_jobs s3 ! ?i)"
      "command (active_jobs s' ! ?i) = m_command m" by auto
    have len: "length (active_jobs s') = Suc ?i" using k(1) a3(1) by (simp add: others_kept_def)
    then have "last (active_jobs s') = active_jobs s' ! ?i" by (metis diff_Suc_1 last_conv_nth length_0_conv nat.distinct(1))
    then show ?thesis
      using False k len p a3 ux by (auto simp: others_kept_def newjob_rejected_def request_of_def)
  qed
qed

end
