(* ===== verification/Job_Life.thy ===== *)
theory Job_Life
  imports Queue_Requests Bind_Queue
begin

text \<open>
  What the steps in the life of a job do to the queues, on every branch: waking held clients,
  time-outs, telling waiters, handing a job over to the finished list, and submission.
\<close>

section \<open>Held clients\<close>

definition wakes :: "job \<Rightarrow> job" where
  "wakes p = (if state p = HOLDING_CLIENT then p\<lparr>state := QUEUED\<rparr> else p)"

definition held_jobs :: "srv \<Rightarrow> job list" where
  "held_jobs s = filter (\<lambda>p. state p = HOLDING_CLIENT) (active_jobs s)"

lemma wakes_fields [simp]: "jobid (wakes p) = jobid p" "client_socket (wakes p) = client_socket p"
  by (simp_all add: wakes_def)

lemma first_held_split:
  assumes "find_idx (\<lambda>p. state p = HOLDING_CLIENT) True ps = Some i"
  shows "filter (\<lambda>p. state p = HOLDING_CLIENT) ps
           = ps ! i # filter (\<lambda>p. state p = HOLDING_CLIENT) (ps[i := (ps ! i)\<lparr>state := QUEUED\<rparr>])"
    "map wakes (ps[i := (ps ! i)\<lparr>state := QUEUED\<rparr>]) = map wakes ps"
  using assms
proof (induction ps arbitrary: i)
  case (Cons p ps)
  { case 1 then show ?case using Cons.IH(1) by (auto split: if_splits nat.splits) }
  { case 2 then show ?case using Cons.IH(2) by (auto simp: wakes_def split: if_splits nat.splits) }
qed simp_all

lemma wake_hold_client_cases:
  "wake_hold_client s = (None, s) \<and> held_jobs s = []
   \<or> (\<exists>i p. wake_hold_client s = (Some (jobid p), set_active i (p\<lparr>state := QUEUED\<rparr>) s)
        \<and> i < length (active_jobs s) \<and> p = active_jobs s ! i
        \<and> held_jobs s = p # held_jobs (set_active i (p\<lparr>state := QUEUED\<rparr>) s)
        \<and> map wakes (active_jobs (set_active i (p\<lparr>state := QUEUED\<rparr>) s)) = map wakes (active_jobs s))"
proof (cases "findjob_holding_client s")
  case None
  then have "held_jobs s = []"
    by (auto simp: findjob_holding_client_def find_idx_None held_jobs_def filter_empty_conv)
  with None show ?thesis by (simp add: wake_hold_client_def)
next
  case (Some i)
  note f = Some [unfolded findjob_holding_client_def]
  show ?thesis
    using first_held_split [OF f] find_idx_SomeD [OF f] Some
    by (auto simp: wake_hold_client_def held_jobs_def set_active_def)
qed

text \<open>Every held client is told once, in the order of the queue, and its job is queued.\<close>

lemma wake_all_effect:
  assumes "distinct (ids s)"
  shows "active_jobs (wake_all_held_clients s) = map wakes (active_jobs s)
    \<and> out (wake_all_held_clients s) = out s @ map (\<lambda>p. Send (client_socket p) (NEWJOB_OK (jobid p))) (held_jobs s)"
  using assms
proof (induction s rule: wake_all_held_clients.induct)
  case (1 s)
  consider "wake_hold_client s = (None, s)" "held_jobs s = []"
    | i p where "wake_hold_client s = (Some (jobid p), set_active i (p\<lparr>state := QUEUED\<rparr>) s)"
      "i < length (active_jobs s)" "p = active_jobs s ! i"
      "held_jobs s = p # held_jobs (set_active i (p\<lparr>state := QUEUED\<rparr>) s)"
      "map wakes (active_jobs (set_active i (p\<lparr>state := QUEUED\<rparr>) s)) = map wakes (active_jobs s)"
    using wake_hold_client_cases [of s] by blast
  then show ?case
  proof cases
    case 1
    then have "map wakes (active_jobs s) = active_jobs s"
      by (intro map_idI) (auto simp: wakes_def held_jobs_def filter_empty_conv)
    with 1 show ?thesis by (simp add: wake_all_held_clients.simps [of s])
  next
    case (2 i p)
    let ?s = "set_active i (p\<lparr>state := QUEUED\<rparr>) s"
    have ids: "ids ?s = ids s" using 2(2,3) by (simp add: ids_def set_active_def map_update list_update_same_conv)
    have f: "findjob (jobid p) ?s = Some (p\<lparr>state := QUEUED\<rparr>)"
    proof -
      have "findjob_idx (jobid p) ?s = Some i"
        using find_idx_distinct [of jobid "active_jobs ?s" i] 2(2,3) 1(2) ids
        by (simp add: findjob_idx_def ids_def set_active_def)
      then show ?thesis using 2(2) by (simp add: findjob_def set_active_def)
    qed
    let ?t = "s_send_newjob_ok (client_socket p) (jobid p) ?s"
    have "wake_all_held_clients s = wake_all_held_clients ?t"
      using 2(1) f by (simp add: wake_all_held_clients.simps [of s])
    moreover have "active_jobs (wake_all_held_clients ?t) = map wakes (active_jobs ?t)
        \<and> out (wake_all_held_clients ?t) = out ?t @ map (\<lambda>p. Send (client_socket p) (NEWJOB_OK (jobid p))) (held_jobs ?t)"
      using 1(1) [OF 2(1) [symmetric] refl] f ids 1(2) by (simp add: s_send_newjob_ok_def)
    moreover have "held_jobs ?t = held_jobs ?s" "active_jobs ?t = active_jobs ?s"
      "out ?t = out s @ [Send (client_socket p) (NEWJOB_OK (jobid p))]"
      by (simp_all add: s_send_newjob_ok_def held_jobs_def emit_def set_active_def)
    ultimately show ?thesis using 2(4,5) by simp
  qed
qed

section \<open>Time-outs\<close>

text \<open>A running job with a process that has worked longer than its wall time, and 3 seconds at least.\<close>

definition overdue :: "srv \<Rightarrow> job \<Rightarrow> bool" where
  "overdue s p \<longleftrightarrow> state p = RUNNING \<and> pid p \<noteq> 0
     \<and> i64abs (wall_time p) < get_work_time_by_job p s \<and> 3 \<le> get_work_time_by_job p s"

text \<open>What a time-out makes of it: paused, without slots, with a day more, marked to run again.\<close>

definition relegated :: "job \<Rightarrow> job \<Rightarrow> bool" where
  "relegated p p' \<longleftrightarrow> jobid p' = jobid p \<and> state p' = PAUSE \<and> wall_time p' = - i64abs (wall_time p) - 86400"

lemma job_step_world:
  "free_cores p s = Inr (p', s') \<Longrightarrow> world s' = world s \<and> active_jobs s' = active_jobs s \<and> jobid p' = jobid p \<and> wall_time p' = wall_time p"
  "detach_cpus p s = Inr (p', s') \<Longrightarrow> world s' = world s \<and> active_jobs s' = active_jobs s \<and> jobid p' = jobid p \<and> wall_time p' = wall_time p"
  "pause_job_config p s = (p', s') \<Longrightarrow> world s' = world s \<and> active_jobs s' = active_jobs s \<and> jobid p' = jobid p \<and> wall_time p' = wall_time p"
  "world (cgroups_freeze_job p s) = world s" "active_jobs (cgroups_freeze_job p s) = active_jobs s"
  by (auto simp: free_cores_def detach_cpus_def pause_job_config_def cgroups_freeze_job_def kill_cont_def upd_user_eq
      rbind_eq_Inr Let_def update_field_int64_def split: if_splits option.splits)

lemma safe_pause_world:
  assumes "safe_pause_job p s = Inr (p', s')"
  shows "world s' = world s \<and> active_jobs s' = active_jobs s \<and> jobid p' = jobid p \<and> wall_time p' = wall_time p"
  using assms job_step_world by (auto simp: safe_pause_job_def rbind_eq_Inr)

lemma check_timeout_effect:
  assumes "check_timeout p s = Inr (late, p', s')" "state p = RUNNING"
  shows "if overdue s p then late \<and> relegated p p' \<and> world s' = world s \<and> active_jobs s' = active_jobs s
    else \<not> late \<and> p' = p \<and> s' = s"
proof (cases "overdue s p")
  case True
  then obtain p1 s1 where c: "safe_pause_job p s = Inr (p1, s1)" and l: "late" and
    p': "p' = p1\<lparr>wall_time := - i64abs (wall_time p1) - 86400, state := PAUSE\<rparr>" and
    s': "s' = update_field_int64 (jobid p1) ''wall_time'' (- i64abs (wall_time p1) - 86400) s1"
    using assms by (auto simp: check_timeout_def s_relegate_job_def overdue_def rbind_eq_Inr Let_def)
  show ?thesis
    using True l p' s' safe_pause_world [OF c] by (simp add: relegated_def update_field_int64_def)
qed (use assms in \<open>auto simp: check_timeout_def overdue_def Let_def split: if_splits\<close>)

lemma set_active_self: "i < length (active_jobs s) \<Longrightarrow> set_active i (active_jobs s ! i) s = s"
  by (simp add: set_active_def)

lemma overdue_world: "world s' = world s \<Longrightarrow> overdue s' = overdue s"
  by (simp add: overdue_def fun_eq_iff get_work_time_by_job_def get_monotonic_sec_def)

lemma timeout_step_running:
  assumes "timeout_step n (to, s) = Inr (t1, s1)" "n < length (active_jobs s)" "state (active_jobs s ! n) = RUNNING"
  shows "\<exists>late p' s0. check_timeout (active_jobs s ! n) s = Inr (late, p', s0)
    \<and> t1 = (if late then to @ [p'] else to) \<and> s1 = (if late then remove_active n s0 else set_active n p' s0)"
  using assms by (auto simp: timeout_step_def Let_def rbind_eq_Inr split: if_splits)

lemma timeout_scan:
  assumes "rfold timeout_step (rev [0..<n]) (to, s) = Inr (to', s')" "n \<le> length (active_jobs s)"
  shows "active_jobs s' = filter (\<lambda>p. \<not> overdue s p) (take n (active_jobs s)) @ drop n (active_jobs s)
    \<and> (\<exists>late. to' = to @ late \<and> list_all2 relegated (rev (filter (overdue s) (take n (active_jobs s)))) late)"
  using assms
proof (induction n arbitrary: to s)
  case (Suc n)
  let ?p = "active_jobs s ! n"
  have n: "n < length (active_jobs s)" using Suc.prems(2) by simp
  obtain t1 s1 where st: "timeout_step n (to, s) = Inr (t1, s1)"
    and r: "rfold timeout_step (rev [0..<n]) (t1, s1) = Inr (to', s')"
    using Suc.prems(1) by (auto simp: rbind_eq_Inr)
  note take = take_Suc_conv_app_nth [OF n]
  show ?case
  proof (cases "overdue s ?p")
    case True
    then have run: "state ?p = RUNNING" by (simp add: overdue_def)
    obtain late p' s0 where c: "check_timeout ?p s = Inr (late, p', s0)" "t1 = (if late then to @ [p'] else to)"
      "s1 = (if late then remove_active n s0 else set_active n p' s0)"
      using timeout_step_running [OF st n run] by blast
    then have e: "t1 = to @ [p']" "s1 = remove_active n s0" "relegated ?p p'" "world s0 = world s" "active_jobs s0 = active_jobs s"
      using check_timeout_effect [OF c(1) run] True by auto
    have a: "take n (active_jobs s1) = take n (active_jobs s)" "drop n (active_jobs s1) = drop (Suc n) (active_jobs s)"
      "n \<le> length (active_jobs s1)" "overdue s1 = overdue s"
      using e n overdue_world [of s1 s] by (simp_all add: remove_active_def remove_nth_def)
    obtain l where "active_jobs s' = filter (\<lambda>p. \<not> overdue s p) (take n (active_jobs s)) @ drop (Suc n) (active_jobs s)"
      "to' = t1 @ l" "list_all2 relegated (rev (filter (overdue s) (take n (active_jobs s)))) l"
      using Suc.IH [OF r a(3)] unfolding a by blast
    then show ?thesis using e True by (auto simp: take)
  next
    case False
    have "t1 = to \<and> s1 = s"
    proof (cases "state ?p = RUNNING")
      case True
      obtain late p' s0 where c: "check_timeout ?p s = Inr (late, p', s0)" "t1 = (if late then to @ [p'] else to)"
        "s1 = (if late then remove_active n s0 else set_active n p' s0)"
        using timeout_step_running [OF st n True] by blast
      then show ?thesis using check_timeout_effect [OF c(1) True] False set_active_self [OF n] by auto
    qed (use st n in \<open>simp add: timeout_step_def Let_def\<close>)
    then show ?thesis using Suc.IH [of to s] r n False by (auto simp: take Cons_nth_drop_Suc)
  qed
qed simp

text \<open>
  The time-out scan on the whole queue: the jobs in time keep their order, the late ones
  follow them, last one first.
\<close>

lemma requeue_jobs: "active_jobs (requeue_timed_out ps s) = active_jobs s @ ps"
  unfolding requeue_timed_out_def by (induction ps arbitrary: s) (simp_all add: push_active_def)

lemma s_check_timeout_effect:
  assumes "s_check_timeout s = Inr (fl, s')"
  shows "fl = list_ex (overdue s) (active_jobs s)
    \<and> (\<exists>late. active_jobs s' = filter (\<lambda>p. \<not> overdue s p) (active_jobs s) @ late
         \<and> list_all2 relegated (rev (filter (overdue s) (active_jobs s))) late)"
proof -
  obtain to s1 where r: "rfold timeout_step (rev [0..<length (active_jobs s)]) ([], s) = Inr (to, s1)"
    and fl: "fl = (to \<noteq> [])" and s': "s' = requeue_timed_out to s1"
    using assms by (auto simp: s_check_timeout_def rbind_eq_Inr)
  have e: "active_jobs s1 = filter (\<lambda>p. \<not> overdue s p) (active_jobs s)"
    "list_all2 relegated (rev (filter (overdue s) (active_jobs s))) to"
    using timeout_scan [OF r order_refl] by auto
  have "length to = length (filter (overdue s) (active_jobs s))" using list_all2_lengthD [OF e(2)] by simp
  then have "(to \<noteq> []) = (filter (overdue s) (active_jobs s) \<noteq> [])" by (metis length_0_conv)
  then have "fl = list_ex (overdue s) (active_jobs s)" by (simp add: fl list_ex_iff filter_empty_conv)
  then show ?thesis using e requeue_jobs [of to s1] by (simp add: s')
qed

section \<open>Telling the waiters\<close>

definition waiting_for :: "int \<Rightarrow> (int \<times> int) list \<Rightarrow> (int \<times> int) list" where
  "waiting_for jid ns = filter (\<lambda>n. snd n = jid) ns"

lemma notify_loop_skip: "jid \<notin> snd ` set ns \<Longrightarrow> notify_loop jid ns s = Inr s"
  by (induction ns arbitrary: s) auto

lemma remove_notification_at:
  assumes "first_notify s = pre @ n # ns" "distinct (map fst (first_notify s))"
  shows "first_notify (s_remove_notification (fst n) s) = pre @ ns"
proof -
  have "find_idx fst (fst n) (pre @ n # ns) = Some (length pre)"
    using find_idx_distinct [of fst "pre @ n # ns" "length pre"] assms by simp
  then show ?thesis using assms(1) by (simp add: s_remove_notification_def remove_nth_def)
qed

lemma notification_out [simp]:
  "out (s_remove_notification sock s) = out s" "out (send_waitjob_ok sock lev s) = out s @ [Send sock (WAITJOB_OK lev)]"
  by (simp_all add: s_remove_notification_def send_waitjob_ok_def emit_def split: option.splits)

lemma notify_loop_effect:
  assumes "jid \<notin> jobid ` set (active_jobs s)" "find_finished_idx jid s = Some f" "j = finished_jobs s ! f"
    "state j = FINISHED \<or> state j = SKIPPED" "first_notify s = pre @ ns" "distinct (map fst (first_notify s))"
    "jid \<notin> snd ` set pre"
  shows "returns (notify_loop jid ns s) (\<lambda>s'.
      out s' = out s @ map (\<lambda>n. Send (fst n) (WAITJOB_OK (errorlevel (result j)))) (waiting_for jid ns)
    \<and> first_notify s' = pre @ filter (\<lambda>n. snd n \<noteq> jid) ns \<and> active_jobs s' = active_jobs s
    \<and> finished_jobs s' = (if should_keep_finished j = 0 \<and> waiting_for jid ns \<noteq> []
        then remove_nth f (finished_jobs s) else finished_jobs s))"
  using assms
proof (induction ns arbitrary: s pre)
  case (Cons n ns)
  show ?case
  proof (cases "snd n = jid")
    case False
    with Cons.IH [of s "pre @ [n]"] Cons.prems show ?thesis by (simp add: waiting_for_def)
  next
    case True
    have fi: "findjob jid s = None" using Cons.prems(1) by (simp add: findjob_def findjob_idx_def find_idx_None)
    have gj: "get_job jid s = Some j" using Cons.prems(2,3) fi by (simp add: get_job_def find_finished_job_def)
    have jj: "jobid j = jid" using find_idx_SomeD [OF Cons.prems(2) [unfolded find_finished_idx_def]] Cons.prems(3) by simp
    define t where "t = s_remove_notification (fst n) (send_waitjob_ok (fst n) (errorlevel (result j)) s)"
    have t: "first_notify t = pre @ ns" "active_jobs t = active_jobs s" "finished_jobs t = finished_jobs s"
      "out t = out s @ [Send (fst n) (WAITJOB_OK (errorlevel (result j)))]"
      using remove_notification_at [of "send_waitjob_ok (fst n) (errorlevel (result j)) s" pre n ns] Cons.prems(5,6)
      by (simp_all add: t_def)
    have more: "in_notify_list jid t \<longleftrightarrow> waiting_for jid ns \<noteq> []"
      using Cons.prems(7) t(1) by (auto simp: in_notify_list_def list_ex_iff waiting_for_def filter_empty_conv)
    show ?thesis
    proof (cases "\<not> in_notify_list jid t \<and> should_keep_finished j = 0")
      case True
      then have no: "jid \<notin> snd ` set ns" using more by (auto simp: waiting_for_def filter_empty_conv)
      then have "filter (\<lambda>n. snd n \<noteq> jid) ns = ns" by (auto simp: filter_id_conv)
      with no show ?thesis
        using True \<open>snd n = jid\<close> gj jj Cons.prems(2,4) t more
        by (auto simp: t_def [symmetric] notify_loop_skip destroy_finished_job_def find_finished_idx_def waiting_for_def)
    next
      case False
      have "returns (notify_loop jid ns t) (\<lambda>s'.
          out s' = out t @ map (\<lambda>n. Send (fst n) (WAITJOB_OK (errorlevel (result j)))) (waiting_for jid ns)
        \<and> first_notify s' = pre @ filter (\<lambda>n. snd n \<noteq> jid) ns \<and> active_jobs s' = active_jobs t
        \<and> finished_jobs s' = (if should_keep_finished j = 0 \<and> waiting_for jid ns \<noteq> []
            then remove_nth f (finished_jobs t) else finished_jobs t))"
        by (rule Cons.IH) (use Cons.prems t in \<open>auto simp: find_finished_idx_def\<close>)
      then show ?thesis
        using False \<open>snd n = jid\<close> gj jj Cons.prems(4) t more by (auto simp: t_def [symmetric] returns_iff waiting_for_def)
    qed
  qed
qed (simp add: waiting_for_def)

section \<open>Finished jobs\<close>

lemma finished_bounded:
  assumes "new_finished_job j s = Inr s'"
  shows "int (length (finished_jobs s')) \<le> max (int (length (finished_jobs s))) (get_max_finished_jobs s)"
proof -
  define s1 where "s1 = (if int (length (finished_jobs s)) \<ge> get_max_finished_jobs s
    then s\<lparr>finished_jobs := remove_nth 0 (finished_jobs s)\<rparr> else s)"
  obtain ok s2 where i: "insert_DB j Finished s1 = (ok, s2)" by fastforce
  define s4 where "s4 = cgroups_clean_job j (if ok then delete_DB (jobid j) Jobs s2 else s2)"
  obtain j' s5 where d: "detach_cpus j s4 = Inr (j', s5)"
    and g: "cpu_bind_defrag_start (s5\<lparr>finished_jobs := finished_jobs s5 @ [j']\<rparr>) = Inr s'"
    using assms i by (auto simp: new_finished_job_def Let_def rbind_eq_Inr simp flip: s1_def s4_def)
  have "finished_jobs s4 = finished_jobs s1"
    using i by (auto simp: s4_def insert_DB_def delete_DB_def cgroups_clean_job_def)
  moreover have "finished_jobs s5 = finished_jobs s4"
    using d by (auto simp: detach_cpus_def rbind_eq_Inr split: if_splits option.splits)
  moreover have "finished_jobs s' = finished_jobs s5 @ [j']"
    using g by (auto simp: cpu_bind_defrag_start_def rbind_eq_Inr split: if_splits prod.splits)
  moreover have "1 \<le> get_max_finished_jobs s" by (auto simp: get_max_finished_jobs_def DEFAULT_MAXFINISHED_def split: option.splits)
  moreover have "Suc (length (remove_nth 0 (finished_jobs s))) \<le> max 1 (length (finished_jobs s))"
    by (cases "finished_jobs s") (simp_all add: remove_nth_def)
  ultimately show ?thesis by (auto simp: s1_def)
qed

lemma notify_errorlevel_rest:
  "length (finished_jobs (notify_errorlevel p s)) = length (finished_jobs s)" "world (notify_errorlevel p s) = world s"
proof -
  have "length (finished_jobs (notify_one lev t j)) = length (finished_jobs t) \<and> world (notify_one lev t j) = world t" for lev t j
    by (simp add: notify_one_def Let_def set_active_def split: option.splits)
  then have "length (finished_jobs (foldl (notify_one lev) t js)) = length (finished_jobs t)
      \<and> world (foldl (notify_one lev) t js) = world t" for lev t js
    by (induction js arbitrary: t) auto
  then show "length (finished_jobs (notify_errorlevel p s)) = length (finished_jobs s)" "world (notify_errorlevel p s) = world s"
    by (simp_all add: notify_errorlevel_def)
qed

lemma job_finished_bounded:
  assumes "job_finished r jid s = Inr s'"
  shows "int (length (finished_jobs s')) \<le> max (int (length (finished_jobs s))) (get_max_finished_jobs s)"
proof -
  obtain i p1 s1 where f: "free_cores (active_jobs s ! i) s = Inr (p1, s1)"
    and n: "let p2 = p1\<lparr>state := (if skipped r \<noteq> 0 then SKIPPED else FINISHED), result := r\<rparr>;
                s2 = notify_errorlevel p2 ((set_active i p2 s1)\<lparr>last_finished_jobid := jobid p2\<rparr>)
            in new_finished_job (finish_info r (active_jobs s2 ! i) s2) (remove_active i s2) = Inr s'"
    using assms by (auto simp: job_finished_def rbind_eq_Inr Let_def split: if_splits option.splits)
  have s1: "finished_jobs s1 = finished_jobs s" "world s1 = world s"
    using f by (auto simp: free_cores_def upd_user_eq rbind_eq_Inr split: if_splits)
  show ?thesis
    using n [unfolded Let_def, THEN finished_bounded] s1
    by (simp add: remove_active_def notify_errorlevel_rest set_active_def get_max_finished_jobs_def)
qed

end
