(* ===== verification/Examples.thy ===== *)
theory Examples
  imports User_Requests Job_Life
begin

text \<open>
  A small concrete server, on which the theorems are exercised: root and one user with two
  slots, one NUMA node with four CPUs in two groups, and a queue in which a job runs, one
  waits for it and one is locked.
\<close>

definition ex_world :: env where
  "ex_world = \<lparr>now = 100, wallclock = 5000, pid_alive = (\<lambda>_. True), proc_stat = (\<lambda>_. Some (CHR ''R'')),
     cpu_time = (\<lambda>_. 0), children = (\<lambda>_. []), empty_file = (\<lambda>_. False), stdout_link = (\<lambda>_. None),
     getenv = (\<lambda>nm. if nm = ''TS_SLOTS'' then Some ''3'' else None), insert_ok = (\<lambda>_ _. True), freeze_ok = (\<lambda>_ _. True),
     user_file = Some [Comment, Slots 4, Entry ''ada'' 2], passwd = (\<lambda>nm. if nm = ''ada'' then Some 1000 else None),
     server_uid = 0, term_width = 80, render = (\<lambda>t _. t), TS_CPU_BIND = True, CGROUP_V2 = True\<rparr>"

definition ex_topo :: topology where
  "ex_topo = \<lparr>groups = [\<lparr>node_id = 0, num_cores = 2, free_count = 0, os_cpus = [0, 1]\<rparr>,
                         \<lparr>node_id = 0, num_cores = 2, free_count = 0, os_cpus = [2, 3]\<rparr>],
     nodes = [\<lparr>n_node_id = 0, n_num_cores = 4, n_free_count = 0, group_ids = [0, 1]\<rparr>],
     max_cores_per_group = 2, max_os_cpu = 4\<rparr>"

definition ex_cpu :: cpu_state where
  "ex_cpu = cpu_bind_init \<lparr>topo = ex_topo, cpu_owner = [], cpu_to_group = [], cpu_bind_disabled = False,
     cpu_bind_defrag_disabled = False, allocs = [], store = (\<lambda>_. None), next_alloc = 0\<rparr>"

definition ex_job :: "int \<Rightarrow> jobstate \<Rightarrow> job" where
  "ex_job j st = zero_job\<lparr>jobid := j, state := st, command := Some ''sleep'', user := Some 1, num_slots := 1,
     client_socket := 7, wall_time := 3600\<rparr>"

definition ex_running :: job where
  "ex_running = (ex_job 1000 RUNNING)\<lparr>num_allocated := 1, pid := 42, notify_errorlevel_to := [1001]\<rparr>"

definition ex_srv :: srv where
  "ex_srv = (zero_server ex_world 100 ex_cpu)
     \<lparr>users_vec := [root_user, \<lparr>uname = ''ada'', uid = 1000, umax_slots = 2, busy = 1, njobs = 1, queue = 2, locked = 0\<rparr>],
      active_jobs := [ex_running, (ex_job 1001 QUEUED)\<lparr>depend_on := [1000]\<rparr>, ex_job 1002 QUEUED, ex_job 1003 LOCKED],
      jobids := 1004, busy_slots := 1, max_slots := 4,
      client_cs := [\<lparr>socket = 7, hasjob = True, c_jobid = 1000, c_user = Some 1\<rparr>,
                    \<lparr>socket = 8, hasjob = False, c_jobid = 0, c_user = Some 1\<rparr>]\<rparr>"

lemmas ex_defs = ex_srv_def ex_running_def ex_job_def zero_job_def zero_server_def root_user_def ex_world_def
  zero_info_def default_result_def

lemma ex_pool_ok: "pool_ok ex_cpu"
proof -
  have "wf_topo ex_topo"
    by (auto simp: wf_topo_def ex_topo_def gcpus_def less_Suc_eq numeral_2_eq_2)
  moreover have "sized_topo ex_topo"
    by (simp add: sized_topo_def ex_topo_def)
  ultimately show ?thesis unfolding ex_cpu_def by (intro init_pool) simp_all
qed

lemma ex_cpu_ok: "cpu_ok ex_cpu"
  using ex_pool_ok by (rule pool_okD)

lemma ex_cpu_start: "cpu_start ex_world ex_cpu"
  using ex_pool_ok by (simp add: cpu_start_def pool_ok_def cpu_ok_def tables_ok_def ex_world_def)

lemma ex_srv_ok: "srv_ok True ex_srv"
  by (auto simp: srv_ok_def acct_def ids_ok_def job_ok_def live_def weight_defs less_Suc_eq numeral_2_eq_2 ex_defs)

lemma ex_srv_healthy: "healthy True ex_srv"
  using ex_srv_ok ex_pool_ok by (simp add: healthy_def bind_ok_def ex_defs)

lemma ex_srv_parts: "cpu ex_srv = ex_cpu" "users_vec ex_srv \<noteq> []"
  by (simp_all add: ex_defs)

text \<open>A start of the server with two jobs in the database.\<close>

definition ex_boot :: boot where
  "ex_boot = \<lparr>stored_jobids = 0,
     max_in_Jobs = Some 1000, max_in_Finished = Some 0, global_write_ok = True, no_bind = False, no_bind_defrag = False,
     cgroup_dirs = Some [\<lparr>cg_jobid = 999, cg_pid = 41, cg_alive = False, cg_cpus = Some ''0-1'', cg_mems = Some ''0''\<rparr>]\<rparr>"

definition ex_start :: "srv res" where
  "ex_start = server_main ex_boot ex_world 20 ex_cpu [ex_job 1000 QUEUED, ex_job 1001 QUEUED] []"

lemma ex_start_returns: "\<exists>s. ex_start = Inr s \<and> map jobid (active_jobs s) = [1000, 1001] \<and> max_slots s = 3 \<and> jobids s = 1002"
proof -
  have "(case ex_start of Inl _ \<Rightarrow> False | Inr s \<Rightarrow> map jobid (active_jobs s) = [1000, 1001] \<and> max_slots s = 3 \<and> jobids s = 1002)"
    by code_simp
  then show ?thesis by (auto split: sum.splits)
qed

lemma ex_restorable:
  assumes "read_user_file (zero_server ex_world (20 - 5) ex_cpu) = Inr s1"
  shows "restorable (length (users_vec s1)) [ex_job 1000 QUEUED, ex_job 1001 QUEUED]"
proof -
  have "1 < length (users_vec s1)"
    using assms by (auto simp: read_user_file_def read_user_line_def ex_world_def zero_server_def s_set_max_slots_def
        find_user_by_uid_def root_user_def USER_MAX_def)
  then show ?thesis by (auto simp: restorable_def ex_defs)
qed

lemma ex_start_reachable: "ex_start = Inr s \<Longrightarrow> reachable s"
  unfolding ex_start_def using ex_restorable ex_cpu_start
  by (intro reachable.start) (fastforce simp: server_start_def all_ended_def ex_boot_def)

text \<open>
  Three turns of this server: two clients connect, take their jobs over, and report the
  processes they started.
\<close>

definition ex_turn :: "turn_label \<Rightarrow> srv \<Rightarrow> srv res" where
  "ex_turn l s = (case l of (w, acc, ready) \<Rightarrow> rbind (server_turn acc ready (s\<lparr>world := w\<rparr>)) (\<lambda>(keep, s').
     if keep then Inr s' else Inl Null_deref))"

definition ex_labels :: "turn_label list" where
  "ex_labels =
     [(ex_world, Some (7, 1000, 0), (\<lambda>_. None)),
      (ex_world, Some (8, 1000, 0), (\<lambda>k. if k = 7 then Some (Some (RECONNECT 1000 0))
                                         else if k = 8 then Some (Some (RECONNECT 1001 0)) else None)),
      (ex_world, None, (\<lambda>k. if k = 7 then Some (Some (RUNJOB_OK None 42))
                             else if k = 8 then Some (Some (RUNJOB_OK None 43)) else None))]"

definition ex_run :: "srv res" where
  "ex_run = rbind ex_start (rfold ex_turn ex_labels)"

lemma ex_run_returns: "\<exists>s. ex_run = Inr s \<and> map jobid (active_jobs s) = [1000, 1001]
  \<and> map state (active_jobs s) = [RUNNING, RUNNING] \<and> map cpu_alloc (active_jobs s) = [Some 0, Some 1]
  \<and> cpus_of (cpu s) 0 = [0] \<and> cpus_of (cpu s) 1 = [1] \<and> busy_slots s = 2"
proof -
  have "(case ex_run of Inl _ \<Rightarrow> False | Inr s \<Rightarrow> map jobid (active_jobs s) = [1000, 1001]
      \<and> map state (active_jobs s) = [RUNNING, RUNNING] \<and> map cpu_alloc (active_jobs s) = [Some 0, Some 1]
      \<and> cpus_of (cpu s) 0 = [0] \<and> cpus_of (cpu s) 1 = [1] \<and> busy_slots s = 2)"
    by code_simp
  then show ?thesis by (auto split: sum.splits)
qed

lemma ex_turn_reachable:
  assumes "ex_turn (w, acc, ready) s = Inr s'" "valid_ready ready" "reachable s"
  shows "reachable s'"
proof -
  have "server_turn acc ready (s\<lparr>world := w\<rparr>) = Inr (True, s')"
    using assms(1) by (auto simp: ex_turn_def rbind_eq_Inr split: if_splits)
  then show ?thesis using assms(2,3) reachable.step server_step.turn by blast
qed

lemma ex_run_reachable:
  assumes "ex_run = Inr s"
  shows "reachable s"
proof -
  obtain s0 where s0: "ex_start = Inr s0" and r: "rfold ex_turn ex_labels s0 = Inr s"
    using assms unfolding ex_run_def rbind_eq_Inr by blast
  have v: "\<forall>(w, acc, ready) \<in> set ex_labels. valid_ready ready"
    by (auto simp: ex_labels_def valid_ready_def valid_msg_def split: if_splits)
  have "rfold ex_turn ls t = Inr t' \<Longrightarrow> \<forall>(w, acc, ready) \<in> set ls. valid_ready ready \<Longrightarrow> reachable t \<Longrightarrow> reachable t'" for ls t t'
  proof (induction ls arbitrary: t)
    case (Cons l ls)
    then obtain t1 where "ex_turn l t = Inr t1" "rfold ex_turn ls t1 = Inr t'" by (auto simp: rbind_eq_Inr)
    then show ?case using Cons ex_turn_reachable [of "fst l" "fst (snd l)" "snd (snd l)" t t1] by (auto split: prod.splits)
  qed simp
  from this [OF r v ex_start_reachable [OF s0]] show ?thesis .
qed

end
