(* ===== verification/Vec.thy ===== *)
theory Vec
  imports TS_Prelude
begin

text \<open>
  The growable pointer array of \<open>vec.c\<close>: \<open>vec_t\<close> with its 64-bit \<open>size_t\<close> fields, every
  operation of the file, and the contract \<open>vector_spec\<close> that the clients (the job queues,
  the user table, the list of CPU allocations) rely on. The allocator is a parameter: a
  predicate that says for which byte counts \<open>malloc\<close> and \<open>realloc\<close> succeed.
\<close>

type_synonym size_t = "64 word"

definition SIZE_MAX :: size_t where "SIZE_MAX = - 1"

definition VEC_INITIAL_CAPACITY :: size_t where "VEC_INITIAL_CAPACITY = 8"

text \<open>
  \<open>data\<close> holds the cells in use, so \<open>size\<close> is its length (as a \<open>size_t\<close>); \<open>None\<close> is the
  null pointer that \<open>vec_destroy\<close> leaves.
\<close>

record 'a vec_t =
  data :: "'a list option"
  capacity :: size_t

definition cells :: "'a vec_t \<Rightarrow> 'a list" where
  "cells v = (case data v of None \<Rightarrow> [] | Some xs \<Rightarrow> xs)"

definition vec_size :: "'a vec_t \<Rightarrow> size_t" where
  "vec_size v = of_nat (length (cells v))"

definition vec_capacity :: "'a vec_t \<Rightarrow> size_t" where
  "vec_capacity v = capacity v"

text \<open>\<open>cap * sizeof(void *)\<close> is computed in \<open>size_t\<close> and wraps.\<close>

definition vec_bytes :: "size_t \<Rightarrow> size_t" where
  "vec_bytes cap = cap * 8"

definition vec_init :: "(size_t \<Rightarrow> bool) \<Rightarrow> 'a vec_t \<Rightarrow> int \<times> 'a vec_t" where
  "vec_init mem v =
     (if \<not> mem (vec_bytes VEC_INITIAL_CAPACITY) then (- 1, v\<lparr>data := None\<rparr>)
      else (0, v\<lparr>data := Some [], capacity := VEC_INITIAL_CAPACITY\<rparr>))"

definition vec_create :: "(size_t \<Rightarrow> bool) \<Rightarrow> 'a vec_t option" where
  "vec_create mem =
     (if \<not> mem 24 then None
      else (case vec_init mem \<lparr>data = None, capacity = 0\<rparr> of
              (rc, v) \<Rightarrow> if rc \<noteq> 0 then None else Some v))"

definition vec_reserve :: "(size_t \<Rightarrow> bool) \<Rightarrow> 'a vec_t \<Rightarrow> size_t \<Rightarrow> int \<times> 'a vec_t" where
  "vec_reserve mem v cap =
     (if data v = None then (- 1, v)
      else if cap \<le> capacity v then (0, v)
      else if \<not> mem (vec_bytes cap) then (- 1, v)
      else (0, v\<lparr>capacity := cap\<rparr>))"

text \<open>The growth step shared by \<open>vec_push\<close> and \<open>vec_insert\<close>.\<close>

definition vec_grow :: "(size_t \<Rightarrow> bool) \<Rightarrow> 'a vec_t \<Rightarrow> int \<times> 'a vec_t" where
  "vec_grow mem v =
     (if vec_size v \<ge> capacity v
      then (if capacity v > SIZE_MAX div 2 then (- 1, v)
            else vec_reserve mem v (capacity v * 2))
      else (0, v))"

definition vec_push :: "(size_t \<Rightarrow> bool) \<Rightarrow> 'a vec_t \<Rightarrow> 'a \<Rightarrow> int \<times> 'a vec_t" where
  "vec_push mem v item =
     (case data v of None \<Rightarrow> (- 1, v)
      | Some xs \<Rightarrow>
          (case vec_grow mem v of (rc, v') \<Rightarrow>
             if rc \<noteq> 0 then (- 1, v') else (0, v'\<lparr>data := Some (xs @ [item])\<rparr>)))"

definition vec_pop :: "'a vec_t \<Rightarrow> 'a option \<times> 'a vec_t" where
  "vec_pop v =
     (case data v of None \<Rightarrow> (None, v)
      | Some xs \<Rightarrow> if xs = [] then (None, v) else (Some (last xs), v\<lparr>data := Some (butlast xs)\<rparr>))"

definition vec_get :: "'a vec_t \<Rightarrow> size_t \<Rightarrow> 'a option" where
  "vec_get v index =
     (case data v of None \<Rightarrow> None
      | Some xs \<Rightarrow> if index \<ge> vec_size v then None else Some (xs ! unat index))"

definition vec_set :: "'a vec_t \<Rightarrow> size_t \<Rightarrow> 'a \<Rightarrow> 'a option \<times> 'a vec_t" where
  "vec_set v index item =
     (case data v of None \<Rightarrow> (None, v)
      | Some xs \<Rightarrow>
          if index \<ge> vec_size v then (None, v)
          else (Some (xs ! unat index), v\<lparr>data := Some (xs[unat index := item])\<rparr>))"

definition vec_insert :: "(size_t \<Rightarrow> bool) \<Rightarrow> 'a vec_t \<Rightarrow> size_t \<Rightarrow> 'a \<Rightarrow> int \<times> 'a vec_t" where
  "vec_insert mem v index item =
     (case data v of None \<Rightarrow> (- 1, v)
      | Some xs \<Rightarrow>
          if index > vec_size v then (- 1, v)
          else (case vec_grow mem v of (rc, v') \<Rightarrow>
                  if rc \<noteq> 0 then (- 1, v')
                  else (0, v'\<lparr>data := Some (insert_nth (unat index) item xs)\<rparr>)))"

definition vec_remove :: "'a vec_t \<Rightarrow> size_t \<Rightarrow> 'a option \<times> 'a vec_t" where
  "vec_remove v index =
     (case data v of None \<Rightarrow> (None, v)
      | Some xs \<Rightarrow>
          if index \<ge> vec_size v then (None, v)
          else (Some (xs ! unat index), v\<lparr>data := Some (remove_nth (unat index) xs)\<rparr>))"

definition vec_clear :: "'a vec_t \<Rightarrow> 'a vec_t" where
  "vec_clear v = (case data v of None \<Rightarrow> v | Some _ \<Rightarrow> v\<lparr>data := Some []\<rparr>)"

definition vec_destroy :: "'a vec_t \<Rightarrow> 'a vec_t" where
  "vec_destroy v = v\<lparr>data := None, capacity := 0\<rparr>"

section \<open>Well-formed vectors\<close>

text \<open>
  A vector in use: its array is allocated, its length fits the capacity, and the capacity
  is small enough for the byte count of the array, and of the array after one doubling, to
  be a \<open>size_t\<close>. Growing keeps this when the allocator refuses requests of more than
  \<open>PTRDIFF_MAX\<close> bytes, as the C library documents it (\<open>alloc_bound\<close>).
\<close>

definition alloc_bound :: "(size_t \<Rightarrow> bool) \<Rightarrow> bool" where
  "alloc_bound mem \<longleftrightarrow> (\<forall>n. mem n \<longrightarrow> unat n < 2 ^ 63)"

definition vec_wf :: "'a vec_t \<Rightarrow> bool" where
  "vec_wf v \<longleftrightarrow> data v \<noteq> None \<and> length (cells v) \<le> unat (capacity v)
     \<and> 0 < unat (capacity v) \<and> unat (capacity v) < 2 ^ 60"

text \<open>Room for one more element without growing.\<close>

definition vec_room :: "'a vec_t \<Rightarrow> bool" where
  "vec_room v \<longleftrightarrow> length (cells v) < unat (capacity v)"

lemma cells_Some: "data v = Some xs \<Longrightarrow> cells v = xs"
  by (simp add: cells_def)

lemma vec_wf_data: "vec_wf v \<Longrightarrow> \<exists>xs. data v = Some xs"
  by (auto simp: vec_wf_def)

lemma unat_vec_size: "vec_wf v \<Longrightarrow> unat (vec_size v) = length (cells v)"
  by (auto simp: vec_wf_def vec_size_def unat_of_nat intro!: mod_less)

lemma index_ge_vec_size: "vec_wf v \<Longrightarrow> i \<ge> vec_size v \<longleftrightarrow> length (cells v) \<le> unat i"
  by (simp add: word_le_nat_alt unat_vec_size)

lemma index_gt_vec_size: "vec_wf v \<Longrightarrow> i > vec_size v \<longleftrightarrow> length (cells v) < unat i"
  by (simp add: word_less_nat_alt unat_vec_size)

lemma full_iff: "vec_wf v \<Longrightarrow> vec_size v \<ge> capacity v \<longleftrightarrow> \<not> vec_room v"
  by (auto simp: word_le_nat_alt unat_vec_size vec_room_def)

lemma half_SIZE_MAX: "unat (SIZE_MAX div 2) = 2 ^ 63 - 1"
  by (simp add: SIZE_MAX_def unat_div)

lemma vec_bytes_exact: "unat c < 2 ^ 61 \<Longrightarrow> unat (vec_bytes c) = unat c * 8"
  by (simp add: vec_bytes_def unat_word_ariths)

lemma unat_double: "unat (c :: size_t) < 2 ^ 60 \<Longrightarrow> unat (c * 2) = unat c * 2"
  by (simp add: unat_word_ariths)

text \<open>
  The growth step keeps the cells; it leaves room when it succeeds, and succeeds without
  asking the allocator when there is room already.
\<close>

lemma vec_grow_room: "vec_wf v \<Longrightarrow> vec_room v \<Longrightarrow> vec_grow mem v = (0, v)"
  by (simp add: vec_grow_def full_iff)

lemma vec_grow_full:
  assumes "vec_wf v" "\<not> vec_room v" "alloc_bound mem" "vec_grow mem v = (rc, v')"
  shows "data v' = data v \<and> vec_wf v' \<and> (rc = 0 \<longrightarrow> vec_room v')
     \<and> (rc = 0 \<longleftrightarrow> mem (vec_bytes (capacity v * 2)))"
proof -
  have cap: "unat (capacity v) < 2 ^ 60" "0 < unat (capacity v)" "data v \<noteq> None"
    using assms(1) by (auto simp: vec_wf_def)
  have small: "\<not> capacity v > SIZE_MAX div 2"
    using cap by (simp add: word_less_nat_alt half_SIZE_MAX)
  have dbl: "unat (capacity v * 2) = unat (capacity v) * 2"
    using cap by (simp add: unat_double)
  then have more: "\<not> capacity v * 2 \<le> capacity v"
    using cap by (simp add: word_le_nat_alt)
  have bytes: "unat (vec_bytes (capacity v * 2)) = unat (capacity v) * 16"
    using cap dbl by (simp add: vec_bytes_exact)
  show ?thesis
  proof (cases "mem (vec_bytes (capacity v * 2))")
    case True
    then have "unat (capacity v) * 16 < 2 ^ 63"
      using assms(3) bytes by (auto simp: alloc_bound_def)
    then show ?thesis
      using True assms cap small more dbl
      by (auto simp: vec_grow_def full_iff vec_reserve_def vec_wf_def vec_room_def cells_def)
  next
    case False
    then show ?thesis
      using assms cap small more by (auto simp: vec_grow_def full_iff vec_reserve_def)
  qed
qed

lemma vec_grow_spec:
  assumes "vec_wf v" "alloc_bound mem" "vec_grow mem v = (rc, v')"
  shows "data v' = data v \<and> vec_wf v' \<and> (rc = 0 \<longrightarrow> vec_room v')"
  using assms vec_grow_room [of v mem] vec_grow_full [of v mem rc v'] by (cases "vec_room v") auto

section \<open>The vector contract\<close>

text \<open>
  What the clients of \<open>vec.c\<close> rely on, with the vector seen as a list: a push, an insert or
  a removal either changes the list as its name says or reports failure and changes nothing,
  and a removal always leaves room for the next push or insert, which then cannot fail.
\<close>

locale vector_spec =
  fixes abs_list :: "'v \<Rightarrow> 'a list"
    and inv :: "'v \<Rightarrow> bool"
    and room :: "'v \<Rightarrow> bool"
    and push :: "'v \<Rightarrow> 'a \<Rightarrow> int \<times> 'v"
    and insert_at :: "'v \<Rightarrow> size_t \<Rightarrow> 'a \<Rightarrow> int \<times> 'v"
    and remove :: "'v \<Rightarrow> size_t \<Rightarrow> 'a option \<times> 'v"
    and get :: "'v \<Rightarrow> size_t \<Rightarrow> 'a option"
    and put :: "'v \<Rightarrow> size_t \<Rightarrow> 'a \<Rightarrow> 'a option \<times> 'v"
  assumes push_inv: "inv v \<Longrightarrow> inv (snd (push v x))"
    and push_list: "inv v \<Longrightarrow>
      abs_list (snd (push v x)) = (if fst (push v x) = 0 then abs_list v @ [x] else abs_list v)"
    and push_room: "inv v \<Longrightarrow> room v \<Longrightarrow> fst (push v x) = 0"
    and insert_inv: "inv v \<Longrightarrow> inv (snd (insert_at v i x))"
    and insert_list: "inv v \<Longrightarrow> unat i \<le> length (abs_list v) \<Longrightarrow>
      abs_list (snd (insert_at v i x)) =
        (if fst (insert_at v i x) = 0 then insert_nth (unat i) x (abs_list v) else abs_list v)"
    and insert_room: "inv v \<Longrightarrow> room v \<Longrightarrow> unat i \<le> length (abs_list v) \<Longrightarrow>
      fst (insert_at v i x) = 0"
    and remove_inv: "inv v \<Longrightarrow> inv (snd (remove v i))"
    and remove_in: "inv v \<Longrightarrow> unat i < length (abs_list v) \<Longrightarrow>
      fst (remove v i) = Some (abs_list v ! unat i) \<and>
      abs_list (snd (remove v i)) = remove_nth (unat i) (abs_list v) \<and> room (snd (remove v i))"
    and get_eq: "inv v \<Longrightarrow>
      get v i = (if unat i < length (abs_list v) then Some (abs_list v ! unat i) else None)"
    and put_inv: "inv v \<Longrightarrow> inv (snd (put v i x))"
    and put_list: "inv v \<Longrightarrow> unat i < length (abs_list v) \<Longrightarrow>
      abs_list (snd (put v i x)) = (abs_list v)[unat i := x]"
begin

text \<open>The three rearrangements the server performs on its queue.\<close>

lemma move_to_front:
  assumes "inv v" "unat i < length (abs_list v)" "remove v i = (Some x, v1)"
    and "insert_at v1 0 x = (rc, v2)"
  shows "rc = 0 \<and> inv v2 \<and> abs_list v2 = abs_list v ! unat i # remove_nth (unat i) (abs_list v)"
  using assms remove_in [of v i] remove_inv [of v i] insert_inv [of v1 0 x]
    insert_list [of v1 0 x] insert_room [of v1 0 x]
  by (auto simp: insert_nth_def)

lemma move_to_back:
  assumes "inv v" "unat i < length (abs_list v)" "remove v i = (Some x, v1)" "push v1 x = (rc, v2)"
  shows "rc = 0 \<and> inv v2 \<and> abs_list v2 = remove_nth (unat i) (abs_list v) @ [abs_list v ! unat i]"
  using assms remove_in [of v i] remove_inv [of v i] push_inv [of v1 x] push_list [of v1 x]
    push_room [of v1 x]
  by auto

lemma swap_two:
  assumes "inv v" "unat i < length (abs_list v)" "unat j < length (abs_list v)"
    and "get v i = Some x" "get v j = Some y" "put v i y = (o1, v1)" "put v1 j x = (o2, v2)"
  shows "inv v2 \<and> abs_list v2 =
    (abs_list v)[unat i := abs_list v ! unat j, unat j := abs_list v ! unat i]"
  using assms put_inv [of v i y] put_list [of v i y] put_inv [of v1 j x] put_list [of v1 j x]
  by (auto simp: get_eq)

lemma rearrangements_permute:
  "i < length (abs_list v) \<Longrightarrow>
   mset (abs_list v ! i # remove_nth i (abs_list v)) = mset (abs_list v)"
  by (simp flip: mset_remove_nth)

end

lemma vec_push_cases:
  assumes "alloc_bound mem" "vec_wf v" "data v = Some xs"
  shows "\<exists>v'. data v' = Some xs \<and> vec_wf v' \<and>
    (vec_push mem v x = (- 1, v') \<or>
     vec_room v' \<and> vec_push mem v x = (0, v'\<lparr>data := Some (xs @ [x])\<rparr>))"
proof -
  obtain rc v' where g: "vec_grow mem v = (rc, v')" by (cases "vec_grow mem v")
  with assms have "data v' = Some xs" "vec_wf v'" "rc = 0 \<longrightarrow> vec_room v'"
    using vec_grow_spec [of v mem rc v'] by auto
  with g assms(3) show ?thesis
    by (intro exI [of _ v']) (simp add: vec_push_def)
qed

lemma vec_insert_cases:
  assumes "alloc_bound mem" "vec_wf v" "data v = Some xs" "unat i \<le> length xs"
  shows "\<exists>v'. data v' = Some xs \<and> vec_wf v' \<and>
    (vec_insert mem v i x = (- 1, v') \<or>
     vec_room v' \<and> vec_insert mem v i x = (0, v'\<lparr>data := Some (insert_nth (unat i) x xs)\<rparr>))"
proof -
  obtain rc v' where g: "vec_grow mem v = (rc, v')" by (cases "vec_grow mem v")
  with assms have "data v' = Some xs" "vec_wf v'" "rc = 0 \<longrightarrow> vec_room v'"
    using vec_grow_spec [of v mem rc v'] by auto
  moreover have "\<not> i > vec_size v"
    using assms by (simp add: index_gt_vec_size cells_Some)
  ultimately show ?thesis using g assms(3)
    by (intro exI [of _ v']) (simp add: vec_insert_def)
qed

lemma vec_extend_wf:
  assumes "vec_wf v" "vec_room v" "data v = Some xs" "length ys = Suc (length xs)"
  shows "vec_wf (v\<lparr>data := Some ys\<rparr>)"
  using assms by (simp add: vec_wf_def vec_room_def cells_def)

lemma vec_push_wf:
  assumes "alloc_bound mem" "vec_wf v"
  shows "vec_wf (snd (vec_push mem v x))"
proof -
  obtain xs where xs: "data v = Some xs" using assms(2) vec_wf_data by blast
  from vec_push_cases [OF assms xs, of x] show ?thesis
    by (auto simp: vec_extend_wf)
qed

lemma vec_push_cells:
  "alloc_bound mem \<Longrightarrow> vec_wf v \<Longrightarrow> cells (snd (vec_push mem v x)) =
     (if fst (vec_push mem v x) = 0 then cells v @ [x] else cells v)"
  using vec_wf_data [of v] vec_push_cases [of mem v _ x] by (force simp: cells_Some)

lemma vec_insert_wf: "alloc_bound mem \<Longrightarrow> vec_wf v \<Longrightarrow> vec_wf (snd (vec_insert mem v i x))"
proof -
  assume a: "alloc_bound mem" "vec_wf v"
  then obtain xs where xs: "data v = Some xs" using vec_wf_data by blast
  show ?thesis
  proof (cases "unat i \<le> length xs")
    case True
    then show ?thesis
      using a xs vec_insert_cases [of mem v xs i x] by (force intro: vec_extend_wf simp: length_insert_nth)
  next
    case False
    then have "i > vec_size v" using a xs by (simp add: index_gt_vec_size cells_Some)
    then show ?thesis using a xs by (simp add: vec_insert_def)
  qed
qed

lemma vec_insert_cells:
  assumes "alloc_bound mem" "vec_wf v" "unat i \<le> length (cells v)"
  shows "cells (snd (vec_insert mem v i x)) =
     (if fst (vec_insert mem v i x) = 0 then insert_nth (unat i) x (cells v) else cells v)"
proof -
  obtain xs where xs: "data v = Some xs" using assms(2) vec_wf_data by blast
  then have "unat i \<le> length xs" using assms(3) by (simp add: cells_Some)
  from vec_insert_cases [OF assms(1,2) xs this, of x] show ?thesis
    using xs by (auto simp: cells_Some)
qed

lemma vec_remove_in:
  assumes "vec_wf v" "unat i < length (cells v)"
  shows "fst (vec_remove v i) = Some (cells v ! unat i) \<and>
    cells (snd (vec_remove v i)) = remove_nth (unat i) (cells v) \<and> vec_room (snd (vec_remove v i))"
proof -
  obtain xs where xs: "data v = Some xs" using assms(1) vec_wf_data by blast
  have "\<not> i \<ge> vec_size v" using assms by (simp add: index_ge_vec_size)
  then have "vec_remove v i = (Some (xs ! unat i), v\<lparr>data := Some (remove_nth (unat i) xs)\<rparr>)"
    using xs by (simp add: vec_remove_def)
  then show ?thesis
    using assms xs by (auto simp: cells_Some vec_room_def vec_wf_def length_remove_nth)
qed

lemma vec_remove_wf: "vec_wf v \<Longrightarrow> vec_wf (snd (vec_remove v i))"
  using vec_wf_data [of v] index_ge_vec_size [of v i]
  by (auto simp: vec_remove_def cells_Some vec_wf_def length_remove_nth)

lemma vec_get_eq:
  "vec_wf v \<Longrightarrow> vec_get v i = (if unat i < length (cells v) then Some (cells v ! unat i) else None)"
  using vec_wf_data [of v] index_ge_vec_size [of v i] by (auto simp: vec_get_def cells_Some)

lemma vec_set_wf: "vec_wf v \<Longrightarrow> vec_wf (snd (vec_set v i x))"
  using vec_wf_data [of v] by (auto simp: vec_set_def vec_wf_def cells_Some)

lemma vec_set_cells:
  "vec_wf v \<Longrightarrow> unat i < length (cells v) \<Longrightarrow> cells (snd (vec_set v i x)) = (cells v)[unat i := x]"
  using vec_wf_data [of v] index_ge_vec_size [of v i] by (auto simp: vec_set_def cells_Some)

lemma vec_push_room: "vec_wf v \<Longrightarrow> vec_room v \<Longrightarrow> fst (vec_push mem v x) = 0"
  using vec_wf_data [of v] by (auto simp: vec_push_def vec_grow_room)

lemma vec_insert_room:
  "vec_wf v \<Longrightarrow> vec_room v \<Longrightarrow> unat i \<le> length (cells v) \<Longrightarrow> fst (vec_insert mem v i x) = 0"
  using vec_wf_data [of v] index_gt_vec_size [of v i]
  by (auto simp: vec_insert_def vec_grow_room)

interpretation vec: vector_spec cells "\<lambda>v. alloc_bound mem \<and> vec_wf v" vec_room
  "vec_push mem" "vec_insert mem" vec_remove vec_get vec_set
  for mem
  by unfold_locales
    (auto simp: vec_push_wf vec_push_cells vec_push_room vec_insert_wf vec_insert_cells
      vec_insert_room vec_remove_wf vec_remove_in vec_get_eq vec_set_wf vec_set_cells)

end
