(* ===== verification/Defrag_Io.thy ===== *)
theory Defrag_Io
  imports Server_State
begin

text \<open>
  The I/O thread of the defragmenter (\<open>defrag_io_thread\<close> of \<open>cpu_bind.c\<close>) beside the main thread.
  The main thread passes \<open>cgroup_io_wait_if_busy\<close> before it freezes, thaws or binds a job; a
  step relation interleaves both threads at the granularity of their calls, with the mutex, the
  flag and the condition variable.
\<close>

section \<open>The work of the thread\<close>

text \<open>The operations of the thread on a job and its process: freeze, write the CPU set, thaw.\<close>

datatype io_op = Io_freeze int int | Io_write int int "nat list" | Io_thaw int int

definition io_ops :: "(int \<times> int \<times> nat list) list \<Rightarrow> io_op list" where
  "io_ops work = map (\<lambda>(j, p, cs). Io_freeze j p) work @ map (\<lambda>(j, p, cs). Io_write j p cs) work
     @ map (\<lambda>(j, p, cs). Io_thaw j p) work"

text \<open>Writing a CPU set creates the control group when there is none (\<open>io_write_cpuset\<close>).\<close>

fun apply_op :: "io_op \<Rightarrow> (int \<times> int) set \<Rightarrow> (int \<times> int) set" where
  "apply_op (Io_write j p cs) g = insert (j, p) g"
| "apply_op op g = g"

section \<open>Both threads\<close>

text \<open>
  A thread is created, holds the mutex from its first operation to its last, and ends. The main
  thread is elsewhere, holds the mutex at the test of the flag, sleeps on the condition, or is past
  the wait and inside an operation on the control groups.
\<close>

datatype io_thread = Spawned "io_op list" | In_io "io_op list" | Ended

datatype main_at = Working | Testing | Sleeping | In_op

datatype holder = Main_thread | Io_thread nat

record io_state =
  cgroup_io_mutex :: "holder option"
  cgroup_io_busy :: bool
  main_pc :: main_at
  threads :: "io_thread list"
  cgroups :: "(int \<times> int) set"

definition io_start :: "(int \<times> int) set \<Rightarrow> io_state" where
  "io_start g = \<lparr>cgroup_io_mutex = None, cgroup_io_busy = False, main_pc = Working, threads = [], cgroups = g\<rparr>"

text \<open>
  The first argument says whether the wait of 30 seconds may run out. Returning from the wait, for
  whatever reason, takes the mutex again. \<open>cgroups_create_job\<close> and \<open>cgroups_clean_job\<close> do not wait.
\<close>

inductive io_step :: "bool \<Rightarrow> io_state \<Rightarrow> io_state \<Rightarrow> bool" for b where
  wait_lock: "main_pc s = Working \<Longrightarrow> cgroup_io_mutex s = None \<Longrightarrow>
    io_step b s (s\<lparr>cgroup_io_mutex := Some Main_thread, main_pc := Testing\<rparr>)"
| wait_pass: "main_pc s = Testing \<Longrightarrow> \<not> cgroup_io_busy s \<Longrightarrow> io_step b s (s\<lparr>cgroup_io_mutex := None, main_pc := In_op\<rparr>)"
| wait_sleep: "main_pc s = Testing \<Longrightarrow> cgroup_io_busy s \<Longrightarrow> io_step b s (s\<lparr>cgroup_io_mutex := None, main_pc := Sleeping\<rparr>)"
| wait_wake: "main_pc s = Sleeping \<Longrightarrow> cgroup_io_mutex s = None \<Longrightarrow>
    io_step b s (s\<lparr>cgroup_io_mutex := Some Main_thread, main_pc := Testing\<rparr>)"
| wait_timeout: "b \<Longrightarrow> main_pc s = Sleeping \<Longrightarrow> cgroup_io_mutex s = None \<Longrightarrow>
    io_step b s (s\<lparr>cgroup_io_busy := False, main_pc := In_op\<rparr>)"
| op_done: "main_pc s = In_op \<Longrightarrow> io_step b s (s\<lparr>main_pc := Working\<rparr>)"
| spawn: "main_pc s = In_op \<Longrightarrow> cgroup_io_mutex s = None \<Longrightarrow>
    io_step b s (s\<lparr>cgroup_io_busy := True, threads := threads s @ [Spawned (io_ops work)], main_pc := Working\<rparr>)"
| create_group: "main_pc s = Working \<Longrightarrow> io_step b s (s\<lparr>cgroups := insert (j, p) (cgroups s)\<rparr>)"
| clean_group: "main_pc s = Working \<Longrightarrow> io_step b s (s\<lparr>cgroups := cgroups s - {(j, p)}\<rparr>)"
| io_begin: "i < length (threads s) \<Longrightarrow> threads s ! i = Spawned ops \<Longrightarrow> cgroup_io_mutex s = None \<Longrightarrow>
    io_step b s (s\<lparr>cgroup_io_mutex := Some (Io_thread i), threads := (threads s)[i := In_io ops]\<rparr>)"
| io_work: "i < length (threads s) \<Longrightarrow> threads s ! i = In_io (op # ops) \<Longrightarrow>
    io_step b s (s\<lparr>cgroups := apply_op op (cgroups s), threads := (threads s)[i := In_io ops]\<rparr>)"
| io_end: "i < length (threads s) \<Longrightarrow> threads s ! i = In_io [] \<Longrightarrow>
    io_step b s (s\<lparr>cgroup_io_busy := False, cgroup_io_mutex := None, threads := (threads s)[i := Ended]\<rparr>)"

inductive_cases io_stepE: "io_step b s s'"

inductive io_reachable :: "bool \<Rightarrow> io_state \<Rightarrow> bool" for b where
  start: "io_reachable b (io_start g)"
| step: "io_reachable b s \<Longrightarrow> io_step b s s' \<Longrightarrow> io_reachable b s'"

section \<open>The mutex\<close>

definition mutex_ok :: "io_state \<Rightarrow> bool" where
  "mutex_ok s \<longleftrightarrow> (main_pc s = Testing \<longrightarrow> cgroup_io_mutex s = Some Main_thread)
     \<and> (\<forall>i < length (threads s). \<forall>ops. threads s ! i = In_io ops \<longrightarrow> cgroup_io_mutex s = Some (Io_thread i))"

lemma mutex_okI:
  "(main_pc s = Testing \<Longrightarrow> cgroup_io_mutex s = Some Main_thread) \<Longrightarrow>
   (\<And>i ops. i < length (threads s) \<Longrightarrow> threads s ! i = In_io ops \<Longrightarrow> cgroup_io_mutex s = Some (Io_thread i)) \<Longrightarrow> mutex_ok s"
  by (simp add: mutex_ok_def)

lemma mutex_okD:
  "mutex_ok s \<Longrightarrow> main_pc s = Testing \<Longrightarrow> cgroup_io_mutex s = Some Main_thread"
  "mutex_ok s \<Longrightarrow> i < length (threads s) \<Longrightarrow> threads s ! i = In_io ops \<Longrightarrow> cgroup_io_mutex s = Some (Io_thread i)"
  by (simp_all add: mutex_ok_def)

lemma mutex_free:
  assumes "mutex_ok s" "cgroup_io_mutex s = None \<or> main_pc s = Testing" "i < length (threads s)"
  shows "threads s ! i \<noteq> In_io ops"
  using assms mutex_okD(1) [OF assms(1)] mutex_okD(2) [OF assms(1,3)] by fastforce

lemma mutex_one:
  assumes "mutex_ok s" "i < length (threads s)" "threads s ! i = In_io ops" "j < length (threads s)" "threads s ! j = In_io ops'"
  shows "j = i"
  using mutex_okD(2) [OF assms(1-3)] mutex_okD(2) [OF assms(1,4,5)] by simp

lemma step_mutex:
  assumes "io_step b s s'" "mutex_ok s"
  shows "mutex_ok s'"
  using assms(1)
proof (cases rule: io_step.cases)
  case (io_begin i ops)
  show ?thesis
  proof (rule mutex_okI)
    show "cgroup_io_mutex s' = Some Main_thread" if "main_pc s' = Testing" using that io_begin mutex_okD(1) [OF assms(2)] by simp
    show "cgroup_io_mutex s' = Some (Io_thread k)" if "k < length (threads s')" "threads s' ! k = In_io ops'" for k ops'
      using that io_begin mutex_free [OF assms(2), of k] by (cases "k = i") simp_all
  qed
next
  case (io_work i op ops)
  note m = mutex_okD(2) [OF assms(2) io_work(2,3)]
  show ?thesis
  proof (rule mutex_okI)
    show "cgroup_io_mutex s' = Some Main_thread" if "main_pc s' = Testing" using that io_work mutex_okD(1) [OF assms(2)] by simp
    show "cgroup_io_mutex s' = Some (Io_thread k)" if "k < length (threads s')" "threads s' ! k = In_io ops'" for k ops'
      using that io_work m mutex_okD(2) [OF assms(2), of k] by (cases "k = i") simp_all
  qed
next
  case (io_end i)
  note m = mutex_okD(2) [OF assms(2) io_end(2,3)]
  show ?thesis
  proof (rule mutex_okI)
    show "cgroup_io_mutex s' = Some Main_thread" if "main_pc s' = Testing" using that io_end m mutex_okD(1) [OF assms(2)] by simp
    show "cgroup_io_mutex s' = Some (Io_thread k)" if "k < length (threads s')" "threads s' ! k = In_io ops'" for k ops'
    proof -
      have "k \<noteq> i" using that io_end by auto
      then have "k < length (threads s)" "threads s ! k = In_io ops'" using that io_end by simp_all
      then show ?thesis using mutex_one [OF assms(2) io_end(2,3)] \<open>k \<noteq> i\<close> by blast
    qed
  qed
next
  case (spawn work)
  show ?thesis
  proof (rule mutex_okI)
    show "cgroup_io_mutex s' = Some (Io_thread k)" if "k < length (threads s')" "threads s' ! k = In_io ops'" for k ops'
      using that spawn mutex_free [OF assms(2), of k] by (cases "k < length (threads s)") (simp_all add: nth_append)
  qed (use spawn in simp)
qed (rule mutex_okI; use mutex_okD [OF assms(2)] mutex_free [OF assms(2)] in force)+

lemma reachable_mutex: "io_reachable b s \<Longrightarrow> mutex_ok s"
proof (induction rule: io_reachable.induct)
  case (step s s')
  then show ?case using step_mutex by blast
qed (simp add: mutex_ok_def io_start_def)

text \<open>While the thread works, a main thread that waits for it goes on waiting: the time-out needs the mutex too.\<close>

lemma waits_for_ever:
  assumes "io_reachable b s" "io_step b s s'" "main_pc s = Sleeping" "In_io ops \<in> set (threads s)"
  shows "main_pc s' = Sleeping"
proof -
  obtain i where "i < length (threads s)" "threads s ! i = In_io ops" using assms(4) by (auto simp: in_set_conv_nth)
  then have "cgroup_io_mutex s = Some (Io_thread i)" using reachable_mutex [OF assms(1)] by (simp add: mutex_ok_def)
  with assms(2,3) show ?thesis by (auto elim!: io_stepE)
qed

section \<open>Exclusion\<close>

definition excluded :: "io_state \<Rightarrow> bool" where
  "excluded s \<longleftrightarrow> mutex_ok s \<and> (\<not> cgroup_io_busy s \<longrightarrow> (\<forall>i < length (threads s). threads s ! i = Ended))
     \<and> (main_pc s = In_op \<longrightarrow> \<not> cgroup_io_busy s)
     \<and> (\<forall>i < length (threads s). \<forall>j < length (threads s). threads s ! i \<noteq> Ended \<and> threads s ! j \<noteq> Ended \<longrightarrow> i = j)"

lemma excludedD:
  assumes "excluded s"
  shows "mutex_ok s" "\<not> cgroup_io_busy s \<Longrightarrow> i < length (threads s) \<Longrightarrow> threads s ! i = Ended" "main_pc s = In_op \<Longrightarrow> \<not> cgroup_io_busy s"
    "i < length (threads s) \<Longrightarrow> j < length (threads s) \<Longrightarrow> threads s ! i \<noteq> Ended \<Longrightarrow> threads s ! j \<noteq> Ended \<Longrightarrow> i = j"
  using assms unfolding excluded_def by blast+

lemma excludedI:
  assumes "mutex_ok s" "\<And>i. \<not> cgroup_io_busy s \<Longrightarrow> i < length (threads s) \<Longrightarrow> threads s ! i = Ended" "main_pc s = In_op \<Longrightarrow> \<not> cgroup_io_busy s"
    "\<And>i j. i < length (threads s) \<Longrightarrow> j < length (threads s) \<Longrightarrow> threads s ! i \<noteq> Ended \<Longrightarrow> threads s ! j \<noteq> Ended \<Longrightarrow> i = j"
  shows "excluded s"
  using assms unfolding excluded_def by blast

text \<open>A step of thread \<open>i\<close> that replaces its state: the others have ended.\<close>

lemma thread_excluded:
  assumes "excluded s" "i < length (threads s)" "threads s ! i \<noteq> Ended" "mutex_ok s'" "main_pc s' = main_pc s"
    "threads s' = (threads s)[i := t]" "cgroup_io_busy s' = cgroup_io_busy s \<or> t = Ended \<and> \<not> cgroup_io_busy s'"
  shows "excluded s'"
proof -
  have e: "threads s ! k = Ended" if "k < length (threads s)" "k \<noteq> i" for k using excludedD(4) [OF assms(1)] assms(2,3) that by blast
  have b: "cgroup_io_busy s" using excludedD(2) [OF assms(1)] assms(2,3) by blast
  then have "main_pc s \<noteq> In_op" using excludedD(3) [OF assms(1)] by blast
  then show ?thesis using e b assms(2,4-7) by (intro excludedI) (auto simp: nth_list_update split: if_splits)
qed

lemma step_excluded:
  assumes "io_step False s s'" "excluded s"
  shows "excluded s'"
proof -
  note x = excludedD [OF assms(2)]
  have m: "mutex_ok s'" using step_mutex [OF assms(1) x(1)] .
  from assms(1) show ?thesis
  proof (cases rule: io_step.cases)
    case (spawn work)
    then have "threads s ! k = Ended" if "k < length (threads s)" for k using x(2,3) that by blast
    then show ?thesis using spawn m by (intro excludedI) (auto simp: nth_append less_Suc_eq split: if_splits)
  next
    case (io_begin i ops)
    then show ?thesis using m by (intro thread_excluded [OF assms(2), of i _ "In_io ops"]) simp_all
  next
    case (io_work i op ops)
    then show ?thesis using m by (intro thread_excluded [OF assms(2), of i _ "In_io ops"]) simp_all
  next
    case (io_end i)
    then show ?thesis using m by (intro thread_excluded [OF assms(2), of i _ Ended]) simp_all
  qed (rule excludedI; use m x in force)+
qed

lemma reachable_excluded: "io_reachable False s \<Longrightarrow> excluded s"
proof (induction rule: io_reachable.induct)
  case (step s s')
  then show ?case using step_excluded by blast
qed (simp add: excluded_def mutex_ok_def io_start_def)

lemma op_alone:
  assumes "io_reachable False s" "main_pc s = In_op" "t \<in> set (threads s)"
  shows "t = Ended"
  using reachable_excluded [OF assms(1)] assms(2,3) by (auto simp: excluded_def in_set_conv_nth)

section \<open>Runs\<close>

text \<open>A thread that starts late: its creator has given up waiting for it.\<close>

lemma late_start:
  "\<exists>s. io_reachable True s \<and> main_pc s = In_op \<and> threads s = [In_io (io_ops work)]"
proof -
  note st = io_reachable.step
  let ?s0 = "io_start {}"
  let ?s1 = "?s0\<lparr>cgroup_io_mutex := Some Main_thread, main_pc := Testing\<rparr>"
  let ?s2 = "?s1\<lparr>cgroup_io_mutex := None, main_pc := In_op\<rparr>"
  let ?s3 = "?s2\<lparr>cgroup_io_busy := True, threads := threads ?s2 @ [Spawned (io_ops work)], main_pc := Working\<rparr>"
  let ?s4 = "?s3\<lparr>cgroup_io_mutex := Some Main_thread, main_pc := Testing\<rparr>"
  let ?s5 = "?s4\<lparr>cgroup_io_mutex := None, main_pc := Sleeping\<rparr>"
  let ?s6 = "?s5\<lparr>cgroup_io_busy := False, main_pc := In_op\<rparr>"
  let ?s7 = "?s6\<lparr>cgroup_io_mutex := Some (Io_thread 0), threads := (threads ?s6)[0 := In_io (io_ops work)]\<rparr>"
  have "io_reachable True ?s1" by (rule st [OF io_reachable.start wait_lock]) (simp_all add: io_start_def)
  then have "io_reachable True ?s2" by (rule st [OF _ wait_pass]) (simp_all add: io_start_def)
  then have "io_reachable True ?s3" by (rule st [OF _ spawn]) (simp_all add: io_start_def)
  then have "io_reachable True ?s4" by (rule st [OF _ wait_lock]) (simp_all add: io_start_def)
  then have "io_reachable True ?s5" by (rule st [OF _ wait_sleep]) (simp_all add: io_start_def)
  then have "io_reachable True ?s6" by (rule st [OF _ wait_timeout]) (simp_all add: io_start_def)
  then have "io_reachable True ?s7" by (rule st [OF _ io_begin]) (simp_all add: io_start_def)
  then show ?thesis by (intro exI [of _ ?s7]) (simp add: io_start_def)
qed

text \<open>A group that is removed while the thread works comes back.\<close>

lemma group_comes_back:
  assumes "main_pc s = Working" "i < length (threads s)" "threads s ! i = In_io (Io_write j p cs # ops)"
  shows "\<exists>s1 s2. io_step b s s1 \<and> (j, p) \<notin> cgroups s1 \<and> io_step b s1 s2 \<and> (j, p) \<in> cgroups s2"
proof -
  let ?s1 = "s\<lparr>cgroups := cgroups s - {(j, p)}\<rparr>"
  let ?s2 = "?s1\<lparr>cgroups := apply_op (Io_write j p cs) (cgroups ?s1), threads := (threads ?s1)[i := In_io ops]\<rparr>"
  have "io_step b s ?s1" using assms(1) by (rule clean_group)
  moreover have "io_step b ?s1 ?s2" by (rule io_work) (use assms in simp_all)
  ultimately show ?thesis by (intro exI [of _ ?s1] exI [of _ ?s2]) simp
qed

text \<open>A thread that has done its work.\<close>

lemma quiet_run: "\<exists>s. io_reachable False s \<and> main_pc s = In_op \<and> threads s = [Ended]"
proof -
  note st = io_reachable.step
  let ?s0 = "io_start {}"
  let ?s1 = "?s0\<lparr>cgroup_io_mutex := Some Main_thread, main_pc := Testing\<rparr>"
  let ?s2 = "?s1\<lparr>cgroup_io_mutex := None, main_pc := In_op\<rparr>"
  let ?s3 = "?s2\<lparr>cgroup_io_busy := True, threads := threads ?s2 @ [Spawned (io_ops [])], main_pc := Working\<rparr>"
  let ?s4 = "?s3\<lparr>cgroup_io_mutex := Some (Io_thread 0), threads := (threads ?s3)[0 := In_io []]\<rparr>"
  let ?s5 = "?s4\<lparr>cgroup_io_busy := False, cgroup_io_mutex := None, threads := (threads ?s4)[0 := Ended]\<rparr>"
  let ?s6 = "?s5\<lparr>cgroup_io_mutex := Some Main_thread, main_pc := Testing\<rparr>"
  let ?s7 = "?s6\<lparr>cgroup_io_mutex := None, main_pc := In_op\<rparr>"
  have "io_reachable False ?s1" by (rule st [OF io_reachable.start wait_lock]) (simp_all add: io_start_def)
  then have "io_reachable False ?s2" by (rule st [OF _ wait_pass]) (simp_all add: io_start_def)
  then have "io_reachable False ?s3" by (rule st [OF _ spawn]) (simp_all add: io_start_def)
  then have "io_reachable False ?s4" by (rule st [OF _ io_begin]) (simp_all add: io_start_def io_ops_def)
  then have "io_reachable False ?s5" by (rule st [OF _ io_end]) (simp_all add: io_start_def)
  then have "io_reachable False ?s6" by (rule st [OF _ wait_lock]) (simp_all add: io_start_def)
  then have "io_reachable False ?s7" by (rule st [OF _ wait_pass]) (simp_all add: io_start_def)
  then show ?thesis by (intro exI [of _ ?s7]) (simp add: io_start_def)
qed

end
