(* ===== verification/Database.thy ===== *)
theory Database
  imports Job_Model Text_Utils
begin

text \<open>
  The database of \<open>sqlite.c\<close>. The statements are text the program prints; what a statement
  means on the tables is the meaning of SQL: columns by name and position, the integer affinity
  of \<open>INT\<close> columns, the primary key, \<open>MIN\<close>, \<open>MAX\<close> and \<open>ORDER BY\<close>. The library decides whether a
  statement is executed (\<open>sql_ok\<close>) and what \<open>sqlite3_mprintf\<close> prints for a null pointer
  (\<open>null_q\<close>); both are parameters.
\<close>

section \<open>Values, columns and tables\<close>

datatype sqlval = SInt int | SText string

type_synonym row = "sqlval list"

record database =
  Jobs_rows :: "row list"
  Finished_rows :: "row list"
  Global_jobids :: "int option"

record engine =
  sql_ok :: "string \<Rightarrow> bool"
  null_q :: string

definition table_name :: "db_table \<Rightarrow> string" where
  "table_name t = (case t of Jobs \<Rightarrow> ''Jobs'' | Finished \<Rightarrow> ''Finished'')"

definition rows :: "db_table \<Rightarrow> database \<Rightarrow> row list" where
  "rows t d = (case t of Jobs \<Rightarrow> Jobs_rows d | Finished \<Rightarrow> Finished_rows d)"

definition set_rows :: "db_table \<Rightarrow> row list \<Rightarrow> database \<Rightarrow> database" where
  "set_rows t rs d = (case t of Jobs \<Rightarrow> d\<lparr>Jobs_rows := rs\<rparr> | Finished \<Rightarrow> d\<lparr>Finished_rows := rs\<rparr>)"

text \<open>The columns in the order of \<open>CREATE TABLE\<close> and \<open>ALTER TABLE\<close>, and those of type \<open>TEXT\<close>.\<close>

definition table_columns :: "string list" where
  "table_columns =
     [''jobid'', ''command'', ''state'', ''output_filename'', ''store_output'', ''pid'', ''ts_UID'',
      ''should_keep_finished'', ''depend_on'', ''depend_on_size'', ''notify_errorlevel_to'',
      ''notify_errorlevel_to_size'', ''dependency_errorlevel'', ''label'', ''email'', ''num_slots'',
      ''errorlevel'', ''died_by_signal'', ''signal'', ''user_sec'', ''system_sec'', ''real_sec'',
      ''skipped'', ''ptr'', ''nchars'', ''allocchars'', ''wall_time'', ''enqueue_time'', ''start_time'',
      ''end_time'', ''pause_time'', ''pause_duration'', ''end_time_ms'', ''order_id'',
      ''command_strip'', ''work_dir'', ''schedule_time'']"

definition text_column :: "string \<Rightarrow> bool" where
  "text_column c = (c \<in> {''command'', ''output_filename'', ''label'', ''email'', ''ptr'', ''work_dir''})"

section \<open>Text of statements\<close>

text \<open>\<open>%q\<close> doubles every quote; a literal ends at the first quote that is not doubled.\<close>

definition QUOTE :: char where "QUOTE = CHR 0x27"

fun escape_q :: "string \<Rightarrow> string" where
  "escape_q [] = []"
| "escape_q (c # cs) = (if c = QUOTE then QUOTE # QUOTE # escape_q cs else c # escape_q cs)"

fun lex_literal :: "string \<Rightarrow> (string \<times> string) option" where
  "lex_literal [] = None"
| "lex_literal [c] = (if c = QUOTE then Some ([], []) else None)"
| "lex_literal (c # c' # cs) =
     (if c = QUOTE
      then (if c' = QUOTE then map_option (\<lambda>(t, r). (QUOTE # t, r)) (lex_literal cs)
            else Some ([], c' # cs))
      else map_option (\<lambda>(t, r). (c # t, r)) (lex_literal (c' # cs)))"

definition mprintf_q :: "engine \<Rightarrow> string option \<Rightarrow> string" where
  "mprintf_q e t = (case t of None \<Rightarrow> null_q e | Some x \<Rightarrow> escape_q x)"

text \<open>A value of a statement: a number, or what is printed between quotes.\<close>

datatype sqlarg = Num int | Quoted string

definition arg_text :: "sqlarg \<Rightarrow> string" where
  "arg_text a = (case a of Num i \<Rightarrow> show_int i | Quoted t \<Rightarrow> QUOTE # t @ [QUOTE])"

fun join :: "string \<Rightarrow> string list \<Rightarrow> string" where
  "join d [] = []"
| "join d [x] = x"
| "join d (x # y # xs) = x @ d @ join d (y # xs)"

text \<open>A text that reads as an integer is stored as one in a column that is not \<open>TEXT\<close>.\<close>

definition whole_int :: "string \<Rightarrow> int option" where
  "whole_int t =
     (let u = (if t \<noteq> [] \<and> hd t \<in> {CHR ''-'', CHR ''+''} then tl t else t)
      in if u \<noteq> [] \<and> list_all is_digit u then scan_int t else None)"

definition stored :: "string \<Rightarrow> sqlarg \<Rightarrow> sqlval" where
  "stored col a =
     (case a of Num i \<Rightarrow> SInt i
      | Quoted q \<Rightarrow>
          (let t = (case lex_literal (q @ [QUOTE]) of None \<Rightarrow> q | Some (x, _) \<Rightarrow> x)
           in if text_column col then SText t
              else case whole_int t of Some i \<Rightarrow> if - INT64_MAX - 1 \<le> i \<and> i \<le> INT64_MAX then SInt i else SText t
                   | None \<Rightarrow> SText t))"

text \<open>\<open>INSERT INTO t (cols) VALUES (args)\<close>: every column of the table gets the value named for it.\<close>

definition make_row :: "string list \<Rightarrow> sqlarg list \<Rightarrow> row" where
  "make_row cols args =
     map (\<lambda>c. case map_of (zip cols args) c of Some a \<Rightarrow> stored c a | None \<Rightarrow> SInt 0) table_columns"

section \<open>Reading columns\<close>

definition col_int64 :: "sqlval \<Rightarrow> int" where
  "col_int64 v = (case v of SInt i \<Rightarrow> i | SText t \<Rightarrow> (case scan_int t of None \<Rightarrow> 0 | Some i \<Rightarrow> clamp64 i))"

definition col_int :: "sqlval \<Rightarrow> int" where
  "col_int v = wrap32 (col_int64 v)"

definition col_text :: "sqlval \<Rightarrow> string" where
  "col_text v = (case v of SInt i \<Rightarrow> show_int i | SText t \<Rightarrow> t)"

definition col_bytes :: "sqlval \<Rightarrow> int" where
  "col_bytes v = int (length (col_text v))"

definition row_id :: "row \<Rightarrow> int" where "row_id r = col_int64 (r ! 0)"
definition row_order :: "row \<Rightarrow> int" where "row_order r = col_int64 (r ! 33)"

section \<open>The order of the queue\<close>

text \<open>
  \<open>check_order_id\<close>: the aggregate is null on an empty table, which \<open>callback\<close> reads as 0;
  otherwise it is the text of the number. The error flag is \<open>None\<close>.
\<close>

definition check_order_id :: "engine \<Rightarrow> string \<Rightarrow> database \<Rightarrow> int option" where
  "check_order_id e op d =
     (if \<not> sql_ok e (''SELECT '' @ op @ ''(order_id) FROM Jobs'') then None
      else let os = map row_order (Jobs_rows d)
           in Some (if os = [] then 0
                    else atoi (show_int (if op = ''MAX'' then Max (set os) else Min (set os)))))"

definition max_order_id :: "engine \<Rightarrow> database \<Rightarrow> int option" where
  "max_order_id e d = check_order_id e ''MAX'' d"

definition min_order_id :: "engine \<Rightarrow> database \<Rightarrow> int option" where
  "min_order_id e d = check_order_id e ''MIN'' d"

definition get_order_id :: "engine \<Rightarrow> int \<Rightarrow> database \<Rightarrow> int option" where
  "get_order_id e jid d =
     (if \<not> sql_ok e (''SELECT order_id FROM Jobs WHERE jobid='' @ show_int jid) then None
      else map_option (\<lambda>r. col_int (r ! 33)) (find (\<lambda>r. row_id r = jid) (Jobs_rows d)))"

definition update_rows :: "nat \<Rightarrow> sqlval \<Rightarrow> int \<Rightarrow> row list \<Rightarrow> row list" where
  "update_rows k v jid rs = map (\<lambda>r. if row_id r = jid then r[k := v] else r) rs"

text \<open>The return codes: 0, or -1 when the library reports an error.\<close>

definition set_order_id_DB :: "engine \<Rightarrow> int \<Rightarrow> int \<Rightarrow> database \<Rightarrow> int \<times> database" where
  "set_order_id_DB e jid ord d =
     (if sql_ok e (''UPDATE Jobs SET order_id='' @ show_int ord @ '' WHERE jobid='' @ show_int jid)
      then (0, d\<lparr>Jobs_rows := update_rows 33 (SInt ord) jid (Jobs_rows d)\<rparr>) else (- 1, d))"

definition set_state_DB :: "engine \<Rightarrow> int \<Rightarrow> jobstate \<Rightarrow> database \<Rightarrow> int \<times> database" where
  "set_state_DB e jid st d =
     (if sql_ok e (''UPDATE Jobs SET state='' @ show_int (jobstate_code st) @ '' WHERE jobid='' @ show_int jid)
      then (0, d\<lparr>Jobs_rows := update_rows 2 (SInt (jobstate_code st)) jid (Jobs_rows d)\<rparr>) else (- 1, d))"

definition swap_DB :: "engine \<Rightarrow> int \<Rightarrow> int \<Rightarrow> database \<Rightarrow> int \<times> database" where
  "swap_DB e jid0 jid1 d =
     (case (get_order_id e jid0 d, get_order_id e jid1 d) of
        (Some id0, Some id1) \<Rightarrow>
          (let (err0, d0) = set_order_id_DB e jid0 id1 d;
               (err1, d1) = set_order_id_DB e jid1 id0 d0
           in (if err0 \<noteq> 0 \<or> err1 \<noteq> 0 then - 1 else 0, d1))
      | _ \<Rightarrow> (- 1, d))"

definition movetop_DB :: "engine \<Rightarrow> int \<Rightarrow> database \<Rightarrow> int \<times> database" where
  "movetop_DB e jid d =
     (case min_order_id e d of None \<Rightarrow> (- 1, d) | Some m \<Rightarrow> set_order_id_DB e jid (m - 1) d)"

definition movebottom_DB :: "engine \<Rightarrow> int \<Rightarrow> database \<Rightarrow> int \<times> database" where
  "movebottom_DB e jid d =
     (case max_order_id e d of None \<Rightarrow> (- 1, d) | Some m \<Rightarrow> set_order_id_DB e jid (m + 1) d)"

text \<open>
  \<open>update_field_int64\<close> binds its values, so it does not print them; an unknown column is an
  error of the statement.
\<close>

definition update_field_DB :: "engine \<Rightarrow> db_table \<Rightarrow> int \<Rightarrow> string \<Rightarrow> int \<Rightarrow> database \<Rightarrow> int \<times> database" where
  "update_field_DB e t jid col v d =
     (if sql_ok e (''UPDATE '' @ table_name t @ '' SET '' @ col @ '' = ? WHERE jobid = ?;'')
      then (case find_idx id col table_columns of None \<Rightarrow> (- 1, d)
            | Some k \<Rightarrow> (0, set_rows t (update_rows k (SInt v) jid (rows t d)) d))
      else (- 1, d))"

definition get_jobids_DB :: "engine \<Rightarrow> database \<Rightarrow> int" where
  "get_jobids_DB e d =
     (if sql_ok e ''SELECT JOBIDs FROM Global WHERE id=1;''
      then (case Global_jobids d of None \<Rightarrow> 0 | Some v \<Rightarrow> atoi (show_int v)) else - 1)"

definition set_jobids_DB :: "engine \<Rightarrow> int \<Rightarrow> database \<Rightarrow> int \<times> database" where
  "set_jobids_DB e v d =
     (if sql_ok e (''INSERT OR REPLACE INTO Global (id, JOBIDs) VALUES (1, '' @ show_int v @ '');'')
      then (0, d\<lparr>Global_jobids := Some v\<rparr>) else (- 1, d))"

definition remove_row_DB :: "engine \<Rightarrow> int \<Rightarrow> db_table \<Rightarrow> database \<Rightarrow> int \<times> database" where
  "remove_row_DB e jid t d =
     (if sql_ok e (''DELETE FROM '' @ table_name t @ '' WHERE jobid='' @ show_int jid @ '';'')
      then (0, set_rows t (filter (\<lambda>r. row_id r \<noteq> jid) (rows t d)) d) else (- 1, d))"

section \<open>Writing a job\<close>

definition SQL_SIZE :: nat where "SQL_SIZE = 16384"

definition edit_columns :: "string list" where
  "edit_columns =
     [''jobid'', ''command'', ''state'', ''output_filename'', ''store_output'', ''pid'',
      ''ts_UID'', ''should_keep_finished'', ''depend_on'', ''depend_on_size'',
      ''notify_errorlevel_to'', ''notify_errorlevel_to_size'',
      ''dependency_errorlevel'', ''label'', ''email'', ''num_slots'', ''errorlevel'', ''died_by_signal'',
      ''signal'', ''user_sec'', ''system_sec'', ''real_sec'', ''skipped'',
      ''ptr'', ''nchars'', ''allocchars'', ''wall_time'', ''schedule_time'',
      ''enqueue_time'', ''start_time'', ''end_time'',
      ''pause_time'', ''pause_duration'', ''end_time_ms'',
      ''order_id'', ''command_strip'', ''work_dir'']"

definition edit_args :: "engine \<Rightarrow> user_t list \<Rightarrow> job \<Rightarrow> int \<Rightarrow> sqlarg list" where
  "edit_args e us p ord =
     [Num (jobid p), Quoted (mprintf_q e (command p)), Num (jobstate_code (state p)),
      Quoted (mprintf_q e (output_filename p)), Num (store_output p), Num (pid p),
      Num (case user p of None \<Rightarrow> - 1 | Some u \<Rightarrow> uid (us ! u)), Num (should_keep_finished p),
      Quoted (escape_q (ints_to_chars (depend_on p) (CHR '',''))), Num (int (length (depend_on p))),
      Quoted (escape_q (ints_to_chars (notify_errorlevel_to p) (CHR '',''))),
      Num (int (length (notify_errorlevel_to p))), Num (dependency_errorlevel p),
      Quoted (escape_q (case label p of None \<Rightarrow> ''(..)'' | Some l \<Rightarrow> l)), Quoted [], Num (num_slots p),
      Num (errorlevel (result p)), Num (died_by_signal (result p)), Num (signal (result p)),
      Num (user_sec (result p)), Num (system_sec (result p)), Num (real_sec (result p)),
      Num (skipped (result p)), Quoted (mprintf_q e (ptr (info p))), Num (nchars (info p)),
      Num (allocchars (info p)), Num (wall_time p), Num (schedule_time p),
      Quoted (show_int (enqueue_time (info p))), Quoted (show_int (start_time (info p))),
      Quoted (show_int (end_time (info p))), Quoted (show_int (pause_time (info p))),
      Quoted (show_int (pause_duration (info p))), Quoted (show_int (boot_time (info p))),
      Num ord, Num (command_strip p), Quoted (mprintf_q e (work_dir p))]"

text \<open>The format string of the source, separators included; the last three values are set off.\<close>

definition edit_sql :: "string \<Rightarrow> db_table \<Rightarrow> sqlarg list \<Rightarrow> string" where
  "edit_sql action t args =
     action @ '' INTO '' @ table_name t
       @ '' (jobid, command, state, output_filename, store_output, pid, ''
       @ ''ts_UID, should_keep_finished, depend_on, depend_on_size,''
       @ ''notify_errorlevel_to, notify_errorlevel_to_size, ''
       @ ''dependency_errorlevel,label,email,num_slots,errorlevel,died_by_signal,''
       @ ''signal,user_sec,system_sec,real_sec,skipped,''
       @ ''ptr,nchars,allocchars,wall_time,schedule_time,''
       @ ''enqueue_time,start_time,end_time,''
       @ ''pause_time,pause_duration,end_time_ms, ''
       @ ''order_id, command_strip, work_dir)''
       @ ''VALUES ('' @ join '','' (map arg_text (take 34 args)) @ '', ''
       @ join '', '' (map arg_text (take 2 (drop 34 args))) @ '','' @ join [] (map arg_text (drop 36 args)) @ '');''"

text \<open>
  The statement is printed with \<open>sprintf\<close> into the global buffer: text that does not fit
  overruns it. \<open>INSERT\<close> of a key that is present violates the primary key; \<open>INSERT OR REPLACE\<close>
  removes the old row first.
\<close>

definition edit_DB :: "engine \<Rightarrow> user_t list \<Rightarrow> job \<Rightarrow> db_table \<Rightarrow> string \<Rightarrow> database \<Rightarrow> (int \<times> database) res" where
  "edit_DB e us p t action d =
     (case (case get_order_id e (jobid p) d of Some k \<Rightarrow> Some k
            | None \<Rightarrow> map_option (\<lambda>m. m + 1) (max_order_id e d)) of
        None \<Rightarrow> Inr (- 1, d)
      | Some ord \<Rightarrow>
          (let args = edit_args e us p ord; sql = edit_sql action t args; r = make_row edit_columns args;
               present = jobid p \<in> row_id ` set (rows t d)
           in if SQL_SIZE \<le> length sql then Inl Out_of_bounds
              else if \<not> sql_ok e sql then Inr (- 1, d)
              else if action = ''INSERT'' \<and> present then Inr (- 1, d)
              else Inr (0, set_rows t (filter (\<lambda>r. row_id r \<noteq> jobid p) (rows t d) @ [r]) d)))"

definition insert_exec :: "engine \<Rightarrow> user_t list \<Rightarrow> job \<Rightarrow> db_table \<Rightarrow> database \<Rightarrow> (int \<times> database) res" where
  "insert_exec e us p t d = edit_DB e us p t ''INSERT'' d"

definition insert_or_replace_exec :: "engine \<Rightarrow> user_t list \<Rightarrow> job \<Rightarrow> db_table \<Rightarrow> database \<Rightarrow> (int \<times> database) res" where
  "insert_or_replace_exec e us p t d = edit_DB e us p t ''INSERT OR REPLACE'' d"

section \<open>Reading a job\<close>

definition read_jobid_DB :: "engine \<Rightarrow> db_table \<Rightarrow> database \<Rightarrow> int \<times> int list" where
  "read_jobid_DB e t d =
     (if \<not> sql_ok e (''SELECT COUNT(*) FROM '' @ table_name t @ '';'') then (- 1, [])
      else let n = length (rows t d) in
        if n = 0 then (0, [])
        else if \<not> sql_ok e (''SELECT jobid FROM '' @ table_name t @ '' ORDER BY order_id;'') then (- 1, [])
        else (int n, map (\<lambda>r. col_int (r ! 0)) (sort_key row_order (rows t d))))"

definition copy_with_nullcheck :: "string \<Rightarrow> string option" where
  "copy_with_nullcheck t = (if t \<noteq> ''(null)'' \<and> t \<noteq> ''(..)'' then Some t else None)"

text \<open>A column is copied to the global buffer by \<open>strcpy\<close> before it is looked at.\<close>

definition via_sql :: "sqlval \<Rightarrow> string res" where
  "via_sql v = (if SQL_SIZE \<le> length (col_text v) then Inl Out_of_bounds else Inr (col_text v))"

definition read_text :: "sqlval \<Rightarrow> string option res" where
  "read_text v = rbind (via_sql v) (\<lambda>t. Inr (copy_with_nullcheck t))"

text \<open>
  A list whose announced length is not the number of its tokens has elements that were never
  written; reading them is the fault.
\<close>

definition read_ints :: "sqlval \<Rightarrow> sqlval \<Rightarrow> int list res" where
  "read_ints v n =
     (if col_int n = 0 then Inr []
      else rbind (via_sql v) (\<lambda>t. let (k, xs) = chars_to_ints t (CHR '','') in
             if k = length xs then Inr xs else Inl Out_of_bounds))"

definition all_states :: "jobstate list" where
  "all_states = [QUEUED, RUNNING, ABNORMAL, PAUSE, FINISHED, SKIPPED, HOLDING_CLIENT, WAIT, DELINK, LOCKED]"

text \<open>A number that is no member of the enumeration is outside the model.\<close>

definition read_state :: "sqlval \<Rightarrow> jobstate res" where
  "read_state v = (case find (\<lambda>st. jobstate_code st = col_int v) all_states of Some st \<Rightarrow> Inr st | None \<Rightarrow> Inl Out_of_bounds)"

text \<open>
  \<open>proc_uid\<close> is the real user in \<open>/proc/<pid>/status\<close>, where the file can be read. The number
  4294967295 is \<open>(uid_t)-1\<close>.
\<close>

definition get_user_by_pid :: "(int \<Rightarrow> int option) \<Rightarrow> user_t list \<Rightarrow> int \<Rightarrow> nat option" where
  "get_user_by_pid proc_uid us i =
     (if i \<le> 0 then None
      else case proc_uid i of None \<Rightarrow> None
           | Some r \<Rightarrow> if r mod 4294967296 = 4294967295 then None else find_idx uid (r mod 4294967296) us)"

definition read_user :: "(int \<Rightarrow> int option) \<Rightarrow> user_t list \<Rightarrow> db_table \<Rightarrow> row \<Rightarrow> nat option" where
  "read_user proc_uid us t r =
     (case (if t = Jobs then get_user_by_pid proc_uid us (col_int (r ! 5)) else None) of
        Some u \<Rightarrow> Some u
      | None \<Rightarrow> find_idx uid (col_int (r ! 6) mod 4294967296) us)"

definition read_result :: "row \<Rightarrow> result_t" where
  "read_result r = \<lparr>errorlevel = col_int (r ! 16), died_by_signal = col_int (r ! 17), signal = col_int (r ! 18),
     user_sec = col_int (r ! 19), system_sec = col_int (r ! 20), real_sec = col_int (r ! 21),
     skipped = col_int (r ! 22)\<rparr>"

definition read_info :: "string option \<Rightarrow> row \<Rightarrow> procinfo" where
  "read_info p r = \<lparr>ptr = p, nchars = col_bytes (r ! 24), allocchars = col_bytes (r ! 25),
     enqueue_time = col_int64 (r ! 27), start_time = col_int64 (r ! 28), end_time = col_int64 (r ! 29),
     pause_time = col_int64 (r ! 30), pause_duration = col_int64 (r ! 31), boot_time = col_int64 (r ! 32)\<rparr>"

definition read_row :: "(int \<Rightarrow> int option) \<Rightarrow> user_t list \<Rightarrow> db_table \<Rightarrow> row \<Rightarrow> job res" where
  "read_row proc_uid us t r =
     rbind (read_text (r ! 1)) (\<lambda>cmd. rbind (read_state (r ! 2)) (\<lambda>st.
     rbind (read_text (r ! 3)) (\<lambda>file. rbind (read_ints (r ! 8) (r ! 9)) (\<lambda>deps.
     rbind (read_ints (r ! 10) (r ! 11)) (\<lambda>notify. rbind (read_text (r ! 13)) (\<lambda>lab.
     rbind (read_text (r ! 23)) (\<lambda>extra. rbind (read_text (r ! 35)) (\<lambda>dir.
       Inr (zero_job\<lparr>jobid := col_int (r ! 0), command := cmd, state := st, output_filename := file,
         store_output := col_int (r ! 4), pid := col_int (r ! 5), user := read_user proc_uid us t r,
         should_keep_finished := col_int (r ! 7), depend_on := deps, notify_errorlevel_to := notify,
         dependency_errorlevel := col_int (r ! 12), label := lab, num_slots := col_int (r ! 15),
         result := read_result r, info := read_info extra r, wall_time := col_int64 (r ! 26),
         command_strip := col_int (r ! 34), work_dir := dir, schedule_time := col_int64 (r ! 36)\<rparr>)))))))))"

definition read_DB :: "engine \<Rightarrow> (int \<Rightarrow> int option) \<Rightarrow> user_t list \<Rightarrow> int \<Rightarrow> db_table \<Rightarrow> database \<Rightarrow> job option res" where
  "read_DB e proc_uid us jid t d =
     (if \<not> sql_ok e (''SELECT * FROM '' @ table_name t @ '' WHERE jobid='' @ show_int jid @ '';'') then Inr None
      else case find (\<lambda>r. row_id r = jid) (rows t d) of None \<Rightarrow> Inr None
           | Some r \<Rightarrow> rbind (read_row proc_uid us t r) (\<lambda>p. Inr (Some p)))"

text \<open>The two loops of \<open>s_read_sqlite\<close>: the jobs that could be read, in the order of the table.\<close>

fun read_jobs :: "engine \<Rightarrow> (int \<Rightarrow> int option) \<Rightarrow> user_t list \<Rightarrow> db_table \<Rightarrow> database \<Rightarrow> int list \<Rightarrow> job list res" where
  "read_jobs e proc_uid us t d [] = Inr []"
| "read_jobs e proc_uid us t d (i # is) =
     rbind (read_DB e proc_uid us i t d) (\<lambda>q. rbind (read_jobs e proc_uid us t d is) (\<lambda>ps.
       Inr (case q of None \<Rightarrow> ps | Some p \<Rightarrow> p # ps)))"

definition load_table :: "engine \<Rightarrow> (int \<Rightarrow> int option) \<Rightarrow> user_t list \<Rightarrow> db_table \<Rightarrow> database \<Rightarrow> job list res" where
  "load_table e proc_uid us t d = read_jobs e proc_uid us t d (snd (read_jobid_DB e t d))"

section \<open>Executing what the server writes\<close>

definition exec_op :: "engine \<Rightarrow> user_t list \<Rightarrow> db_op \<Rightarrow> database \<Rightarrow> (int \<times> database) res" where
  "exec_op e us op d =
     (case op of
        Insert p t \<Rightarrow> insert_exec e us p t d
      | Insert_or_replace p t \<Rightarrow> insert_or_replace_exec e us p t d
      | Delete jid t \<Rightarrow> Inr (remove_row_DB e jid t d)
      | Update_field jid col v \<Rightarrow> Inr (update_field_DB e Jobs jid col v d)
      | Set_state jid st \<Rightarrow> Inr (set_state_DB e jid st d)
      | Movetop jid \<Rightarrow> Inr (movetop_DB e jid d)
      | Movebottom jid \<Rightarrow> Inr (movebottom_DB e jid d)
      | Swap a b \<Rightarrow> Inr (swap_DB e a b d)
      | Set_jobids v \<Rightarrow> Inr (set_jobids_DB e v d))"

fun exec_events :: "engine \<Rightarrow> user_t list \<Rightarrow> event list \<Rightarrow> database \<Rightarrow> database res" where
  "exec_events e us [] d = Inr d"
| "exec_events e us (ev # evs) d =
     (case ev of Db op \<Rightarrow> rbind (exec_op e us op d) (\<lambda>(rc, d'). exec_events e us evs d')
      | _ \<Rightarrow> exec_events e us evs d)"

end
