(* ===== verification/Database_Order.thy ===== *)
theory Database_Order
  imports Database
begin

text \<open>
  The column \<open>order_id\<close> represents the order of the queue: \<open>movetop_DB\<close>, \<open>movebottom_DB\<close>,
  \<open>swap_DB\<close>, inserting and deleting a row act on the list \<open>db_order\<close> of job ids as the
  corresponding list operations, while the numbers stay within the range of a C \<open>int\<close>.
\<close>

section \<open>Sorted association lists\<close>

text \<open>Keys in the order of their distinct ranks.\<close>

definition ranked :: "(int \<times> int) list \<Rightarrow> int list" where
  "ranked kv = map fst (sort_key snd kv)"

definition set_rank :: "int \<Rightarrow> int \<Rightarrow> (int \<times> int) list \<Rightarrow> (int \<times> int) list" where
  "set_rank j m kv = map (\<lambda>(k, v). if k = j then (k, m) else (k, v)) kv"

lemma ranked_unique:
  assumes "set kv' = set ys" "distinct (map snd kv')" "sorted (map snd ys)" "distinct (map snd ys)"
  shows "ranked kv' = map fst ys"
proof -
  have "inj_on snd (set kv')" using assms(2) by (simp add: distinct_map)
  moreover have "distinct (map snd (sort_key snd kv'))"
    using assms(2) by (metis distinct_map distinct_sort set_sort)
  ultimately have "sort_key snd kv' = ys"
    by (intro map_sorted_distinct_set_unique [where f = snd]) (use assms in auto)
  then show ?thesis by (simp add: ranked_def)
qed

lemma ranked_facts:
  assumes "distinct (map fst kv)" "distinct (map snd kv)"
  shows "set (ranked kv) = fst ` set kv" "distinct (ranked kv)"
    "sorted (map snd (sort_key snd kv))" "distinct (map snd (sort_key snd kv))"
proof -
  show "distinct (map snd (sort_key snd kv))" using assms(2) by (metis distinct_map distinct_sort set_sort)
  show "distinct (ranked kv)" unfolding ranked_def using assms(1) by (metis distinct_map distinct_sort set_sort)
qed (auto simp: ranked_def)

lemma set_rank_fst [simp]: "map fst (set_rank j m kv) = map fst kv"
  by (auto simp: set_rank_def)

lemma set_rank_set:
  assumes "j \<in> fst ` set kv"
  shows "set (set_rank j m kv) = insert (j, m) {p \<in> set kv. fst p \<noteq> j}"
proof -
  let ?f = "\<lambda>(k, v). if k = j then (k, m) else (k, v)"
  obtain v where "(j, v) \<in> set kv" using assms by auto
  then have "(j, m) \<in> ?f ` set kv" by (intro rev_image_eqI [of "(j, v)"]) simp_all
  moreover have "p \<in> ?f ` set kv" if "p \<in> set kv" "fst p \<noteq> j" for p
    using that by (intro rev_image_eqI [of p]) (simp_all add: case_prod_unfold)
  moreover have "p = (j, m) \<or> p \<in> set kv \<and> fst p \<noteq> j" if p: "p \<in> ?f ` set kv" for p
    using p by (elim imageE) (simp add: case_prod_unfold split: if_splits)
  ultimately show ?thesis unfolding set_rank_def set_map by blast
qed

lemma set_rank_idle: "j \<notin> fst ` set kv \<Longrightarrow> set_rank j m kv = kv"
  unfolding set_rank_def by (rule map_idI) force

lemma set_rank_ranks: "snd ` set (set_rank j m kv) \<subseteq> insert m (snd ` set kv)"
  by (auto simp: set_rank_def rev_image_eqI split: if_splits)

lemma set_rank_distinct:
  assumes "distinct (map fst kv)" "distinct (map snd kv)" "m \<notin> snd ` set kv"
  shows "distinct (map snd (set_rank j m kv))"
  using assms
proof (induction kv)
  case (Cons p kv)
  obtain k v where p: "p = (k, v)" by fastforce
  show ?case
  proof (cases "k = j")
    case True
    then have "set_rank j m (p # kv) = (j, m) # kv"
      using set_rank_idle [of j kv m] Cons.prems(1) p by (simp add: set_rank_def)
    then show ?thesis using Cons.prems by auto
  next
    case False
    then have "set_rank j m (p # kv) = p # set_rank j m kv" using p by (simp add: set_rank_def)
    then show ?thesis using Cons set_rank_ranks [of j m kv] p by auto
  qed
qed (simp add: set_rank_def)

lemma filter_other: "distinct (map fst ps) \<Longrightarrow> map fst (filter (\<lambda>p. fst p \<noteq> j) ps) = remove1 j (map fst ps)"
  by (simp add: distinct_remove1_removeAll removeAll_filter_not_eq filter_map o_def) metis

lemma ranked_front:
  assumes "distinct (map fst kv)" "distinct (map snd kv)" "j \<in> fst ` set kv" "\<forall>v \<in> snd ` set kv. m < v"
  shows "ranked (set_rank j m kv) = j # remove1 j (ranked kv)"
proof -
  let ?s = "sort_key snd kv" let ?ys = "(j, m) # filter (\<lambda>p. fst p \<noteq> j) ?s"
  note f = ranked_facts [OF assms(1,2)]
  have "ranked (set_rank j m kv) = map fst ?ys"
  proof (rule ranked_unique)
    show "set (set_rank j m kv) = set ?ys" using set_rank_set [OF assms(3)] by auto
    show "distinct (map snd (set_rank j m kv))" using assms by (intro set_rank_distinct) auto
    show "sorted (map snd ?ys)" using assms(4) f(3) by (fastforce simp: sorted_filter)
    show "distinct (map snd ?ys)" using assms(4) f(4) by (fastforce simp: distinct_map_filter)
  qed
  then show ?thesis using filter_other [of ?s j] f(2) by (simp add: ranked_def)
qed

lemma ranked_back:
  assumes "distinct (map fst kv)" "distinct (map snd kv)" "j \<in> fst ` set kv" "\<forall>v \<in> snd ` set kv. v < m"
  shows "ranked (set_rank j m kv) = remove1 j (ranked kv) @ [j]"
proof -
  let ?s = "sort_key snd kv" let ?ys = "filter (\<lambda>p. fst p \<noteq> j) ?s @ [(j, m)]"
  note f = ranked_facts [OF assms(1,2)]
  have "ranked (set_rank j m kv) = map fst ?ys"
  proof (rule ranked_unique)
    show "set (set_rank j m kv) = set ?ys" using set_rank_set [OF assms(3)] by auto
    show "distinct (map snd (set_rank j m kv))" using assms by (intro set_rank_distinct) auto
    show "sorted (map snd ?ys)" using assms(4) f(3) by (fastforce simp: sorted_filter sorted_append)
    show "distinct (map snd ?ys)" using assms(4) f(4) by (fastforce simp: distinct_map_filter)
  qed
  then show ?thesis using filter_other [of ?s j] f(2) by (simp add: ranked_def)
qed

lemma ranked_snoc:
  assumes "distinct (map snd kv)" "\<forall>v \<in> snd ` set kv. v < m"
  shows "ranked (kv @ [(j, m)]) = ranked kv @ [j]"
proof -
  have d: "distinct (map snd (sort_key snd kv))" using assms(1) by (metis distinct_map distinct_sort set_sort)
  have "ranked (kv @ [(j, m)]) = map fst (sort_key snd kv @ [(j, m)])"
    by (rule ranked_unique) (use assms d in \<open>fastforce simp: sorted_append\<close>)+
  then show ?thesis by (simp add: ranked_def)
qed

lemma ranked_delete:
  assumes "distinct (map fst kv)"
  shows "ranked (filter (\<lambda>p. fst p \<noteq> j) kv) = remove1 j (ranked kv)"
proof -
  have "distinct (map fst (sort_key snd kv))" using assms by (metis distinct_map distinct_sort set_sort)
  then show ?thesis using filter_other [of "sort_key snd kv" j] by (simp add: ranked_def filter_sort)
qed

text \<open>Exchanging two ranks exchanges the two keys.\<close>

definition exchange :: "int \<Rightarrow> int \<Rightarrow> int \<Rightarrow> int" where
  "exchange a b k = (if k = a then b else if k = b then a else k)"

lemma exchange_set:
  assumes "distinct (map fst kv)" "(a, x) \<in> set kv" "(b, y) \<in> set kv"
  shows "set (set_rank b x (set_rank a y kv)) = (\<lambda>(k, v). (exchange a b k, v)) ` set kv"
proof (intro equalityI subsetI)
  have e: "set_rank b x (set_rank a y kv) = map (\<lambda>(k, v). (k, if k = b then x else if k = a then y else v)) kv"
    by (auto simp: set_rank_def)
  have inj: "p = q" if "p \<in> set kv" "q \<in> set kv" "fst p = fst q" for p q
    using assms(1) that by (auto simp: distinct_map inj_on_def)
  {
    fix p assume "p \<in> set (set_rank b x (set_rank a y kv))"
    then obtain k v where k: "(k, v) \<in> set kv" "p = (k, if k = b then x else if k = a then y else v)"
      unfolding e by auto
    then have "(exchange a b k, snd p) \<in> set kv" using assms(2,3) by (auto simp: exchange_def)
    then have "(exchange a b (exchange a b k), snd p) \<in> (\<lambda>(k, v). (exchange a b k, v)) ` set kv"
      by (force simp: rev_image_eqI)
    then show "p \<in> (\<lambda>(k, v). (exchange a b k, v)) ` set kv" using k(2) by (simp add: exchange_def split: if_splits)
  next
    fix p assume "p \<in> (\<lambda>(k, v). (exchange a b k, v)) ` set kv"
    then obtain k v where k: "(k, v) \<in> set kv" "p = (exchange a b k, v)" by auto
    let ?k = "exchange a b k"
    obtain w where w: "(?k, w) \<in> set kv" using k(1) assms(2,3) by (cases "k = a"; cases "k = b") (auto simp: exchange_def)
    have "v = (if ?k = b then x else if ?k = a then y else w)"
      using inj [OF k(1) assms(2)] inj [OF k(1) assms(3)] inj [OF k(1) w] by (auto simp: exchange_def split: if_splits)
    then show "p \<in> set (set_rank b x (set_rank a y kv))" unfolding e using w k(2) by force
  }
qed

lemma exchange_distinct:
  assumes "distinct (map fst kv)" "distinct (map snd kv)" "(a, x) \<in> set kv" "(b, y) \<in> set kv"
  shows "distinct (map snd (set_rank b x (set_rank a y kv)))"
proof -
  have "length (map snd (set_rank b x (set_rank a y kv))) = length kv" by (simp add: set_rank_def)
  moreover have "card (snd ` set kv) = length kv" using assms(2) by (metis distinct_card length_map list.set_map)
  moreover have "snd ` set (set_rank b x (set_rank a y kv)) = snd ` set kv"
    unfolding exchange_set [OF assms(1,3,4)] by (simp add: image_image case_prod_unfold)
  ultimately show ?thesis by (metis card_distinct list.set_map)
qed

lemma ranked_exchange:
  assumes "distinct (map fst kv)" "distinct (map snd kv)" "(a, x) \<in> set kv" "(b, y) \<in> set kv"
  shows "ranked (set_rank b x (set_rank a y kv)) = map (exchange a b) (ranked kv)"
proof -
  let ?s = "sort_key snd kv" let ?ys = "map (\<lambda>(k, v). (exchange a b k, v)) ?s"
  have sn: "map snd ?ys = map snd ?s" by (auto simp: exchange_def)
  have s: "set (set_rank b x (set_rank a y kv)) = set ?ys" using exchange_set [OF assms(1,3,4)] by simp
  have "ranked (set_rank b x (set_rank a y kv)) = map fst ?ys"
    by (rule ranked_unique [OF s exchange_distinct [OF assms]])
      (use ranked_facts(3,4) [OF assms(1,2)] in \<open>simp_all only: sn\<close>)
  then show ?thesis by (simp add: ranked_def o_def case_prod_unfold)
qed

section \<open>The table\<close>

definition ranks :: "database \<Rightarrow> (int \<times> int) list" where
  "ranks d = map (\<lambda>r. (row_id r, row_order r)) (Jobs_rows d)"

definition db_order :: "database \<Rightarrow> int list" where
  "db_order d = ranked (ranks d)"

text \<open>
  Ids and order numbers are distinct, ids are C integers, order numbers at most \<open>n\<close> away from 0;
  every row has all columns. \<open>n\<close> counts the operations since the table was empty.
\<close>

definition wide :: "row \<Rightarrow> bool" where
  "wide r \<longleftrightarrow> length r = length table_columns \<and> (\<exists>i. r ! 0 = SInt i \<and> - 2147483648 \<le> i \<and> i \<le> 2147483647)
     \<and> (\<exists>k. r ! 33 = SInt k)"

definition order_good :: "nat \<Rightarrow> database \<Rightarrow> bool" where
  "order_good n d \<longleftrightarrow> (\<forall>r \<in> set (Jobs_rows d). wide r) \<and> distinct (map fst (ranks d)) \<and> distinct (map snd (ranks d))
     \<and> (\<forall>k \<in> snd ` set (ranks d). \<bar>k\<bar> \<le> int n)"

definition ORDER_LIMIT :: nat where "ORDER_LIMIT = 2147483647"

text \<open>Every statement is executed: the disk is not full, the file not locked.\<close>

definition healthy_engine :: "engine \<Rightarrow> bool" where
  "healthy_engine e \<longleftrightarrow> (\<forall>t. sql_ok e t)"

lemma table_width [simp]: "length table_columns = 37"
  by (simp add: table_columns_def)

lemma ranks_update:
  assumes "\<forall>r \<in> set (Jobs_rows d). wide r"
  shows "ranks (d\<lparr>Jobs_rows := update_rows 33 (SInt m) j (Jobs_rows d)\<rparr>) = set_rank j m (ranks d)"
    "\<forall>r \<in> set (update_rows 33 (SInt m) j (Jobs_rows d)). wide r"
  using assms by (auto simp: ranks_def set_rank_def update_rows_def row_id_def row_order_def wide_def col_int64_def)

lemma order_limits:
  assumes "order_good n d" "n < ORDER_LIMIT" "healthy_engine e"
  shows "\<exists>m. max_order_id e d = Some m \<and> \<bar>m\<bar> \<le> int n \<and> (\<forall>k \<in> snd ` set (ranks d). k \<le> m)"
    "\<exists>m. min_order_id e d = Some m \<and> \<bar>m\<bar> \<le> int n \<and> (\<forall>k \<in> snd ` set (ranks d). m \<le> k)"
proof -
  let ?os = "map row_order (Jobs_rows d)"
  have s: "set ?os = snd ` set (ranks d)" by (auto simp: ranks_def image_image)
  have b: "\<bar>k\<bar> \<le> int n" if "k \<in> set ?os" for k using assms(1) that unfolding s by (auto simp: order_good_def)
  have a: "atoi (show_int k) = k" if "k \<in> set ?os" for k
    using b [OF that] assms(2) by (intro atoi_show_int) (auto simp: ORDER_LIMIT_def)
  have mx: "Max (set ?os) \<in> set ?os" "Min (set ?os) \<in> set ?os" if "?os \<noteq> []"
    using that by (auto simp del: set_map)
  have le: "k \<le> Max (set ?os)" "Min (set ?os) \<le> k" if "k \<in> set ?os" for k using that by (auto simp del: set_map)
  have ok: "sql_ok e t" for t using assms(3) by (simp add: healthy_engine_def)
  show "\<exists>m. max_order_id e d = Some m \<and> \<bar>m\<bar> \<le> int n \<and> (\<forall>k \<in> snd ` set (ranks d). k \<le> m)"
  proof (cases "?os = []")
    case True
    then show ?thesis using s ok by (auto simp: max_order_id_def check_order_id_def Let_def)
  next
    case False
    then have "max_order_id e d = Some (Max (set ?os))"
      using a [OF mx(1)] ok by (simp add: max_order_id_def check_order_id_def Let_def)
    then show ?thesis using b [OF mx(1) [OF False]] le(1) s by blast
  qed
  show "\<exists>m. min_order_id e d = Some m \<and> \<bar>m\<bar> \<le> int n \<and> (\<forall>k \<in> snd ` set (ranks d). m \<le> k)"
  proof (cases "?os = []")
    case True
    then show ?thesis using s ok by (auto simp: min_order_id_def check_order_id_def Let_def)
  next
    case False
    then have "min_order_id e d = Some (Min (set ?os))"
      using a [OF mx(2)] ok by (simp add: min_order_id_def check_order_id_def Let_def)
    then show ?thesis using b [OF mx(2) [OF False]] le(2) s by blast
  qed
qed

lemma set_order_good:
  assumes "order_good n d" "healthy_engine e" "m \<notin> snd ` set (ranks d)" "\<bar>m\<bar> \<le> int (Suc n)"
  shows "\<exists>d'. set_order_id_DB e j m d = (0, d') \<and> order_good (Suc n) d' \<and> ranks d' = set_rank j m (ranks d)"
proof -
  let ?d = "d\<lparr>Jobs_rows := update_rows 33 (SInt m) j (Jobs_rows d)\<rparr>"
  have w: "\<forall>r \<in> set (Jobs_rows d). wide r" using assms(1) by (simp add: order_good_def)
  note r = ranks_update [OF w, of m j]
  have k: "\<bar>k\<bar> \<le> int (Suc n)" if "k \<in> snd ` set (set_rank j m (ranks d))" for k
    using set_rank_ranks [of j m "ranks d"] that assms(1,4) by (fastforce simp: order_good_def)
  have "order_good (Suc n) ?d"
    using r k assms set_rank_distinct [of "ranks d" m j] by (auto simp: order_good_def)
  then show ?thesis using r(1) assms(2) by (simp add: set_order_id_DB_def healthy_engine_def)
qed

lemma movetop_order:
  assumes "order_good n d" "n < ORDER_LIMIT" "healthy_engine e" "j \<in> set (db_order d)"
  shows "\<exists>d'. movetop_DB e j d = (0, d') \<and> order_good (Suc n) d' \<and> db_order d' = j # remove1 j (db_order d)"
proof -
  obtain m where m: "min_order_id e d = Some m" "\<bar>m\<bar> \<le> int n" "\<forall>k \<in> snd ` set (ranks d). m \<le> k"
    using order_limits [OF assms(1-3)] by blast
  then have "m - 1 \<notin> snd ` set (ranks d)" "\<bar>m - 1\<bar> \<le> int (Suc n)" by force+
  then obtain d' where d': "set_order_id_DB e j (m - 1) d = (0, d')" "order_good (Suc n) d'"
    "ranks d' = set_rank j (m - 1) (ranks d)" using set_order_good [OF assms(1,3)] by blast
  have "db_order d' = j # remove1 j (db_order d)"
    unfolding db_order_def d'(3) using assms(1,4) m(3) ranked_facts(1) [of "ranks d"]
    by (intro ranked_front) (fastforce simp: order_good_def db_order_def)+
  then show ?thesis using d' m(1) by (simp add: movetop_DB_def)
qed

lemma movebottom_order:
  assumes "order_good n d" "n < ORDER_LIMIT" "healthy_engine e" "j \<in> set (db_order d)"
  shows "\<exists>d'. movebottom_DB e j d = (0, d') \<and> order_good (Suc n) d' \<and> db_order d' = remove1 j (db_order d) @ [j]"
proof -
  obtain m where m: "max_order_id e d = Some m" "\<bar>m\<bar> \<le> int n" "\<forall>k \<in> snd ` set (ranks d). k \<le> m"
    using order_limits [OF assms(1-3)] by blast
  then have "m + 1 \<notin> snd ` set (ranks d)" "\<bar>m + 1\<bar> \<le> int (Suc n)" by force+
  then obtain d' where d': "set_order_id_DB e j (m + 1) d = (0, d')" "order_good (Suc n) d'"
    "ranks d' = set_rank j (m + 1) (ranks d)" using set_order_good [OF assms(1,3)] by blast
  have "db_order d' = remove1 j (db_order d) @ [j]"
    unfolding db_order_def d'(3) using assms(1,4) m(3) ranked_facts(1) [of "ranks d"]
    by (intro ranked_back) (fastforce simp: order_good_def db_order_def)+
  then show ?thesis using d' m(1) by (simp add: movebottom_DB_def)
qed

lemma get_order:
  assumes "order_good n d" "n < ORDER_LIMIT" "healthy_engine e"
  shows "j \<in> set (db_order d) \<Longrightarrow> \<exists>k. get_order_id e j d = Some k \<and> (j, k) \<in> set (ranks d)"
    "j \<notin> set (db_order d) \<Longrightarrow> get_order_id e j d = None"
proof -
  have s: "set (db_order d) = row_id ` set (Jobs_rows d)"
    using assms(1) ranked_facts(1) [of "ranks d"] by (force simp: db_order_def order_good_def ranks_def image_image)
  have ok: "sql_ok e t" for t using assms(3) by (simp add: healthy_engine_def)
  show "get_order_id e j d = None" if "j \<notin> set (db_order d)"
    using that ok unfolding s by (auto simp: get_order_id_def find_None_iff)
  assume "j \<in> set (db_order d)"
  then obtain r where r: "find (\<lambda>r. row_id r = j) (Jobs_rows d) = Some r"
    unfolding s by (cases "find (\<lambda>r. row_id r = j) (Jobs_rows d)") (auto simp: find_None_iff)
  then have "row_id r = j" "r \<in> set (Jobs_rows d)" by (auto simp: find_Some_iff)
  then have k: "(j, row_order r) \<in> set (ranks d)" by (auto simp: ranks_def)
  then have "\<bar>row_order r\<bar> \<le> int n" using assms(1) by (force simp: order_good_def)
  then have "wrap32 (row_order r) = row_order r" using assms(2) by (simp add: wrap32_def ORDER_LIMIT_def)
  then show "\<exists>k. get_order_id e j d = Some k \<and> (j, k) \<in> set (ranks d)"
    using r k ok by (simp add: get_order_id_def col_int_def row_order_def)
qed

lemma swap_order:
  assumes "order_good n d" "n < ORDER_LIMIT" "healthy_engine e" "a \<in> set (db_order d)" "b \<in> set (db_order d)"
  shows "\<exists>d'. swap_DB e a b d = (0, d') \<and> order_good n d' \<and> db_order d' = map (exchange a b) (db_order d)"
proof -
  obtain x y where x: "get_order_id e a d = Some x" "(a, x) \<in> set (ranks d)"
    and y: "get_order_id e b d = Some y" "(b, y) \<in> set (ranks d)"
    using get_order(1) [OF assms(1-3)] assms(4,5) by blast
  have w: "\<forall>r \<in> set (Jobs_rows d). wide r" and dis: "distinct (map fst (ranks d))" "distinct (map snd (ranks d))"
    and lim: "\<forall>k \<in> snd ` set (ranks d). \<bar>k\<bar> \<le> int n" using assms(1) by (auto simp: order_good_def)
  let ?d0 = "d\<lparr>Jobs_rows := update_rows 33 (SInt y) a (Jobs_rows d)\<rparr>"
  let ?d1 = "?d0\<lparr>Jobs_rows := update_rows 33 (SInt x) b (Jobs_rows ?d0)\<rparr>"
  have w0: "\<forall>r \<in> set (Jobs_rows ?d0). wide r" using ranks_update(2) [OF w] by simp
  note r0 = ranks_update(1) [OF w, of y a] and r1 = ranks_update [OF w0, of x b]
  have rk: "ranks ?d1 = set_rank b x (set_rank a y (ranks d))" using r0 r1(1) by simp
  have o: "db_order ?d1 = map (exchange a b) (db_order d)"
    unfolding db_order_def rk by (rule ranked_exchange [OF dis x(2) y(2)])
  have sub: "snd ` set (ranks ?d1) \<subseteq> snd ` set (ranks d)"
    unfolding rk using set_rank_ranks [of b x "set_rank a y (ranks d)"] set_rank_ranks [of a y "ranks d"] x(2) y(2) by force
  have ds: "distinct (map snd (ranks ?d1))" unfolding rk by (rule exchange_distinct [OF dis x(2) y(2)])
  have lim1: "\<forall>k \<in> snd ` set (ranks ?d1). \<bar>k\<bar> \<le> int n" using sub lim by blast
  have fs: "map fst (ranks ?d1) = map fst (ranks d)" unfolding rk by simp
  have "order_good n ?d1" unfolding order_good_def fs using r1(2) ds lim1 dis(1) by simp
  moreover have "swap_DB e a b d = (0, ?d1)"
    using x(1) y(1) assms(3) by (simp add: swap_DB_def set_order_id_DB_def healthy_engine_def)
  ultimately show ?thesis using o by blast
qed

lemma ranks_keep:
  assumes "k \<noteq> 0" "k \<noteq> 33"
  shows "ranks (d\<lparr>Jobs_rows := update_rows k v j (Jobs_rows d)\<rparr>) = ranks d"
    "r \<in> set (update_rows k v j rs) \<Longrightarrow> \<forall>r \<in> set rs. wide r \<Longrightarrow> wide r"
  using assms by (auto simp: ranks_def update_rows_def row_id_def row_order_def wide_def)

lemma update_order:
  assumes "order_good n d" "k \<noteq> 0" "k \<noteq> 33"
  shows "order_good n (d\<lparr>Jobs_rows := update_rows k v j (Jobs_rows d)\<rparr>)"
    "db_order (d\<lparr>Jobs_rows := update_rows k v j (Jobs_rows d)\<rparr>) = db_order d"
  using assms ranks_keep [OF assms(2,3)] by (auto simp: order_good_def db_order_def)

lemma delete_order:
  assumes "order_good n d" "healthy_engine e"
  shows "\<exists>d'. remove_row_DB e j Jobs d = (0, d') \<and> order_good n d' \<and> db_order d' = remove1 j (db_order d)"
proof -
  let ?d = "d\<lparr>Jobs_rows := filter (\<lambda>r. row_id r \<noteq> j) (Jobs_rows d)\<rparr>"
  have rk: "ranks ?d = filter (\<lambda>p. fst p \<noteq> j) (ranks d)" by (simp add: ranks_def filter_map o_def)
  have "order_good n ?d"
    using assms(1) unfolding order_good_def rk by (auto simp: distinct_map_filter)
  moreover have "db_order ?d = remove1 j (db_order d)"
    unfolding db_order_def rk using assms(1) by (intro ranked_delete) (simp add: order_good_def)
  ultimately show ?thesis using assms(2) by (simp add: remove_row_DB_def healthy_engine_def set_rows_def rows_def)
qed

end
