(* ===== verification/Database_Rows.thy ===== *)
theory Database_Rows
  imports Database_Order
begin

text \<open>
  What a job looks like after it was written by \<open>edit_DB\<close> and read back by \<open>read_DB\<close>: the columns
  named in the statement are the columns read by position, quoting is undone, and the buffer
  \<open>sql\<close> that the statement fitted into is large enough for every text read back.
\<close>

section \<open>Quoting\<close>

lemma lex_escape:
  assumes "rest = [] \<or> hd rest \<noteq> QUOTE"
  shows "lex_literal (escape_q t @ QUOTE # rest) = Some (t, rest)"
proof (induction t rule: escape_q.induct)
  case 1
  show ?case using assms by (cases rest) auto
next
  case (2 c cs)
  then show ?case by (cases "escape_q cs @ QUOTE # rest") auto
qed

lemma escape_plain: "QUOTE \<notin> set t \<Longrightarrow> escape_q t = t"
  by (induction t) auto

lemma escape_length: "length t \<le> length (escape_q t)"
  by (induction t) auto

lemma quote_clean: "\<not> is_digit QUOTE" "QUOTE \<noteq> CHR ''-''" "QUOTE \<noteq> CHR '',''"
  by (simp_all add: QUOTE_def is_digit_def)

lemma show_int_plain: "QUOTE \<notin> set (show_int i)"
  using show_int_clean [OF quote_clean(1,2)] by simp

lemma ints_plain: "QUOTE \<notin> set (ints_to_chars xs (CHR '',''))"
  using quote_clean(3) show_int_plain by (induction xs "CHR '',''" rule: ints_to_chars.induct) auto

lemma stored_text: "text_column c \<Longrightarrow> stored c (Quoted (escape_q t)) = SText t"
  using lex_escape [of "[]" t] by (simp add: stored_def)

lemma whole_show_int: "whole_int (show_int i) = Some i"
proof -
  have "scan_int (show_int i) = Some i" using scan_show_int [of "[]" i] by simp
  moreover have "show_nat n \<noteq> [] \<and> list_all is_digit (show_nat n) \<and> hd (show_nat n) \<notin> {CHR ''-'', CHR ''+''}" for n
    using show_nat_digits [of n] digit_plain by (cases "show_nat n") auto
  ultimately show ?thesis by (auto simp: whole_int_def show_int_def Let_def)
qed

lemma stored_int:
  assumes "\<not> text_column c" "- INT64_MAX - 1 \<le> i" "i \<le> INT64_MAX"
  shows "stored c (Quoted (show_int i)) = SInt i"
  using assms lex_escape [of "[]" "show_int i"] escape_plain [OF show_int_plain] whole_show_int [of i]
  by (simp add: stored_def)

lemma comma_not_whole:
  assumes "CHR '','' \<in> set t"
  shows "whole_int t = None"
  using assms by (cases t) (auto simp: whole_int_def Let_def list_all_iff is_digit_def)

lemma stored_ints:
  assumes "\<not> text_column c" "\<forall>x \<in> set xs. - 2147483648 \<le> x \<and> x \<le> 2147483647"
  shows "col_text (stored c (Quoted (escape_q (ints_to_chars xs (CHR '',''))))) = ints_to_chars xs (CHR '','')"
proof -
  let ?t = "ints_to_chars xs (CHR '','')"
  have l: "lex_literal (escape_q ?t @ [QUOTE]) = Some (?t, [])" using lex_escape [of "[]" ?t] by simp
  consider "xs = []" | x where "xs = [x]" | x y zs where "xs = x # y # zs" by (cases xs rule: remdups_adj.cases) auto
  then show ?thesis
  proof cases
    case 1
    then show ?thesis using assms(1) l by (simp add: stored_def whole_int_def col_text_def)
  next
    case (2 x)
    then show ?thesis using assms whole_show_int [of x] l by (simp add: stored_def col_text_def INT64_MAX_def)
  next
    case (3 x y zs)
    then have "CHR '','' \<in> set ?t" by simp
    then show ?thesis using assms(1) l comma_not_whole by (simp add: stored_def col_text_def)
  qed
qed

section \<open>The row of a job\<close>

lemma stored_num [simp]: "stored c (Num i) = SInt i"
  by (simp add: stored_def)

lemma edit_row:
  "make_row edit_columns (edit_args e us p ord) =
     [SInt (jobid p), stored ''command'' (Quoted (mprintf_q e (command p))), SInt (jobstate_code (state p)),
      stored ''output_filename'' (Quoted (mprintf_q e (output_filename p))), SInt (store_output p), SInt (pid p),
      SInt (case user p of None \<Rightarrow> - 1 | Some u \<Rightarrow> uid (us ! u)), SInt (should_keep_finished p),
      stored ''depend_on'' (Quoted (escape_q (ints_to_chars (depend_on p) (CHR '','')))), SInt (int (length (depend_on p))),
      stored ''notify_errorlevel_to'' (Quoted (escape_q (ints_to_chars (notify_errorlevel_to p) (CHR '','')))),
      SInt (int (length (notify_errorlevel_to p))), SInt (dependency_errorlevel p),
      stored ''label'' (Quoted (escape_q (case label p of None \<Rightarrow> ''(..)'' | Some l \<Rightarrow> l))),
      stored ''email'' (Quoted []), SInt (num_slots p), SInt (errorlevel (result p)),
      SInt (died_by_signal (result p)), SInt (signal (result p)), SInt (user_sec (result p)),
      SInt (system_sec (result p)), SInt (real_sec (result p)), SInt (skipped (result p)),
      stored ''ptr'' (Quoted (mprintf_q e (ptr (info p)))), SInt (nchars (info p)), SInt (allocchars (info p)),
      SInt (wall_time p), stored ''enqueue_time'' (Quoted (show_int (enqueue_time (info p)))),
      stored ''start_time'' (Quoted (show_int (start_time (info p)))),
      stored ''end_time'' (Quoted (show_int (end_time (info p)))),
      stored ''pause_time'' (Quoted (show_int (pause_time (info p)))),
      stored ''pause_duration'' (Quoted (show_int (pause_duration (info p)))),
      stored ''end_time_ms'' (Quoted (show_int (boot_time (info p)))), SInt ord, SInt (command_strip p),
      stored ''work_dir'' (Quoted (mprintf_q e (work_dir p))), SInt (schedule_time p)]"
  by (simp add: make_row_def edit_columns_def edit_args_def table_columns_def)

section \<open>Reading back\<close>

definition int32 :: "int \<Rightarrow> bool" where
  "int32 i \<longleftrightarrow> - 2147483648 \<le> i \<and> i \<le> 2147483647"

definition int64 :: "int \<Rightarrow> bool" where
  "int64 i \<longleftrightarrow> - INT64_MAX - 1 \<le> i \<and> i \<le> INT64_MAX"

text \<open>
  The ranges of the C types. The three times of the result are \<open>long\<close> but are read with
  \<open>sqlite3_column_int\<close>, so only 32 bits of them survive.
\<close>

definition c_result :: "result_t \<Rightarrow> bool" where
  "c_result r \<longleftrightarrow> int32 (errorlevel r) \<and> int32 (died_by_signal r) \<and> int32 (signal r) \<and> int32 (user_sec r)
     \<and> int32 (system_sec r) \<and> int32 (real_sec r) \<and> int32 (skipped r)"

definition c_info :: "procinfo \<Rightarrow> bool" where
  "c_info i \<longleftrightarrow> int64 (enqueue_time i) \<and> int64 (start_time i) \<and> int64 (end_time i) \<and> int64 (pause_time i)
     \<and> int64 (pause_duration i) \<and> int64 (boot_time i) \<and> int32 (nchars i) \<and> int32 (allocchars i)"

definition c_job :: "job \<Rightarrow> bool" where
  "c_job p \<longleftrightarrow> int32 (jobid p) \<and> int32 (store_output p) \<and> int32 (pid p) \<and> int32 (should_keep_finished p)
     \<and> int32 (dependency_errorlevel p) \<and> int32 (num_slots p) \<and> int32 (command_strip p)
     \<and> (\<forall>x \<in> set (depend_on p). int32 x) \<and> (\<forall>x \<in> set (notify_errorlevel_to p). int32 x)
     \<and> int (length (depend_on p)) \<le> 2147483647 \<and> int (length (notify_errorlevel_to p)) \<le> 2147483647
     \<and> int64 (wall_time p) \<and> int64 (schedule_time p) \<and> c_result (result p) \<and> c_info (info p)"

text \<open>
  A job after a restart. A text that was null comes back as whatever \<open>%q\<close> prints for null;
  the sizes of \<open>info.ptr\<close> are the numbers of digits of the sizes; what concerns the running
  server (allocation, socket, health) is reset.
\<close>

definition reload_text :: "engine \<Rightarrow> string option \<Rightarrow> string option" where
  "reload_text e t = copy_with_nullcheck (case t of None \<Rightarrow> null_q e | Some x \<Rightarrow> x)"

definition reload_info :: "engine \<Rightarrow> procinfo \<Rightarrow> procinfo" where
  "reload_info e i = i\<lparr>ptr := reload_text e (ptr i), nchars := int (length (show_int (nchars i))),
     allocchars := int (length (show_int (allocchars i)))\<rparr>"

definition reload_user :: "(int \<Rightarrow> int option) \<Rightarrow> user_t list \<Rightarrow> db_table \<Rightarrow> job \<Rightarrow> nat option" where
  "reload_user proc_uid us t p =
     (case (if t = Jobs then get_user_by_pid proc_uid us (pid p) else None) of
        Some u \<Rightarrow> Some u
      | None \<Rightarrow> find_idx uid (wrap32 (case user p of None \<Rightarrow> - 1 | Some u \<Rightarrow> uid (us ! u)) mod 4294967296) us)"

definition reloaded :: "engine \<Rightarrow> nat option \<Rightarrow> job \<Rightarrow> job" where
  "reloaded e u p = p\<lparr>command := reload_text e (command p), work_dir := reload_text e (work_dir p),
     output_filename := reload_text e (output_filename p), user := u,
     label := (case label p of None \<Rightarrow> None | Some l \<Rightarrow> copy_with_nullcheck l), info := reload_info e (info p),
     num_allocated := 0, no_cpu_binding := 0, client_socket := 0, health_state := 0, cpu_alloc := None\<rparr>"

lemma join_length: "x \<in> set xs \<Longrightarrow> length x \<le> length (join d xs)"
  by (induction d xs rule: join.induct) auto

lemma edit_args_length [simp]: "length (edit_args e us p ord) = 37"
  by (simp add: edit_args_def)

lemma arg_fits:
  assumes "length (edit_sql act t args) < SQL_SIZE" "a \<in> set args"
  shows "length (arg_text a) < SQL_SIZE"
proof -
  have "set (take 34 args @ take 2 (drop 34 args) @ drop 2 (drop 34 args)) = set args" by (simp only: append_take_drop_id)
  moreover have "drop 2 (drop 34 args) = drop 36 args" by simp
  ultimately have s: "set args = set (take 34 args) \<union> set (take 2 (drop 34 args)) \<union> set (drop 36 args)"
    by (simp only: set_append Un_assoc)
  have "arg_text a \<in> set (map arg_text (take 34 args)) \<or> arg_text a \<in> set (map arg_text (take 2 (drop 34 args)))
      \<or> arg_text a \<in> set (map arg_text (drop 36 args))" using assms(2) unfolding s by auto
  then have "length (arg_text a) \<le> length (join '','' (map arg_text (take 34 args)))
      \<or> length (arg_text a) \<le> length (join '', '' (map arg_text (take 2 (drop 34 args))))
      \<or> length (arg_text a) \<le> length (join [] (map arg_text (drop 36 args)))"
    using join_length by blast
  then have "length (arg_text a) \<le> length (edit_sql act t args)" unfolding edit_sql_def length_append by linarith
  then show ?thesis using assms(1) by simp
qed

lemma col_int_int32: "int32 i \<Longrightarrow> col_int (SInt i) = i"
  by (simp add: col_int_def col_int64_def int32_def wrap32_def)

lemma read_state_code: "read_state (SInt (jobstate_code st)) = Inr st"
  by (cases st) (simp_all add: read_state_def all_states_def col_int_def col_int64_def wrap32_def)

text \<open>A text column written from a text that fitted into the statement.\<close>

lemma read_back_text:
  assumes "text_column c" "length (arg_text (Quoted (mprintf_q e x))) < SQL_SIZE" "QUOTE \<notin> set (null_q e)"
  shows "read_text (stored c (Quoted (mprintf_q e x))) = Inr (reload_text e x)"
proof -
  let ?t = "case x of None \<Rightarrow> null_q e | Some y \<Rightarrow> y"
  have q: "mprintf_q e x = escape_q ?t" using escape_plain [OF assms(3)] by (cases x) (simp_all add: mprintf_q_def)
  have "length ?t < SQL_SIZE" using assms(2) escape_length [of ?t] unfolding q by (simp add: arg_text_def)
  then show ?thesis
    using stored_text [OF assms(1), of ?t] unfolding q by (simp add: read_text_def via_sql_def col_text_def reload_text_def)
qed

lemma read_back_label:
  assumes "length (arg_text (Quoted (escape_q x))) < SQL_SIZE"
  shows "read_text (stored ''label'' (Quoted (escape_q x))) = Inr (copy_with_nullcheck x)"
  using assms escape_length [of x] stored_text [of "''label''" x]
  by (simp add: read_text_def via_sql_def col_text_def arg_text_def text_column_def)

lemma read_back_ints:
  assumes "\<not> text_column c" "\<forall>x \<in> set xs. int32 x" "int (length xs) \<le> 2147483647"
    "length (arg_text (Quoted (escape_q (ints_to_chars xs (CHR '','')))) ) < SQL_SIZE"
  shows "read_ints (stored c (Quoted (escape_q (ints_to_chars xs (CHR '',''))))) (SInt (int (length xs))) = Inr xs"
proof (cases "xs = []")
  case True
  then show ?thesis by (simp add: read_ints_def col_int_def col_int64_def wrap32_def)
next
  case False
  let ?t = "ints_to_chars xs (CHR '','')"
  have n: "col_int (SInt (int (length xs))) \<noteq> 0" using False assms(3) by (subst col_int_int32) (auto simp: int32_def)
  have "length ?t < SQL_SIZE" using assms(4) escape_length [of ?t] by (simp add: arg_text_def)
  then have "via_sql (stored c (Quoted (escape_q ?t))) = Inr ?t"
    using stored_ints [OF assms(1), of xs] assms(2) by (simp add: via_sql_def int32_def)
  moreover have "chars_to_ints ?t (CHR '','') = (length xs, xs)"
    using False assms(2) by (intro chars_ints_inverse) (auto simp: int32_def is_digit_def)
  ultimately show ?thesis using n by (simp add: read_ints_def)
qed

text \<open>The row of a job reads back as \<open>reloaded\<close> says; no copy overruns the buffer.\<close>

lemma read_row_edit:
  assumes "c_job p" "QUOTE \<notin> set (null_q e)" "length (edit_sql act t (edit_args e us p ord)) < SQL_SIZE"
  shows "read_row proc_uid us t (make_row edit_columns (edit_args e us p ord)) = Inr (reloaded e (reload_user proc_uid us t p) p)"
proof -
  let ?r = "make_row edit_columns (edit_args e us p ord)"
  note fits = arg_fits [OF assms(3)]
  have tx: "read_text (?r ! 1) = Inr (reload_text e (command p))"
    "read_text (?r ! 3) = Inr (reload_text e (output_filename p))"
    "read_text (?r ! 23) = Inr (reload_text e (ptr (info p)))"
    "read_text (?r ! 35) = Inr (reload_text e (work_dir p))"
    unfolding edit_row using assms(2)
    by (simp_all add: read_back_text text_column_def fits edit_args_def)
  have lab: "read_text (?r ! 13) = Inr (case label p of None \<Rightarrow> None | Some l \<Rightarrow> copy_with_nullcheck l)"
    unfolding edit_row using read_back_label [OF fits, of "case label p of None \<Rightarrow> ''(..)'' | Some l \<Rightarrow> l"]
    by (auto simp: edit_args_def copy_with_nullcheck_def split: option.splits)
  have deps: "read_ints (?r ! 8) (?r ! 9) = Inr (depend_on p)" "read_ints (?r ! 10) (?r ! 11) = Inr (notify_errorlevel_to p)"
    unfolding edit_row using assms(1)
    by (simp_all add: read_back_ints text_column_def fits edit_args_def c_job_def)
  have st: "read_state (?r ! 2) = Inr (state p)" unfolding edit_row by (simp add: read_state_code)
  have i64: "col_int64 (stored c (Quoted (show_int i))) = i" if "\<not> text_column c" "int64 i" for c i
    using stored_int [OF that(1)] that(2) by (simp add: int64_def col_int64_def)
  have info: "read_info x ?r = (reload_info e (info p))\<lparr>ptr := x\<rparr>" for x
    unfolding edit_row using assms(1)
    by (simp add: read_info_def reload_info_def i64 text_column_def c_job_def c_info_def col_bytes_def col_text_def)
  have res: "read_result ?r = result p"
    unfolding edit_row using assms(1) by (simp add: read_result_def col_int_int32 c_job_def c_result_def)
  have ints: "col_int (?r ! 0) = jobid p" "col_int (?r ! 4) = store_output p" "col_int (?r ! 5) = pid p"
    "col_int (?r ! 7) = should_keep_finished p" "col_int (?r ! 12) = dependency_errorlevel p"
    "col_int (?r ! 15) = num_slots p" "col_int (?r ! 34) = command_strip p"
    "col_int64 (?r ! 26) = wall_time p" "col_int64 (?r ! 36) = schedule_time p"
    unfolding edit_row using assms(1) by (simp_all add: col_int_int32 c_job_def col_int64_def)
  have u6: "col_int (?r ! 6) = wrap32 (case user p of None \<Rightarrow> - 1 | Some u \<Rightarrow> uid (us ! u))"
    unfolding edit_row by (simp add: col_int_def col_int64_def)
  have usr: "read_user proc_uid us t ?r = reload_user proc_uid us t p"
    unfolding read_user_def reload_user_def ints u6 ..
  show ?thesis
    unfolding read_row_def tx lab deps st info res usr ints
    by (simp add: reloaded_def zero_job_def reload_info_def)
qed

lemma row_of_edit [simp]:
  "row_id (make_row edit_columns (edit_args e us p ord)) = jobid p"
  "row_order (make_row edit_columns (edit_args e us p ord)) = ord"
  unfolding edit_row by (simp_all add: row_id_def row_order_def col_int64_def)

lemma wide_edit: "int32 (jobid p) \<Longrightarrow> wide (make_row edit_columns (edit_args e us p ord))"
  unfolding wide_def edit_row by (simp add: int32_def)

lemma edit_DB_row:
  assumes "edit_DB e us p t act d = Inr (0, d')"
  obtains ord where "rows t d' = filter (\<lambda>r. row_id r \<noteq> jobid p) (rows t d) @ [make_row edit_columns (edit_args e us p ord)]"
    "length (edit_sql act t (edit_args e us p ord)) < SQL_SIZE"
    "get_order_id e (jobid p) d = Some ord \<or> get_order_id e (jobid p) d = None \<and> max_order_id e d = Some (ord - 1)"
    "d' = set_rows t (rows t d') d"
proof -
  have r: "rows t (set_rows t rs d) = rs" for rs by (cases t) (simp_all add: rows_def set_rows_def)
  obtain ord where o: "get_order_id e (jobid p) d = Some ord \<or> get_order_id e (jobid p) d = None \<and> max_order_id e d = Some (ord - 1)"
    and l: "length (edit_sql act t (edit_args e us p ord)) < SQL_SIZE"
    and d': "d' = set_rows t (filter (\<lambda>r. row_id r \<noteq> jobid p) (rows t d) @ [make_row edit_columns (edit_args e us p ord)]) d"
    using assms unfolding edit_DB_def Let_def by (cases "get_order_id e (jobid p) d"; cases "max_order_id e d")
      (force split: if_splits)+
  show ?thesis by (rule that [of ord]) (use o l d' r in simp_all)
qed

lemma edit_read:
  assumes "edit_DB e us p t act d = Inr (0, d')" "c_job p" "QUOTE \<notin> set (null_q e)" "healthy_engine e"
  shows "read_DB e proc_uid us (jobid p) t d' = Inr (Some (reloaded e (reload_user proc_uid us t p) p))"
proof -
  obtain ord where o: "rows t d' = filter (\<lambda>r. row_id r \<noteq> jobid p) (rows t d) @ [make_row edit_columns (edit_args e us p ord)]"
    "length (edit_sql act t (edit_args e us p ord)) < SQL_SIZE" using edit_DB_row [OF assms(1)] by blast
  have "find (\<lambda>r. row_id r = jobid p) (filter (\<lambda>r. row_id r \<noteq> jobid p) rs @ [make_row edit_columns (edit_args e us p ord)])
      = Some (make_row edit_columns (edit_args e us p ord))" for rs
    by (induction rs) auto
  then show ?thesis
    using read_row_edit [OF assms(2,3) o(2)] assms(4) o(1) by (simp add: read_DB_def healthy_engine_def)
qed

section \<open>Rows and order\<close>

lemma rows_Jobs [simp]: "rows Jobs d = Jobs_rows d" "set_rows Jobs rs d = d\<lparr>Jobs_rows := rs\<rparr>"
  by (simp_all add: rows_def set_rows_def)

lemma filter_absent: "j \<notin> f ` set xs \<Longrightarrow> filter (\<lambda>x. f x \<noteq> j) xs = xs"
  by (auto simp: filter_id_conv)

lemma db_order_set: "order_good n d \<Longrightarrow> set (db_order d) = row_id ` set (Jobs_rows d)"
  using ranked_facts(1) [of "ranks d"] by (force simp: db_order_def order_good_def ranks_def image_image)

text \<open>A new job goes to the end.\<close>

lemma insert_order:
  assumes "edit_DB e us p Jobs act d = Inr (0, d')" "order_good n d" "n < ORDER_LIMIT" "healthy_engine e"
    "int32 (jobid p)" "jobid p \<notin> set (db_order d)"
  shows "order_good (Suc n) d' \<and> db_order d' = db_order d @ [jobid p]
    \<and> (\<exists>ord. Jobs_rows d' = Jobs_rows d @ [make_row edit_columns (edit_args e us p ord)]
         \<and> length (edit_sql act Jobs (edit_args e us p ord)) < SQL_SIZE)"
proof -
  obtain ord where o: "Jobs_rows d' = filter (\<lambda>r. row_id r \<noteq> jobid p) (Jobs_rows d) @ [make_row edit_columns (edit_args e us p ord)]"
    "length (edit_sql act Jobs (edit_args e us p ord)) < SQL_SIZE"
    "get_order_id e (jobid p) d = Some ord \<or> get_order_id e (jobid p) d = None \<and> max_order_id e d = Some (ord - 1)"
    using edit_DB_row [OF assms(1)] by (metis rows_Jobs(1))
  have m: "max_order_id e d = Some (ord - 1)" using o(3) get_order(2) [OF assms(2-4,6)] by auto
  then have lim: "\<bar>ord - 1\<bar> \<le> int n" "\<forall>k \<in> snd ` set (ranks d). k \<le> ord - 1"
    using order_limits(1) [OF assms(2-4)] by auto
  have new: "jobid p \<notin> row_id ` set (Jobs_rows d)" using assms(6) db_order_set [OF assms(2)] by simp
  then have rs: "Jobs_rows d' = Jobs_rows d @ [make_row edit_columns (edit_args e us p ord)]"
    using o(1) filter_absent [OF new] by simp
  then have rk: "ranks d' = ranks d @ [(jobid p, ord)]" by (simp add: ranks_def)
  have nf: "jobid p \<notin> fst ` set (ranks d)" using new by (auto simp: ranks_def)
  have ns: "ord \<notin> snd ` set (ranks d)" using lim(2) by force
  have "\<forall>k \<in> snd ` set (ranks d @ [(jobid p, ord)]). \<bar>k\<bar> \<le> int (Suc n)"
    using assms(2) lim(1) by (fastforce simp: order_good_def)
  then have "order_good (Suc n) d'"
    using assms(2) nf ns wide_edit [OF assms(5)] unfolding order_good_def rk rs by auto
  moreover have "db_order d' = db_order d @ [jobid p]"
    unfolding db_order_def rk using assms(2) lim(2) by (intro ranked_snoc) (force simp: order_good_def)+
  ultimately show ?thesis using rs o(2) by blast
qed

lemma insort_map_pair:
  "map f (insort_key key x xs) = insort_key snd (f x) (map f xs)" if "\<And>x. snd (f x) = key x"
  using that by (induction xs) auto

lemma sort_map_pair: "(\<And>x. snd (f x) = key x) \<Longrightarrow> sort_key snd (map f xs) = map f (sort_key key xs)"
  by (induction xs) (simp_all add: insort_map_pair)

text \<open>The ids read at the start of the server are the ids in the order of the table.\<close>

lemma read_ids:
  assumes "order_good n d" "healthy_engine e"
  shows "snd (read_jobid_DB e Jobs d) = db_order d"
proof -
  have "db_order d = map row_id (sort_key row_order (Jobs_rows d))"
    unfolding db_order_def ranked_def ranks_def by (simp add: sort_map_pair [where key = row_order])
  moreover have "col_int (r ! 0) = row_id r" if "r \<in> set (Jobs_rows d)" for r
    using assms(1) that by (auto simp: order_good_def wide_def row_id_def col_int_def col_int64_def wrap32_def)
  then have "map (\<lambda>r. col_int (r ! 0)) (sort_key row_order (Jobs_rows d)) = map row_id (sort_key row_order (Jobs_rows d))"
    by simp
  ultimately show ?thesis using assms(2) by (simp add: read_jobid_DB_def healthy_engine_def Let_def)
qed

section \<open>The whole queue\<close>

definition empty_db :: database where
  "empty_db = \<lparr>Jobs_rows = [], Finished_rows = [], Global_jobids = Some 1000\<rparr>"

text \<open>The table holds the rows of the jobs \<open>ps\<close>, in their order.\<close>

definition holds :: "engine \<Rightarrow> user_t list \<Rightarrow> job list \<Rightarrow> database \<Rightarrow> bool" where
  "holds e us ps d \<longleftrightarrow> db_order d = map jobid ps
     \<and> (\<forall>p \<in> set ps. \<exists>ord act. find (\<lambda>r. row_id r = jobid p) (Jobs_rows d) = Some (make_row edit_columns (edit_args e us p ord))
          \<and> length (edit_sql act Jobs (edit_args e us p ord)) < SQL_SIZE)"

lemma find_append_old: "find P xs = Some x \<Longrightarrow> find P (xs @ ys) = Some x"
  by (induction xs) auto

lemma find_append_new: "(\<forall>x \<in> set xs. \<not> P x) \<Longrightarrow> find P (xs @ ys) = find P ys"
  by (induction xs) auto

lemma insert_holds:
  assumes "insert_exec e us p Jobs d = Inr (rc, d')" "holds e us ps d" "order_good n d" "n < ORDER_LIMIT"
    "healthy_engine e" "int32 (jobid p)" "jobid p \<notin> jobid ` set ps"
  shows "holds e us (ps @ [p]) d' \<and> order_good (Suc n) d'"
proof -
  have q: "db_order d = map jobid ps" using assms(2) by (simp add: holds_def)
  then have new: "jobid p \<notin> set (db_order d)" using assms(7) by simp
  then have nr: "jobid p \<notin> row_id ` set (Jobs_rows d)" using db_order_set [OF assms(3)] by simp
  have "rc = 0"
    using assms(1) nr assms(5) get_order(2) [OF assms(3-5) new] order_limits(1) [OF assms(3-5)]
    by (auto simp: insert_exec_def edit_DB_def Let_def healthy_engine_def split: if_splits)
  then have e: "edit_DB e us p Jobs ''INSERT'' d = Inr (0, d')" using assms(1) by (simp add: insert_exec_def)
  obtain ord where k: "order_good (Suc n) d'" "db_order d' = db_order d @ [jobid p]"
    "Jobs_rows d' = Jobs_rows d @ [make_row edit_columns (edit_args e us p ord)]"
    "length (edit_sql ''INSERT'' Jobs (edit_args e us p ord)) < SQL_SIZE"
    using insert_order [OF e assms(3-6) new] by blast
  have "find (\<lambda>r. row_id r = jobid p) (Jobs_rows d') = Some (make_row edit_columns (edit_args e us p ord))"
    using nr unfolding k(3) by (subst find_append_new) (auto simp: image_iff)
  moreover have "find (\<lambda>r. row_id r = j) (Jobs_rows d) = Some x \<Longrightarrow> find (\<lambda>r. row_id r = j) (Jobs_rows d') = Some x" for j x
    unfolding k(3) by (rule find_append_old)
  ultimately have "holds e us (ps @ [p]) d'"
    using assms(2) k(2,4) unfolding holds_def by auto blast+
  then show ?thesis using k(1) by simp
qed

lemma insert_all_holds:
  assumes "exec_events e us (map (\<lambda>p. Db (Insert p Jobs)) ps) d = Inr d'" "holds e us qs d" "order_good n d"
    "n + length ps < ORDER_LIMIT" "healthy_engine e" "\<forall>p \<in> set ps. int32 (jobid p)" "distinct (map jobid (qs @ ps))"
  shows "holds e us (qs @ ps) d' \<and> order_good (n + length ps) d'"
  using assms
proof (induction ps arbitrary: d qs n)
  case (Cons p ps)
  obtain rc d1 where i: "insert_exec e us p Jobs d = Inr (rc, d1)"
    and r: "exec_events e us (map (\<lambda>p. Db (Insert p Jobs)) ps) d1 = Inr d'"
    using Cons.prems(1) by (auto simp: exec_op_def rbind_eq_Inr)
  have "holds e us (qs @ [p]) d1 \<and> order_good (Suc n) d1"
    using Cons.prems by (intro insert_holds [OF i]) auto
  then show ?case using Cons.IH [OF r, of "qs @ [p]" "Suc n"] Cons.prems by auto
qed simp

lemma holds_load:
  assumes "holds e us ps d" "\<forall>p \<in> set ps. c_job p" "QUOTE \<notin> set (null_q e)" "healthy_engine e" "order_good n d"
  shows "load_table e proc_uid us Jobs d = Inr (map (\<lambda>p. reloaded e (reload_user proc_uid us Jobs p) p) ps)"
proof -
  have r: "read_DB e proc_uid us (jobid p) Jobs d = Inr (Some (reloaded e (reload_user proc_uid us Jobs p) p))"
    if p: "p \<in> set ps" for p
  proof -
    obtain ord act where f: "find (\<lambda>r. row_id r = jobid p) (Jobs_rows d) = Some (make_row edit_columns (edit_args e us p ord))"
      "length (edit_sql act Jobs (edit_args e us p ord)) < SQL_SIZE" using assms(1) p by (auto simp: holds_def)
    have "c_job p" using assms(2) p by simp
    then show ?thesis
      using read_row_edit [OF _ assms(3) f(2)] assms(4) f(1) by (simp add: read_DB_def healthy_engine_def)
  qed
  have "read_jobs e proc_uid us Jobs d (map jobid qs) = Inr (map (\<lambda>p. reloaded e (reload_user proc_uid us Jobs p) p) qs)"
    if "set qs \<subseteq> set ps" for qs using that r by (induction qs) auto
  moreover have "snd (read_jobid_DB e Jobs d) = map jobid ps"
    using read_ids [OF assms(5,4)] assms(1) by (simp add: holds_def)
  ultimately show ?thesis by (simp add: load_table_def)
qed

lemma empty_db_holds: "holds e us [] empty_db" "order_good 0 empty_db"
  by (simp_all add: holds_def order_good_def empty_db_def db_order_def ranked_def ranks_def)

section \<open>Jobs that fit into the buffer\<close>

text \<open>The texts of a job as they are printed, quotes doubled; numbers and punctuation need less than 1500 bytes.\<close>

definition text_size :: "engine \<Rightarrow> job \<Rightarrow> nat" where
  "text_size e p = length (mprintf_q e (command p)) + length (mprintf_q e (output_filename p))
     + length (escape_q (ints_to_chars (depend_on p) (CHR '','')))
     + length (escape_q (ints_to_chars (notify_errorlevel_to p) (CHR '','')))
     + length (escape_q (case label p of None \<Rightarrow> ''(..)'' | Some l \<Rightarrow> l))
     + length (mprintf_q e (ptr (info p))) + length (mprintf_q e (work_dir p))"

lemma show_int64_length:
  assumes "int64 i"
  shows "length (show_int i) \<le> 20"
proof -
  have "nat i < 10 ^ 19" "nat (- i) < 10 ^ 19" using assms by (auto simp: int64_def INT64_MAX_def)
  then show ?thesis
    using show_nat_length [of 19 "nat i"] show_nat_length [of 19 "nat (- i)"] by (auto simp: show_int_def)
qed

lemma int32_64: "int32 i \<Longrightarrow> int64 i"
  by (simp add: int32_def int64_def INT64_MAX_def)

lemma job_fits:
  assumes "c_job p" "int32 (case user p of None \<Rightarrow> - 1 | Some u \<Rightarrow> uid (us ! u))" "int32 ord"
    "length act \<le> 17" "text_size e p + 1500 \<le> SQL_SIZE"
  shows "length (edit_sql act t (edit_args e us p ord)) < SQL_SIZE"
proof -
  note len = show_int64_length and len32 = show_int64_length [OF int32_64]
  have st: "length (show_int (jobstate_code (state p))) \<le> 20"
    by (rule len32) (cases "state p"; simp add: int32_def)
  have n: "length (table_name t) \<le> 8" by (cases t) (simp_all add: table_name_def)
  have ints: "list_all (\<lambda>i. length (show_int i) \<le> 20)
    [jobid p, store_output p, pid p, case user p of None \<Rightarrow> - 1 | Some u \<Rightarrow> uid (us ! u), should_keep_finished p,
     int (length (depend_on p)), int (length (notify_errorlevel_to p)), dependency_errorlevel p, num_slots p,
     errorlevel (result p), died_by_signal (result p), signal (result p), user_sec (result p), system_sec (result p),
     real_sec (result p), skipped (result p), nchars (info p), allocchars (info p), ord, command_strip p]"
    using assms(1-3) by (simp add: c_job_def c_result_def c_info_def len32) (simp add: int32_def len32)
  have longs: "list_all (\<lambda>i. length (show_int i) \<le> 20)
    [wall_time p, schedule_time p, enqueue_time (info p), start_time (info p), end_time (info p), pause_time (info p),
     pause_duration (info p), boot_time (info p)]"
    using assms(1) by (simp add: c_job_def c_info_def len)
  show ?thesis
    using assms(4,5) st n ints longs unfolding text_size_def
    by (simp add: edit_sql_def edit_args_def arg_text_def SQL_SIZE_def)
qed

lemma insert_all_returns:
  assumes "holds e us qs d" "order_good n d" "n + length ps < ORDER_LIMIT" "healthy_engine e"
    "\<forall>p \<in> set ps. c_job p \<and> text_size e p + 1500 \<le> SQL_SIZE
       \<and> int32 (case user p of None \<Rightarrow> - 1 | Some u \<Rightarrow> uid (us ! u))" "distinct (map jobid (qs @ ps))"
  shows "\<exists>d'. exec_events e us (map (\<lambda>p. Db (Insert p Jobs)) ps) d = Inr d'"
  using assms
proof (induction ps arbitrary: d qs n)
  case (Cons p ps)
  have q: "db_order d = map jobid qs" using Cons.prems(1) by (simp add: holds_def)
  then have g: "get_order_id e (jobid p) d = None"
    using Cons.prems by (intro get_order(2) [of n]) auto
  obtain m where m: "max_order_id e d = Some m" "\<bar>m\<bar> \<le> int n"
    using order_limits(1) [OF Cons.prems(2) _ Cons.prems(4)] Cons.prems(3) by auto
  have "int32 (m + 1)" using m(2) Cons.prems(3) by (auto simp: int32_def ORDER_LIMIT_def)
  then have f: "length (edit_sql ''INSERT'' Jobs (edit_args e us p (m + 1))) < SQL_SIZE"
    using Cons.prems(5) by (intro job_fits) auto
  then have "\<exists>x. insert_exec e us p Jobs d = Inr x"
    using g m(1) by (simp add: insert_exec_def edit_DB_def Let_def del: rows_Jobs)
  then obtain rc d1 where i: "insert_exec e us p Jobs d = Inr (rc, d1)" by auto
  have "holds e us (qs @ [p]) d1 \<and> order_good (Suc n) d1"
    using Cons.prems by (intro insert_holds [OF i]) (auto simp: c_job_def)
  then show ?case using Cons.IH [of "qs @ [p]" d1 "Suc n"] Cons.prems i by (auto simp: exec_op_def)
qed simp

end
