(* ===== verification/Db_Sync.thy ===== *)
theory Db_Sync
  imports Database_Rows Queue_Requests
begin

text \<open>
  The server writes every change of the queue to the database as it makes it. This theory
  states what the server needs of a store that keeps an order (\<open>queue_store\<close>), shows inside that
  contract that the reordering requests, the time-out and the removal of a job leave the order of
  the store equal to the order of the queue, and discharges the contract for \<open>sqlite.c\<close>.
\<close>

section \<open>A store that keeps the order of the queue\<close>

definition run_events :: "(db_op \<Rightarrow> 'd \<Rightarrow> 'd res) \<Rightarrow> event list \<Rightarrow> 'd \<Rightarrow> 'd res" where
  "run_events exec evs d = rfold (\<lambda>ev d. case ev of Db op \<Rightarrow> exec op d | _ \<Rightarrow> Inr d) evs d"

text \<open>The events a handler added to the trace.\<close>

definition new_events :: "srv \<Rightarrow> srv \<Rightarrow> event list" where
  "new_events s s' = drop (length (out s)) (out s')"

locale queue_store =
  fixes order :: "'d \<Rightarrow> int list" and good :: "nat \<Rightarrow> 'd \<Rightarrow> bool" and limit :: nat
    and exec :: "db_op \<Rightarrow> 'd \<Rightarrow> 'd res"
  assumes distinct_order: "good n d \<Longrightarrow> distinct (order d)"
    and grow: "good n d \<Longrightarrow> good (Suc n) d"
    and movetop: "good n d \<Longrightarrow> n < limit \<Longrightarrow> j \<in> set (order d) \<Longrightarrow>
      returns (exec (Movetop j) d) (\<lambda>d'. good (Suc n) d' \<and> order d' = j # remove1 j (order d))"
    and movebottom: "good n d \<Longrightarrow> n < limit \<Longrightarrow> j \<in> set (order d) \<Longrightarrow>
      returns (exec (Movebottom j) d) (\<lambda>d'. good (Suc n) d' \<and> order d' = remove1 j (order d) @ [j])"
    and swap: "good n d \<Longrightarrow> n < limit \<Longrightarrow> a \<in> set (order d) \<Longrightarrow> b \<in> set (order d) \<Longrightarrow>
      returns (exec (Swap a b) d) (\<lambda>d'. good n d' \<and> order d' = map (exchange a b) (order d))"
    and delete: "good n d \<Longrightarrow> returns (exec (Delete j Jobs) d) (\<lambda>d'. good n d' \<and> order d' = remove1 j (order d))"
    and set_state: "good n d \<Longrightarrow> returns (exec (Set_state j st) d) (\<lambda>d'. good n d' \<and> order d' = order d)"
begin

lemma urgent_sync:
  assumes "good n d" "n < limit" "order d = ids s"
  shows "returns (run_events exec (new_events s (s_move_urgent sock jid s)) d)
    (\<lambda>d'. good (Suc n) d' \<and> order d' = ids (s_move_urgent sock jid s))"
proof (cases "jid \<in> set (ids s)")
  case True
  have di: "distinct (ids s)" using distinct_order [OF assms(1)] assms(3) by simp
  note m = move_urgent_ids [OF di True, of sock]
  obtain d' where d': "exec (Movetop jid) d = Inr d'" "good (Suc n) d'" "order d' = jid # remove1 jid (ids s)"
    using movetop [OF assms(1,2), of jid] True assms(3) by (auto elim: returnsE)
  then show ?thesis using m by (simp add: new_events_def run_events_def)
next
  case False
  then show ?thesis
    using grow [OF assms(1)] assms(3) move_urgent_unknown [OF False, of sock]
    by (simp add: new_events_def run_events_def send_list_line_def emit_def ids_def)
qed

lemma swap_sync:
  assumes "good n d" "n < limit" "order d = ids s"
  shows "returns (run_events exec (new_events s (s_swap_jobs sock a b s)) d)
    (\<lambda>d'. good n d' \<and> order d' = ids (s_swap_jobs sock a b s))"
proof (cases "a \<in> set (ids s) \<and> b \<in> set (ids s)")
  case True
  then obtain i k where i: "findjob_idx a s = Some i" "findjob_idx b s = Some k"
    using findjob_idx_None by (metis not_None_eq)
  note f = swap_jobs_found [OF i, of sock]
  have di: "distinct (ids s)" using distinct_order [OF assms(1)] assms(3) by simp
  obtain d' where d': "exec (Swap a b) d = Inr d'" "good n d'" "order d' = map (exchange a b) (ids s)"
    using swap [OF assms(1,2), of a b] True assms(3) by (auto elim: returnsE)
  have "map (exchange a b) (ids s) = ids (s_swap_jobs sock a b s)"
  proof (rule nth_equalityI)
    note bd = findjob_idx_bound [OF i(1)] findjob_idx_bound [OF i(2)]
    then have ab: "ids s ! i = a" "ids s ! k = b" "i < length (ids s)" "k < length (ids s)" by (simp_all add: ids_def)
    show "length (map (exchange a b) (ids s)) = length (ids (s_swap_jobs sock a b s))" by (simp add: ids_def f)
    fix x assume x: "x < length (map (exchange a b) (ids s))"
    then have eq: "ids s ! x = a \<longleftrightarrow> x = i" "ids s ! x = b \<longleftrightarrow> x = k"
      using nth_eq_iff_index_eq [OF di, of x i] nth_eq_iff_index_eq [OF di, of x k] ab by simp_all
    have "ids (s_swap_jobs sock a b s) = (ids s)[i := b, k := a]"
      unfolding ids_def f(1) map_update using bd by simp
    then show "map (exchange a b) (ids s) ! x = ids (s_swap_jobs sock a b s) ! x"
      using x eq ab by (auto simp: exchange_def nth_list_update)
  qed
  then show ?thesis using d' f(2) by (simp add: new_events_def run_events_def)
next
  case False
  then have "findjob_idx a s = None \<or> findjob_idx b s = None"
    using findjob_idx_None [of a s] findjob_idx_None [of b s] by argo
  then have "\<exists>l. s_swap_jobs sock a b s = send_list_line sock l s"
    by (auto simp: s_swap_jobs_def split: option.splits)
  then obtain l where "s_swap_jobs sock a b s = send_list_line sock l s" by blast
  then show ?thesis using assms by (simp add: new_events_def run_events_def send_list_line_def emit_def ids_def)
qed

text \<open>Jobs that timed out leave the queue and are appended to it, in the database too.\<close>

lemma timed_out_sync:
  assumes "good n d" "n + length ps \<le> limit" "filter (\<lambda>j. j \<notin> jobid ` set ps) (order d) = ids s"
    "distinct (map jobid ps)" "jobid ` set ps \<subseteq> set (order d)"
  shows "returns (run_events exec (new_events s (requeue_timed_out ps s)) d)
    (\<lambda>d'. good (n + length ps) d' \<and> order d' = ids (requeue_timed_out ps s))"
proof -
  have out: "out (requeue_timed_out ps s) = out s @ map (\<lambda>p. Db (Movebottom (jobid p))) ps"
    "ids (requeue_timed_out ps s) = ids s @ map jobid ps" for s
    by (induction ps arbitrary: s) (simp_all add: requeue_timed_out_def emit_def push_active_def ids_def)
  have "returns (run_events exec (map (\<lambda>p. Db (Movebottom (jobid p))) qs) e)
      (\<lambda>d'. good (m + length qs) d' \<and> order d' = filter (\<lambda>j. j \<notin> jobid ` set qs) (order e) @ map jobid qs)"
    if "good m e" "m + length qs \<le> limit" "distinct (map jobid qs)" "jobid ` set qs \<subseteq> set (order e)" for m e qs
    using that
  proof (induction qs arbitrary: m e)
    case (Cons q qs)
    obtain e1 where e1: "exec (Movebottom (jobid q)) e = Inr e1" "good (Suc m) e1" "order e1 = remove1 (jobid q) (order e) @ [jobid q]"
      using movebottom [OF Cons.prems(1), of "jobid q"] Cons.prems by (auto elim: returnsE)
    have f: "filter (\<lambda>j. j \<notin> jobid ` set qs) (order e1) = filter (\<lambda>j. j \<notin> jobid ` set (q # qs)) (order e) @ [jobid q]"
      using Cons.prems(3) distinct_order [OF Cons.prems(1)] unfolding e1(3)
      by (auto simp: distinct_remove1_removeAll removeAll_filter_not_eq intro: filter_cong)
    have "jobid ` set qs \<subseteq> set (order e1)"
      using Cons.prems(3,4) distinct_order [OF Cons.prems(1)] unfolding e1(3) by (auto simp: set_remove1_eq)
    then show ?case
      using Cons.IH [OF e1(2)] Cons.prems e1(1) f by (simp add: run_events_def)
  qed (simp add: run_events_def)
  from this [of n d ps] assms show ?thesis by (simp add: new_events_def out)
qed

lemma delete_sync:
  assumes "good n d" "order d = ids s" "findjob_idx jid s = Some i"
  shows "returns (run_events exec (new_events s (delete_DB jid Jobs (remove_active i s))) d)
    (\<lambda>d'. good n d' \<and> order d' = ids (delete_DB jid Jobs (remove_active i s)))"
proof -
  have di: "distinct (ids s)" using distinct_order [OF assms(1)] assms(2) by simp
  obtain d' where d': "exec (Delete jid Jobs) d = Inr d'" "good n d'" "order d' = remove1 jid (ids s)"
    using delete [OF assms(1), of jid] assms(2) by (auto elim: returnsE)
  have "ids (delete_DB jid Jobs (remove_active i s)) = remove1 jid (ids s)"
    using ids_remove [OF di assms(3)] by (simp add: delete_DB_def remove_active_def ids_def emit_def)
  then show ?thesis using d' by (simp add: new_events_def run_events_def delete_DB_def remove_active_def emit_def)
qed

end

section \<open>The database is such a store\<close>

definition store_order :: "engine \<times> user_t list \<times> database \<Rightarrow> int list" where
  "store_order x = db_order (snd (snd x))"

definition store_good :: "nat \<Rightarrow> engine \<times> user_t list \<times> database \<Rightarrow> bool" where
  "store_good n x \<longleftrightarrow> healthy_engine (fst x) \<and> order_good n (snd (snd x))"

definition store_exec :: "db_op \<Rightarrow> engine \<times> user_t list \<times> database \<Rightarrow> (engine \<times> user_t list \<times> database) res" where
  "store_exec op x = (case x of (e, us, d) \<Rightarrow> rbind (exec_op e us op d) (\<lambda>(rc, d'). Inr (e, us, d')))"

lemma store_run:
  "run_events store_exec evs (e, us, d) = rbind (exec_events e us evs d) (\<lambda>d'. Inr (e, us, d'))"
proof (induction evs arbitrary: d)
  case (Cons ev evs)
  then show ?case
    by (cases ev) (auto simp: run_events_def store_exec_def res_simps intro!: rbind_cong split: prod.splits)
qed (simp add: run_events_def)

interpretation jobs_db: queue_store store_order store_good ORDER_LIMIT store_exec
proof
  fix n :: nat and x :: "engine \<times> user_t list \<times> database" and j a b :: int and st
  obtain e us d where x: "x = (e, us, d)" by (cases x)
  assume "store_good n x"
  then have g: "healthy_engine e" "order_good n d" using x by (simp_all add: store_good_def)
  note defs = x store_order_def store_good_def store_exec_def exec_op_def g(1)
  show "distinct (store_order x)"
    using ranked_facts(2) [of "ranks d"] g(2) by (simp add: defs db_order_def order_good_def)
  show "store_good (Suc n) x" using g(2) by (fastforce simp: defs order_good_def)
  show "returns (store_exec (Delete j Jobs) x) (\<lambda>x'. store_good n x' \<and> store_order x' = remove1 j (store_order x))"
    using delete_order [OF g(2,1), of j] by (auto simp: defs)
  show "returns (store_exec (Set_state j st) x) (\<lambda>x'. store_good n x' \<and> store_order x' = store_order x)"
    using update_order [OF g(2), of 2] g(1) by (auto simp: defs set_state_DB_def healthy_engine_def)
  assume n: "n < ORDER_LIMIT"
  show "j \<in> set (store_order x) \<Longrightarrow> returns (store_exec (Movetop j) x) (\<lambda>x'. store_good (Suc n) x' \<and> store_order x' = j # remove1 j (store_order x))"
    using movetop_order [OF g(2) n g(1), of j] by (auto simp: defs)
  show "j \<in> set (store_order x) \<Longrightarrow> returns (store_exec (Movebottom j) x) (\<lambda>x'. store_good (Suc n) x' \<and> store_order x' = remove1 j (store_order x) @ [j])"
    using movebottom_order [OF g(2) n g(1), of j] by (auto simp: defs)
  show "a \<in> set (store_order x) \<Longrightarrow> b \<in> set (store_order x) \<Longrightarrow> returns (store_exec (Swap a b) x) (\<lambda>x'. store_good n x' \<and> store_order x' = map (exchange a b) (store_order x))"
    using swap_order [OF g(2) n g(1), of a b] by (auto simp: defs)
qed

end
