(* ===== verification/Messaging.thy ===== *)
theory Messaging
  imports Text_Utils
begin

text \<open>
  The transfer loops of \<open>msg.c\<close>. The kernel is a parameter: \<open>chunk k\<close> is what the \<open>k\<close>-th call of
  \<open>recv\<close> finds (\<open>None\<close> an error, the empty list a closed connection), \<open>accept k\<close> how many bytes
  the \<open>k\<close>-th call of \<open>send\<close> takes. The loops need not end, so they are partial functions.
\<close>

section \<open>Bytes\<close>

type_synonym bytes = "nat list"

text \<open>The result is the value of the last call and the bytes stored.\<close>

partial_function (option) recv_loop :: "(nat \<Rightarrow> bytes option) \<Rightarrow> nat \<Rightarrow> bytes \<Rightarrow> nat \<Rightarrow> (int \<times> bytes) option" where
  "recv_loop chunk k data n =
     (case chunk k of None \<Rightarrow> Some (- 1, data)
      | Some b \<Rightarrow>
          (let got = take n b in
           if length got = n then Some (int n, data @ got)
           else recv_loop chunk (Suc k) (data @ got) (n - length got)))"

definition recv_bytes :: "(nat \<Rightarrow> bytes option) \<Rightarrow> nat \<Rightarrow> (int \<times> bytes) option" where
  "recv_bytes chunk n = recv_loop chunk 0 [] n"

partial_function (option) send_loop :: "(nat \<Rightarrow> nat option) \<Rightarrow> nat \<Rightarrow> bytes \<Rightarrow> bytes \<Rightarrow> bytes option" where
  "send_loop accept k sent data =
     (case accept k of None \<Rightarrow> Some sent
      | Some a \<Rightarrow>
          (let res = min a (length data) in
           if res = length data then Some (sent @ data)
           else send_loop accept (Suc k) (sent @ take res data) (drop res data)))"

definition send_bytes :: "(nat \<Rightarrow> nat option) \<Rightarrow> bytes \<Rightarrow> bytes option" where
  "send_bytes accept data = send_loop accept 0 [] data"

section \<open>Arrays of integers\<close>

text \<open>An \<open>int\<close> in memory: four bytes, the least significant first.\<close>

definition enc_int :: "int \<Rightarrow> bytes" where
  "enc_int i = (let u = nat (i mod 4294967296)
     in [u mod 256, u div 256 mod 256, u div 65536 mod 256, u div 16777216])"

definition dec_int :: "bytes \<Rightarrow> int" where
  "dec_int b = wrap32 (int (b ! 0 + 256 * b ! 1 + 65536 * b ! 2 + 16777216 * b ! 3))"

definition send_ints :: "int list \<Rightarrow> bytes" where
  "send_ints xs = enc_int (int (length xs)) @ (if xs = [] then [] else concat (map enc_int xs))"

text \<open>
  \<open>read\<close> takes what is there, up to what is asked for; neither call is repeated. What a short
  read leaves unset is read later: \<open>Out_of_bounds\<close>.
\<close>

definition recv_ints :: "bytes \<Rightarrow> (int list \<times> bytes) res" where
  "recv_ints b =
     (if length b < 4 then Inl Out_of_bounds
      else let num = dec_int (take 4 b); r = drop 4 b in
        if num = 0 then Inr ([], r)
        else if num < 0 \<or> length r < nat num * 4 then Inl Out_of_bounds
        else Inr (map (\<lambda>k. dec_int (take 4 (drop (4 * k) r))) [0..<nat num], drop (nat num * 4) r))"

section \<open>Lemmas\<close>

text \<open>Receiving gathers the bytes of the calls it makes, whatever their division.\<close>

lemma recv_loop_gathers:
  assumes "bs \<noteq> []" "\<forall>i < length bs. chunk (k + i) = Some (bs ! i)" "\<forall>b \<in> set bs. b \<noteq> []"
    "length (concat bs) = n"
  shows "recv_loop chunk k data n = Some (int (length (last bs)), data @ concat bs)"
  using assms
proof (induction bs arbitrary: k data n)
  case (Cons b bs)
  have c: "chunk k = Some b" using Cons.prems(2) by (auto dest: spec [of _ 0])
  have n: "n = length b + length (concat bs)" using Cons.prems(4) by simp
  show ?case
  proof (cases "bs = []")
    case True
    then show ?thesis using c n by (subst recv_loop.simps) simp
  next
    case False
    then have "concat bs \<noteq> []" using Cons.prems(3) by auto
    then have "length b < n" "n - length b = length (concat bs)" using n by simp_all
    moreover have "\<forall>i < length bs. chunk (Suc k + i) = Some (bs ! i)"
      using Cons.prems(2) by (auto dest: spec [of _ "Suc _"])
    ultimately show ?thesis
      using Cons.IH [OF False, of "Suc k" "length (concat bs)" "data @ b"] Cons.prems(3) c False
      by (subst recv_loop.simps) simp
  qed
qed simp

text \<open>Once the connection is closed, a loop that still wants bytes never returns.\<close>

lemma recv_loop_closed:
  assumes "recv_loop chunk k data n = Some y"
  shows "(\<forall>j \<ge> k. chunk j = Some []) \<longrightarrow> n = 0"
proof (rule recv_loop.raw_induct [OF _ assms], goal_cases)
  case (1 loop chunk k data n y)
  show ?case
  proof (intro impI, rule ccontr)
    assume e: "\<forall>j \<ge> k. chunk j = Some []" and n: "n \<noteq> 0"
    then have "loop chunk (Suc k) data n = Some y" using 1(2) by simp
    from 1(1) [OF this] e n show False by auto
  qed
qed

lemma recv_loop_short:
  assumes "length (concat bs) < n" "\<forall>i < length bs. chunk (k + i) = Some (bs ! i)" "\<forall>i \<ge> k + length bs. chunk i = Some []"
  shows "recv_loop chunk k data n \<noteq> Some y"
  using assms
proof (induction bs arbitrary: k data n)
  case Nil
  then show ?case using recv_loop_closed [of chunk k data n y] by auto
next
  case (Cons b bs)
  have c: "chunk k = Some b" using Cons.prems(2) by (auto dest: spec [of _ 0])
  have "\<forall>i < length bs. chunk (Suc k + i) = Some (bs ! i)" using Cons.prems(2) by (auto dest: spec [of _ "Suc _"])
  then have "recv_loop chunk (Suc k) (data @ b) (n - length b) \<noteq> Some y"
    using Cons.prems(1,3) by (intro Cons.IH) auto
  moreover have "length b < n" using Cons.prems(1) by simp
  ultimately show ?case using c by (subst recv_loop.simps) simp
qed

lemma send_loop_all:
  assumes "\<forall>i. \<exists>a > 0. accept i = Some a"
  shows "send_loop accept k sent data = Some (sent @ data)"
proof (induction "length data" arbitrary: k sent data rule: less_induct)
  case less
  obtain a where a: "0 < a" "accept k = Some a" using assms by blast
  show ?case
  proof (cases "a < length data")
    case True
    then have "length (drop a data) < length data" using a(1) by simp
    from less [OF this, of "Suc k" "sent @ take a data"] show ?thesis
      using True a(2) by (subst send_loop.simps) (simp add: min_def)
  next
    case False
    then show ?thesis using a(2) by (subst send_loop.simps) (simp add: min_def)
  qed
qed

lemma enc_dec:
  assumes "- 2147483648 \<le> i" "i \<le> 2147483647"
  shows "dec_int (enc_int i) = i" "length (enc_int i) = 4"
proof -
  define u where "u = nat (i mod 4294967296)"
  have "u mod 256 + 256 * (u div 256 mod 256) + 65536 * (u div 65536 mod 256) + 16777216 * (u div 16777216) = u"
  proof -
    define q1 q2 q3 where "q1 = u div 256" and "q2 = q1 div 256" and "q3 = q2 div 256"
    have e: "u div 65536 = q2" "u div 16777216 = q3" "u div 256 = q1"
      by (simp_all add: q1_def q2_def q3_def div_mult2_eq [symmetric])
    have "u = 256 * q1 + u mod 256" "q1 = 256 * q2 + q1 mod 256" "q2 = 256 * q3 + q2 mod 256"
      unfolding q1_def q2_def q3_def by (simp_all only: mult_div_mod_eq)
    then show ?thesis unfolding e by linarith
  qed
  then have "dec_int (enc_int i) = wrap32 (int u)" by (simp add: dec_int_def enc_int_def Let_def u_def numeral_3_eq_3)
  also have "\<dots> = i" using assms by (simp add: u_def wrap32_def mod_add_left_eq)
  finally show "dec_int (enc_int i) = i" .
  show "length (enc_int i) = 4" by (simp add: enc_int_def Let_def)
qed

lemma concat_enc_length: "length (concat (map enc_int xs)) = 4 * length xs"
  by (induction xs) (simp_all add: enc_int_def Let_def)

lemma concat_enc_nth:
  "k < length xs \<Longrightarrow> take 4 (drop (4 * k) (concat (map enc_int xs) @ rest)) = enc_int (xs ! k)"
proof (induction xs arbitrary: k)
  case (Cons x xs)
  have l: "length (enc_int x) = 4" by (simp add: enc_int_def Let_def)
  show ?case
  proof (cases k)
    case 0
    then show ?thesis using l by simp
  next
    case (Suc j)
    then show ?thesis using Cons l by simp
  qed
qed simp

lemma recv_send_ints:
  assumes "\<forall>x \<in> set xs. - 2147483648 \<le> x \<and> x \<le> 2147483647" "int (length xs) \<le> 2147483647"
  shows "recv_ints (send_ints xs @ rest) = Inr (xs, rest)"
proof -
  have n: "dec_int (enc_int (int (length xs))) = int (length xs)" "length (enc_int (int (length xs))) = 4"
    using enc_dec [of "int (length xs)"] assms(2) by simp_all
  have "dec_int (take 4 (drop (4 * k) (concat (map enc_int xs) @ rest))) = xs ! k" if "k < length xs" for k
    using assms(1) that enc_dec(1) [of "xs ! k"] by (simp only: concat_enc_nth [OF that]) simp
  then have "map (\<lambda>k. dec_int (take 4 (drop (4 * k) (concat (map enc_int xs) @ rest)))) [0..<length xs] = xs"
    by (intro nth_equalityI) (simp_all del: take_append drop_append)
  then show ?thesis
    using n concat_enc_length [of xs] by (cases "xs = []") (simp_all add: recv_ints_def send_ints_def Let_def)
qed

end
