(* ===== verification/On_Finish.thy ===== *)
theory On_Finish
  imports Text_Utils
begin

text \<open>
  The command run when a job ends (\<open>execute.c\<close>): \<open>expand_template\<close> replaces the keys of a
  template by values of the job, texts quoted for the shell by \<open>quote_str\<close>. Both write to a
  buffer whose size is fixed beforehand; what does not fit overruns it.
\<close>

section \<open>Quoting\<close>

definition SQUOTE :: char where "SQUOTE = CHR 0x27"
definition BACKSLASH :: char where "BACKSLASH = CHR 0x5C"

fun quote_body :: "string \<Rightarrow> string" where
  "quote_body [] = []"
| "quote_body (c # cs) = (if c = SQUOTE then [SQUOTE, BACKSLASH, SQUOTE, SQUOTE] else [c]) @ quote_body cs"

text \<open>
  \<open>len\<close> is the size of the buffer left from the previous call; the result comes with the size
  afterwards. A null pointer gives the empty text.
\<close>

definition quote_str :: "nat \<Rightarrow> string option \<Rightarrow> (string \<times> nat) res" where
  "quote_str len t =
     (case t of None \<Rightarrow> Inr ([], len)
      | Some s \<Rightarrow>
          (let need = length s * 2 + 3; len' = (if need > len then need else len);
               q = SQUOTE # quote_body s @ [SQUOTE]
           in if length q + 1 > len' then Inl Out_of_bounds else Inr (q, len')))"

section \<open>Templates\<close>

record finish_values =
  v_jobid :: int
  v_output :: "string option"
  v_exitid :: int
  v_pid :: int
  v_label :: "string option"
  v_command :: "string option"
  v_real_sec :: int
  v_user_sec :: int
  v_sys_sec :: int
  v_pause :: int
  v_start :: int
  v_enqueue :: int
  v_end :: int
  v_slots :: int

text \<open>The sizes of the three static buffers: output, label, command.\<close>

type_synonym quote_sizes = "nat \<times> nat \<times> nat"

text \<open>An unknown key has the empty value.\<close>

definition key_value :: "finish_values \<Rightarrow> string \<Rightarrow> quote_sizes \<Rightarrow> (string \<times> quote_sizes) res" where
  "key_value v key qs =
     (case qs of (qo, ql, qc) \<Rightarrow>
        if key = ''jobid'' then Inr (show_int (v_jobid v), qs)
        else if key = ''output'' then rbind (quote_str qo (v_output v)) (\<lambda>(t, n). Inr (t, (n, ql, qc)))
        else if key = ''exitcode'' then Inr (show_int (v_exitid v), qs)
        else if key = ''pid'' then Inr (show_int (v_pid v), qs)
        else if key = ''label'' then rbind (quote_str ql (v_label v)) (\<lambda>(t, n). Inr (t, (qo, n, qc)))
        else if key = ''command'' then rbind (quote_str qc (v_command v)) (\<lambda>(t, n). Inr (t, (qo, ql, n)))
        else if key = ''realtime'' then Inr (show_int (v_real_sec v), qs)
        else if key = ''usertime'' then Inr (show_int (v_user_sec v), qs)
        else if key = ''systime'' then Inr (show_int (v_sys_sec v), qs)
        else if key = ''pausetime'' then Inr (show_int (v_pause v), qs)
        else if key = ''start_time'' then Inr (show_int (v_start v), qs)
        else if key = ''enque_time'' then Inr (show_int (v_enqueue v), qs)
        else if key = ''end_time'' then Inr (show_int (v_end v), qs)
        else if key = ''slots'' then Inr (show_int (v_slots v), qs)
        else Inr ([], qs))"

text \<open>The text up to the closing brace, where there is one and it fits \<open>char key[32]\<close>.\<close>

definition template_key :: "string \<Rightarrow> (string \<times> string) option" where
  "template_key cs =
     (let key = takeWhile (\<lambda>c. c \<noteq> CHR ''}'') cs; r = dropWhile (\<lambda>c. c \<noteq> CHR ''}'') cs
      in if r \<noteq> [] \<and> length key < 32 then Some (key, tl r) else None)"

lemma template_key_shorter:
  assumes "template_key cs = Some (key, r)"
  shows "length r < length cs"
proof -
  let ?d = "dropWhile (\<lambda>c. c \<noteq> CHR ''}'') cs"
  have "?d \<noteq> []" "r = tl ?d" using assms unfolding template_key_def Let_def by (metis option.distinct(1) option.inject prod.inject)+
  then have "length r < length ?d" by (cases ?d) auto
  then show ?thesis using length_dropWhile_le [of "\<lambda>c. c \<noteq> CHR ''}''" cs] by linarith
qed

function expand_loop :: "finish_values \<Rightarrow> string \<Rightarrow> quote_sizes \<Rightarrow> (string \<times> quote_sizes) res" where
  "expand_loop v [] qs = Inr ([], qs)"
| "expand_loop v (c # cs) qs =
     (case (if c = CHR ''{'' then template_key cs else None) of
        Some (key, r) \<Rightarrow>
          rbind (key_value v key qs) (\<lambda>(t, qs1). rbind (expand_loop v r qs1) (\<lambda>(rest, qs2). Inr (t @ rest, qs2)))
      | None \<Rightarrow> rbind (expand_loop v cs qs) (\<lambda>(rest, qs2). Inr (c # rest, qs2)))"
  by pat_completeness auto

termination expand_loop
  by (relation "measure (\<lambda>(v, t, qs). length t)")
    (auto dest: template_key_shorter less_SucI split: if_splits)

definition expand_template :: "finish_values \<Rightarrow> string \<Rightarrow> quote_sizes \<Rightarrow> (string \<times> quote_sizes) res" where
  "expand_template v tmpl qs =
     rbind (expand_loop v tmpl qs) (\<lambda>(t, qs').
       if length t + 1 > length tmpl * 2 + 256 then Inl Out_of_bounds else Inr (t, qs'))"

section \<open>How the shell reads a quoted text\<close>

text \<open>
  The quoting rules of \<open>sh\<close>: between single quotes every character stands for itself, outside
  a backslash does this for the next one. The flag says whether a quotation is open.
\<close>

fun sh_unquote :: "bool \<Rightarrow> string \<Rightarrow> string option" where
  "sh_unquote q [] = (if q then None else Some [])"
| "sh_unquote True (c # cs) = (if c = SQUOTE then sh_unquote False cs else map_option ((#) c) (sh_unquote True cs))"
| "sh_unquote False (c # cs) =
     (if c = SQUOTE then sh_unquote True cs
      else if c = BACKSLASH
      then (case cs of [] \<Rightarrow> None | d # ds \<Rightarrow> map_option ((#) d) (sh_unquote False ds))
      else map_option ((#) c) (sh_unquote False cs))"

lemma unquote_body: "sh_unquote True (quote_body s @ [SQUOTE]) = Some s"
  by (induction s) (auto simp: SQUOTE_def BACKSLASH_def)

lemma quote_body_length: "length (quote_body s) = length s + 3 * count_list s SQUOTE"
  by (induction s) auto

text \<open>A fresh buffer is large enough exactly when at most every third character is a quote.\<close>

lemma quote_str_fresh:
  "quote_str 0 (Some s) =
     (if 3 * count_list s SQUOTE \<le> length s then Inr (SQUOTE # quote_body s @ [SQUOTE], length s * 2 + 3)
      else Inl Out_of_bounds)"
  by (auto simp: quote_str_def Let_def quote_body_length)

text \<open>A template that is one key yields its value when it fits.\<close>

lemma expand_command:
  assumes "3 * count_list c SQUOTE \<le> length c" "v_command v = Some c"
  shows "expand_template v ''{command}'' (0, 0, 0) =
    (if length c + 3 * count_list c SQUOTE \<le> 271 then Inr (SQUOTE # quote_body c @ [SQUOTE], (0, 0, length c * 2 + 3))
     else Inl Out_of_bounds)"
proof -
  have "key_value v ''command'' (0, 0, 0) = Inr (SQUOTE # quote_body c @ [SQUOTE], (0, 0, length c * 2 + 3))"
    using assms by (simp add: key_value_def quote_str_fresh)
  then have "expand_loop v ''{command}'' (0, 0, 0) = Inr (SQUOTE # quote_body c @ [SQUOTE], (0, 0, length c * 2 + 3))"
    by (simp add: template_key_def)
  then show ?thesis by (simp add: expand_template_def quote_body_length)
qed

end
