(* ===== verification/Query_Correct.thy ===== *)
theory Query_Correct
  imports Job_Ops
begin

text \<open>
  What the listings answer, and which of them cannot be answered: the rows of the default
  listing in order, the tabulated listing, the JSON listing, and the queries for a command or
  a label.
\<close>

section \<open>Lists of results\<close>

lemma rmap_all: "(\<And>x. x \<in> set xs \<Longrightarrow> f x = Inr (g x)) \<Longrightarrow> rmap f xs = Inr (map g xs)"
  by (induction xs) simp_all

lemma rmap_fault:
  assumes "\<And>x. x \<in> set xs \<Longrightarrow> f x = Inl e \<or> (\<exists>y. f x = Inr y)" "\<exists>x\<in>set xs. f x = Inl e"
  shows "rmap f xs = Inl e"
  using assms
proof (induction xs)
  case (Cons x xs)
  show ?case
  proof (cases "f x")
    case (Inr y)
    then have "rmap f xs = Inl e" using Cons.prems by (intro Cons.IH) auto
    then show ?thesis using Inr by simp
  next
    case (Inl e')
    then show ?thesis using Cons.prems(1) [of x] by simp
  qed
qed simp

lemma rmap_cases: "(\<And>x. f x = Inl e \<or> (\<exists>y. f x = Inr y)) \<Longrightarrow> rmap f xs = Inl e \<or> (\<exists>ys. rmap f xs = Inr ys)"
proof (induction xs)
  case (Cons x xs)
  then consider "f x = Inl e" | y where "f x = Inr y" "rmap f xs = Inl e" | y ys where "f x = Inr y" "rmap f xs = Inr ys"
    by blast
  then show ?case by cases simp_all
qed simp

section \<open>Rows\<close>

fun shown_id :: "line \<Rightarrow> int" where
  "shown_id (Line fmt (AInt i # as)) = i"
| "shown_id l = - 1"

text \<open>A job that can be printed: it has a command, and its dependencies fit their buffer.\<close>

definition printable :: "nat \<Rightarrow> job \<Rightarrow> bool" where
  "printable room p = (command p \<noteq> None \<and> length (depend_text '']&& '' p) < room)"

lemma depend_text_tail: "length (depend_text '']'' p) \<le> length (depend_text '']&& '' p)"
  by (simp add: depend_text_def split: list.splits)

lemma printable_fits: "printable room p \<Longrightarrow> depend_fits room '']&& '' p \<and> depend_fits room '']'' p"
  using depend_text_tail [of p] by (simp add: printable_def depend_fits_def)

lemma printable_command: "printable room p \<Longrightarrow> \<exists>c. the_command p = Inr c"
  by (auto simp: printable_def the_command_def)

lemma joblist_line_row: "printable 1024 p \<Longrightarrow> \<exists>l. joblist_line p s = Inr l \<and> shown_id l = jobid p"
  using printable_fits [of 1024 p] printable_command [of 1024 p]
  by (auto simp: joblist_line_def print_result_def print_noresult_def)

lemma rows_of_jobs:
  "(\<And>p. p \<in> set ps \<Longrightarrow> printable 1024 p) \<Longrightarrow>
   \<exists>ls. rmap (\<lambda>p. joblist_line p s) ps = Inr ls \<and> map shown_id ls = map jobid ps"
proof (induction ps)
  case (Cons p ps)
  then show ?case using joblist_line_row [of p s] by auto
qed simp

section \<open>The default listing\<close>

definition sent :: "int \<Rightarrow> line list \<Rightarrow> event list" where
  "sent sock ls = map (\<lambda>l. Send sock (LIST_LINE l)) ls"

lemma send_lines_out: "send_lines sock ls s = s\<lparr>out := out s @ sent sock ls\<rparr>"
  by (induction ls arbitrary: s) (simp_all add: send_lines_def sent_def send_list_line_def emit_def)

definition status_lines :: "srv \<Rightarrow> line list" where
  "status_lines s =
     [Line ''-- Users ----------- '' []]
     @ map user_status_line (filter (\<lambda>u. \<not> (umax_slots u = 0 \<and> busy u = 0)) (users_vec s))
     @ [Line ''Service at UID:%d'' [AInt (server_uid (world s))]]"

lemma status_all_out: "s_user_status_all sock s = s\<lparr>out := out s @ sent sock (status_lines s)\<rparr>"
proof -
  have "foldl (\<lambda>s u. if umax_slots u = 0 \<and> busy u = 0 then s else send_list_line sock (user_status_line u) s) s us
      = s\<lparr>out := out s @ sent sock (map user_status_line (filter (\<lambda>u. \<not> (umax_slots u = 0 \<and> busy u = 0)) us))\<rparr>" for us s
    by (induction us arbitrary: s) (simp_all add: sent_def send_list_line_def emit_def)
  then show ?thesis by (simp add: s_user_status_all_def status_lines_def sent_def send_list_line_def emit_def)
qed

lemma list_default_rows:
  assumes "\<And>p. p \<in> set (active_jobs s @ finished_jobs s) \<Longrightarrow> printable 1024 p"
    and "u = None \<or> (\<exists>i. u = Some i \<and> i < length (users_vec s))"
  shows "\<exists>rows frows rest.
    list_default sock u s = Inr (s\<lparr>out := out s @ sent sock ([list_headers s] @ rows
      @ (if finished_jobs s \<noteq> [] \<and> active_jobs s \<noteq> [] then [Line ''----- Finished -----'' []] else [])
      @ frows @ rest)\<rparr>)
    \<and> map shown_id rows = map jobid (filter (visible u) (shown_jobs s))
    \<and> map shown_id frows = map jobid (filter (visible u) (finished_jobs s))"
proof -
  obtain ls where ls: "rmap (\<lambda>p. joblist_line p s) (filter (visible u) (shown_jobs s)) = Inr ls"
      "map shown_id ls = map jobid (filter (visible u) (shown_jobs s))"
    using rows_of_jobs [of "filter (visible u) (shown_jobs s)" s] assms(1) by (auto simp: shown_jobs_def)
  obtain fs where fs: "rmap (\<lambda>p. joblist_line p s) (filter (visible u) (finished_jobs s)) = Inr fs"
      "map shown_id fs = map jobid (filter (visible u) (finished_jobs s))"
    using rows_of_jobs [of "filter (visible u) (finished_jobs s)" s] assms(1) by auto
  have "\<exists>rest. list_default sock u s = Inr (s\<lparr>out := out s @ sent sock ([list_headers s] @ ls
      @ (if finished_jobs s \<noteq> [] \<and> active_jobs s \<noteq> [] then [Line ''----- Finished -----'' []] else [])
      @ fs @ rest)\<rparr>)"
  proof (cases "u = None \<or> u = Some 0")
    case True
    then show ?thesis
      by (intro exI [of _ "status_lines s"])
        (simp add: list_default_def ls(1) fs(1) send_lines_out status_all_out Let_def sent_def send_list_line_def
          emit_def status_lines_def)
  next
    case False
    then obtain i where i: "u = Some i" "i < length (users_vec s)" using assms(2) by auto
    have st: "s_user_status sock u (s\<lparr>out := es\<rparr>) = Inr (s\<lparr>out := es @ sent sock [user_status_line (users_vec s ! i)]\<rparr>)" for es
      using i by (simp add: s_user_status_def the_user_def sent_def send_list_line_def emit_def)
    have n: "(u = None \<or> u = Some 0) = False" using False by simp
    show ?thesis
      by (intro exI [of _ "[user_status_line (users_vec s ! i)]"])
        (simp add: list_default_def ls(1) fs(1) send_lines_out st n Let_def sent_def send_list_line_def emit_def)
  qed
  then show ?thesis using ls(2) fs(2) by blast
qed

section \<open>The other formats\<close>

lemma plain_line_fault:
  assumes "printable 256 p" "user p = Some u"
  shows "joblist_line_plain p s = Inl Null_deref"
  using printable_fits [OF assms(1)] printable_command [OF assms(1)] assms(2)
  by (auto simp: joblist_line_plain_def plainprint_result_def plainprint_noresult_def plain_user_def Let_def)

lemma plain_line_row:
  assumes "printable 256 p" "user p = None" "users_vec s \<noteq> []"
  shows "\<exists>l. joblist_line_plain p s = Inr l"
  using printable_fits [OF assms(1)] printable_command [OF assms(1)] assms(2,3)
  by (auto simp: joblist_line_plain_def plainprint_result_def plainprint_noresult_def plain_user_def Let_def)

lemma plain_listing_fault:
  assumes "\<And>p. p \<in> set ps \<Longrightarrow> printable 256 p" "\<exists>p\<in>set ps. user p \<noteq> None" "users_vec s \<noteq> []"
  shows "rmap (\<lambda>p. joblist_line_plain p s) ps = Inl Null_deref"
proof (rule rmap_fault)
  fix p assume "p \<in> set ps"
  then show "joblist_line_plain p s = Inl Null_deref \<or> (\<exists>l. joblist_line_plain p s = Inr l)"
    using assms(1) plain_line_fault [of p _ s] plain_line_row [of p s] assms(3) by (cases "user p") auto
qed (use assms(1,2) plain_line_fault in blast)

text \<open>Printing a document with a freed text in it reads freed memory.\<close>

definition json_member :: "string \<times> json \<Rightarrow> arg res" where
  "json_member kv = (case kv of (k, v) \<Rightarrow> rbind (json_arg v) (\<lambda>a. Inr (ALine k [a])))"

definition json_object :: "(string \<times> json) list \<Rightarrow> arg res" where
  "json_object fs = rbind (rmap json_member fs) (\<lambda>as. Inr (ALine ''{}'' as))"

lemma print_json_members: "print_json objs = rbind (rmap json_object objs) (\<lambda>os. Inr (Line ''json'' os))"
  unfolding print_json_def json_object_def [abs_def] json_member_def [abs_def] ..

lemma json_member_cases: "json_member kv = Inl Use_after_free \<or> (\<exists>a. json_member kv = Inr a)"
  by (cases kv; cases "snd kv") (simp_all add: json_member_def)

lemma json_object_cases: "json_object fs = Inl Use_after_free \<or> (\<exists>a. json_object fs = Inr a)"
  using rmap_cases [of json_member Use_after_free fs, OF json_member_cases] by (auto simp: json_object_def)

lemma json_object_freed: "(k, JFreed) \<in> set fs \<Longrightarrow> json_object fs = Inl Use_after_free"
proof -
  assume "(k, JFreed) \<in> set fs"
  moreover have "json_member (k, JFreed) = Inl Use_after_free" by (simp add: json_member_def)
  ultimately have "rmap json_member fs = Inl Use_after_free" by (intro rmap_fault json_member_cases) blast
  then show ?thesis by (simp add: json_object_def)
qed

lemma print_json_freed: "fs \<in> set objs \<Longrightarrow> (k, JFreed) \<in> set fs \<Longrightarrow> print_json objs = Inl Use_after_free"
proof -
  assume "fs \<in> set objs" "(k, JFreed) \<in> set fs"
  then have "rmap json_object objs = Inl Use_after_free"
    by (intro rmap_fault json_object_cases bexI [of _ fs]) (simp_all add: json_object_freed)
  then show ?thesis by (simp add: print_json_members)
qed

lemma json_listing_freed:
  assumes "\<And>q. q \<in> set ps \<Longrightarrow> command q \<noteq> None" "p \<in> set ps" "TS_CPU_BIND (world s)" "cpu_alloc p \<noteq> None"
  shows "rbind (rmap (add_job_to_json_array s) ps) print_json = Inl Use_after_free"
proof -
  define obj where "obj q = json_identity q (the (command q)) s @ json_times q s @ json_end q s" for q
  have "rmap (add_job_to_json_array s) ps = Inr (map obj ps)"
    using assms(1) by (intro rmap_all) (force simp: add_job_to_json_array_def the_command_def obj_def)
  moreover have "(''cpu_set'', JFreed) \<in> set (obj p)"
    using assms(3,4) by (simp add: obj_def json_identity_def json_opt_def)
  ultimately show ?thesis using print_json_freed [of "obj p" "map obj ps"] assms(2) by auto
qed

end
