(* ===== verification/Duration.thy ===== *)
theory Duration
  imports Text_Utils Complex_Main
begin

text \<open>
  The durations and start times of \<open>runtime_limit.c\<close>: \<open>parse_time\<close>, \<open>parse_schedule\<close> and
  \<open>format_schedule_delta\<close>. A \<open>double\<close> is a rational number, an infinity or not a number; the
  rounding of the 53-bit mantissa is left out, the range of the exponent is not. \<open>strtod\<close> is
  modelled as in the C library, for decimal and hexadecimal notation.
\<close>

section \<open>Floating-point texts\<close>

datatype dbl = Fin rat | Infinite bool | NaN

fun dadd :: "dbl \<Rightarrow> dbl \<Rightarrow> dbl" where
  "dadd (Fin x) (Fin y) = Fin (x + y)"
| "dadd NaN y = NaN"
| "dadd x NaN = NaN"
| "dadd (Infinite a) (Infinite b) = (if a = b then Infinite a else NaN)"
| "dadd (Infinite a) (Fin y) = Infinite a"
| "dadd (Fin x) (Infinite b) = Infinite b"

text \<open>Multiplication by a positive constant.\<close>

fun dscale :: "dbl \<Rightarrow> rat \<Rightarrow> dbl" where
  "dscale (Fin x) k = Fin (x * k)"
| "dscale d k = d"

definition tolower :: "char \<Rightarrow> char" where
  "tolower c = (if 65 \<le> (of_char c :: nat) \<and> (of_char c :: nat) \<le> 90 then char_of ((of_char c :: nat) + 32) else c)"

text \<open>The text starts with the word, in small or capital letters.\<close>

definition starts :: "string \<Rightarrow> string \<Rightarrow> bool" where
  "starts w t = (map tolower (take (length w) t) = w)"

definition is_hex :: "char \<Rightarrow> bool" where
  "is_hex c = (is_digit c \<or> 97 \<le> (of_char (tolower c) :: nat) \<and> (of_char (tolower c) :: nat) \<le> 102)"

definition hex_val :: "char \<Rightarrow> nat" where
  "hex_val c = (if is_digit c then digit_val c else of_char (tolower c) - 87)"

definition read_base :: "nat \<Rightarrow> (char \<Rightarrow> nat) \<Rightarrow> string \<Rightarrow> nat" where
  "read_base b val ds = foldl (\<lambda>n c. n * b + val c) 0 ds"

definition sign_of :: "string \<Rightarrow> bool \<times> string" where
  "sign_of t = (case t of [] \<Rightarrow> (False, t)
     | c # r \<Rightarrow> if c = CHR ''-'' then (True, r) else if c = CHR ''+'' then (False, r) else (False, t))"

text \<open>Digits, a point, digits: the digits, how many of them follow the point, and the rest.\<close>

definition mantissa :: "(char \<Rightarrow> bool) \<Rightarrow> string \<Rightarrow> string \<times> nat \<times> string" where
  "mantissa dig t =
     (let ds = takeWhile dig t; r = dropWhile dig t in
      case r of c # q \<Rightarrow>
          if c = CHR ''.'' \<and> (ds \<noteq> [] \<or> takeWhile dig q \<noteq> [])
          then (ds @ takeWhile dig q, length (takeWhile dig q), dropWhile dig q) else (ds, 0, r)
      | [] \<Rightarrow> (ds, 0, r))"

definition exponent :: "char \<Rightarrow> string \<Rightarrow> int \<times> string" where
  "exponent mark t =
     (case t of [] \<Rightarrow> (0, t)
      | c # q \<Rightarrow>
          (let (neg, w) = sign_of q; es = takeWhile is_digit w in
           if tolower c = mark \<and> es \<noteq> []
           then ((if neg then - 1 else 1) * int (read_digits es), dropWhile is_digit w) else (0, t)))"

definition scale_exp :: "rat \<Rightarrow> int \<Rightarrow> rat" where
  "scale_exp b e = (if e \<ge> 0 then b ^ nat e else inverse (b ^ nat (- e)))"

text \<open>
  A number in base \<open>b\<close> whose exponent scales by \<open>radix\<close>; \<open>errno\<close> is set when the value is out
  of range.
\<close>

definition number :: "nat \<Rightarrow> (char \<Rightarrow> bool) \<Rightarrow> (char \<Rightarrow> nat) \<Rightarrow> char \<Rightarrow> rat \<Rightarrow> string \<Rightarrow> (rat \<times> string) option" where
  "number b dig val mark radix t =
     (case mantissa dig t of (ds, k, r) \<Rightarrow>
        if ds = [] then None
        else (case exponent mark r of (e, r') \<Rightarrow>
          Some (of_nat (read_base b val ds) / of_nat b ^ k * scale_exp radix e, r')))"

definition out_of_range :: "rat \<Rightarrow> bool" where
  "out_of_range v = (v \<noteq> 0 \<and> (v \<ge> 2 ^ 1024 \<or> v * 2 ^ 1022 < 1))"

definition after_nan :: "string \<Rightarrow> string" where
  "after_nan r = (case r of c # q \<Rightarrow>
       (let w = takeWhile (\<lambda>x. is_digit x \<or> x = CHR ''_'' \<or> 97 \<le> (of_char (tolower x) :: nat) \<and> (of_char (tolower x) :: nat) \<le> 122) q in
        if c = CHR ''('' \<and> take 1 (drop (length w) q) = '')'' then drop (length w + 1) q else r)
     | [] \<Rightarrow> r)"

definition with_sign :: "bool \<Rightarrow> (rat \<times> string) option \<Rightarrow> (bool \<times> dbl \<times> string) option" where
  "with_sign neg r = (case r of None \<Rightarrow> None
     | Some (v, u) \<Rightarrow> Some (out_of_range v, Fin (if neg then - v else v), u))"

text \<open>
  \<open>None\<close> when nothing is converted (\<open>end == s\<close>), otherwise whether \<open>errno\<close> is set, the value
  and the rest of the text.
\<close>

definition strtod :: "string \<Rightarrow> (bool \<times> dbl \<times> string) option" where
  "strtod t0 =
     (case sign_of (dropWhile is_space t0) of (neg, t) \<Rightarrow>
        if starts ''infinity'' t then Some (False, Infinite neg, drop 8 t)
        else if starts ''inf'' t then Some (False, Infinite neg, drop 3 t)
        else if starts ''nan'' t then Some (False, NaN, after_nan (drop 3 t))
        else if starts ''0x'' t \<and> fst (mantissa is_hex (drop 2 t)) \<noteq> []
        then with_sign neg (number 16 is_hex hex_val (CHR ''p'') 2 (drop 2 t))
        else with_sign neg (number 10 is_digit digit_val (CHR ''e'') 10 t))"

lemma takeWhile_lengths: "length (takeWhile P t) + length (dropWhile P t) = length t"
  by (metis length_append takeWhile_dropWhile_id)

lemma mantissa_shorter: "mantissa dig t = (ds, k, r) \<Longrightarrow> ds \<noteq> [] \<Longrightarrow> length r < length t"
proof -
  assume m: "mantissa dig t = (ds, k, r)" "ds \<noteq> []"
  note l = takeWhile_lengths [of dig t]
  show ?thesis
  proof (cases "dropWhile dig t")
    case Nil
    then have "mantissa dig t = (takeWhile dig t, 0, [])" unfolding mantissa_def Let_def by (simp only: list.case)
    then show ?thesis using m l by auto
  next
    case (Cons c q)
    then have "mantissa dig t = (if c = CHR ''.'' \<and> (takeWhile dig t \<noteq> [] \<or> takeWhile dig q \<noteq> [])
        then (takeWhile dig t @ takeWhile dig q, length (takeWhile dig q), dropWhile dig q) else (takeWhile dig t, 0, c # q))"
      unfolding mantissa_def Let_def by (simp only: list.case)
    moreover have "0 < length ds" using m(2) by simp
    ultimately show ?thesis using m(1) l Cons length_dropWhile_le [of dig q]
      by (auto split: if_splits simp del: length_greater_0_conv)
  qed
qed

lemma sign_of_le: "sign_of t = (b, u) \<Longrightarrow> length u \<le> length t"
  by (auto simp: sign_of_def split: list.splits if_splits)

lemma exponent_le: "exponent mark t = (e, r) \<Longrightarrow> length r \<le> length t"
proof (cases t)
  case (Cons c q)
  moreover obtain neg w where "sign_of q = (neg, w)" by fastforce
  ultimately show "exponent mark t = (e, r) \<Longrightarrow> length r \<le> length t"
    using sign_of_le [of q neg w] length_dropWhile_le [of is_digit w] by (auto simp: exponent_def Let_def split: if_splits)
qed (auto simp: exponent_def)

lemma number_shorter: "number b dig val mark radix t = Some (v, r) \<Longrightarrow> length r < length t"
proof -
  obtain ds k u where m: "mantissa dig t = (ds, k, u)" by (rule prod_cases3)
  obtain e r' where e: "exponent mark u = (e, r')" by fastforce
  show "number b dig val mark radix t = Some (v, r) \<Longrightarrow> length r < length t"
    using mantissa_shorter [OF m] exponent_le [OF e] m e by (auto simp: number_def split: if_splits)
qed

lemma after_nan_le: "length (after_nan r) \<le> length r"
  by (auto simp: after_nan_def Let_def split: list.splits)

lemma starts_length: "starts w t \<Longrightarrow> length w \<le> length t"
  by (metis starts_def length_map length_take min.cobounded1)

lemma with_sign_Some: "with_sign neg x = Some (e, v, r) \<Longrightarrow> \<exists>y. x = Some (y, r)"
  by (auto simp: with_sign_def split: option.splits)

lemma strtod_shorter: "strtod t = Some (e, v, r) \<Longrightarrow> length r < length t"
proof -
  obtain neg u where s: "sign_of (dropWhile is_space t) = (neg, u)" by fastforce
  have u: "length u \<le> length t" using sign_of_le [OF s] length_dropWhile_le [of is_space t] by simp
  show "strtod t = Some (e, v, r) \<Longrightarrow> length r < length t"
    using u after_nan_le [of "drop 3 u"] starts_length [of _ u]
    by (fastforce simp: strtod_def s dest!: with_sign_Some number_shorter split: if_splits)
qed

section \<open>Durations\<close>

definition multiplier :: "char \<Rightarrow> rat option" where
  "multiplier c =
     (if tolower c = CHR ''s'' then Some 1 else if tolower c = CHR ''m'' then Some 60
      else if tolower c = CHR ''h'' then Some 3600 else if tolower c = CHR ''d'' then Some 86400
      else if tolower c = CHR ''w'' then Some 604800 else None)"

text \<open>The loop over the parts: \<open>None\<close> for an invalid text.\<close>

function parse_parts :: "string \<Rightarrow> dbl \<Rightarrow> dbl option" where
  "parse_parts s acc =
     (if dropWhile is_space s = [] then Some acc
      else case strtod (dropWhile is_space s) of None \<Rightarrow> None
      | Some (erange, v, r) \<Rightarrow>
          if erange then None
          else (case dropWhile is_space r of [] \<Rightarrow> Some (dadd acc v)
            | c # q \<Rightarrow> (case multiplier c of None \<Rightarrow> None
                | Some k \<Rightarrow> parse_parts q (dadd acc (dscale v k)))))"
  by pat_completeness auto

termination parse_parts
proof (relation "measure (\<lambda>(s, acc). length s)", goal_cases)
  case (2 s acc x erange y v r c q k)
  then have "length r < length (dropWhile is_space s)" using strtod_shorter by fastforce
  moreover have "length (c # q) \<le> length r" using 2 length_dropWhile_le [of is_space r] by simp
  ultimately show ?case using length_dropWhile_le [of is_space s] by simp
qed simp

declare parse_parts.simps [simp del]

text \<open>The conversion to \<open>int64_t\<close> cuts towards zero.\<close>

definition trunc :: "rat \<Rightarrow> int" where
  "trunc x = (if x \<ge> 0 then \<lfloor>x\<rfloor> else \<lceil>x\<rceil>)"

text \<open>
  The result is the value stored in \<open>*out\<close>, or \<open>None\<close> for the return value -1. Not a number
  passes both comparisons, and its conversion to an integer is undefined.
\<close>

definition parse_time :: "string \<Rightarrow> int option res" where
  "parse_time s =
     (case parse_parts s (Fin 0) of None \<Rightarrow> Inr None
      | Some NaN \<Rightarrow> Inl Bad_conversion
      | Some (Infinite neg) \<Rightarrow> Inr None
      | Some (Fin x) \<Rightarrow>
          if x > 86400000 \<or> x < - 86400000 then Inr None else Inr (Some (trunc (x + 1 / 2))))"

definition format_schedule_delta :: "int \<Rightarrow> int \<Rightarrow> string" where
  "format_schedule_delta mono_target mono_now =
     (let diff = mono_target - mono_now in
      if diff \<le> 0 then ''now''
      else if diff < 60 then show_int diff @ ''s''
      else if diff < 3600 then show_int (diff div 60) @ ''m'' @ show_int (diff mod 60) @ ''s''
      else show_int (diff div 3600) @ ''h'' @ show_int (diff mod 3600 div 60) @ ''m'')"

section \<open>Start times\<close>

text \<open>
  The calendar of the C library in the locale and time zone of the caller. \<open>strptime\<close> reads the
  beginning of a text into a zeroed \<open>struct tm\<close>; \<open>mktime\<close> returns the time stamp, -1 when there is
  none, and the normalised structure.
\<close>

record tm =
  tm_sec :: int
  tm_min :: int
  tm_hour :: int
  tm_mday :: int
  tm_mon :: int
  tm_year :: int
  tm_isdst :: int

record calendar =
  strptime :: "string \<Rightarrow> string \<Rightarrow> tm option"
  mktime :: "tm \<Rightarrow> int \<times> tm"
  localtime :: "int \<Rightarrow> tm"
  time_now :: int
  mono_now :: int

fun first_format :: "calendar \<Rightarrow> string list \<Rightarrow> string \<Rightarrow> tm option" where
  "first_format cal [] s = None"
| "first_format cal (f # fs) s = (case strptime cal f s of None \<Rightarrow> first_format cal fs s | Some x \<Rightarrow> Some x)"

definition boot_offset :: "calendar \<Rightarrow> int" where
  "boot_offset cal = time_now cal - mono_now cal"

definition full_dates :: "string list" where
  "full_dates = [''%Y-%m-%dT%H:%M:%S'', ''%Y-%m-%dT%H:%M'', ''%Y-%m-%d_%H:%M:%S'', ''%Y-%m-%d_%H:%M'',
     ''%Y-%m-%d %H:%M:%S'', ''%Y-%m-%d %H:%M'']"

definition short_dates :: "string list" where
  "short_dates = [''%m-%dT%H:%M:%S'', ''%m-%dT%H:%M'', ''%m-%d_%H:%M:%S'', ''%m-%d_%H:%M'', ''%m-%d %H:%M:%S'', ''%m-%d %H:%M'']"

definition day_times :: "string list" where
  "day_times = [''%H:%M:%S'', ''%H:%M'']"

definition at_full_date :: "calendar \<Rightarrow> tm \<Rightarrow> int option" where
  "at_full_date cal x = (let wall = fst (mktime cal x) in if wall = - 1 then None else Some (wall - boot_offset cal))"

text \<open>A date without a year is in the current one, or in the next when it is over for a day.\<close>

definition at_short_date :: "calendar \<Rightarrow> tm \<Rightarrow> int option" where
  "at_short_date cal x =
     (case mktime cal (x\<lparr>tm_year := tm_year (localtime cal (time_now cal))\<rparr>) of (wall, y) \<Rightarrow>
        if wall = - 1 then None
        else (let z = (if wall + 86400 < time_now cal then y\<lparr>tm_year := tm_year y + 1\<rparr> else y)
              in Some (fst (mktime cal z) - boot_offset cal)))"

definition at_day_time :: "calendar \<Rightarrow> tm \<Rightarrow> int option" where
  "at_day_time cal x =
     (let l = localtime cal (time_now cal);
          wall = fst (mktime cal (x\<lparr>tm_year := tm_year l, tm_mon := tm_mon l, tm_mday := tm_mday l\<rparr>)) in
      if wall = - 1 then None
      else Some ((if wall \<le> time_now cal then wall + 86400 else wall) - boot_offset cal))"

definition parse_schedule :: "calendar \<Rightarrow> string \<Rightarrow> int option res" where
  "parse_schedule cal s0 =
     (case dropWhile (\<lambda>c. c = CHR '' '' \<or> c = CHR 0x09) s0 of
        [] \<Rightarrow> Inr None
      | c # r \<Rightarrow>
          if c = CHR ''+''
          then rbind (parse_time r) (\<lambda>x. case x of None \<Rightarrow> Inr None | Some sec \<Rightarrow> Inr (Some (mono_now cal + sec)))
          else case first_format cal full_dates (c # r) of Some x \<Rightarrow> Inr (at_full_date cal x)
          | None \<Rightarrow> (case first_format cal short_dates (c # r) of Some x \<Rightarrow> Inr (at_short_date cal x)
              | None \<Rightarrow> (case first_format cal day_times (c # r) of Some x \<Rightarrow> Inr (at_day_time cal x) | None \<Rightarrow> Inr None)))"

section \<open>Lemmas\<close>

lemma tolower_digit: "is_digit c \<Longrightarrow> tolower c = c"
  by (simp add: is_digit_def tolower_def)

lemma digit_facts: "is_digit c \<Longrightarrow> c \<noteq> CHR ''-'' \<and> c \<noteq> CHR ''+'' \<and> c \<noteq> CHR ''i'' \<and> c \<noteq> CHR ''n'' \<and> c \<noteq> CHR ''x'' \<and> \<not> is_space c"
  by (auto simp: is_digit_def is_space_def)

lemma unit_facts:
  "multiplier c = Some k \<Longrightarrow>
     \<not> is_digit c \<and> \<not> is_space c \<and> c \<noteq> CHR ''.'' \<and> tolower c \<noteq> CHR ''e'' \<and> tolower c \<noteq> CHR ''x'' \<and> 0 < k"
  by (auto simp: multiplier_def tolower_def is_digit_def is_space_def split: if_splits)

lemma number_digits:
  assumes "list_all is_digit ds" "ds \<noteq> []" "r = [] \<or> (\<exists>c q. r = c # q \<and> multiplier c \<noteq> None)"
  shows "number 10 is_digit digit_val (CHR ''e'') 10 (ds @ r) = Some (of_nat (read_digits ds), r)"
proof -
  have r: "takeWhile is_digit r = []" "dropWhile is_digit r = r"
    using assms(3) unit_facts by auto
  have "takeWhile is_digit (ds @ r) = ds" "dropWhile is_digit (ds @ r) = r"
    using assms(1) r by (simp_all add: list_all_iff takeWhile_append2 dropWhile_append2)
  moreover have "case r of [] \<Rightarrow> True | c # q \<Rightarrow> c \<noteq> CHR ''.'' \<and> tolower c \<noteq> CHR ''e''"
    using assms(3) unit_facts by auto
  ultimately have "mantissa is_digit (ds @ r) = (ds, 0, r)" "exponent (CHR ''e'') r = (0, r)"
    by (auto simp: mantissa_def exponent_def Let_def split: list.splits)
  then show ?thesis using assms(2) by (simp add: number_def read_base_def read_digits_def scale_exp_def)
qed

lemma minus_sign: "\<not> is_space (CHR ''-'')"
  by (simp add: is_space_def)

lemma strtod_digits:
  assumes "list_all is_digit ds" "ds \<noteq> []" "r = [] \<or> (\<exists>c q. r = c # q \<and> multiplier c \<noteq> None)"
    and "read_digits ds < 2 ^ 1024"
  shows "strtod (ds @ r) = Some (False, Fin (of_nat (read_digits ds)), r)"
    and "strtod (CHR ''-'' # ds @ r) = Some (False, Fin (- of_nat (read_digits ds)), r)"
proof -
  obtain d es where d: "ds = d # es" "is_digit d" using assms(1,2) by (cases ds) auto
  note f = digit_facts [OF d(2)] tolower_digit [OF d(2)]
  have "\<not> starts ''0x'' (ds @ r)"
  proof (cases es)
    case Nil
    then show ?thesis using assms(3) d unit_facts by (auto simp: starts_def)
  next
    case (Cons e fs)
    then have "is_digit e" using assms(1) d by simp
    then show ?thesis using Cons d tolower_digit [of e] digit_facts [of e] by (auto simp: starts_def)
  qed
  moreover have "\<not> starts ''infinity'' (ds @ r)" "\<not> starts ''inf'' (ds @ r)" "\<not> starts ''nan'' (ds @ r)"
    using f d by (auto simp: starts_def)
  moreover have "\<not> out_of_range (of_nat (read_digits ds))"
  proof -
    have "(of_nat (read_digits ds) :: rat) < 2 ^ 1024" using assms(4) by (metis of_nat_less_iff of_nat_numeral of_nat_power)
    moreover have "1 \<le> (of_nat (read_digits ds) :: rat) * 2 ^ 1022" if "read_digits ds \<noteq> 0"
    proof -
      have "1 \<le> (of_nat (read_digits ds) :: rat)" using that by (simp add: Suc_leI)
      moreover have "1 \<le> (2 ^ 1022 :: rat)" by simp
      ultimately show ?thesis by (metis mult_mono mult_1 zero_le_one order_trans)
    qed
    ultimately show ?thesis by (auto simp: out_of_range_def simp del: power_numeral)
  qed
  moreover have "sign_of (dropWhile is_space (ds @ r)) = (False, ds @ r)" "sign_of (dropWhile is_space (CHR ''-'' # ds @ r)) = (True, ds @ r)"
    using f d minus_sign by (simp_all add: sign_of_def)
  ultimately show "strtod (ds @ r) = Some (False, Fin (of_nat (read_digits ds)), r)"
      "strtod (CHR ''-'' # ds @ r) = Some (False, Fin (- of_nat (read_digits ds)), r)"
    using number_digits [OF assms(1-3)] by (simp_all add: strtod_def with_sign_def)
qed

text \<open>A duration as it is written: numbers with units.\<close>

fun duration_text :: "(nat \<times> char) list \<Rightarrow> string" where
  "duration_text [] = []"
| "duration_text ((n, u) # xs) = show_nat n @ u # duration_text xs"

fun duration_value :: "(nat \<times> char) list \<Rightarrow> rat" where
  "duration_value [] = 0"
| "duration_value ((n, u) # xs) = of_nat n * the (multiplier u) + duration_value xs"

lemma exact_in_range: "n < 9007199254740992 \<Longrightarrow> n < (2 :: nat) ^ 1024"
proof -
  have "(2 :: nat) ^ 53 < 2 ^ 1024" by (rule power_strict_increasing) simp_all
  then show "n < 9007199254740992 \<Longrightarrow> n < (2 :: nat) ^ 1024" by (simp del: power_strict_increasing_iff)
qed

lemma parse_parts_text:
  "\<forall>(n, u) \<in> set xs. n < 9007199254740992 \<and> multiplier u \<noteq> None \<Longrightarrow>
   parse_parts (duration_text xs) (Fin a) = Some (Fin (a + duration_value xs))"
proof (induction xs arbitrary: a)
  case Nil
  then show ?case by (simp add: parse_parts.simps)
next
  case (Cons x xs)
  obtain n u where x: "x = (n, u)" by fastforce
  obtain k where k: "multiplier u = Some k" using Cons.prems x by auto
  have "strtod (show_nat n @ u # duration_text xs) = Some (False, Fin (of_nat n), u # duration_text xs)"
    using strtod_digits(1) [of "show_nat n" "u # duration_text xs"] show_nat_digits [of n] k Cons.prems x exact_in_range [of n]
    by (simp add: read_show_nat del: power_numeral)
  moreover have "dropWhile is_space (show_nat n @ r) = show_nat n @ r" "show_nat n @ r \<noteq> []" for r
    using show_nat_digits [of n] digit_facts by (cases "show_nat n"; simp)+
  moreover have "\<not> is_space u" using unit_facts [OF k] by simp
  ultimately have "parse_parts (duration_text (x # xs)) (Fin a) = parse_parts (duration_text xs) (Fin (a + of_nat n * k))"
    using k x by (simp add: parse_parts.simps [of "show_nat n @ u # duration_text xs"])
  then show ?case using Cons x k by (simp add: add.assoc)
qed

lemma trunc_whole: "trunc (of_int z + 1 / 2) = (if z < 0 then z + 1 else z)"
proof (cases "z < 0")
  case True
  then have "(of_int z :: rat) \<le> of_int (- 1)" by (simp only: of_int_le_iff)
  then have "\<not> (0 :: rat) \<le> of_int z + 1 / 2" by simp
  moreover have "\<lceil>(of_int z :: rat) + 1 / 2\<rceil> = z + 1" by (rule ceiling_unique) simp_all
  ultimately show ?thesis using True by (simp add: trunc_def)
next
  case False
  then have "(0 :: rat) \<le> of_int z" by simp
  then have "(0 :: rat) \<le> of_int z + 1 / 2" by linarith
  moreover have "\<lfloor>(of_int z :: rat) + 1 / 2\<rfloor> = z" by (rule floor_unique) simp_all
  ultimately show ?thesis using False by (simp add: trunc_def)
qed

text \<open>The seconds of a written duration.\<close>

definition unit_secs :: "char \<Rightarrow> int" where
  "unit_secs c = \<lfloor>the (multiplier c)\<rfloor>"

definition duration_secs :: "(nat \<times> char) list \<Rightarrow> int" where
  "duration_secs xs = (\<Sum>(n, u)\<leftarrow>xs. int n * unit_secs u)"

lemma unit_whole: "multiplier u = Some k \<Longrightarrow> k = of_int (unit_secs u) \<and> 0 < unit_secs u"
  by (auto simp: multiplier_def unit_secs_def split: if_splits)

lemma duration_whole:
  "\<forall>(n, u) \<in> set xs. multiplier u \<noteq> None \<Longrightarrow> duration_value xs = of_int (duration_secs xs) \<and> 0 \<le> duration_secs xs"
proof (induction xs rule: duration_value.induct)
  case (2 n u xs)
  then obtain k where "multiplier u = Some k" by auto
  then show ?case using 2 unit_whole [of u k] by (simp add: duration_secs_def)
qed (simp add: duration_secs_def)

lemma parse_time_text:
  assumes "\<forall>(n, u) \<in> set xs. n < 9007199254740992 \<and> multiplier u \<noteq> None"
  shows "parse_time (duration_text xs) = Inr (if duration_secs xs \<le> 86400000 then Some (duration_secs xs) else None)"
proof -
  have w: "duration_value xs = of_int (duration_secs xs)" "0 \<le> duration_secs xs" using duration_whole [of xs] assms by (simp_all add: case_prod_beta)
  have "(86400000 < (of_int (duration_secs xs) :: rat)) = (86400000 < duration_secs xs)" by simp
  moreover have "(0 :: rat) \<le> of_int (duration_secs xs)" using w(2) by simp
  then have "\<not> (of_int (duration_secs xs) :: rat) < - 86400000" by linarith
  ultimately show ?thesis using parse_parts_text [OF assms, of 0] w by (simp add: parse_time_def trunc_whole)
qed

lemma parse_time_negative:
  assumes "0 < n" "int n * unit_secs u \<le> 86400000" "multiplier u \<noteq> None"
  shows "parse_time (CHR ''-'' # show_nat n @ [u]) = Inr (Some (1 - int n * unit_secs u))"
proof -
  obtain k where k: "multiplier u = Some k" using assms(3) by auto
  have pos: "0 < unit_secs u" using unit_whole [OF k] by simp
  then have "int n * 1 \<le> int n * unit_secs u" by (intro mult_left_mono) simp_all
  then have "n \<le> 86400000" using assms(2) by simp
  then have "n < (2 :: nat) ^ 1024" by (intro exact_in_range) simp
  then have "strtod (CHR ''-'' # show_nat n @ [u]) = Some (False, Fin (- of_nat n), [u])"
    using strtod_digits(2) [of "show_nat n" "[u]"] show_nat_digits [of n] k by (simp add: read_show_nat del: power_numeral)
  then have "parse_parts (CHR ''-'' # show_nat n @ [u]) (Fin 0) = Some (Fin (- of_nat n * k))"
    using k unit_facts [OF k] minus_sign by (simp add: parse_parts.simps [of "CHR ''-'' # show_nat n @ [u]"] parse_parts.simps [of "[]"])
  moreover have "- of_nat n * k = (of_int (- (int n * unit_secs u)) :: rat)" using unit_whole [OF k] by simp
  moreover have "0 < int n * unit_secs u" using assms(1) pos by simp
  ultimately show ?thesis using assms(2) trunc_whole [of "- (int n * unit_secs u)"] by (simp add: parse_time_def del: of_int_minus of_int_mult)
qed

text \<open>The text of a waiting time.\<close>

lemma delta_text:
  assumes "0 < target - now"
  shows "\<exists>xs. format_schedule_delta target now = duration_text xs \<and> (\<forall>(n, u) \<in> set xs. int n \<le> target - now \<and> multiplier u \<noteq> None)
    \<and> duration_secs xs = (if target - now < 3600 then target - now else target - now - (target - now) mod 60)"
proof -
  define d where "d = target - now"
  have d: "0 < d" using assms by (simp add: d_def)
  have units: "multiplier (CHR ''s'') = Some 1" "multiplier (CHR ''m'') = Some 60" "multiplier (CHR ''h'') = Some 3600"
    "unit_secs (CHR ''s'') = 1" "unit_secs (CHR ''m'') = 60" "unit_secs (CHR ''h'') = 3600"
    by (simp_all add: multiplier_def unit_secs_def tolower_def)
  have sh: "show_int z = show_nat (nat z)" if "0 \<le> z" for z using that by (simp add: show_int_def)
  have div_le: "z div k \<le> z" if "0 \<le> z" "0 < k" for z k :: int
    using zdiv_mono2 [of z 1 k] that by simp
  have "d mod 3600 div 60 \<le> d mod 3600" "d mod 3600 \<le> d" "d mod 60 \<le> d"
    using d by (simp_all add: div_le zmod_le_nonneg_dividend)
  then have le: "d div 60 \<le> d" "d mod 60 \<le> d" "d div 3600 \<le> d" "d mod 3600 div 60 \<le> d"
    using d by (simp_all add: div_le)
  have "d mod 3600 mod 60 = d mod 60" by (rule mod_mod_cancel) simp
  moreover have "d mod 3600 div 60 * 60 = d mod 3600 - d mod 3600 mod 60" "d div 3600 * 3600 = d - d mod 3600"
    by (simp_all only: minus_mod_eq_div_mult)
  ultimately have hm: "d div 3600 * 3600 + d mod 3600 div 60 * 60 = d - d mod 60" by simp
  consider "d < 60" | "60 \<le> d" "d < 3600" | "3600 \<le> d" by linarith
  then show ?thesis
  proof cases
    case 1
    then show ?thesis using d units le
      by (intro exI [of _ "[(nat d, CHR ''s'')]"]) (simp add: format_schedule_delta_def Let_def d_def [symmetric] sh duration_secs_def)
  next
    case 2
    then show ?thesis using d units le
      by (intro exI [of _ "[(nat (d div 60), CHR ''m''), (nat (d mod 60), CHR ''s'')]"])
        (simp add: format_schedule_delta_def Let_def d_def [symmetric] sh duration_secs_def pos_imp_zdiv_nonneg_iff)
  next
    case 3
    then show ?thesis using d units le
      by (intro exI [of _ "[(nat (d div 3600), CHR ''h''), (nat (d mod 3600 div 60), CHR ''m'')]"])
        (simp add: format_schedule_delta_def Let_def d_def [symmetric] sh duration_secs_def pos_imp_zdiv_nonneg_iff hm)
  qed
qed

end
