(* ===== verification/Command_Line.thy ===== *)
theory Command_Line
  imports Duration Server_State
begin

text \<open>
  The command line of the client: \<open>parse_opts\<close> of \<open>main.c\<close> with the functions it calls, and
  \<open>getopt_long\<close> of the C library as \<open>main\<close> uses it, with \<open>POSIXLY_CORRECT\<close> set, so that the first
  word that is no option ends the options. \<open>argv\<close> is a list of words; \<open>strtok\<close> writes into it.
\<close>

section \<open>Data\<close>

datatype request =
  c_QUEUE | c_TAIL | c_KILL_SERVER | c_LIST | c_LIST_ALL | c_DAEMON | c_ONLY_DAEMON | c_CHECK_DAEMON
| c_REFRESH_USER | c_SUSPEND_USER | c_RESUME_USER | c_LOCK_SERVER | c_UNLOCK_SERVER | c_HOLD_JOB | c_CONT_JOB
| c_CLEAR_FINISHED | c_SHOW_HELP | c_SHOW_VERSION | c_CAT | c_SHOW_OUTPUT_FILE | c_SHOW_PID | c_REMOVEJOB
| c_WAITJOB | c_URGENT | c_GET_STATE | c_SWAP_JOBS | c_INFO | c_SET_MAX_SLOTS | c_GET_MAX_SLOTS | c_KILL_JOB
| c_COUNT_RUNNING | c_GET_LABEL | c_ADD_WTIME | c_REQUEUE_JOB | c_LAST_ID | c_KILL_ALL | c_SHOW_CMD
| c_GET_LOGDIR | c_SET_LOGDIR | c_GET_ENV | c_SET_ENV | c_UNSET_ENV | c_FIND_PID

record command_line =
  request :: request
  need_server :: bool
  cl_store_output :: bool
  stderr_apart :: bool
  should_go_background :: bool
  cl_should_keep_finished :: bool
  gzip :: bool
  cl_depend_on :: "int list"
  cl_max_slots :: int
  cl_jobid :: int
  jobid2 :: int
  wait_enqueuing :: bool
  cl_command :: "string list"
  linux_cmd :: string
  cl_label :: "string option"
  logfile :: "string option"
  outfile :: "string option"
  on_finish_cmd :: "string option"
  cl_num_slots :: int
  taskpid :: int
  require_elevel :: bool
  cl_no_cpu_binding :: bool
  no_bind_defrag :: bool
  only_daemon :: bool
  start_service :: bool
  n_retry :: int
  cl_start_time :: int
  cl_wall_time :: int
  cl_schedule_time :: int
  cl_list_format :: list_format
  argv :: "string list"

text \<open>What the client reads of its surroundings: the calendar, its environment, \<open>rand() % 10000\<close> three times.\<close>

record client_env =
  cal :: calendar
  client_getenv :: "string \<Rightarrow> string option"
  rands :: "int \<times> int \<times> int"

definition default_command_line :: "client_env \<Rightarrow> string list \<Rightarrow> command_line" where
  "default_command_line e ws =
     \<lparr>request = c_LIST, need_server = False, cl_store_output = True, stderr_apart = False, should_go_background = True,
      cl_should_keep_finished = True, gzip = False, cl_depend_on = [], cl_max_slots = 1, cl_jobid = 0, jobid2 = 0,
      wait_enqueuing = True, cl_command = [], linux_cmd = [], cl_label = None, logfile = None, outfile = None,
      on_finish_cmd = client_getenv e ''TS_ONFINISH'', cl_num_slots = 1, taskpid = 0, require_elevel = False,
      cl_no_cpu_binding = False, no_bind_defrag = False, only_daemon = False, start_service = False, n_retry = 0,
      cl_start_time = 0, cl_wall_time = DEFAULT_MAX_WALL_TIME, cl_schedule_time = 0, cl_list_format = DEFAULT, argv = ws\<rparr>"

section \<open>The option scanner\<close>

datatype has_arg = No_arg | Req_arg | Opt_arg

text \<open>The letters with and without an argument in the string passed to \<open>getopt_long\<close>.\<close>

definition plain_letters :: string where
  "plain_letters = ''AXRTVhKzClnfBqd''"

definition arg_letters :: string where
  "arg_letters = ''EaFtcopwkrusUiNJLSDWOM''"

definition longOptions :: "(string \<times> has_arg \<times> char option) list" where
  "longOptions =
     [(''get-label'', Req_arg, Some (CHR ''a'')), (''add-wtime'', Req_arg, None), (''count-running'', No_arg, Some (CHR ''R'')),
      (''help'', No_arg, None), (''serialize'', Req_arg, Some (CHR ''M'')), (''last-queue-id'', No_arg, Some (CHR ''q'')),
      (''full-cmd'', Req_arg, Some (CHR ''F'')), (''get-logdir'', No_arg, None), (''set-logdir'', Req_arg, None),
      (''getenv'', Req_arg, None), (''setenv'', Req_arg, None), (''unsetenv'', Req_arg, None),
      (''suspend'', Opt_arg, None), (''resume'', Opt_arg, None), (''pause'', Req_arg, None), (''cont'', Req_arg, None),
      (''requeue'', Req_arg, None), (''lock-ts'', No_arg, None), (''unlock-ts'', No_arg, None), (''daemon'', No_arg, None),
      (''only-daemon'', No_arg, None), (''tmp'', No_arg, None), (''jobid'', Req_arg, Some (CHR ''J'')),
      (''stime'', Req_arg, None), (''check-daemon'', No_arg, None), (''no-bind'', No_arg, None),
      (''no-bind-defrag'', No_arg, None), (''n-retry'', Req_arg, None), (''wtime'', Req_arg, None),
      (''find-by-pid'', Req_arg, None), (''at'', Req_arg, None), (''on-finish'', Req_arg, None),
      (''start-service'', No_arg, None)]"

text \<open>
  What \<open>getopt_long\<close> returns in turn: an option with its argument and where in \<open>argv\<close> the
  argument is (word and offset), an option whose argument is missing, an unknown option.
\<close>

datatype opt_event =
  Opt char "string option" nat nat
| Long string "string option"
| Missing char
| Unknown char

text \<open>
  An exact name wins; otherwise the first name with the given beginning, unless another such name
  takes its argument differently or has another value.
\<close>

definition find_long :: "string \<Rightarrow> (string \<times> has_arg \<times> char option) option" where
  "find_long nm =
     (case find (\<lambda>(l, _). l = nm) longOptions of Some x \<Rightarrow> Some x
      | None \<Rightarrow> (case filter (\<lambda>(l, _). take (length nm) l = nm) longOptions of
            [] \<Rightarrow> None
          | x # xs \<Rightarrow> if list_all (\<lambda>y. snd y = snd x) xs then Some x else None))"

definition letter :: "char option \<Rightarrow> char" where
  "letter v = (case v of None \<Rightarrow> CHR 0x00 | Some c \<Rightarrow> c)"

definition found_long :: "string \<Rightarrow> char option \<Rightarrow> string option \<Rightarrow> nat \<Rightarrow> nat \<Rightarrow> opt_event" where
  "found_long l v a k off = (case v of None \<Rightarrow> Long l a | Some c \<Rightarrow> Opt c a k off)"

text \<open>A word that begins with two dashes, and whether the next word is its argument.\<close>

definition long_word :: "nat \<Rightarrow> string \<Rightarrow> string option \<Rightarrow> opt_event \<times> bool" where
  "long_word k body nxt =
     (let nm = takeWhile (\<lambda>c. c \<noteq> CHR ''='') body; given = drop (length nm + 1) body; eq = (length nm < length body) in
      case find_long nm of None \<Rightarrow> (Unknown (CHR 0x00), False)
      | Some (l, h, v) \<Rightarrow>
          if eq then (if h = No_arg then (Unknown (letter v), False) else (found_long l v (Some given) k (length nm + 3), False))
          else if h = Req_arg
          then (case nxt of None \<Rightarrow> (Missing (letter v), False) | Some a \<Rightarrow> (found_long l v (Some a) (k + 1) 0, True))
          else (found_long l v None k 0, False))"

text \<open>A word of letters after one dash.\<close>

fun short_word :: "nat \<Rightarrow> nat \<Rightarrow> string \<Rightarrow> string option \<Rightarrow> opt_event list \<times> bool" where
  "short_word k off [] nxt = ([], False)"
| "short_word k off (c # cs) nxt =
     (if c \<in> set arg_letters
      then (if cs \<noteq> [] then ([Opt c (Some cs) k (off + 1)], False)
            else case nxt of None \<Rightarrow> ([Missing c], False) | Some a \<Rightarrow> ([Opt c (Some a) (k + 1) 0], True))
      else (case short_word k (off + 1) cs nxt of (es, used) \<Rightarrow>
              ((if c \<in> set plain_letters then Opt c None 0 0 else Unknown c) # es, used)))"

definition option_word :: "nat \<Rightarrow> string \<Rightarrow> string option \<Rightarrow> opt_event list \<times> bool" where
  "option_word k w nxt =
     (if take 2 w = ''--'' then (case long_word k (drop 2 w) nxt of (ev, used) \<Rightarrow> ([ev], used))
      else short_word k 1 (drop 1 w) nxt)"

text \<open>The options of the words from position \<open>k\<close> on, and \<open>optind\<close> at the end.\<close>

fun getopt_long :: "nat \<Rightarrow> string list \<Rightarrow> opt_event list \<times> nat" where
  "getopt_long k [] = ([], k)"
| "getopt_long k [w] =
     (if w = ''--'' then ([], k + 1)
      else if take 1 w = ''-'' \<and> w \<noteq> ''-'' then (fst (option_word k w None), k + 1) else ([], k))"
| "getopt_long k (w # a # ws) =
     (if w = ''--'' then ([], k + 1)
      else if take 1 w = ''-'' \<and> w \<noteq> ''-''
      then (case option_word k w (Some a) of (es, used) \<Rightarrow>
              (case (if used then getopt_long (k + 2) ws else getopt_long (k + 1) (a # ws)) of
                 (es', n) \<Rightarrow> (es @ es', n)))
      else ([], k))"

section \<open>Arguments\<close>

definition the_arg :: "string option \<Rightarrow> string res" where
  "the_arg a = (case a of None \<Rightarrow> Inl Null_deref | Some t \<Rightarrow> Inr t)"

text \<open>\<open>str2int64\<close> stored into an \<open>int\<close>.\<close>

definition int_arg :: "string option \<Rightarrow> int res" where
  "int_arg a = rbind (the_arg a) (\<lambda>t. rbind (str2int64 t) (\<lambda>v. Inr (wrap32 v)))"

definition get_two_jobs :: "string \<Rightarrow> (int \<times> int) option" where
  "get_two_jobs str =
     (if length str \<ge> 50 \<or> CHR ''-'' \<notin> set str then None
      else Some (atoi (takeWhile (\<lambda>c. c \<noteq> CHR ''-'') str), atoi (drop 1 (dropWhile (\<lambda>c. c \<noteq> CHR ''-'') str))))"

definition strtok_int :: "string \<Rightarrow> int list" where
  "strtok_int str = map atoi (strtok (CHR '','') str)"

text \<open>What is left of a word after \<open>strtok\<close> cut the text from the offset on into tokens.\<close>

definition strtok_cut :: "nat \<Rightarrow> string \<Rightarrow> string" where
  "strtok_cut off w =
     (let a = drop off w; d = takeWhile (\<lambda>c. c = CHR '','') a; r = dropWhile (\<lambda>c. c = CHR '','') a
      in take off w @ d @ takeWhile (\<lambda>c. c \<noteq> CHR '','') r)"

text \<open>
  Three random numbers are combined and reduced modulo the factor of the last one, which is
  then all that is left of them.
\<close>

definition get_tmp :: "client_env \<Rightarrow> string" where
  "get_tmp e =
     (let folder = (case client_getenv e ''TMPDIR'' of None \<Rightarrow> ''/tmp/'' | Some d \<Rightarrow> d);
          (r1, r2, r3) = rands e
      in folder @ ''/ts_out.'' @ show_int ((r1 * 100000 * 100000 + r2 * 100000 + r3) mod 100000))"

definition time_arg :: "string \<Rightarrow> string option \<Rightarrow> int res" where
  "time_arg err a = rbind (the_arg a) (\<lambda>t. rbind (parse_time t) (\<lambda>x. case x of None \<Rightarrow> Inl (Error_exit err) | Some v \<Rightarrow> Inr v))"

definition with_job :: "request \<Rightarrow> string option \<Rightarrow> command_line \<Rightarrow> command_line res" where
  "with_job r a c = rbind (int_arg a) (\<lambda>v. Inr (c\<lparr>request := r, cl_jobid := v\<rparr>))"

definition last_job_of :: "request \<Rightarrow> command_line \<Rightarrow> command_line" where
  "last_job_of r c = c\<lparr>request := r, cl_jobid := - 1\<rparr>"

section \<open>Options\<close>

definition long_request :: "string \<Rightarrow> string option \<Rightarrow> command_line \<Rightarrow> command_line res option" where
  "long_request nm a c =
     (if nm = ''get-logdir'' then Some (Inr (c\<lparr>request := c_GET_LOGDIR\<rparr>))
      else if nm = ''daemon'' then Some (Inr (c\<lparr>request := c_DAEMON\<rparr>))
      else if nm = ''only-daemon'' then Some (Inr (c\<lparr>request := c_ONLY_DAEMON, only_daemon := True\<rparr>))
      else if nm = ''check-daemon'' then Some (Inr (c\<lparr>request := c_CHECK_DAEMON, need_server := False\<rparr>))
      else if nm = ''set-logdir'' then Some (Inr (c\<lparr>request := c_SET_LOGDIR, cl_label := a\<rparr>))
      else if nm = ''help'' then Some (Inr (c\<lparr>request := c_SHOW_HELP\<rparr>))
      else if nm = ''pause'' then Some (with_job c_HOLD_JOB a c)
      else if nm = ''cont'' then Some (with_job c_CONT_JOB a c)
      else if nm = ''requeue'' then Some (with_job c_REQUEUE_JOB a c)
      else if nm = ''lock-ts'' then Some (Inr (c\<lparr>request := c_LOCK_SERVER\<rparr>))
      else if nm = ''unlock-ts'' then Some (Inr (c\<lparr>request := c_UNLOCK_SERVER\<rparr>))
      else if nm = ''suspend'' then Some (Inr (c\<lparr>request := c_SUSPEND_USER, cl_label := a\<rparr>))
      else if nm = ''resume'' then Some (Inr (c\<lparr>request := c_RESUME_USER, cl_label := a\<rparr>))
      else if nm = ''getenv'' then Some (Inr (c\<lparr>request := c_GET_ENV, cl_label := a\<rparr>))
      else if nm = ''setenv'' then Some (Inr (c\<lparr>request := c_SET_ENV, cl_label := a\<rparr>))
      else if nm = ''unsetenv'' then Some (Inr (c\<lparr>request := c_UNSET_ENV, cl_label := a\<rparr>))
      else None)"

text \<open>The cases for \<open>get-label\<close> and \<open>full-cmd\<close> are never reached, their table entries have a letter.\<close>

definition long_option :: "client_env \<Rightarrow> string \<Rightarrow> string option \<Rightarrow> command_line \<Rightarrow> command_line res" where
  "long_option e nm a c =
     (case long_request nm a c of Some r \<Rightarrow> r
      | None \<Rightarrow>
     (if nm = ''tmp'' then Inr (c\<lparr>outfile := Some (get_tmp e)\<rparr>)
      else if nm = ''get-label'' then with_job c_GET_LABEL a c
      else if nm = ''add-wtime'' then
        rbind (time_arg ''Error: invalid duration '' a) (\<lambda>v. Inr (c\<lparr>request := c_ADD_WTIME, cl_wall_time := v\<rparr>))
      else if nm = ''full-cmd'' then (if a = None then Inr (last_job_of c_SHOW_CMD c) else with_job c_SHOW_CMD a c)
      else if nm = ''stime'' then rbind (the_arg a) (\<lambda>t. rbind (str2int64 t) (\<lambda>v. Inr (c\<lparr>cl_start_time := v\<rparr>)))
      else if nm = ''find-by-pid'' then
        rbind (int_arg a) (\<lambda>v. if v \<le> 0 then Inl (Error_exit ''Error: invalid PID '')
          else Inr (c\<lparr>request := c_FIND_PID, taskpid := v\<rparr>))
      else if nm = ''wtime'' then rbind (time_arg ''Error: invalid duration '' a) (\<lambda>v. Inr (c\<lparr>cl_wall_time := v\<rparr>))
      else if nm = ''at'' then
        rbind (the_arg a) (\<lambda>t. rbind (parse_schedule (cal e) t) (\<lambda>x. case x of
          None \<Rightarrow> Inl (Error_exit ''Error: invalid schedule '') | Some v \<Rightarrow> Inr (c\<lparr>cl_schedule_time := v\<rparr>)))
      else if nm = ''on-finish'' then Inr (c\<lparr>on_finish_cmd := a\<rparr>)
      else if nm = ''start-service'' then Inr (c\<lparr>start_service := True\<rparr>)
      else if nm = ''no-bind'' then Inr (c\<lparr>cl_no_cpu_binding := True\<rparr>)
      else if nm = ''no-bind-defrag'' then Inr (c\<lparr>no_bind_defrag := True\<rparr>)
      else if nm = ''n-retry'' then rbind (int_arg a) (\<lambda>v. Inr (c\<lparr>n_retry := (if v < 0 then 0 else v)\<rparr>))
      else Inl (Error_exit ''Error: invalid option '')))"

text \<open>The letters without an argument.\<close>

definition plain_option :: "char \<Rightarrow> command_line \<Rightarrow> command_line" where
  "plain_option x c =
     (if x = CHR ''K'' then c\<lparr>request := c_KILL_SERVER, should_go_background := False\<rparr>
      else if x = CHR ''T'' then c\<lparr>request := c_KILL_ALL\<rparr>
      else if x = CHR ''X'' then c\<lparr>request := c_REFRESH_USER\<rparr>
      else if x = CHR ''l'' then c\<lparr>request := c_LIST\<rparr>
      else if x = CHR ''A'' then c\<lparr>request := c_LIST_ALL\<rparr>
      else if x = CHR ''h'' then c\<lparr>request := c_SHOW_HELP\<rparr>
      else if x = CHR ''d'' then c\<lparr>cl_depend_on := [- 1]\<rparr>
      else if x = CHR ''V'' then c\<lparr>request := c_SHOW_VERSION\<rparr>
      else if x = CHR ''C'' then c\<lparr>request := c_CLEAR_FINISHED\<rparr>
      else if x = CHR ''n'' then c\<lparr>cl_store_output := False\<rparr>
      else if x = CHR ''z'' then c\<lparr>gzip := True\<rparr>
      else if x = CHR ''f'' then c\<lparr>should_go_background := False\<rparr>
      else if x = CHR ''q'' then c\<lparr>request := c_LAST_ID\<rparr>
      else if x = CHR ''B'' then c\<lparr>wait_enqueuing := False\<rparr>
      else if x = CHR ''R'' then c\<lparr>request := c_COUNT_RUNNING\<rparr>
      else c)"

text \<open>The letters that ask for one job.\<close>

definition job_request :: "char \<Rightarrow> request option" where
  "job_request x =
     map_of [(CHR ''k'', c_KILL_JOB), (CHR ''r'', c_REMOVEJOB), (CHR ''c'', c_CAT), (CHR ''o'', c_SHOW_OUTPUT_FILE),
       (CHR ''t'', c_TAIL), (CHR ''p'', c_SHOW_PID), (CHR ''i'', c_INFO), (CHR ''a'', c_GET_LABEL), (CHR ''F'', c_SHOW_CMD),
       (CHR ''w'', c_WAITJOB), (CHR ''u'', c_URGENT), (CHR ''s'', c_GET_STATE)] x"

definition set_depend :: "bool \<Rightarrow> string option \<Rightarrow> nat \<Rightarrow> nat \<Rightarrow> command_line \<Rightarrow> command_line res" where
  "set_depend elevel a k off c =
     rbind (the_arg a) (\<lambda>t. Inr (c\<lparr>cl_depend_on := strtok_int t, require_elevel := elevel \<or> require_elevel c,
       argv := (argv c)[k := strtok_cut off (argv c ! k)]\<rparr>))"

definition set_format :: "string option \<Rightarrow> command_line \<Rightarrow> command_line res" where
  "set_format a c =
     rbind (the_arg a) (\<lambda>t.
       if t = ''default'' then Inr (c\<lparr>request := c_LIST, cl_list_format := DEFAULT\<rparr>)
       else if t = ''json'' then Inr (c\<lparr>request := c_LIST, cl_list_format := JSON\<rparr>)
       else if t = ''tab'' then Inr (c\<lparr>request := c_LIST, cl_list_format := TAB\<rparr>)
       else Inl (Error_exit ''Error: Invalid argument for option -M or --tab: %s.''))"

definition set_swap :: "string option \<Rightarrow> command_line \<Rightarrow> command_line res" where
  "set_swap a c =
     rbind (the_arg a) (\<lambda>t. case get_two_jobs t of
         None \<Rightarrow> Inl (Error_exit ''Error: Invalid <id-id> format for -U: %s.'')
       | Some (j1, j2) \<Rightarrow>
           if j1 = j2 then Inl (Error_exit ''Error: The two Jobids in -U <id-id> must be different.'')
           else Inr (c\<lparr>request := c_SWAP_JOBS, cl_jobid := j1, jobid2 := j2\<rparr>))"

text \<open>The letters with an argument. The one of \<open>-E\<close> is not used.\<close>

definition arg_option :: "char \<Rightarrow> string option \<Rightarrow> nat \<Rightarrow> nat \<Rightarrow> command_line \<Rightarrow> command_line res" where
  "arg_option x a k off c =
     (case job_request x of Some r \<Rightarrow> with_job r a c
      | None \<Rightarrow>
     (if x = CHR ''O'' then Inr (c\<lparr>logfile := a\<rparr>)
      else if x = CHR ''L'' then Inr (c\<lparr>cl_label := a\<rparr>)
      else if x = CHR ''N'' then rbind (int_arg a) (\<lambda>v. Inr (c\<lparr>cl_num_slots := (if v < 0 then 0 else v)\<rparr>))
      else if x = CHR ''J'' then rbind (int_arg a) (\<lambda>v. Inr (c\<lparr>cl_jobid := (if v < 0 then 0 else v)\<rparr>))
      else if x = CHR ''S'' then
        rbind (int_arg a) (\<lambda>v. if v < 1 then Inl (Error_exit ''Error: at least one slot must be specified.'')
          else Inr (c\<lparr>request := c_SET_MAX_SLOTS, cl_max_slots := v\<rparr>))
      else if x = CHR ''D'' then set_depend False a k off c
      else if x = CHR ''W'' then set_depend True a k off c
      else if x = CHR ''U'' then set_swap a c
      else if x = CHR ''E'' then Inr (c\<lparr>stderr_apart := True\<rparr>)
      else if x = CHR ''M'' then set_format a c
      else Inr c))"

definition missing_arg :: "char \<Rightarrow> command_line \<Rightarrow> command_line res" where
  "missing_arg x c =
     (case job_request x of Some r \<Rightarrow> Inr (last_job_of r c)
      | None \<Rightarrow>
          if x = CHR ''S'' then Inr (c\<lparr>request := c_GET_MAX_SLOTS\<rparr>)
          else if x = CHR ''M'' then Inr (c\<lparr>request := c_LIST, cl_list_format := DEFAULT\<rparr>)
          else Inl (Error_exit ''Error: Option -%c requires an argument.''))"

fun one_option :: "client_env \<Rightarrow> opt_event \<Rightarrow> command_line \<Rightarrow> command_line res" where
  "one_option e (Opt x a k off) c =
     (if x \<in> set plain_letters then Inr (plain_option x c) else arg_option x a k off c)"
| "one_option e (Long nm a) c = long_option e nm a c"
| "one_option e (Missing x) c = missing_arg x c"
| "one_option e (Unknown x) c = Inl (Error_exit ''Error: Unknown option -%c.'')"

section \<open>The whole command line\<close>

definition MAX_LEN :: nat where "MAX_LEN = 10240"

text \<open>The words after the options are the command. Of each word at most 1024 characters are counted.\<close>

definition take_command :: "nat \<Rightarrow> command_line \<Rightarrow> command_line res" where
  "take_command n c =
     (if n < length (argv c) \<and> request c = c_LIST
      then (let cmd = drop n (argv c) in
            if sum_list (map (\<lambda>w. min (length w) 1024) cmd) > MAX_LEN
            then Inl (Error_exit ''too long command: %d chars, max %d'')
            else Inr (c\<lparr>request := c_QUEUE, cl_command := cmd\<rparr>))
      else Inr (c\<lparr>cl_command := []\<rparr>))"

definition finish_opts :: "command_line \<Rightarrow> command_line res" where
  "finish_opts c =
     rbind (charArray_string (argv c)) (\<lambda>t.
       Inr (c\<lparr>linux_cmd := t,
         need_server := (need_server c \<or> request c \<noteq> c_SHOW_HELP \<and> request c \<noteq> c_SHOW_VERSION),
         cl_should_keep_finished := (cl_should_keep_finished c \<and> (cl_store_output c \<or> should_go_background c))\<rparr>))"

definition parse_opts :: "client_env \<Rightarrow> string list \<Rightarrow> command_line res" where
  "parse_opts e ws =
     (case getopt_long 1 (tl ws) of (es, n) \<Rightarrow>
        rbind (rfold (one_option e) es (default_command_line e ws)) (\<lambda>c.
        rbind (take_command n c) finish_opts))"

section \<open>Lemmas\<close>

text \<open>Options only write into the words before the command.\<close>

fun ev_pos :: "opt_event \<Rightarrow> nat" where
  "ev_pos (Opt x a k off) = k"
| "ev_pos ev = 0"

lemma short_word_pos:
  "short_word k off cs nxt = (es, used) \<Longrightarrow> ev \<in> set es \<Longrightarrow> ev_pos ev \<le> (if used then k + 1 else k)"
  by (induction k off cs nxt arbitrary: es rule: short_word.induct)
    (auto split: if_splits option.splits prod.splits)

lemma long_word_pos: "long_word k body nxt = (ev, used) \<Longrightarrow> ev_pos ev \<le> (if used then k + 1 else k)"
  by (auto simp: long_word_def found_long_def Let_def split: if_splits option.splits)

lemma option_word_pos:
  "option_word k w nxt = (es, used) \<Longrightarrow> ev \<in> set es \<Longrightarrow> ev_pos ev \<le> (if used then k + 1 else k)"
proof (cases "take 2 w = ''--''")
  case True
  obtain ev' u where "long_word k (drop 2 w) nxt = (ev', u)" by fastforce
  then show "option_word k w nxt = (es, used) \<Longrightarrow> ev \<in> set es \<Longrightarrow> ?thesis"
    using True long_word_pos [of k "drop 2 w" nxt ev' u] by (auto simp: option_word_def)
next
  case False
  then show "option_word k w nxt = (es, used) \<Longrightarrow> ev \<in> set es \<Longrightarrow> ?thesis"
    using short_word_pos [of k 1 "drop 1 w" nxt es used ev] by (simp add: option_word_def)
qed

lemma option_word_None: "option_word k w None = (es, used) \<Longrightarrow> \<not> used"
proof -
  have "short_word k off cs None = (es, used) \<Longrightarrow> \<not> used" for off cs es
    by (induction k off cs "None :: string option" arbitrary: es rule: short_word.induct) (auto split: if_splits prod.splits)
  then show "option_word k w None = (es, used) \<Longrightarrow> \<not> used"
    by (auto simp: option_word_def long_word_def Let_def split: if_splits option.splits prod.splits)
qed

lemma getopt_pos: "getopt_long k ws = (es, n) \<Longrightarrow> k \<le> n \<and> (\<forall>ev \<in> set es. ev_pos ev < n)"
proof (induction k ws arbitrary: es n rule: getopt_long.induct)
  case (2 k w)
  obtain fs u where o: "option_word k w None = (fs, u)" by fastforce
  show ?case using 2 o option_word_None [OF o] option_word_pos [OF o] by (fastforce split: if_splits)
next
  case (3 k w a ws)
  show ?case
  proof (cases "w = ''--'' \<or> \<not> (take 1 w = ''-'' \<and> w \<noteq> ''-'')")
    case False
    obtain fs u where o: "option_word k w (Some a) = (fs, u)" by fastforce
    obtain gs m where r: "(if u then getopt_long (k + 2) ws else getopt_long (k + 1) (a # ws)) = (gs, m)" by fastforce
    have "(if u then k + 2 else k + 1) \<le> m \<and> (\<forall>ev \<in> set gs. ev_pos ev < m)"
      using 3(1,2) False o r by (cases u) auto
    moreover have "es = fs @ gs" "n = m" using 3(3) False o r by auto
    ultimately show ?thesis using option_word_pos [OF o] by (cases u) fastforce+
  next
    case True
    then show ?thesis using 3(3) unfolding getopt_long.simps
      by (cases "w = ''--''"; cases "take 1 w = ''-'' \<and> w \<noteq> ''-''") (simp_all del: One_nat_def)
  qed
qed simp

definition keeps_argv :: "nat \<Rightarrow> command_line \<Rightarrow> command_line res \<Rightarrow> bool" where
  "keeps_argv n c r = (\<forall>c'. r = Inr c' \<longrightarrow> drop n (argv c') = drop n (argv c) \<and> length (argv c') = length (argv c))"

lemma keeps_argv_Inr: "drop n (argv c') = drop n (argv c) \<Longrightarrow> length (argv c') = length (argv c) \<Longrightarrow> keeps_argv n c (Inr c')"
  by (simp add: keeps_argv_def)

lemma keeps_argv_intros:
  "keeps_argv n c (Inl f)"
  "(\<And>x. keeps_argv n c (g x)) \<Longrightarrow> keeps_argv n c (rbind r g)"
  "keeps_argv n c r1 \<Longrightarrow> keeps_argv n c r2 \<Longrightarrow> keeps_argv n c (if b then r1 else r2)"
  "keeps_argv n c r1 \<Longrightarrow> (\<And>y. keeps_argv n c (k y)) \<Longrightarrow> keeps_argv n c (case z of None \<Rightarrow> r1 | Some y \<Rightarrow> k y)"
  "(\<And>x y. keeps_argv n c (h x y)) \<Longrightarrow> keeps_argv n c (case p of (x, y) \<Rightarrow> h x y)"
  by (auto simp: keeps_argv_def rbind_eq_Inr split: if_splits option.splits prod.splits)

lemma long_request_argv: "pred_option (keeps_argv n c) (long_request nm a c)"
proof -
  have if_opt: "pred_option P x \<Longrightarrow> pred_option P y \<Longrightarrow> pred_option P (if b then x else y)"
    for P :: "command_line res \<Rightarrow> bool" and x y b by simp
  show ?thesis unfolding long_request_def with_job_def
    by (intro if_opt; simp; intro keeps_argv_intros keeps_argv_Inr; simp)
qed

lemma long_option_argv: "keeps_argv n c (long_option e nm a c)"
proof (cases "long_request nm a c")
  case None
  show ?thesis unfolding long_option_def None option.case with_job_def last_job_of_def
    by (intro keeps_argv_intros keeps_argv_Inr) simp_all
next
  case (Some r)
  then show ?thesis using long_request_argv [of n c nm a] by (simp add: long_option_def)
qed

lemma arg_option_argv: "k < n \<Longrightarrow> keeps_argv n c (arg_option x a k off c)"
proof -
  assume "k < n"
  then show ?thesis unfolding arg_option_def with_job_def set_depend_def set_format_def set_swap_def
    by (intro keeps_argv_intros keeps_argv_Inr) simp_all
qed

lemma one_option_argv: "ev_pos ev < n \<Longrightarrow> keeps_argv n c (one_option e ev c)"
proof (cases ev)
  case (Opt x a k off)
  then show "ev_pos ev < n \<Longrightarrow> ?thesis" using arg_option_argv [of k n c x a off]
    by (auto simp: plain_option_def keeps_argv_def)
next
  case (Long nm a)
  then show ?thesis using long_option_argv by simp
next
  case (Missing x)
  then show ?thesis unfolding Missing one_option.simps missing_arg_def last_job_of_def
    by (intro keeps_argv_intros keeps_argv_Inr) simp_all
qed (simp add: keeps_argv_def)

lemma options_argv:
  assumes "rfold (one_option e) es c = Inr c'" "\<forall>ev \<in> set es. ev_pos ev < n"
  shows "drop n (argv c') = drop n (argv c) \<and> length (argv c') = length (argv c)"
  by (rule rfold_invariant [where P = "\<lambda>x. drop n (argv x) = drop n (argv c) \<and> length (argv x) = length (argv c)", OF _ _ assms(1)])
    (use assms(2) one_option_argv in \<open>fastforce simp: keeps_argv_def\<close>)+

lemma join_words: "foldl (\<lambda>acc x. acc @ '' '' @ x) a (xs @ y # ys) = foldl (\<lambda>acc x. acc @ '' '' @ x) a xs @ '' '' @ foldl (\<lambda>acc x. acc @ '' '' @ x) y ys"
proof -
  have "foldl (\<lambda>acc x. acc @ '' '' @ x) (b @ y) ys = b @ foldl (\<lambda>acc x. acc @ '' '' @ x) y ys" for b y
  proof (induction ys arbitrary: y)
    case (Cons z zs)
    from Cons [of "y @ '' '' @ z"] show ?case by simp
  qed simp
  from this [of "foldl (\<lambda>acc x. acc @ '' '' @ x) a xs @ '' ''"] show ?thesis by simp
qed

lemma charArray_tail:
  assumes "charArray_string ws = Inr t" "0 < n" "n < length ws" "charArray_string (drop n ws) = Inr u"
  shows "\<exists>v. t = v @ '' '' @ u"
proof -
  obtain w rest where ws: "ws = w # rest" using assms(3) by (cases ws) auto
  obtain y ys where d: "drop n ws = y # ys" using assms(3) by (cases "drop n ws") auto
  have "rest = take (n - 1) rest @ y # ys" using d ws assms(2) by (cases n) (auto, metis append_take_drop_id)
  then show ?thesis using assms(1,4) d ws join_words [of w "take (n - 1) rest" y ys]
    by (auto simp: charArray_string_def)
qed

text \<open>A parsed submission.\<close>

lemma parse_opts_queue:
  assumes "parse_opts e ws = Inr c" "cl_command c \<noteq> []"
  shows "\<exists>es n. getopt_long 1 (tl ws) = (es, n) \<and> n < length ws \<and> request c = c_QUEUE \<and> cl_command c = drop n ws
    \<and> sum_list (map (\<lambda>w. min (length w) 1024) (cl_command c)) \<le> MAX_LEN
    \<and> (\<exists>v t. charArray_string (cl_command c) = Inr t \<and> linux_cmd c = v @ '' '' @ t)"
proof -
  obtain es n where g: "getopt_long 1 (tl ws) = (es, n)" by fastforce
  obtain c1 c2 where c: "rfold (one_option e) es (default_command_line e ws) = Inr c1" "take_command n c1 = Inr c2" "finish_opts c2 = Inr c"
    using assms(1) unfolding parse_opts_def g by (auto simp: rbind_eq_Inr)
  have a1: "drop n (argv c1) = drop n ws" "length (argv c1) = length ws" "1 \<le> n"
    using options_argv [OF c(1), of n] getopt_pos [OF g] by (simp_all add: default_command_line_def)
  obtain t where t: "charArray_string (argv c2) = Inr t" "linux_cmd c = t" "cl_command c = cl_command c2" "request c = request c2"
    using c(3) by (auto simp: finish_opts_def rbind_eq_Inr)
  then have q: "n < length ws" "request c2 = c_QUEUE" "cl_command c2 = drop n ws" "argv c2 = argv c1"
      "sum_list (map (\<lambda>w. min (length w) 1024) (drop n ws)) \<le> MAX_LEN"
    using c(2) assms(2) a1 by (auto simp: take_command_def Let_def split: if_splits)
  obtain u where u: "charArray_string (drop n ws) = Inr u"
    using q(1) by (cases "drop n ws") (auto simp: charArray_string_def)
  then have "\<exists>v. t = v @ '' '' @ u" using charArray_tail [OF t(1), of n u] q a1 by simp
  then show ?thesis using g q t u by auto
qed

text \<open>Single letters and long names as the scanner reports them.\<close>

lemma swallowed_word: "getopt_long 1 [''-E'', w] = ([Opt (CHR ''E'') (Some w) 2 0], 3)"
  by (simp add: option_word_def arg_letters_def)

lemma suspend_name: "find_long ''suspend'' = Some (''suspend'', Opt_arg, None)" "find_long ''resume'' = Some (''resume'', Opt_arg, None)"
  by (simp_all add: find_long_def longOptions_def)

lemma optional_word:
  assumes "take 1 w \<noteq> ''-''"
  shows "getopt_long 1 [''--suspend'', w] = ([Long ''suspend'' None], 2)"
    and "getopt_long 1 [''--resume'', w] = ([Long ''resume'' None], 2)"
  using assms by (auto simp: option_word_def long_word_def suspend_name found_long_def)

end
