(* ===== verification/Client.thy ===== *)
theory Client
  imports Command_Line Server
begin

text \<open>
  The requests of \<open>client.c\<close> and the switch of \<open>main\<close>. A client is what it has done so far and
  the answers it will still receive; the end of the answers is the end of the connection. A
  request returns, or leaves the process with an exit code.
\<close>

section \<open>The client process\<close>

datatype cevent =
  Sent msg
| Printed line
| Warned string
| Killed int int
| Ran int "string list"
| Shell string
| Tailed string int

text \<open>
  \<open>typed\<close> is the word the user answers a question with, \<open>junk\<close> the value of a variable that
  was never set.
\<close>

record cli =
  inbox :: "answer list"
  log :: "cevent list"
  typed :: string
  junk :: int

datatype 'a outcome = Ret 'a cli | Exit int cli

definition cbind :: "'a outcome \<Rightarrow> ('a \<Rightarrow> cli \<Rightarrow> 'b outcome) \<Rightarrow> 'b outcome" where
  "cbind m f = (case m of Ret x k \<Rightarrow> f x k | Exit n k \<Rightarrow> Exit n k)"

definition note_ev :: "cevent \<Rightarrow> cli \<Rightarrow> cli" where
  "note_ev ev k = k\<lparr>log := log k @ [ev]\<rparr>"

definition put_msg :: "msg \<Rightarrow> cli \<Rightarrow> cli" where
  "put_msg m k = note_ev (Sent m) k"

definition cerror :: "string \<Rightarrow> cli \<Rightarrow> 'a outcome" where
  "cerror t k = Exit 1 (note_ev (Warned t) k)"

definition say :: "string \<Rightarrow> arg list \<Rightarrow> cli \<Rightarrow> cli" where
  "say fmt as k = note_ev (Printed (Line fmt as)) k"

text \<open>The next answer, \<open>None\<close> at the end of the connection.\<close>

definition recv_msg :: "cli \<Rightarrow> answer option \<times> cli" where
  "recv_msg k = (case inbox k of [] \<Rightarrow> (None, k) | a # as \<Rightarrow> (Some a, k\<lparr>inbox := as\<rparr>))"

text \<open>Most requests insist on an answer.\<close>

definition expect :: "string \<Rightarrow> (answer \<Rightarrow> cli \<Rightarrow> 'a outcome) \<Rightarrow> cli \<Rightarrow> 'a outcome" where
  "expect err f k = (case recv_msg k of (None, k') \<Rightarrow> cerror err k' | (Some a, k') \<Rightarrow> f a k')"

definition line_starts :: "string \<Rightarrow> line \<Rightarrow> bool" where
  "line_starts pre l = (case l of Line fmt as \<Rightarrow> take (length pre) fmt = pre)"

definition refused :: "line \<Rightarrow> cli \<Rightarrow> 'a outcome" where
  "refused l k = cerror ''Error: in the request: %s'' (note_ev (Printed l) k)"

section \<open>Submission\<close>

text \<open>The working directory and the output of the \<open>TS_ENV\<close> command come from the system.\<close>

definition newjob_of :: "command_line \<Rightarrow> string \<Rightarrow> string option \<Rightarrow> newjob_msg res" where
  "newjob_of c path myenv =
     rbind (charArray_string (cl_command c)) (\<lambda>old_command.
       Inr \<lparr>m_jobid = cl_jobid c, m_num_slots = cl_num_slots c, m_no_cpu_binding = (if cl_no_cpu_binding c then 1 else 0),
         m_store_output = (if cl_store_output c then 1 else 0),
         m_should_keep_finished = (if cl_should_keep_finished c then 1 else 0), m_depend_on = cl_depend_on c,
         m_wall_time = cl_wall_time c, m_schedule_time = cl_schedule_time c, m_command = Some (linux_cmd c),
         m_command_strip = int (length (linux_cmd c)) - int (length old_command), m_path = Some (Some path),
         m_label = map_option Some (cl_label c), m_env = map_option Some myenv, m_wait_enqueuing = wait_enqueuing c\<rparr>)"

definition c_new_job :: "command_line \<Rightarrow> string \<Rightarrow> string option \<Rightarrow> cli \<Rightarrow> cli res" where
  "c_new_job c path myenv k = rbind (newjob_of c path myenv) (\<lambda>m. Inr (put_msg (NEWJOB m) k))"

text \<open>Lines are printed until another answer comes. \<open>recv_msg\<close> returns 0 at the end, with a zeroed message.\<close>

fun wait_newjob_loop :: "answer list \<Rightarrow> cevent list \<Rightarrow> (int + int) \<times> answer list \<times> cevent list" where
  "wait_newjob_loop [] es = (Inl 1, [], es @ [Warned ''Error: the return type is not NEWJOB_OK''])"
| "wait_newjob_loop (a # as) es =
     (case a of NEWJOB_OK j \<Rightarrow> (Inr j, as, es)
      | NEWJOB_NOK \<Rightarrow> (Inl 2, as, es)
      | NEWJOB_PID_NOK \<Rightarrow> (Inl 1, as, es @ [Warned ''Error: cannot create job''])
      | LIST_LINE l \<Rightarrow> wait_newjob_loop as (es @ [Printed l])
      | _ \<Rightarrow> (Inl 1, as, es @ [Warned ''Error: the return type is not NEWJOB_OK'']))"

definition c_wait_newjob_ok :: "cli \<Rightarrow> int outcome" where
  "c_wait_newjob_ok k =
     (case wait_newjob_loop (inbox k) (log k) of (r, as, es) \<Rightarrow>
        (case r of Inr j \<Rightarrow> Ret j (k\<lparr>inbox := as, log := es\<rparr>) | Inl n \<Rightarrow> Exit n (k\<lparr>inbox := as, log := es\<rparr>)))"

section \<open>Requests answered by lines\<close>

definition is_line :: "answer \<Rightarrow> line option" where
  "is_line a = (case a of LIST_LINE l \<Rightarrow> Some l | _ \<Rightarrow> None)"

text \<open>Prints every line up to the end of the connection and counts those with the given beginning.\<close>

definition wait_server_lines_and_check :: "string \<Rightarrow> cli \<Rightarrow> int \<times> cli" where
  "wait_server_lines_and_check pre_str k =
     (let ls = List.map_filter is_line (inbox k)
      in (int (length (filter (line_starts pre_str) ls)), k\<lparr>inbox := [], log := log k @ map Printed ls\<rparr>))"

definition c_wait_server_lines :: "cli \<Rightarrow> cli" where
  "c_wait_server_lines k = snd (wait_server_lines_and_check [] k)"

definition c_list_jobs :: "command_line \<Rightarrow> cli \<Rightarrow> cli" where
  "c_list_jobs c k = put_msg (LIST (cl_list_format c) (cl_jobid c)) k"

definition c_list_jobs_all :: "command_line \<Rightarrow> cli \<Rightarrow> cli" where
  "c_list_jobs_all c k = put_msg (LIST_ALL (cl_list_format c) 0) k"

definition c_refresh_user :: "cli \<Rightarrow> cli" where
  "c_refresh_user k = put_msg REFRESH_USERS k"

definition c_lock_server :: "cli \<Rightarrow> int outcome" where
  "c_lock_server k = (case wait_server_lines_and_check ''Error:'' (put_msg LOCK_SERVER k) of (n, k') \<Rightarrow> Ret n k')"

definition c_unlock_server :: "cli \<Rightarrow> int outcome" where
  "c_unlock_server k = (case wait_server_lines_and_check ''Error:'' (put_msg UNLOCK_SERVER k) of (n, k') \<Rightarrow> Ret n k')"

definition c_suspend_user :: "int \<Rightarrow> cli \<Rightarrow> cli" where
  "c_suspend_user ident k = put_msg (SUSPEND_USER ident) k"

definition c_resume_user :: "int \<Rightarrow> cli \<Rightarrow> cli" where
  "c_resume_user ident k = put_msg (RESUME_USER ident) k"

definition c_hold_job :: "int \<Rightarrow> cli \<Rightarrow> cli" where
  "c_hold_job jid k = c_wait_server_lines (put_msg (HOLD_JOB jid) k)"

text \<open>The second wait finds the connection at its end.\<close>

definition lines_twice :: "cli \<Rightarrow> cli" where
  "lines_twice k = (case wait_server_lines_and_check ''Error'' k of (n, k') \<Rightarrow> if n = 0 then c_wait_server_lines k' else k')"

definition c_cont_job :: "int \<Rightarrow> cli \<Rightarrow> cli" where
  "c_cont_job jid k = lines_twice (put_msg (CONT_JOB jid) k)"

definition c_requeue_job :: "int \<Rightarrow> cli \<Rightarrow> cli" where
  "c_requeue_job jid k = lines_twice (put_msg (REQUEUE_JOB jid) k)"

text \<open>
  \<open>c_show_info\<close>: the information block is copied as it comes, to the end of the connection. The memory
  of the process, which the client then reads from the system itself, is left out.
\<close>

fun show_info_loop :: "answer list \<Rightarrow> cevent list" where
  "show_info_loop [] = []"
| "show_info_loop (a # as) =
     (case a of LIST_LINE l \<Rightarrow> Printed l # show_info_loop as | INFO_DATA ls \<Rightarrow> map Printed ls | _ \<Rightarrow> show_info_loop as)"

definition c_show_info :: "command_line \<Rightarrow> cli \<Rightarrow> cli" where
  "c_show_info c k = (let k' = put_msg (INFO (cl_jobid c)) k in k'\<lparr>inbox := [], log := log k' @ show_info_loop (inbox k')\<rparr>)"

section \<open>Requests with one answer\<close>

definition c_check_version :: "cli \<Rightarrow> unit outcome" where
  "c_check_version k =
     (case recv_msg (put_msg GET_VERSION (put_msg GET_VERSION k)) of (a, k') \<Rightarrow>
        if a = Some (VERSION PROTOCOL_VERSION) then Ret () (snd (recv_msg k'))
        else cerror ''Wrong server version. Received %i, expecting %i'' k')"

text \<open>There is no \<open>break\<close> after the good case, so the warning follows the number.\<close>

definition c_show_last_id :: "cli \<Rightarrow> unit outcome" where
  "c_show_last_id k =
     expect ''Error in get_output_file'' (\<lambda>a k'.
       Ret () (note_ev (Warned ''Wrong internal message in get_output_file line size'')
         (case a of LAST_ID j \<Rightarrow> note_ev (Printed (Line ''%d'' [AInt j])) k' | _ \<Rightarrow> k'))) (put_msg REQ_LAST_ID k)"

definition confirmed :: "cli \<Rightarrow> bool" where
  "confirmed k = (take 3 (typed k) = ''Yes'')"

definition ask :: "string \<Rightarrow> string \<Rightarrow> cli \<Rightarrow> bool \<times> cli" where
  "ask question yes k = (let k' = say question [] k in if confirmed k then (True, say yes [] k') else (False, k'))"

definition c_shutdown_server :: "int \<Rightarrow> cli \<Rightarrow> cli" where
  "c_shutdown_server u k =
     (if u \<noteq> 0 then say ''Only the root can shutdown the task-spooler server'' [] k
      else case ask ''Do you want to kill the task-spooler server? (Yes/no) '' ''Kill the server!'' k of
        (go, k') \<Rightarrow> if go then put_msg KILL_SERVER k' else k')"

definition c_clear_finished :: "int \<Rightarrow> cli \<Rightarrow> cli" where
  "c_clear_finished u k =
     (if u = 0
      then case ask ''Do you want to clear all the finished jobs on the task-spooler server? (Yes/no) '' ''Clear the finished!'' k of
        (go, k') \<Rightarrow> if go then put_msg CLEAR_FINISHED k' else k'
      else put_msg CLEAR_FINISHED k)"

text \<open>The output file and the process of a job; the process stays as it was after a wrong answer.\<close>

definition get_output_file :: "command_line \<Rightarrow> int \<Rightarrow> cli \<Rightarrow> (string option \<times> int) outcome" where
  "get_output_file c pid0 k =
     expect ''Error in get_output_file'' (\<lambda>a k'.
       case a of
         ANSWER_OUTPUT st p f \<Rightarrow> Ret (if st \<noteq> 0 then f else None, p) k'
       | LIST_LINE l \<Rightarrow> refused l k'
       | _ \<Rightarrow> Ret (None, pid0) (note_ev (Warned ''Wrong internal message in get_output_file line size'') k'))
     (put_msg (ASK_OUTPUT (cl_jobid c)) k)"

definition c_wait_running_job_send :: "command_line \<Rightarrow> cli \<Rightarrow> cli" where
  "c_wait_running_job_send c k = put_msg (WAIT_RUNNING_JOB (cl_jobid c)) k"

definition c_wait_job_recv :: "cli \<Rightarrow> int outcome" where
  "c_wait_job_recv k =
     expect ''Error in wait_job'' (\<lambda>a k'.
       case a of WAITJOB_OK e \<Rightarrow> Ret e k' | LIST_LINE l \<Rightarrow> refused l k'
       | _ \<Rightarrow> Ret (- 1) (note_ev (Warned ''Wrong internal message in c_wait_job'') k')) k"

text \<open>
  \<open>tail_file\<close> shows a number of lines of the file, all of them for -1, and returns what the server
  answers when the job is over, as long as the standard output takes the text.
\<close>

definition show_file :: "string \<Rightarrow> int \<Rightarrow> command_line \<Rightarrow> cli \<Rightarrow> int outcome" where
  "show_file err n c k =
     cbind (get_output_file c (junk k) k) (\<lambda>(f, p) k'.
       case f of None \<Rightarrow> cerror err k' | Some t \<Rightarrow> c_wait_job_recv (note_ev (Tailed t n) (c_wait_running_job_send c k')))"

definition c_tail :: "command_line \<Rightarrow> cli \<Rightarrow> int outcome" where
  "c_tail c k = show_file ''Error: the output is not stored. Cannot tail.'' 10 c k"

definition c_cat :: "command_line \<Rightarrow> cli \<Rightarrow> int outcome" where
  "c_cat c k = show_file ''Error: the output is not stored. Cannot cat.'' (- 1) c k"

definition c_show_output_file :: "command_line \<Rightarrow> cli \<Rightarrow> unit outcome" where
  "c_show_output_file c k =
     cbind (get_output_file c (junk k) k) (\<lambda>(f, p) k'.
       case f of None \<Rightarrow> cerror ''Error: the output is not stored.'' k'
       | Some t \<Rightarrow> Ret () (note_ev (Printed (Line ''%s'' [AStr t])) k'))"

definition c_show_pid :: "command_line \<Rightarrow> cli \<Rightarrow> unit outcome" where
  "c_show_pid c k =
     cbind (get_output_file c (junk k) k) (\<lambda>(f, p) k'. Ret () (note_ev (Printed (Line ''%i'' [AInt p])) k'))"

definition c_find_pid :: "command_line \<Rightarrow> cli \<Rightarrow> int outcome" where
  "c_find_pid c k =
     expect ''Error in c_find_pid'' (\<lambda>a k'.
       case a of FIND_PID_RESULT j \<Rightarrow> Ret j k' | _ \<Rightarrow> cerror ''Wrong message type in c_find_pid: %i'' k')
     (put_msg (FIND_PID (taskpid c) True) k)"

definition c_kill_job :: "command_line \<Rightarrow> cli \<Rightarrow> unit outcome" where
  "c_kill_job c k =
     cbind (get_output_file c 0 k) (\<lambda>(f, p) k'.
       if p = - 1 \<or> p = 0 then cerror ''Error: strange PID received: %i'' k'
       else Ret () (note_ev (Killed (- p) SIGTERM) (note_ev (Printed (Line ''kill the pid: %d'' [AInt p])) k')))"

text \<open>As many process numbers follow as the answer says.\<close>

fun kill_pids :: "nat \<Rightarrow> cli \<Rightarrow> unit outcome" where
  "kill_pids 0 k = Ret () k"
| "kill_pids (Suc n) k =
     (case recv_msg k of
        (Some (RAW_PID p), k') \<Rightarrow> kill_pids n (note_ev (Killed (- p) SIGTERM) k')
      | (_, k') \<Rightarrow> cerror ''Error in receiving PID kill_all'' k')"

definition c_kill_all_jobs :: "int \<Rightarrow> cli \<Rightarrow> unit outcome" where
  "c_kill_all_jobs u k =
     (case ask (if u = 0 then ''Do you want to kill all jobs in [Root]? (Yes/n) '' else ''Do you want to kill all jobs by this user? (Yes/n) '')
        ''Kill all jobs!'' k of (go, k1) \<Rightarrow>
      if \<not> go then Ret () k1
      else expect ''Error in kill_all'' (\<lambda>a k'.
        case a of COUNT_RUNNING n \<Rightarrow> kill_pids (nat n) k' | _ \<Rightarrow> Ret () (note_ev (Warned ''Wrong internal message in kill_all'') k'))
        (put_msg (KILL_ALL DEFAULT 0) k1))"

text \<open>A running job is killed instead.\<close>

definition c_remove_job :: "command_line \<Rightarrow> cli \<Rightarrow> unit outcome" where
  "c_remove_job c k =
     expect ''Error in remove_job'' (\<lambda>a k'.
       case a of
         REMOVEJOB_OK \<Rightarrow> Ret () k'
       | REMOVEJOB_NOK l \<Rightarrow>
           if line_starts ''Running job'' l then c_kill_job c (note_ev (Printed l) k')
           else Exit 1 (note_ev (Printed l) (note_ev (Warned ''Error: '') k'))
       | _ \<Rightarrow> Ret () (note_ev (Warned ''Wrong internal message in remove_job'') k'))
     (put_msg (REMOVEJOB (cl_jobid c)) k)"

definition c_wait_job_send :: "command_line \<Rightarrow> cli \<Rightarrow> cli" where
  "c_wait_job_send c k = put_msg (WAITJOB (cl_jobid c)) k"

definition c_wait_job :: "command_line \<Rightarrow> cli \<Rightarrow> int outcome" where
  "c_wait_job c k = c_wait_job_recv (c_wait_job_send c k)"

definition c_wait_running_job :: "command_line \<Rightarrow> cli \<Rightarrow> int outcome" where
  "c_wait_running_job c k = c_wait_job_recv (c_wait_running_job_send c k)"

definition c_send_max_slots :: "command_line \<Rightarrow> cli \<Rightarrow> cli" where
  "c_send_max_slots c k = put_msg (SET_MAX_SLOTS (cl_max_slots c)) k"

definition c_get_max_slots :: "cli \<Rightarrow> unit outcome" where
  "c_get_max_slots k =
     expect ''Error in move_urgent'' (\<lambda>a k'.
       case a of GET_MAX_SLOTS_OK n \<Rightarrow> Ret () (note_ev (Printed (Line ''Max slots: %i'' [AInt n])) k')
       | _ \<Rightarrow> Ret () (note_ev (Warned ''Wrong internal message in get_max_slots'') k')) (put_msg GET_MAX_SLOTS k)"

definition c_move_urgent :: "command_line \<Rightarrow> cli \<Rightarrow> unit outcome" where
  "c_move_urgent c k =
     expect ''Error in move_urgent'' (\<lambda>a k'.
       case a of URGENT_OK \<Rightarrow> Ret () k' | LIST_LINE l \<Rightarrow> refused l k'
       | _ \<Rightarrow> Ret () (note_ev (Warned ''Wrong internal message in move_urgent'') k')) (put_msg (URGENT (cl_jobid c)) k)"

definition c_get_state :: "command_line \<Rightarrow> cli \<Rightarrow> unit outcome" where
  "c_get_state c k =
     expect ''Error in get_state - line size'' (\<lambda>a k'.
       case a of ANSWER_STATE st \<Rightarrow> Ret () (note_ev (Printed (Line ''%s'' [AStr (jstate2string st)])) k')
       | LIST_LINE l \<Rightarrow> refused l k'
       | _ \<Rightarrow> Ret () (note_ev (Warned ''Wrong internal message in get_state'') k')) (put_msg (GET_STATE (cl_jobid c)) k)"

definition c_swap_jobs :: "command_line \<Rightarrow> cli \<Rightarrow> unit outcome" where
  "c_swap_jobs c k =
     expect ''Error in swap_jobs'' (\<lambda>a k'.
       case a of SWAP_JOBS_OK \<Rightarrow> Ret () k' | LIST_LINE l \<Rightarrow> refused l k'
       | _ \<Rightarrow> Ret () (note_ev (Warned ''Wrong internal message in swap_jobs'') k'))
     (put_msg (SWAP_JOBS (cl_jobid c) (jobid2 c)) k)"

definition c_get_count_running :: "cli \<Rightarrow> unit outcome" where
  "c_get_count_running k =
     expect ''Error in count_running - line size'' (\<lambda>a k'.
       case a of COUNT_RUNNING n \<Rightarrow> Ret () (note_ev (Printed (Line ''%i'' [AInt n])) k')
       | _ \<Rightarrow> Ret () (note_ev (Warned ''Wrong internal message in count_running'') k')) (put_msg REQ_COUNT_RUNNING k)"

text \<open>The requests whose answer is one line.\<close>

definition print_one :: "string \<Rightarrow> string \<Rightarrow> msg \<Rightarrow> cli \<Rightarrow> unit outcome" where
  "print_one err warn m k =
     expect err (\<lambda>a k'. case a of LIST_LINE l \<Rightarrow> Ret () (note_ev (Printed l) k') | _ \<Rightarrow> Ret () (note_ev (Warned warn) k'))
       (put_msg m k)"

definition c_show_label :: "command_line \<Rightarrow> cli \<Rightarrow> unit outcome" where
  "c_show_label c k = print_one ''Error in get_label'' ''Wrong internal message in get_label'' (GET_LABEL (cl_jobid c)) k"

definition c_add_wtime :: "int \<Rightarrow> command_line \<Rightarrow> cli \<Rightarrow> unit outcome" where
  "c_add_wtime u c k =
     (if u \<noteq> 0 then cerror ''Error: Only the root can change the job's wall time!'' k
      else if cl_jobid c = 0 then cerror ''Error: job ID is not specified. Use --job [jobid] or -J [jobid].'' k
      else print_one ''Error in get_label'' ''Wrong internal message in c_extend_walltime()''
             (ADD_WTIME (cl_jobid c) (cl_wall_time c)) k)"

definition c_show_cmd :: "command_line \<Rightarrow> cli \<Rightarrow> unit outcome" where
  "c_show_cmd c k = print_one ''Error in show_cmd'' ''Wrong internal message in show_cmd'' (GET_CMD (cl_jobid c)) k"

text \<open>After another answer the path to print is a null pointer.\<close>

definition c_get_logdir :: "cli \<Rightarrow> unit outcome" where
  "c_get_logdir k =
     expect ''Error in get_logdir'' (\<lambda>a k'. case a of LIST_LINE l \<Rightarrow> Ret () (note_ev (Printed l) k')
         | _ \<Rightarrow> Exit 139 (note_ev (Warned ''Wrong internal message in get_logdir'') k')) (put_msg GET_LOGDIR k)"

text \<open>The text of these requests is the label of the command line, which their options set.\<close>

definition c_set_logdir :: "string \<Rightarrow> cli \<Rightarrow> cli" where
  "c_set_logdir t k = put_msg (SET_LOGDIR t) k"

definition c_get_env :: "string \<Rightarrow> cli \<Rightarrow> unit outcome" where
  "c_get_env t k = print_one ''Error in get_env'' ''Wrong internal message in get_env'' (GET_ENV (Some t)) k"

definition c_set_env :: "string \<Rightarrow> cli \<Rightarrow> cli" where
  "c_set_env t k = put_msg (SET_ENV (Some t)) k"

definition c_unset_env :: "string \<Rightarrow> cli \<Rightarrow> cli" where
  "c_unset_env t k = put_msg (UNSET_ENV (Some t)) k"

section \<open>Lemmas\<close>

lemma put_msg_fields [simp]: "inbox (put_msg m k) = inbox k" "log (put_msg m k) = log k @ [Sent m]" "typed (put_msg m k) = typed k"
  by (simp_all add: put_msg_def note_ev_def)

lemma note_ev_fields [simp]: "inbox (note_ev ev k) = inbox k" "log (note_ev ev k) = log k @ [ev]" "typed (note_ev ev k) = typed k"
  by (simp_all add: note_ev_def)

text \<open>The text shown for a submitted job is its command, whatever options came before it.\<close>

lemma newjob_strip:
  assumes "parse_opts e ws = Inr c" "cl_command c \<noteq> []"
  shows "\<exists>m t. newjob_of c path myenv = Inr m \<and> charArray_string (cl_command c) = Inr t \<and> m_command m = Some (linux_cmd c)
    \<and> 0 < m_command_strip m \<and> drop (nat (m_command_strip m)) (linux_cmd c) = t"
proof -
  obtain v t where t: "charArray_string (cl_command c) = Inr t" "linux_cmd c = v @ '' '' @ t"
    using parse_opts_queue [OF assms] by blast
  then have "nat (int (length (linux_cmd c)) - int (length t)) = length (v @ '' '')" by simp
  then have "drop (nat (int (length (linux_cmd c)) - int (length t))) (linux_cmd c) = t" using t(2) by simp
  then show ?thesis using t by (simp add: newjob_of_def)
qed

end
