(* ===== verification/Client_Run.thy ===== *)
theory Client_Run
  imports Client On_Finish
begin

text \<open>
  Running a job: the child process of \<open>execute.c\<close> with its attempts, what the parent reports,
  and \<open>c_wait_server_commands\<close> of \<open>client.c\<close>, which waits for the order to run, runs the job and
  reports its end, over any number of lost connections. \<open>main\<close> of \<open>main.c\<close> is at the end.
\<close>

section \<open>The child process\<close>

datatype wstatus = Exited int | Signaled int | Other_status

definition output_label :: "command_line \<Rightarrow> string" where
  "output_label c = (case logfile c of Some f \<Rightarrow> f | None \<Rightarrow> (case cl_label c of Some l \<Rightarrow> l | None \<Rightarrow> ''ts_out''))"

definition output_name :: "command_line \<Rightarrow> string \<Rightarrow> int \<Rightarrow> string" where
  "output_name c tmpdir jid =
     (case outfile c of Some f \<Rightarrow> f | None \<Rightarrow> tmpdir @ ''/'' @ output_label c @ ''.'' @ show_int jid)"

text \<open>
  The attempts: what the command ends with at each of them and after how many seconds. A short
  failure is tried again, except for the codes of a command that cannot be run.
\<close>

fun retry_loop :: "(nat \<Rightarrow> wstatus \<times> int) \<Rightarrow> nat \<Rightarrow> nat \<Rightarrow> wstatus \<times> nat" where
  "retry_loop w i n =
     (case w i of
        (Exited code, elapsed) \<Rightarrow>
          (case n of Suc m \<Rightarrow>
             if code \<noteq> 0 \<and> code \<noteq> 126 \<and> code \<noteq> 127 \<and> elapsed \<le> 15 then retry_loop w (i + 1) m else (Exited code, i + 1)
           | 0 \<Rightarrow> (Exited code, i + 1))
      | (Signaled sig, elapsed) \<Rightarrow> (Signaled sig, i + 1)
      | (Other_status, elapsed) \<Rightarrow> (Exited 1, i + 1))"

text \<open>What the system makes of one run: the process, the attempts and the times.\<close>

record child_run =
  r_pid :: int
  attempts :: "nat \<Rightarrow> wstatus \<times> int"
  r_real :: int
  r_user :: int
  r_sys :: int

text \<open>\<open>run_parent\<close>: the result from the status of the child.\<close>

definition parent_result :: "wstatus \<Rightarrow> child_run \<Rightarrow> result_t" where
  "parent_result st w =
     (case st of
        Exited code \<Rightarrow> default_result\<lparr>errorlevel := code\<rparr>
      | Signaled sig \<Rightarrow> default_result\<lparr>signal := sig, errorlevel := - 1, died_by_signal := 1\<rparr>
      | Other_status \<Rightarrow> default_result\<lparr>errorlevel := - 1\<rparr>)
     \<lparr>real_sec := r_real w, user_sec := r_user w, system_sec := r_sys w\<rparr>"

definition c_send_runjob_ok :: "command_line \<Rightarrow> string option \<Rightarrow> int \<Rightarrow> msg" where
  "c_send_runjob_ok c ofname p = RUNJOB_OK (if ofname \<noteq> None \<and> cl_store_output c then Some ofname else None) p"

text \<open>The order to run carries the error level of the dependencies.\<close>

definition skips :: "command_line \<Rightarrow> int \<Rightarrow> bool" where
  "skips c le = (cl_depend_on c \<noteq> [] \<and> require_elevel c \<and> le \<noteq> 0)"

definition skipped_result :: result_t where
  "skipped_result = default_result\<lparr>errorlevel := - 1, skipped := 1\<rparr>"

record run_report =
  rep_result :: result_t
  rt_pid :: int
  rt_output :: "string option"

definition run_job :: "command_line \<Rightarrow> string \<Rightarrow> child_run \<Rightarrow> int \<Rightarrow> cevent list \<times> run_report" where
  "run_job c path w jid =
     (let f = (if cl_store_output c then Some (output_name c path jid) else None) in
      ([Sent (c_send_runjob_ok c f (r_pid w)), Ran jid (cl_command c)],
       \<lparr>rep_result = parent_result (fst (retry_loop (attempts w) 0 (nat (n_retry c)))) w, rt_pid = r_pid w,
        rt_output = (if on_finish_cmd c = None then None else f)\<rparr>))"

definition run_or_skip :: "command_line \<Rightarrow> string \<Rightarrow> child_run \<Rightarrow> int \<Rightarrow> int \<Rightarrow> cevent list \<times> run_report" where
  "run_or_skip c path w jid le =
     (if skips c le
      then ([Sent (c_send_runjob_ok c None (- 1))], \<lparr>rep_result = skipped_result, rt_pid = 0, rt_output = None\<rparr>)
      else run_job c path w jid)"

section \<open>Waiting for the server\<close>

text \<open>
  A connection is the list of the answers that come over it; all but the last one break after
  their last answer, the last one stays silent. \<open>None\<close>: the client still waits.

  \<open>claim_end\<close> is the loop that opens one connection after the other until the end of the job is
  acknowledged.
\<close>

fun claim_end :: "int \<Rightarrow> run_report \<Rightarrow> answer list list \<Rightarrow> cevent list \<Rightarrow>
    (result_t \<times> procinfo \<times> int) option option \<times> cevent list" where
  "claim_end jid r [] es = (None, es)"
| "claim_end jid r (as # ss) es =
     (let es1 = es @ [Sent (RECONNECT jid (rt_pid r))]; es2 = es1 @ [Sent (ENDJOB (rep_result r))] in
      case as of
        [] \<Rightarrow> claim_end jid r ss es1
      | a # bs \<Rightarrow>
          (case a of
             RECONNECT_OK j \<Rightarrow>
               (case bs of
                  [] \<Rightarrow> claim_end jid r ss es2
                | b # _ \<Rightarrow> (case b of ENDJOB_OK j' i \<Rightarrow> (Some i, es2) | _ \<Rightarrow> claim_end jid r ss es2))
           | _ \<Rightarrow> claim_end jid r ss es1))"

definition report_end :: "int \<Rightarrow> run_report \<Rightarrow> answer list \<Rightarrow> answer list list \<Rightarrow> cevent list \<Rightarrow>
    (result_t \<times> procinfo \<times> int) option option \<times> cevent list" where
  "report_end jid r as ss es =
     (let es1 = es @ [Sent (ENDJOB (rep_result r))] in
      case as of [] \<Rightarrow> claim_end jid r ss es1
      | a # _ \<Rightarrow> (case a of ENDJOB_OK j i \<Rightarrow> (Some i, es1) | _ \<Rightarrow> claim_end jid r ss es1))"

definition finish_values_of :: "command_line \<Rightarrow> run_report \<Rightarrow> (result_t \<times> procinfo \<times> int) option \<Rightarrow> finish_values" where
  "finish_values_of c r i =
     (let (x, p, n) = (case i of None \<Rightarrow> (default_result, zero_info, 0) | Some y \<Rightarrow> y) in
      \<lparr>v_jobid = cl_jobid c, v_output = rt_output r, v_exitid = errorlevel (rep_result r), v_pid = rt_pid r,
       v_label = cl_label c, v_command = Some (linux_cmd c), v_real_sec = real_sec x, v_user_sec = user_sec x,
       v_sys_sec = system_sec x, v_pause = pause_duration p, v_start = start_time p, v_enqueue = enqueue_time p,
       v_end = end_time p, v_slots = n\<rparr>)"

definition run_on_finish :: "command_line \<Rightarrow> run_report \<Rightarrow> (result_t \<times> procinfo \<times> int) option \<Rightarrow> cevent list res" where
  "run_on_finish c r i =
     (case on_finish_cmd c of None \<Rightarrow> Inr []
      | Some tmpl \<Rightarrow> rbind (expand_template (finish_values_of c r i) tmpl (0, 0, 0)) (\<lambda>(t, qs). Inr [Shell t]))"

text \<open>The order to run, and everything after it.\<close>

definition obey :: "command_line \<Rightarrow> string \<Rightarrow> child_run \<Rightarrow> int \<Rightarrow> int \<Rightarrow> answer list \<Rightarrow> answer list list \<Rightarrow> cevent list \<Rightarrow>
    (int option \<times> cevent list) res" where
  "obey c path w jid le as ss es =
     (case run_or_skip c path w jid le of (es1, r) \<Rightarrow>
        (case report_end (cl_jobid c) r as ss (es @ es1) of
           (None, es2) \<Rightarrow> Inr (None, es2)
         | (Some i, es2) \<Rightarrow> rbind (run_on_finish c r i) (\<lambda>es3. Inr (Some (errorlevel (rep_result r)), es2 @ es3))))"

text \<open>The first answer on a new connection is taken for the one to the reconnection and dropped.\<close>

fun c_wait_server_commands :: "command_line \<Rightarrow> string \<Rightarrow> child_run \<Rightarrow> answer list \<Rightarrow> answer list list \<Rightarrow> cevent list \<Rightarrow>
    (int option \<times> cevent list) res" where
  "c_wait_server_commands c path w [] [] es = Inr (None, es)"
| "c_wait_server_commands c path w [] (as # ss) es =
     c_wait_server_commands c path w (drop 1 as) ss (es @ [Sent (RECONNECT (cl_jobid c) 0)])"
| "c_wait_server_commands c path w (a # as) ss es =
     (case a of RUNJOB jid le \<Rightarrow> obey c path w jid le as ss es
      | _ \<Rightarrow> c_wait_server_commands c path w as ss es)"

section \<open>The switch of main\<close>

text \<open>Who is suspended or resumed: \<open>None\<close> when the client gives up. 0 stands for everybody.\<close>

definition target_user :: "(string \<Rightarrow> int option) \<Rightarrow> int \<Rightarrow> command_line \<Rightarrow> int option" where
  "target_user pw u c =
     (case cl_label c of None \<Rightarrow> Some u
      | Some nm \<Rightarrow> if u = 0 then pw nm else None)"

text \<open>The two cases are the same but for their texts: refused, no such user, one user, everybody.\<close>

definition user_request :: "string \<times> string \<times> string \<times> string \<Rightarrow> (int \<Rightarrow> cli \<Rightarrow> cli) \<Rightarrow> (string \<Rightarrow> int option) \<Rightarrow> int \<Rightarrow>
    command_line \<Rightarrow> cli \<Rightarrow> int outcome" where
  "user_request msgs send pw u c k =
     (case msgs of (no, unknown, one, all) \<Rightarrow>
        (case target_user pw u c of
           None \<Rightarrow> Exit 255 (say (if u = 0 then unknown else no) [AStr (the (cl_label c))] k)
         | Some t \<Rightarrow> Ret 0 (c_wait_server_lines (send t (if t \<noteq> 0 then say one [AInt t] k else say all [] k)))))"

definition done0 :: "cli \<Rightarrow> int outcome" where
  "done0 k = Ret 0 k"

definition ok0 :: "unit outcome \<Rightarrow> int outcome" where
  "ok0 m = cbind m (\<lambda>_. done0)"

text \<open>\<open>strlen\<close> of a null pointer ends the process with signal 11.\<close>

definition with_text :: "command_line \<Rightarrow> (string \<Rightarrow> cli \<Rightarrow> int outcome) \<Rightarrow> cli \<Rightarrow> int outcome" where
  "with_text c f k = (case cl_label c of None \<Rightarrow> Exit 139 k | Some t \<Rightarrow> f t k)"

text \<open>
  All requests but a submission; \<open>u\<close> is the user of the client, \<open>pw\<close> the password database. The
  texts of help and version are left out.
\<close>

definition main_request :: "(string \<Rightarrow> int option) \<Rightarrow> int \<Rightarrow> command_line \<Rightarrow> cli \<Rightarrow> int outcome" where
  "main_request pw u c k =
     (case request c of
        c_REFRESH_USER \<Rightarrow> done0 (if u = 0 then c_wait_server_lines (c_refresh_user k)
          else note_ev (Printed (Line ''Only the root can refresh the task-spooler user configurations'' [])) k)
      | c_DAEMON \<Rightarrow> done0 k | c_ONLY_DAEMON \<Rightarrow> done0 k | c_CHECK_DAEMON \<Rightarrow> done0 k
      | c_HOLD_JOB \<Rightarrow> done0 (c_hold_job (cl_jobid c) k)
      | c_CONT_JOB \<Rightarrow> done0 (c_cont_job (cl_jobid c) k)
      | c_LOCK_SERVER \<Rightarrow> c_lock_server k
      | c_UNLOCK_SERVER \<Rightarrow> c_unlock_server k
      | c_SUSPEND_USER \<Rightarrow> user_request (''Error: Cannot stop the user %s'', ''Error: Cannot find user: %s to stop'',
          ''To stop user ID: %d'', ''To stop all users by `Root`'') c_suspend_user pw u c k
      | c_RESUME_USER \<Rightarrow> user_request (''Error: Cannot resume the user %s'', ''Error: Cannot find user: %s to resume'',
          ''To resume user ID: %d'', ''To resume all users from `Root`'') c_resume_user pw u c k
      | c_SHOW_VERSION \<Rightarrow> done0 k | c_SHOW_HELP \<Rightarrow> done0 k
      | c_QUEUE \<Rightarrow> done0 k
      | c_LIST_ALL \<Rightarrow> done0 (c_wait_server_lines (c_list_jobs_all c k))
      | c_LIST \<Rightarrow> done0 (c_wait_server_lines (c_list_jobs c k))
      | c_KILL_SERVER \<Rightarrow> done0 (c_shutdown_server u k)
      | c_CLEAR_FINISHED \<Rightarrow> done0 (c_clear_finished u k)
      | c_TAIL \<Rightarrow> c_tail c k
      | c_CAT \<Rightarrow> c_cat c k
      | c_SHOW_OUTPUT_FILE \<Rightarrow> ok0 (c_show_output_file c k)
      | c_SHOW_PID \<Rightarrow> ok0 (c_show_pid c k)
      | c_KILL_ALL \<Rightarrow> ok0 (c_kill_all_jobs u k)
      | c_KILL_JOB \<Rightarrow> ok0 (c_kill_job c k)
      | c_INFO \<Rightarrow> done0 (c_show_info c k)
      | c_LAST_ID \<Rightarrow> ok0 (c_show_last_id k)
      | c_GET_LABEL \<Rightarrow> ok0 (c_show_label c k)
      | c_ADD_WTIME \<Rightarrow> ok0 (c_add_wtime u c k)
      | c_REQUEUE_JOB \<Rightarrow> done0 (c_requeue_job (cl_jobid c) k)
      | c_SHOW_CMD \<Rightarrow> ok0 (c_show_cmd c k)
      | c_REMOVEJOB \<Rightarrow> ok0 (c_remove_job c k)
      | c_WAITJOB \<Rightarrow> c_wait_job c k
      | c_URGENT \<Rightarrow> ok0 (c_move_urgent c k)
      | c_SET_MAX_SLOTS \<Rightarrow> done0 (if u \<noteq> 0 then note_ev (Printed (Line ''Reset max slots is only supported by root user!'' [])) k
          else c_wait_server_lines (c_send_max_slots c k))
      | c_GET_MAX_SLOTS \<Rightarrow> ok0 (c_get_max_slots k)
      | c_SWAP_JOBS \<Rightarrow> ok0 (c_swap_jobs c k)
      | c_COUNT_RUNNING \<Rightarrow> ok0 (c_get_count_running k)
      | c_GET_STATE \<Rightarrow> ok0 (c_get_state c k)
      | c_GET_LOGDIR \<Rightarrow> ok0 (c_get_logdir k)
      | c_SET_LOGDIR \<Rightarrow> with_text c (\<lambda>t k. done0 (c_set_logdir t k)) k
      | c_GET_ENV \<Rightarrow> with_text c (\<lambda>t k. ok0 (c_get_env t k)) k
      | c_SET_ENV \<Rightarrow> with_text c (\<lambda>t k. done0 (c_set_env t k)) k
      | c_UNSET_ENV \<Rightarrow> with_text c (\<lambda>t k. done0 (c_unset_env t k)) k
      | c_FIND_PID \<Rightarrow> cbind (c_find_pid c k) (\<lambda>j k'. done0 (note_ev (Printed (Line ''%i'' [AInt j])) k')))"

text \<open>
  A submission: the client leaves with the code of the refusal, or waits for the order to run.
  The answers that follow the acceptance are the first connection of the wait. In the background
  the exit code is 0 whatever the job ended with.
\<close>

definition main_queue :: "command_line \<Rightarrow> string \<Rightarrow> string option \<Rightarrow> child_run \<Rightarrow> cli \<Rightarrow> answer list list \<Rightarrow>
    (int option \<times> cevent list) res" where
  "main_queue c path myenv w k ss =
     (if cl_command c = [] then Inl (Error_exit ''Tried to queue a void command. parameters: %i'')
      else rbind (c_new_job c path myenv k) (\<lambda>k1.
        case c_wait_newjob_ok k1 of
          Exit n k2 \<Rightarrow> Inr (Some n, log k2)
        | Ret jid k2 \<Rightarrow>
            rbind (c_wait_server_commands (c\<lparr>cl_jobid := jid\<rparr>) path w (inbox k2) ss
              (log k2 @ (if cl_store_output c then [Printed (Line ''New JobID: %i'' [AInt jid])] else [])))
            (\<lambda>(x, es). Inr (if should_go_background c then map_option (\<lambda>_. 0) x else x, es))))"

section \<open>Lemmas\<close>

text \<open>The attempts that are made, and which of them gives the result.\<close>

definition short_failure :: "wstatus \<times> int \<Rightarrow> bool" where
  "short_failure x = (case x of (Exited code, elapsed) \<Rightarrow> code \<noteq> 0 \<and> code \<noteq> 126 \<and> code \<noteq> 127 \<and> elapsed \<le> 15 | _ \<Rightarrow> False)"

definition child_status :: "wstatus \<Rightarrow> wstatus" where
  "child_status st = (case st of Other_status \<Rightarrow> Exited 1 | _ \<Rightarrow> st)"

declare retry_loop.simps [simp del]

lemma retry_step:
  "retry_loop w i n = (if short_failure (w i) \<and> 0 < n then retry_loop w (i + 1) (n - 1) else (child_status (fst (w i)), i + 1))"
  by (subst retry_loop.simps) (auto simp: short_failure_def child_status_def split: wstatus.splits nat.splits prod.splits)

lemma retry_attempts:
  "retry_loop w i n = (st, k) \<Longrightarrow>
     i < k \<and> k \<le> i + n + 1 \<and> st = child_status (fst (w (k - 1))) \<and> (\<forall>j. i \<le> j \<and> j < k - 1 \<longrightarrow> short_failure (w j))
     \<and> (k \<le> i + n \<longrightarrow> \<not> short_failure (w (k - 1)))"
proof (induction n arbitrary: i)
  case 0
  then show ?case using retry_step [of w i 0] by auto
next
  case (Suc n)
  show ?case
  proof (cases "short_failure (w i)")
    case True
    then have "retry_loop w (i + 1) n = (st, k)" using Suc.prems retry_step [of w i "Suc n"] by simp
    note h = Suc.IH [OF this]
    moreover have "short_failure (w j)" if "i \<le> j" "j < k - 1" for j
      using h True that by (cases "j = i") auto
    ultimately show ?thesis by auto
  next
    case False
    then show ?thesis using Suc.prems retry_step [of w i "Suc n"] by auto
  qed
qed

fun is_ran :: "cevent \<Rightarrow> bool" where
  "is_ran (Ran j cmd) = True"
| "is_ran ev = False"

lemma claim_end_log:
  "claim_end jid r ss es = (x, es') \<Longrightarrow>
   \<exists>fs. es' = es @ fs \<and> set fs \<subseteq> {Sent (RECONNECT jid (rt_pid r)), Sent (ENDJOB (rep_result r))}
     \<and> (\<forall>i. x = Some i \<longrightarrow> (\<exists>j. ENDJOB_OK j i \<in> set (concat ss)))"
proof (induction ss arbitrary: es)
  case (Cons as ss)
  let ?e1 = "es @ [Sent (RECONNECT jid (rt_pid r))]"
  let ?e2 = "?e1 @ [Sent (ENDJOB (rep_result r))]"
  consider "claim_end jid r ss ?e1 = (x, es')" | "claim_end jid r ss ?e2 = (x, es')"
    | j i where "x = Some i" "es' = ?e2" "ENDJOB_OK j i \<in> set as"
    using Cons.prems by (auto simp: Let_def split: list.splits answer.splits)
  then show ?case
  proof cases
    case 1
    from Cons.IH [OF this] show ?thesis by fastforce
  next
    case 2
    from Cons.IH [OF this] show ?thesis by fastforce
  next
    case 3
    then show ?thesis by auto
  qed
qed simp

lemma report_end_log:
  "report_end jid r as ss es = (x, es') \<Longrightarrow>
   \<exists>fs. es' = es @ Sent (ENDJOB (rep_result r)) # fs \<and> set fs \<subseteq> {Sent (RECONNECT jid (rt_pid r)), Sent (ENDJOB (rep_result r))}
     \<and> (\<forall>i. x = Some i \<longrightarrow> (\<exists>j. ENDJOB_OK j i \<in> set (as @ concat ss)))"
proof -
  let ?e = "es @ [Sent (ENDJOB (rep_result r))]"
  assume "report_end jid r as ss es = (x, es')"
  then consider "claim_end jid r ss ?e = (x, es')" | j i where "x = Some i" "es' = ?e" "ENDJOB_OK j i \<in> set as"
    by (auto simp: report_end_def Let_def split: list.splits answer.splits)
  then show ?thesis
  proof cases
    case 1
    from claim_end_log [OF this] show ?thesis by fastforce
  qed auto
qed

text \<open>What the log of one run holds.\<close>

definition run_log :: "command_line \<Rightarrow> int \<Rightarrow> int \<Rightarrow> result_t \<Rightarrow> cevent list \<Rightarrow> bool" where
  "run_log c jid le r fs =
     (filter is_ran fs = (if skips c le then [] else [Ran jid (cl_command c)])
      \<and> Sent (ENDJOB r) \<in> set fs \<and> (\<forall>r'. Sent (ENDJOB r') \<in> set fs \<longrightarrow> r' = r))"

lemma obey_log:
  assumes "obey c path w jid le as ss es = Inr (x, es')"
  shows "\<exists>fs r. es' = es @ fs \<and> run_log c jid le r fs
    \<and> (\<forall>code. x = Some code \<longrightarrow> errorlevel r = code \<and> (\<exists>j i. ENDJOB_OK j i \<in> set (as @ concat ss)))"
proof -
  obtain es1 r where j: "run_or_skip c path w jid le = (es1, r)" by fastforce
  obtain y es2 where e: "report_end (cl_jobid c) r as ss (es @ es1) = (y, es2)" by fastforce
  from report_end_log [OF e] obtain gs where g: "es2 = (es @ es1) @ Sent (ENDJOB (rep_result r)) # gs"
      "set gs \<subseteq> {Sent (RECONNECT (cl_jobid c) (rt_pid r)), Sent (ENDJOB (rep_result r))}"
      "\<forall>i. y = Some i \<longrightarrow> (\<exists>j. ENDJOB_OK j i \<in> set (as @ concat ss))" by blast
  have ran: "filter is_ran gs = []" using g(2) by (auto simp: filter_empty_conv)
  have one: "filter is_ran es1 = (if skips c le then [] else [Ran jid (cl_command c)])" "\<forall>r'. Sent (ENDJOB r') \<notin> set es1"
    using j by (auto simp: run_or_skip_def run_job_def c_send_runjob_ok_def Let_def split: if_splits)
  have shell: "run_on_finish c r i = Inr es3 \<Longrightarrow> filter is_ran es3 = [] \<and> (\<forall>r'. Sent (ENDJOB r') \<notin> set es3)" for i es3
    by (auto simp: run_on_finish_def rbind_eq_Inr split: option.splits)
  show ?thesis
  proof (cases y)
    case None
    then have "es' = es @ (es1 @ Sent (ENDJOB (rep_result r)) # gs)" "x = None" using assms j e g(1) by (auto simp: obey_def)
    then show ?thesis using g(2) ran one by (intro exI [of _ "es1 @ Sent (ENDJOB (rep_result r)) # gs"] exI [of _ "rep_result r"])
        (auto simp: run_log_def)
  next
    case (Some i)
    then obtain es3 where f: "run_on_finish c r i = Inr es3" "x = Some (errorlevel (rep_result r))"
        "es' = es @ (es1 @ Sent (ENDJOB (rep_result r)) # gs @ es3)"
      using assms j e g(1) by (auto simp: obey_def rbind_eq_Inr)
    then show ?thesis using g(2,3) ran one shell [OF f(1)] Some
      by (intro exI [of _ "es1 @ Sent (ENDJOB (rep_result r)) # gs @ es3"] exI [of _ "rep_result r"]) (auto simp: run_log_def)
  qed
qed

text \<open>The wait before the order to run, and then one run.\<close>

definition waited :: "command_line \<Rightarrow> answer set \<Rightarrow> int option \<Rightarrow> cevent list \<Rightarrow> bool" where
  "waited c U x fs =
     ((\<exists>n. x = None \<and> fs = replicate n (Sent (RECONNECT (cl_jobid c) 0)))
      \<or> (\<exists>n jid le r gs. RUNJOB jid le \<in> U \<and> fs = replicate n (Sent (RECONNECT (cl_jobid c) 0)) @ gs \<and> run_log c jid le r gs
           \<and> (\<forall>code. x = Some code \<longrightarrow> errorlevel r = code \<and> (\<exists>j i. ENDJOB_OK j i \<in> U))))"

lemma waited_cases:
  assumes "waited c U x fs"
  obtains (waiting) n where "x = None" "fs = replicate n (Sent (RECONNECT (cl_jobid c) 0))"
  | (ran) n jid le r gs where "RUNJOB jid le \<in> U" "fs = replicate n (Sent (RECONNECT (cl_jobid c) 0)) @ gs" "run_log c jid le r gs"
      "\<forall>code. x = Some code \<longrightarrow> errorlevel r = code \<and> (\<exists>j i. ENDJOB_OK j i \<in> U)"
  using assms unfolding waited_def by (elim disjE exE conjE) simp_all

lemma waited_waiting: "waited c U None (replicate n (Sent (RECONNECT (cl_jobid c) 0)))"
  unfolding waited_def by (rule disjI1) simp

lemma waited_ran:
  assumes "RUNJOB jid le \<in> U" "run_log c jid le r gs"
    and "\<forall>code. x = Some code \<longrightarrow> errorlevel r = code \<and> (\<exists>j i. ENDJOB_OK j i \<in> U)"
  shows "waited c U x (replicate n (Sent (RECONNECT (cl_jobid c) 0)) @ gs)"
  unfolding waited_def
  by (rule disjI2, intro exI [of _ n] exI [of _ jid] exI [of _ le] exI [of _ r] exI [of _ gs] conjI refl) (rule assms)+

lemma waited_mono: "waited c U x fs \<Longrightarrow> U \<subseteq> V \<Longrightarrow> waited c V x fs"
proof (erule waited_cases)
  fix n jid le r gs
  assume "U \<subseteq> V" "RUNJOB jid le \<in> U" "fs = replicate n (Sent (RECONNECT (cl_jobid c) 0)) @ gs" "run_log c jid le r gs"
    and "\<forall>code. x = Some code \<longrightarrow> errorlevel r = code \<and> (\<exists>j i. ENDJOB_OK j i \<in> U)"
  then show "waited c V x fs" using waited_ran [of jid le V c r gs x n] by blast
qed (simp add: waited_waiting)

lemma waited_more: "waited c U x fs \<Longrightarrow> waited c U x (Sent (RECONNECT (cl_jobid c) 0) # fs)"
proof (erule waited_cases)
  fix n
  assume "x = None" "fs = replicate n (Sent (RECONNECT (cl_jobid c) 0))"
  then show "waited c U x (Sent (RECONNECT (cl_jobid c) 0) # fs)" using waited_waiting [of c U "Suc n"] by simp
next
  fix n jid le r gs
  assume "RUNJOB jid le \<in> U" "fs = replicate n (Sent (RECONNECT (cl_jobid c) 0)) @ gs" "run_log c jid le r gs"
    and "\<forall>code. x = Some code \<longrightarrow> errorlevel r = code \<and> (\<exists>j i. ENDJOB_OK j i \<in> U)"
  then show "waited c U x (Sent (RECONNECT (cl_jobid c) 0) # fs)" using waited_ran [of jid le U c r gs x "Suc n"] by simp
qed

lemma wait_skip:
  assumes "\<And>jid le. a \<noteq> RUNJOB jid le"
  shows "c_wait_server_commands c path w (a # as) ss es = c_wait_server_commands c path w as ss es"
proof (cases a)
  case (RUNJOB jid le)
  then show ?thesis using assms by blast
qed simp_all

lemma wait_answers:
  assumes "\<And>es es'. c_wait_server_commands c path w [] ss es = Inr (x, es') \<Longrightarrow> \<exists>fs. es' = es @ fs \<and> waited c (set (concat ss)) x fs"
    and "c_wait_server_commands c path w as ss es = Inr (x, es')"
  shows "\<exists>fs. es' = es @ fs \<and> waited c (set (as @ concat ss)) x fs"
  using assms(2)
proof (induction as arbitrary: es es')
  case Nil
  then show ?case using assms(1) by simp
next
  case (Cons a as)
  show ?case
  proof (cases "\<exists>jid le. a = RUNJOB jid le")
    case True
    then obtain jid le where RUNJOB: "a = RUNJOB jid le" by blast
    then have "obey c path w jid le as ss es = Inr (x, es')" using Cons.prems by simp
    from obey_log [OF this] obtain fs r where fs: "es' = es @ fs" "run_log c jid le r fs"
        "\<forall>code. x = Some code \<longrightarrow> errorlevel r = code \<and> (\<exists>j i. ENDJOB_OK j i \<in> set (as @ concat ss))" by blast
    have "waited c (set ((a # as) @ concat ss)) x fs"
      using waited_ran [of jid le "set ((a # as) @ concat ss)" c r fs x 0] fs(2,3) RUNJOB by auto
    then show ?thesis using fs(1) by blast
  next
    case False
    then have "c_wait_server_commands c path w as ss es = Inr (x, es')" using Cons.prems wait_skip [of a c path w as ss es] by simp
    from Cons.IH [OF this] obtain fs where "es' = es @ fs" "waited c (set (as @ concat ss)) x fs" by blast
    moreover have "set (as @ concat ss) \<subseteq> set ((a # as) @ concat ss)" by auto
    ultimately show ?thesis using waited_mono by blast
  qed
qed

lemma wait_commands_log:
  "c_wait_server_commands c path w as ss es = Inr (x, es') \<Longrightarrow> \<exists>fs. es' = es @ fs \<and> waited c (set (as @ concat ss)) x fs"
proof (induction ss arbitrary: as es es')
  case Nil
  show ?case by (rule wait_answers [OF _ Nil]) (use waited_waiting [of c "{}" 0] in simp)
next
  case (Cons bs ss)
  let ?R = "Sent (RECONNECT (cl_jobid c) 0)"
  have "\<exists>fs. es2 = es1 @ fs \<and> waited c (set (concat (bs # ss))) x fs"
    if "c_wait_server_commands c path w [] (bs # ss) es1 = Inr (x, es2)" for es1 es2
  proof -
    have "c_wait_server_commands c path w (drop 1 bs) ss (es1 @ [?R]) = Inr (x, es2)" using that by simp
    from Cons.IH [OF this] obtain fs where "es2 = (es1 @ [?R]) @ fs" "waited c (set (drop 1 bs @ concat ss)) x fs" by blast
    moreover have "set (drop 1 bs @ concat ss) \<subseteq> set (concat (bs # ss))" using set_drop_subset [of 1 bs] by auto
    ultimately show ?thesis using waited_more waited_mono by (intro exI [of _ "?R # fs"]) auto
  qed
  then show ?case by (rule wait_answers [OF _ Cons.prems])
qed

lemma waited_summary:
  assumes "waited c U x fs"
  shows "length (filter is_ran fs) \<le> 1"
    and "Ran j cmd \<in> set fs \<Longrightarrow> cmd = cl_command c \<and> (\<exists>le. RUNJOB j le \<in> U \<and> \<not> skips c le)"
    and "Sent (ENDJOB r1) \<in> set fs \<Longrightarrow> Sent (ENDJOB r2) \<in> set fs \<Longrightarrow> r1 = r2"
    and "x = Some code \<Longrightarrow> (\<exists>r. Sent (ENDJOB r) \<in> set fs \<and> errorlevel r = code) \<and> (\<exists>j i. ENDJOB_OK j i \<in> U)"
proof -
  have none: "filter is_ran (replicate n (Sent m)) = []" for n m by (induction n) simp_all
  from assms show "length (filter is_ran fs) \<le> 1"
    by (cases rule: waited_cases) (auto simp: none run_log_def)
  from assms show "x = Some code \<Longrightarrow> (\<exists>r. Sent (ENDJOB r) \<in> set fs \<and> errorlevel r = code) \<and> (\<exists>j i. ENDJOB_OK j i \<in> U)"
    by (cases rule: waited_cases) (auto simp: run_log_def)
  from assms show "Sent (ENDJOB r1) \<in> set fs \<Longrightarrow> Sent (ENDJOB r2) \<in> set fs \<Longrightarrow> r1 = r2"
    by (cases rule: waited_cases) (auto simp: run_log_def)
  assume m: "Ran j cmd \<in> set fs"
  from assms show "cmd = cl_command c \<and> (\<exists>le. RUNJOB j le \<in> U \<and> \<not> skips c le)"
  proof (cases rule: waited_cases)
    case (waiting n)
    then show ?thesis using m by simp
  next
    case (ran n jid le r gs)
    then have "Ran j cmd \<in> set (filter is_ran gs)" using m by simp
    moreover have "filter is_ran gs = (if skips c le then [] else [Ran jid (cl_command c)])" using ran(3) by (simp add: run_log_def)
    ultimately have "Ran j cmd \<in> set (if skips c le then [] else [Ran jid (cl_command c)])" by metis
    then show ?thesis using ran(1) by (auto split: if_splits)
  qed
qed

text \<open>A client whose claim is refused on every connection never stops asking.\<close>

lemma claim_refused:
  "claim_end jid r (replicate n [ERROR_INFO j]) es = (None, es @ replicate n (Sent (RECONNECT jid (rt_pid r))))"
  by (induction n arbitrary: es) (simp_all add: Let_def)

lemma wait_refused:
  "c_wait_server_commands c path w [] (replicate n [ERROR_INFO j]) es
    = Inr (None, es @ replicate n (Sent (RECONNECT (cl_jobid c) 0)))"
  by (induction n arbitrary: es) simp_all

end
