(* ===== verification/Reconnect.thy ===== *)
theory Reconnect
  imports Client_Run Job_Life
begin

text \<open>
  A client that loses its connection while its job runs: the server ends the job, so it refuses
  the client when it comes back, and the client asks again without end.
\<close>

text \<open>The jobs of the finished list are over.\<close>

definition ended :: "job \<Rightarrow> bool" where
  "ended p = (state p \<notin> {QUEUED, DELINK, RUNNING, LOCKED, WAIT})"

lemma ended_finished: "state p = FINISHED \<or> state p = SKIPPED \<Longrightarrow> ended p"
  by (auto simp: ended_def)

lemma set_remove_nth_subset: "set (remove_nth i xs) \<subseteq> set xs"
  by (auto simp: remove_nth_def dest: in_set_takeD in_set_dropD)

lemma new_finished_ended:
  assumes "new_finished_job p s = Inr s'" "ended p" "\<forall>q \<in> set (finished_jobs s). ended q"
  shows "\<forall>q \<in> set (finished_jobs s'). ended q"
proof -
  obtain t p' t1 where d: "detach_cpus p t = Inr (p', t1)" "set (finished_jobs t) \<subseteq> set (finished_jobs s)"
      "cpu_bind_defrag_start (t1\<lparr>finished_jobs := finished_jobs t1 @ [p']\<rparr>) = Inr s'"
    using assms(1) set_remove_nth_subset [of 0 "finished_jobs s"]
    by (auto simp: new_finished_job_def Let_def rbind_eq_Inr insert_DB_def delete_DB_def cgroups_clean_job_def
        split: if_splits prod.splits)
  have "finished_jobs t1 = finished_jobs t"
    using d(1) by (auto simp: detach_cpus_def rbind_eq_Inr split: if_splits option.splits)
  moreover have "finished_jobs s' = finished_jobs t1 @ [p']"
    using d(3) by (auto simp: cpu_bind_defrag_start_def rbind_eq_Inr split: if_splits prod.splits)
  moreover have "ended p'" using detach_cpus_same(1) [OF d(1)] assms(2) by (simp add: same_job_def ended_def)
  ultimately show ?thesis using d(2) assms(3) by auto
qed

lemma notify_errorlevel_ended:
  assumes "\<forall>q \<in> set (finished_jobs s). ended q"
  shows "\<forall>q \<in> set (finished_jobs (notify_errorlevel p s)). ended q"
proof -
  have one: "\<forall>q \<in> set (finished_jobs (notify_one lev t j)). ended q" if h: "\<forall>q \<in> set (finished_jobs t). ended q" for lev t j
  proof (cases "findjob_idx j t = None \<and> find_finished_idx j t \<noteq> None")
    case True
    then obtain i where i: "find_finished_idx j t = Some i" by auto
    let ?q = "finished_jobs t ! i"
    have "ended ?q" using h find_idx_SomeD [OF i [unfolded find_finished_idx_def]] by simp
    then have q: "?q\<lparr>dependency_errorlevel := dependency_errorlevel ?q + \<bar>lev\<bar>\<rparr> \<in> {q. ended q}" by (simp add: ended_def)
    have "set (finished_jobs t) \<subseteq> {q. ended q}" using h by auto
    then have sub: "set ((finished_jobs t)[i := ?q\<lparr>dependency_errorlevel := dependency_errorlevel ?q + \<bar>lev\<bar>\<rparr>]) \<subseteq> {q. ended q}"
      using q by (rule set_update_subsetI)
    have n: "findjob_idx j t = None" using True by blast
    have "finished_jobs (notify_one lev t j) = (finished_jobs t)[i := ?q\<lparr>dependency_errorlevel := dependency_errorlevel ?q + \<bar>lev\<bar>\<rparr>]"
      unfolding notify_one_def n i Let_def by simp
    with sub have "set (finished_jobs (notify_one lev t j)) \<subseteq> {q. ended q}" by (simp only:)
    then show ?thesis by blast
  qed (use h in \<open>auto simp: notify_one_def Let_def set_active_def split: option.splits\<close>)
  have "\<forall>q \<in> set (finished_jobs (foldl (notify_one lev) t js)). ended q" if "\<forall>q \<in> set (finished_jobs t). ended q" for lev t js
    using that
  proof (induction js arbitrary: t)
    case (Cons j js)
    show ?case unfolding foldl.simps by (rule Cons.IH [OF one [OF Cons.prems]])
  qed simp
  note fold = this
  show ?thesis unfolding notify_errorlevel_def by (rule fold) (use assms in simp)
qed

lemma job_finished_ended:
  assumes "job_finished r jid s = Inr s'" "\<forall>q \<in> set (finished_jobs s). ended q"
  shows "\<forall>q \<in> set (finished_jobs s'). ended q"
proof -
  obtain i p1 s1 where i: "findjob_idx jid s = Some i" and f: "free_cores (active_jobs s ! i) s = Inr (p1, s1)"
    using assms(1) by (auto simp: job_finished_def rbind_eq_Inr split: if_splits option.splits)
  define p2 where "p2 = p1\<lparr>state := (if skipped r \<noteq> 0 then SKIPPED else FINISHED), result := r\<rparr>"
  define s2 where "s2 = notify_errorlevel p2 ((set_active i p2 s1)\<lparr>last_finished_jobid := jobid p2\<rparr>)"
  have n: "new_finished_job (finish_info r (active_jobs s2 ! i) s2) (remove_active i s2) = Inr s'"
    using assms(1) i f by (auto simp: job_finished_def rbind_eq_Inr Let_def p2_def s2_def split: if_splits)
  have l: "finished_jobs s1 = finished_jobs s" "active_jobs s1 = active_jobs s"
    using f by (auto simp: free_cores_def upd_user_eq rbind_eq_Inr split: if_splits)
  have ib: "i < length (active_jobs s)" using findjob_idx_bound [OF i] by simp
  have "map acct_key (active_jobs s2) ! i = map acct_key ((active_jobs s1)[i := p2]) ! i"
    unfolding s2_def using notify_errorlevel_keys(1) by (simp add: set_active_def)
  moreover have "length (active_jobs s2) = length (active_jobs s)"
    unfolding s2_def using notify_errorlevel_keys(6) l by (simp add: set_active_def)
  ultimately have "state (active_jobs s2 ! i) = state p2" using ib l by (simp add: acct_key_def)
  then have e: "ended (finish_info r (active_jobs s2 ! i) s2)"
    by (intro ended_finished) (simp add: finish_info_def Let_def p2_def)
  have "\<forall>q \<in> set (finished_jobs s2). ended q"
    unfolding s2_def by (rule notify_errorlevel_ended) (use l assms(2) in \<open>simp add: set_active_def\<close>)
  then show ?thesis using new_finished_ended [OF n e] by (simp add: remove_active_def)
qed

lemma notify_loop_ended:
  "notify_loop jid ns s = Inr s' \<Longrightarrow> set (finished_jobs s') \<subseteq> set (finished_jobs s)"
proof (induction ns arbitrary: s)
  case (Cons n ns)
  have d: "set (finished_jobs t') \<subseteq> set (finished_jobs t)" if "destroy_finished_job j t = Inr t'" for j t t'
    using that set_remove_nth_subset by (fastforce simp: destroy_finished_job_def split: option.splits)
  show ?case using Cons d
    by (fastforce simp: rbind_eq_Inr Let_def split: if_splits option.splits)
qed simp

text \<open>A job whose client is gone is over: no connection can claim it again.\<close>

lemma refused_unknown:
  assumes "jid \<notin> jobid ` set (active_jobs s)" "\<forall>q \<in> set (finished_jobs s). ended q"
  shows "handle_reconnect i sock u jid cp s = Inr (emit (Send sock (ERROR_INFO jid)) s)"
proof (cases "get_job jid s")
  case (Some q)
  then have "q \<in> set (finished_jobs s)"
    using assms(1) find_idx_SomeD
    by (fastforce simp: get_job_def findjob_def findjob_idx_def find_idx_None find_finished_job_def find_finished_idx_def split: option.splits)
  then show ?thesis using assms(2) Some by (auto simp: handle_reconnect_def reconnect_refused_def ended_def)
qed (simp add: handle_reconnect_def)

lemma orphan_over:
  assumes h: "healthy b s" and o: "orphaned_job jid s = Inr s'" and f: "findjob jid s = Some p" "state p = RUNNING \<or> state p = PAUSE"
    and e: "\<forall>q \<in> set (finished_jobs s). ended q"
  shows "jid \<notin> jobid ` set (active_jobs s')" "\<forall>q \<in> set (finished_jobs s'). ended q"
proof -
  define t where "t = kill_orphan p s"
  have t: "active_jobs t = active_jobs s" "finished_jobs t = finished_jobs s" "view t = view s" "cpu t = cpu s"
    by (simp_all add: t_def kill_orphan_def Let_def view_def)
  obtain s1 where s1: "job_finished (killed_result 0) jid t = Inr s1" "check_notify_list jid s1 = Inr s'"
    using o f by (auto simp: orphaned_job_def rbind_eq_Inr t_def split: if_splits)
  have ht: "healthy b t" using healthy_same [OF h t(3,4)] .
  obtain i where i: "findjob_idx jid t = Some i"
    using f(1) t(1) by (auto simp: findjob_def findjob_idx_def split: option.splits)
  have k: "map jobid (active_jobs s1) = remove_nth i (map jobid (active_jobs t))"
    using job_finished_binds [OF healthyD(1,2) [OF ht] i, of "killed_result 0"] s1(1) by (auto simp: returns_iff)
  have ib: "i < length (active_jobs t)" "jobid (active_jobs t ! i) = jid"
    using find_idx_SomeD [OF i [unfolded findjob_idx_def]] by auto
  have "distinct (map jobid (active_jobs t))" using healthyD(1) [OF ht] by (simp add: srv_ok_def ids_ok_def)
  moreover have "mset (map jobid (active_jobs t)) = mset (jid # map jobid (active_jobs s1))"
    using k ib mset_remove_nth [of i "map jobid (active_jobs t)"] by simp
  ultimately have "distinct (jid # map jobid (active_jobs s1))" using mset_eq_imp_distinct_iff by blast
  then show "jid \<notin> jobid ` set (active_jobs s')" using check_notify_view [OF s1(2)] by (auto simp: view_def)
  show "\<forall>q \<in> set (finished_jobs s'). ended q"
    using job_finished_ended [OF s1(1)] e t(2) notify_loop_ended s1(2) by (fastforce simp: check_notify_list_def)
qed

lemma lost_client_refused:
  assumes "healthy b s" "clean_after_client_disappeared sock i s = Inr s'" "hasjob (client_cs s ! i)"
    "findjob (c_jobid (client_cs s ! i)) s = Some p" "state p = RUNNING \<or> state p = PAUSE" "\<forall>q \<in> set (finished_jobs s). ended q"
  shows "handle_reconnect i' sock' u (c_jobid (client_cs s ! i)) cp s'
    = Inr (emit (Send sock' (ERROR_INFO (c_jobid (client_cs s ! i)))) s')"
proof -
  let ?j = "c_jobid (client_cs s ! i)"
  obtain t where t: "orphaned_job ?j s = Inr t" "close_connection i sock (upd_conn i (\<lambda>c. c\<lparr>hasjob := False\<rparr>) t) = Inr s'"
    using assms(2,3) by (auto simp: clean_after_client_disappeared_def rbind_eq_Inr split: if_splits)
  have "active_jobs s' = active_jobs t \<and> finished_jobs s' = finished_jobs t"
    using t(2) by (auto simp: close_connection_def remove_connection_def upd_conn_def rbind_eq_Inr emit_def split: if_splits)
  then show ?thesis using refused_unknown orphan_over [OF assms(1) t(1) assms(4,5,6)] by metis
qed

end
