(* ===== verification/Tail.thy ===== *)
theory Tail
  imports Client
begin

text \<open>
  \<open>tail.c\<close>: where the last lines of a content begin, read in blocks from the end, and the loop that
  copies the file to the standard output until the job is over. Interrupted reads while
  seeking are left out.
\<close>

section \<open>The last lines\<close>

definition BSIZE :: nat where "BSIZE = 1024"

definition newline :: char where "newline = CHR 0x0A"

text \<open>The scan of one block from its end: the position it stops at, -1 when it is through.\<close>

fun scan_back :: "nat \<Rightarrow> string \<Rightarrow> nat \<Rightarrow> nat \<Rightarrow> int \<times> nat" where
  "scan_back lines buf 0 found = (- 1, found)"
| "scan_back lines buf (Suc i) found =
     (if buf ! i = newline
      then (if found + 1 > lines then (int i, found + 1) else scan_back lines buf i (found + 1))
      else scan_back lines buf i found)"

text \<open>
  The offsets that \<open>lseek\<close> returns are stored into an \<open>int\<close>: \<open>last_lseek\<close> is the position with
  its width cut to 32 bits. A value of -1 is taken for an error.
\<close>

definition last_lseek :: "nat \<Rightarrow> int" where
  "last_lseek pos = wrap32 (int pos)"

definition go_back :: "nat \<Rightarrow> nat \<Rightarrow> nat" where
  "go_back pos n = (if pos < n \<or> last_lseek (pos - n) = - 1 then 0 else pos - n)"

function seek_loop :: "nat \<Rightarrow> string \<Rightarrow> nat \<Rightarrow> nat \<Rightarrow> int \<Rightarrow> nat \<times> int" where
  "seek_loop lines content pos found i =
     (let next_read = min (last_lseek pos) (int BSIZE) in
      if next_read \<le> 0 then (pos, i)
      else let start = go_back pos (nat next_read); buf = take (nat next_read) (drop start content) in
        case scan_back lines buf (length buf) found of (i', f') \<Rightarrow>
          if f' < lines then seek_loop lines content start f' i' else (start, i'))"
  by pat_completeness auto

lemma last_lseek_le: "last_lseek pos \<le> int pos"
  using zmod_le_nonneg_dividend [of "int pos + 2147483648" 4294967296] by (simp add: last_lseek_def wrap32_def)

lemma go_back_less: "0 < last_lseek pos \<Longrightarrow> 0 < n \<Longrightarrow> go_back pos n < pos"
  using last_lseek_le [of pos] by (simp add: go_back_def)

termination seek_loop
proof (relation "measure (\<lambda>(lines, content, pos, found, i). pos)", goal_cases)
  case 1
  show ?case by (rule wf_measure)
next
  case prems: (2 lines content pos found i x)
  have "0 < last_lseek pos" "0 < nat x" using prems(1,2) by (simp_all add: min_def split: if_splits)
  then have "go_back pos (nat x) < pos" by (rule go_back_less)
  then show ?case using prems(3) by (simp only: in_measure case_prod_conv)
qed

declare seek_loop.simps [simp del]

definition seek_at_last_lines :: "nat \<Rightarrow> string \<Rightarrow> nat" where
  "seek_at_last_lines lines content =
     (case seek_loop lines content (length content) 0 (- 1) of (pos, i) \<Rightarrow> nat (int pos + (i + 1)))"

section \<open>Copying\<close>

text \<open>
  What one turn of the loop meets: whether the server has answered, what \<open>read\<close> gives (\<open>None\<close>
  when there is nothing yet, the empty text at the end of the file), whether the standard output
  is in error, and what the calls of \<open>write\<close> return before one that takes everything left.
\<close>

record tail_turn =
  answered :: bool
  got :: "string option"
  broken :: bool
  writes :: "int list"

record tail_state =
  waiting_end :: bool
  end_res :: int
  endfile_reached :: bool
  could_write :: bool
  shown :: string

text \<open>Every call writes from the beginning of the buffer.\<close>

fun write_loop :: "string \<Rightarrow> nat \<Rightarrow> int list \<Rightarrow> string \<times> bool" where
  "write_loop buf n [] = (take n buf, True)"
| "write_loop buf n (w # ws) =
     (if n = 0 then ([], True) else if w < 0 then ([], False)
      else let m = min (nat w) n in
        case write_loop buf (n - m) ws of (t, ok) \<Rightarrow> (take m buf @ t, ok))"

definition tail_read :: "tail_turn \<Rightarrow> tail_state \<Rightarrow> tail_state" where
  "tail_read t st =
     (case got t of None \<Rightarrow> st
      | Some b \<Rightarrow>
          (let st1 = st\<lparr>endfile_reached := (b = [])\<rparr> in
           if broken t then st1\<lparr>could_write := False\<rparr>
           else case write_loop b (length b) (writes t) of (x, ok) \<Rightarrow>
             st1\<lparr>shown := shown st1 @ x, could_write := (could_write st1 \<and> ok)\<rparr>))"

text \<open>Whether the loop is over, and its state; the client may also leave in \<open>c_wait_job_recv\<close>.\<close>

fun tail_loop :: "tail_turn list \<Rightarrow> tail_state \<Rightarrow> cli \<Rightarrow> (bool \<times> tail_state) outcome" where
  "tail_loop [] st k = Ret (False, st) k"
| "tail_loop (t # ts) st k =
     cbind (if waiting_end st \<and> answered t
            then cbind (c_wait_job_recv k) (\<lambda>e. Ret (st\<lparr>end_res := e, waiting_end := False\<rparr>))
            else Ret st k)
       (\<lambda>st1 k1. let st2 = tail_read t st1 in
          if (\<not> endfile_reached st2 \<or> waiting_end st2) \<and> could_write st2 then tail_loop ts st2 k1 else Ret (True, st2) k1)"

definition tail_start :: tail_state where
  "tail_start = \<lparr>waiting_end = True, end_res = 0, endfile_reached = False, could_write = True, shown = []\<rparr>"

section \<open>Lemmas\<close>

definition newlines :: "string \<Rightarrow> nat" where
  "newlines t = length (filter (\<lambda>c. c = newline) t)"

lemma newlines_append [simp]: "newlines (xs @ ys) = newlines xs + newlines ys"
  by (simp add: newlines_def)

lemma scan_back_cases:
  assumes "scan_back lines buf n found = (i, f)" "n \<le> length buf" "found \<le> lines"
  shows "i = - 1 \<and> f = found + newlines (take n buf) \<and> f \<le> lines
    \<or> (\<exists>j < n. i = int j \<and> buf ! j = newline \<and> f = lines + 1 \<and> found + newlines (drop (Suc j) (take n buf)) = lines)"
  using assms
proof (induction lines buf n found rule: scan_back.induct)
  case (2 lines buf m found)
  have t: "take (Suc m) buf = take m buf @ [buf ! m]" using "2.prems"(2) by (simp add: take_Suc_conv_app_nth)
  show ?case
  proof (cases "buf ! m = newline \<and> lines < found + 1")
    case True
    then show ?thesis using "2.prems" t by (intro disjI2 exI [of _ m]) (auto simp: newlines_def)
  next
    case False
    let ?f = "if buf ! m = newline then found + 1 else found"
    have r: "scan_back lines buf m ?f = (i, f)" using False "2.prems"(1) by auto
    have ih: "i = - 1 \<and> f = ?f + newlines (take m buf) \<and> f \<le> lines
      \<or> (\<exists>j < m. i = int j \<and> buf ! j = newline \<and> f = lines + 1 \<and> ?f + newlines (drop (Suc j) (take m buf)) = lines)"
      using False 2 r by (cases "buf ! m = newline") auto
    have one: "newlines [buf ! m] = (if buf ! m = newline then 1 else 0)" by (simp add: newlines_def)
    have d: "drop (Suc j) (take (Suc m) buf) = drop (Suc j) (take m buf) @ [buf ! m]" if "j < m" for j
      using t that "2.prems"(2) by simp
    from ih show ?thesis
    proof (elim disjE exE conjE)
      fix j assume "j < m" "i = int j" "buf ! j = newline" "f = lines + 1" "?f + newlines (drop (Suc j) (take m buf)) = lines"
      then show ?thesis using d one by (intro disjI2 exI [of _ j]) (auto split: if_splits)
    qed (use t one in \<open>auto split: if_splits\<close>)
  qed
qed (simp add: newlines_def)

text \<open>The file is short enough for its offsets to fit.\<close>

lemma last_lseek_id: "pos < 2147483648 \<Longrightarrow> last_lseek pos = int pos"
  by (simp add: last_lseek_def wrap32_def)

lemma go_back_id: "n \<le> pos \<Longrightarrow> pos < 2147483648 \<Longrightarrow> go_back pos n = pos - n"
  using last_lseek_id [of "pos - n"] by (simp add: go_back_def)

definition at_lines :: "nat \<Rightarrow> string \<Rightarrow> nat \<Rightarrow> bool" where
  "at_lines lines content q \<longleftrightarrow> q \<le> length content \<and> newlines (drop q content) = min lines (newlines content)
     \<and> (q = 0 \<or> content ! (q - 1) = newline \<or> 1024 dvd length content - q)"

lemma at_linesI:
  assumes "q \<le> length content" "newlines (drop q content) = lines" "q = 0 \<or> content ! (q - 1) = newline \<or> 1024 dvd length content - q"
  shows "at_lines lines content q"
proof -
  have "newlines content = newlines (take q content) + newlines (drop q content)" by (metis append_take_drop_id newlines_append)
  then show ?thesis using assms by (simp add: at_lines_def)
qed

lemma seek_step:
  assumes "min (last_lseek pos) (int BSIZE) = int n" "0 < n" "go_back pos n = start" "take n (drop start content) = buf"
    "scan_back lines buf (length buf) found = (i1, f1)"
  shows "seek_loop lines content pos found i = (if f1 < lines then seek_loop lines content start f1 i1 else (start, i1))"
  using assms by (subst seek_loop.simps) (simp add: Let_def del: length_take)

lemma seek_loop_at:
  assumes "pos \<le> length content" "length content < 2147483648" "newlines (drop pos content) = found" "found \<le> lines" "i = - 1"
    "pos = 0 \<or> 1024 dvd length content - pos" "seek_loop lines content pos found i = (p, i')"
  shows "at_lines lines content (nat (int p + (i' + 1)))"
  using assms
proof (induction lines content pos found i rule: seek_loop.induct)
  case (1 lines content pos found i)
  have ls: "last_lseek pos = int pos" using last_lseek_id [of pos] 1(2,3) by simp
  show ?case
  proof (cases "pos = 0")
    case True
    have "seek_loop lines content 0 found i = (0, i)" by (subst seek_loop.simps) (simp add: last_lseek_def wrap32_def)
    then have "p = 0 \<and> i' = - 1" using 1(6,8) True by simp
    then show ?thesis using True 1(4,5) by (simp add: at_lines_def)
  next
    case False
    define n where "n = min pos 1024"
    define start where "start = pos - n"
    define buf where "buf = take n (drop start content)"
    obtain i1 f1 where sc: "scan_back lines buf (length buf) found = (i1, f1)" by fastforce
    have n: "0 < n" "n \<le> pos" "start + n = pos" using False by (simp_all add: n_def start_def)
    have nr: "min (last_lseek pos) (int BSIZE) = int n" by (simp add: ls n_def BSIZE_def)
    have gb: "go_back pos n = start" using go_back_id [of n pos] n 1(2,3) by (simp add: start_def)
    have bl: "length buf = n" using 1(2) n by (simp add: buf_def start_def)
    have sp: "drop start content = buf @ drop pos content"
      using n(3) by (metis append_take_drop_id buf_def drop_drop add.commute)
    have st: "seek_loop lines content pos found i = (if f1 < lines then seek_loop lines content start f1 i1 else (start, i1))"
      by (rule seek_step [OF nr n(1) gb buf_def [symmetric] sc])
    have blk: "start = 0 \<or> 1024 dvd length content - start"
    proof (cases "pos \<le> 1024")
      case False
      then have "length content - start = (length content - pos) + 1024" using 1(2) by (simp add: start_def n_def)
      then show ?thesis using 1(7) \<open>pos \<noteq> 0\<close> by (simp add: dvd_add)
    qed (simp add: start_def n_def)
    have len: "start \<le> length content" using 1(2) by (simp add: start_def)
    consider "i1 = - 1" "f1 = newlines (drop start content)" "f1 \<le> lines"
      | j where "j < n" "i1 = int j" "buf ! j = newline" "f1 = lines + 1" "found + newlines (drop (Suc j) buf) = lines"
      using scan_back_cases [OF sc] 1(4,5) bl sp by auto
    then show ?thesis
    proof cases
      case 1
      show ?thesis
      proof (cases "f1 < lines")
        case True
        have "seek_loop lines content start f1 i1 = (p, i')" using True st "1.prems"(7) by simp
        moreover have "at_lines lines content (nat (int p + (i' + 1)))" if "seek_loop lines content start f1 i1 = (p, i')"
          using "1.IH" [OF refl _ refl refl] nr gb sc n(1) that 1 True blk len "1.prems"(2) by (simp add: buf_def [symmetric])
        ultimately show ?thesis by blast
      next
        case False
        then show ?thesis using st "1.prems"(7) 1 blk len by (intro at_linesI) auto
      qed
    next
      case (2 j)
      have q: "p = start" "i' = int j" using st "1.prems"(7) 2 by auto
      have f: "content ! (start + j) = newline" using 2(1,3) bl sp len by (metis nth_append nth_drop)
      have "drop (start + Suc j) content = drop (Suc j) buf @ drop pos content"
        using sp 2(1) bl by (metis drop_drop add.commute drop_append diff_is_0_eq' Suc_leI drop_0)
      then have "newlines (drop (start + Suc j) content) = lines" using 2(5) "1.prems"(3) by simp
      then show ?thesis using q f 2(1) n "1.prems"(1) by (intro at_linesI) (simp_all add: nat_add_distrib)
    qed
  qed
qed

lemma seek_at: "length content < 2147483648 \<Longrightarrow> at_lines lines content (seek_at_last_lines lines content)"
  unfolding seek_at_last_lines_def
  by (cases "seek_loop lines content (length content) 0 (- 1)")
    (use seek_loop_at [of "length content" content 0 lines "- 1"] in \<open>simp add: newlines_def\<close>)

text \<open>A line longer than a block is cut, and offsets from 2 gigabytes on end the search at once.\<close>

lemma seek_cut_line:
  assumes "1023 \<le> n" "n < 2147483647"
  shows "seek_at_last_lines 1 (replicate n (CHR ''x'') @ [newline]) = n - 1023"
proof -
  let ?f = "replicate n (CHR ''x'') @ [newline]"
  define buf where "buf = replicate 1023 (CHR ''x'') @ [newline]"
  have nl: "newlines (replicate m (CHR ''x'')) = 0" for m by (simp add: newlines_def newline_def)
  have b: "take 1024 (drop (Suc n - 1024) ?f) = buf" using assms(1) by (simp add: buf_def Suc_diff_le)
  obtain i f where sc: "scan_back 1 buf (length buf) 0 = (i, f)" by fastforce
  have "i = - 1 \<and> f = 1"
    using scan_back_cases [OF sc] nl by (auto simp: buf_def newlines_def nth_append newline_def split: if_splits)
  moreover have "min (last_lseek (Suc n)) (int BSIZE) = 1024" using assms last_lseek_id [of "Suc n"] by (simp add: BSIZE_def)
  moreover have "go_back (Suc n) 1024 = Suc n - 1024" using assms by (intro go_back_id) simp_all
  ultimately have "seek_loop 1 ?f (Suc n) 0 (- 1) = (Suc n - 1024, - 1)"
    using seek_step [of "Suc n" 1024 "Suc n - 1024" ?f buf 1 0 i f "- 1"] sc b by simp
  then show ?thesis using assms(1) by (simp add: seek_at_last_lines_def)
qed

lemma seek_huge:
  assumes "2147483648 \<le> length content" "length content < 4294967296"
  shows "seek_at_last_lines lines content = length content"
proof -
  have "(int (length content) + 2147483648) mod 4294967296 = int (length content) - 2147483648"
    using assms by (simp add: mod_pos_geq [of 4294967296 "int (length content) + 2147483648"])
  then have "last_lseek (length content) < 0" using assms by (simp add: last_lseek_def wrap32_def)
  then show ?thesis by (simp add: seek_at_last_lines_def seek_loop.simps [of lines content "length content"] Let_def min_def)
qed

definition text_of :: "tail_turn \<Rightarrow> string" where
  "text_of t = (case got t of None \<Rightarrow> [] | Some b \<Rightarrow> b)"

lemma tail_read_fields:
  assumes "\<not> broken t" "writes t = []"
  shows "shown (tail_read t st) = shown st @ text_of t" "could_write (tail_read t st) = could_write st"
    "waiting_end (tail_read t st) = waiting_end st" "end_res (tail_read t st) = end_res st"
  using assms by (auto simp: tail_read_def text_of_def Let_def split: option.splits)

lemma tail_loop_copies:
  assumes "tail_loop ts st k = Ret (True, st') k'" "\<forall>t \<in> set ts. \<not> broken t \<and> writes t = []" "could_write st"
  shows "(\<exists>n \<le> length ts. shown st' = shown st @ concat (map text_of (take n ts)))
    \<and> endfile_reached st' \<and> \<not> waiting_end st' \<and> could_write st'"
  using assms
proof (induction ts arbitrary: st k)
  case (Cons t ts)
  obtain st1 k1 where s1: "shown st1 = shown st" "could_write st1"
    "(let st2 = tail_read t st1 in
      if (\<not> endfile_reached st2 \<or> waiting_end st2) \<and> could_write st2 then tail_loop ts st2 k1 else Ret (True, st2) k1) = Ret (True, st') k'"
  proof (cases "waiting_end st \<and> answered t")
    case True
    then obtain e k2 where "c_wait_job_recv k = Ret e k2"
      using Cons.prems(1) by (cases "c_wait_job_recv k") (auto simp: cbind_def)
    then show ?thesis using True Cons.prems by (intro that [of "st\<lparr>end_res := e, waiting_end := False\<rparr>" k2]) (auto simp: cbind_def)
  next
    case False
    then show ?thesis using Cons.prems by (intro that [of st k]) (auto simp: cbind_def)
  qed
  define st2 where "st2 = tail_read t st1"
  have c: "\<not> broken t" "writes t = []" using Cons.prems(2) by auto
  note f = tail_read_fields [OF c, of st1, folded st2_def]
  show ?case
  proof (cases "\<not> endfile_reached st2 \<or> waiting_end st2")
    case True
    then have "tail_loop ts st2 k1 = Ret (True, st') k'" using s1 f by (simp add: st2_def [symmetric])
    from Cons.IH [OF this] Cons.prems(2) f s1 obtain n where "n \<le> length ts" "shown st' = shown st2 @ concat (map text_of (take n ts))"
      "endfile_reached st' \<and> \<not> waiting_end st' \<and> could_write st'" by auto
    then show ?thesis using f(1) s1(1) by (intro conjI exI [of _ "Suc n"]) auto
  next
    case False
    then have "st' = st2" using s1(3) by (simp add: st2_def [symmetric])
    then show ?thesis using False f s1(1,2) by (auto intro!: exI [of _ "Suc 0"])
  qed
qed simp

end
