(* ===== verification/Spec2Isabelle.thy ===== *)
theory Spec2Isabelle
  imports Examples Vec Defrag_Io Db_Sync Messaging On_Finish Query_Correct Reconnect Tail
begin

text \<open>
  \<^bold>\<open>A verification of task-spooler-PLUS.\<close>

  The program is a queue of batch jobs shared by the users of one machine. A long-lived server
  owns the queue; clients connect to it over a Unix socket, submit jobs or send requests, and a
  client whose job is chosen forks and runs it. The server counts slots globally and per user,
  binds jobs to exclusive CPUs by NUMA node, keeps jobs in a database so that a restart can
  bring them back, and enforces time limits.

  \<^bold>\<open>Theories and the code they model.\<close> A definition has the name of the C function it models;
  a \<open>_loop\<close>, \<open>_step\<close>, \<open>_scan\<close> suffix marks the loop, one round or a search of it.

  \<^item> \<open>TS_Prelude\<close>: list updates by index, the result type, words; no program code.
  \<^item> \<open>Text_Utils\<close> (\<open>utils.c\<close>): integer scanning, tokens, the text form of dependency lists,
    command lines. \<open>Vec\<close> (\<open>vec.c\<close>): the growable array on cells with length and capacity of
    64 bits, allocation may fail.
  \<^item> \<open>Job_Model\<close> (\<open>jobs.h\<close>, \<open>user.h\<close>, \<open>msg.h\<close>, \<open>server.h\<close>): structures as records, enumerations as
    datatypes. \<open>Server_State\<close> (globals and small helpers of \<open>jobs.c\<close>, \<open>info.c\<close>,
    \<open>runtime_limit.c\<close>, \<open>cgroups.c\<close>): one record of all global variables. What the server sends
    to clients, writes to the database or asks of the system is a list of effects, the field
    \<open>out\<close>; what the system answers (clock, process table, user files) is the field \<open>env\<close>.
  \<^item> \<open>Cpu_Bind\<close> (\<open>cpu_bind.c\<close>): allocation of whole or partial CPUs over nodes, release, claim
    at restart, defragmentation plan. \<open>Cpu_Bind_Correct\<close> and \<open>Cpu_Pool\<close> hold its lemmas.
    \<open>Defrag_Io\<close> (\<open>cpu_bind.c\<close>): the I/O thread of the defragmenter and the main thread as a step
    relation over mutex, flag and condition variable.
    \<open>Cpuset_Text\<close> (\<open>cpu_bind.c\<close>, \<open>cgroups.c\<close>): the text form of CPU and memory sets, with the
    parser as a partial function. \<open>Cgroup_Restore\<close> (\<open>cgroups.c\<close>): the scan of left-over control
    groups when the server starts.
  \<^item> \<open>Messaging\<close> (\<open>msg.c\<close>): the loops that send and receive bytes, and arrays of integers.
    \<open>On_Finish\<close> (\<open>execute.c\<close>): the template of the command run at the end of a job, with its
    quoting for the shell.
  \<^item> \<open>Database\<close> (\<open>sqlite.c\<close>): the text of the statements, their meaning on the tables, writing and
    reading a job. \<open>Database_Order\<close>: the column \<open>order_id\<close> refines a list; \<open>Database_Rows\<close>: what a
    job is after writing and reading; \<open>Db_Sync\<close>: the contract \<open>queue_store\<close> between server and
    database, interpreted on the database.
  \<^item> \<open>Job_Queue\<close>, \<open>Notify\<close>, \<open>Job_Ops\<close> (\<open>jobs.c\<close>, \<open>job_ops.c\<close>, \<open>notify.c\<close>): look-up, finishing,
    removal, reordering, queries, waiting clients. \<open>Listing\<close> (\<open>list.c\<close>, \<open>job_ops.c\<close>, \<open>print.c\<close>):
    what the server shows of a job, in the three listing formats and in the information block;
    \<open>Query_Correct\<close>: which rows a listing has and which listings fail.
  \<^item> \<open>Scheduler\<close> (\<open>jobs.c\<close>): the dispatcher, the periodic recount, time limits, dead processes.
  \<^item> \<open>Server_User\<close> (\<open>user.c\<close>, \<open>server_user.c\<close>), \<open>Server_Env\<close> (\<open>server_env.c\<close>), \<open>New_Job\<close>
    (\<open>s_newjob\<close> of \<open>jobs.c\<close>), \<open>Server\<close> (\<open>server.c\<close>): users, locks, submission, the message
    switch \<open>client_read\<close> and one turn of \<open>server_loop\<close>. \<open>Server_Run\<close>: start-up and the
    transition system \<open>reachable\<close> of all turns, for any order of client messages and any
    answers of the system.
  \<^item> \<open>Duration\<close> (\<open>runtime_limit.c\<close>): the texts of durations and start times, with the number
    syntax of \<open>strtod\<close>. \<open>Command_Line\<close> (\<open>main.c\<close>): the option table, \<open>getopt_long\<close> over it, every
    option of \<open>parse_opts\<close> and the command that remains.
  \<^item> \<open>Client\<close> (\<open>client.c\<close>): the requests of a client as functions of the answers still to come, with
    all it sends, prints and kills in its log. \<open>Client_Run\<close> (\<open>client.c\<close>, \<open>execute.c\<close>, \<open>main.c\<close>):
    \<open>c_wait_server_commands\<close> over a list of connections, each the list of its answers; the attempts of
    the child, the report, and the switch of \<open>main\<close>. \<open>Tail\<close> (\<open>tail.c\<close>): where the last lines of
    an output file begin, and the loop that copies it.

  \<^bold>\<open>Errors.\<close> A handler returns \<open>Inl e\<close> where the code leaves the C semantics or the process: a
  null dereference, an access past a vector, a violated assertion of the vector, or \<open>exit\<close>.
  \<open>Inr\<close> carries the new state. So a theorem that a function returns \<open>Inr\<close> also says that none of
  these happens.

  \<^bold>\<open>What the lemma groups show.\<close>

  \<^item> \<open>Accounting\<close>, \<open>Accounting_Queue\<close>, \<open>Invariant_Ops\<close>, \<open>Request_Inv\<close>, \<open>Submit_Inv\<close>,
    \<open>Server_Inv\<close>: the invariant \<open>srv_ok\<close> (slot, job and queue counters of server and users agree
    with the queue; identifiers are distinct) is kept by every handler; \<open>Recount\<close>: the recount
    restores the counters from any state.
  \<^item> \<open>Dispatch\<close>: the dispatcher returns, respects all limits, and stops only when nothing fits.
  \<^item> \<open>Bind_Inv\<close>, \<open>Bind_Queue\<close>, \<open>Bind_Run\<close>, \<open>Bind_Server\<close>: the contract of the CPU pool as locales,
    interpreted on the allocator; no CPU belongs to two jobs in any reachable state, and the
    server keeps running.
  \<^item> \<open>Queue_Requests\<close>, \<open>Job_Life\<close>, \<open>User_Requests\<close>: the exact effect of reordering, ending,
    time-out, notification, lock, pause and refresh requests.
  \<^item> \<open>Client_Run\<close>, \<open>Reconnect\<close>: what a client that waits for its job can have done, whatever it is
    answered; what the server makes of a client that is gone.
  \<^item> \<open>Examples\<close>: concrete states, one of them reached by running the server for three turns; the
    witnesses below apply the properties to them.

  \<^bold>\<open>Bounds and fuel.\<close> \<open>next_run_job\<close> loops until no user can start a job. Its model recurses on
  the bound \<open>dispatch_bound\<close>, a weight of the queue that every round that goes on decreases;
  the lemmas of \<open>Dispatch\<close> prove that the bound is never used up. The
  chunk loop of \<open>cpu_bind_alloc\<close> recurses on the number of CPUs still wanted, which every round
  decreases. Loops that need not end (\<open>cpuset_loop\<close>, \<open>recv_loop\<close>, \<open>send_loop\<close>) are partial functions
  into options, and both their returning and their not returning are proved. The
  wait of a client, which need not end either, recurses on the connections and answers it gets, with
  \<open>None\<close> while it still waits. All other loops
  are recursions over the lists and texts the code walks. Durations,
  wall times and identifiers are C integers written with their wrap-around where the code adds
  to them; sizes of vectors are 64-bit words.

  \<^bold>\<open>Not modelled.\<close> Forking, redirection, signals and terminals (\<open>env.c\<close>, \<open>msgdump.c\<close>,
  \<open>server_start.c\<close>, most of \<open>execute.c\<close>), which are system calls; the rounding of floating-point
  numbers, whose range is modelled; the file operations of \<open>cgroups.c\<close> below the scan at start and
  those of the I/O thread of \<open>cpu_bind.c\<close>; \<open>cJSON\<close>, a vendored library;
  the text that \<open>printf\<close> makes of decimals and dates in a listing (a row is its format with its
  arguments); the log files. Memory exhaustion is modelled in \<open>Vec\<close> only, where the code handles it.
\<close>

section \<open>Dispatching and accounting\<close>

text \<open>
  C1. The dispatcher \<open>next_run_job\<close> returns on every consistent state. It keeps the queue in
  order, never takes the server or a user over its limit, keeps the accounting and the CPU
  pool consistent, and when it stops either all slots are taken or no user that has waiting
  jobs has a job left that could start.
\<close>

theorem next_run_job_correct:
  assumes "srv_ok b s" "cpu_ok (cpu s)" "users_vec s \<noteq> []"
  shows "\<exists>d s'. next_run_job s = Inr (d, s') \<and> 0 \<le> d \<and> srv_ok b s' \<and> cpu_ok (cpu s')
    \<and> map jobid (active_jobs s') = map jobid (active_jobs s) \<and> finished_jobs s' = finished_jobs s
    \<and> busy_slots s' \<le> max (busy_slots s) (max_slots s)
    \<and> (\<forall>u < length (users_vec s).
         busy (users_vec s' ! u) \<le> max (busy (users_vec s ! u)) (umax_slots (users_vec s ! u)))
    \<and> (max_slots s' \<le> busy_slots s' \<or> (\<forall>u < length (users_vec s').
         queue (users_vec s' ! u) \<noteq> 0 \<longrightarrow> (\<forall>j < length (active_jobs s'). \<not> dispatchable u s' j)))"
  using next_run_job_ok [OF assms] by (force simp: grows_def settled_def free_slots_def)

theorem next_run_job_correct_witness:
  "\<exists>d s'. next_run_job ex_srv = Inr (d, s') \<and> srv_ok True s' \<and> busy_slots s' \<le> 4"
proof -
  obtain d s' where "next_run_job ex_srv = Inr (d, s')" "srv_ok True s'"
    "busy_slots s' \<le> max (busy_slots ex_srv) (max_slots ex_srv)"
    using next_run_job_correct [OF ex_srv_ok] ex_cpu_ok ex_srv_parts by auto
  then show ?thesis by (auto simp: ex_defs)
qed





text \<open>
  C4. The recount \<open>s_update_slots_usage\<close>, which every request that needs free slots runs
  first, always completes: the time-out scan, the dead-process scan and the dispatch it
  contains find no dangling pointer and fail no internal check; afterwards both invariants
  still hold.
\<close>

theorem s_update_slots_usage_completes:
  assumes "srv_ok b s" "bind_ok s" "users_vec s \<noteq> []"
  shows "\<exists>usage s'. s_update_slots_usage s = Inr (usage, s') \<and> srv_ok b s' \<and> bind_ok s' \<and> users_vec s' \<noteq> []"
  using s_update_slots_usage_returns [of b s] assms by (auto simp: healthy_def returns_iff)

theorem s_update_slots_usage_completes_witness:
  "\<exists>usage s'. s_update_slots_usage ex_srv = Inr (usage, s') \<and> srv_ok True s' \<and> bind_ok s'"
  using s_update_slots_usage_completes [of True ex_srv] ex_srv_healthy by (auto simp: healthy_def)

text \<open>
  C5. Whatever the counters were, the counting loop of the recount makes them exact: the
  slots in use, and for each user the slots, the running jobs and the other jobs.
\<close>

theorem recount_correct:
  assumes "\<forall>p \<in> set (active_jobs s). \<exists>u < length (users_vec s). user p = Some u"
  shows "\<exists>usage s'. recount s = Inr (usage, s')
    \<and> usage = isum num_slots (filter (\<lambda>p. state p = RUNNING) (active_jobs s)) \<and> busy_slots s' = usage
    \<and> (\<forall>u < length (users_vec s).
         busy (users_vec s' ! u) = isum num_slots (filter (\<lambda>p. state p = RUNNING \<and> user p = Some u) (active_jobs s))
       \<and> njobs (users_vec s' ! u) = int (length (filter (\<lambda>p. state p = RUNNING \<and> user p = Some u) (active_jobs s)))
       \<and> queue (users_vec s' ! u) = int (length (filter (\<lambda>p. state p \<noteq> RUNNING \<and> user p = Some u) (active_jobs s))))"
  using recount_exact [OF assms]
  by (fastforce simp: run_slots_filter user_slots_filter user_runs_filter user_waits_filter)

theorem recount_correct_witness: "\<exists>s'. recount ex_srv = Inr (1, s') \<and> busy_slots s' = 1"
proof -
  have u: "\<forall>p \<in> set (active_jobs ex_srv). \<exists>u < length (users_vec ex_srv). user p = Some u" by (simp add: ex_defs)
  obtain usage s' where r: "recount ex_srv = Inr (usage, s')" "busy_slots s' = usage"
    "usage = isum num_slots (filter (\<lambda>p. state p = RUNNING) (active_jobs ex_srv))"
    using recount_correct [OF u] by blast
  then have "usage = 1" by (simp add: ex_defs)
  then show ?thesis using r by auto
qed

text \<open>
  C6. With a readable user file, a consistent CPU topology and a table of waiting jobs of
  known users, \<open>server_main\<close> reaches its loop when no process of an earlier server is left, with
  exact counters and a consistent CPU pool.
\<close>

theorem server_main_comes_up:
  assumes "user_file w \<noteq> None" "cpu_start w c"
    "\<forall>s1. read_user_file (zero_server w (d - 5) c) = Inr s1 \<longrightarrow> restorable (length (users_vec s1)) jobs"
    "all_ended (cgroup_dirs bt)"
  shows "\<exists>s. server_main bt w d c jobs finished = Inr s \<and> srv_ok True s \<and> bind_ok s"
  using server_main_returns [OF assms, of finished] by (auto simp: healthy_def returns_iff)

theorem server_main_comes_up_witness: "\<exists>s. ex_start = Inr s \<and> srv_ok True s \<and> bind_ok s"
  unfolding ex_start_def
  by (rule server_main_comes_up) (use ex_cpu_start ex_restorable in \<open>auto simp: ex_world_def all_ended_def ex_boot_def\<close>)



section \<open>The CPU pool\<close>







text \<open>
  C11. The start-up code builds a consistent pool from the topology table, with every CPU of
  the machine free.
\<close>

theorem cpu_bind_init_correct:
  assumes "wf_topo (topo c)" "sized_topo (topo c)"
  shows "cpu_ok (cpu_bind_init c) \<and> allocs (cpu_bind_init c) = []
    \<and> total_free (cpu_bind_init c) = int (card (topo_cpus (topo (cpu_bind_init c))))"
  using cpu_bind_init_ok [OF assms] cpu_ok_count [OF cpu_bind_init_ok [OF assms]]
  by (simp add: cpu_bind_init_def reset_topo)

theorem cpu_bind_init_correct_witness: "cpu_ok (cpu_bind_init ex_cpu) \<and> allocs (cpu_bind_init ex_cpu) = []"
  using cpu_bind_init_correct [of ex_cpu] ex_cpu_start by (simp add: cpu_start_def)

text \<open>
  C12. The I/O thread of the defragmenter. When its waits do not time out, the main thread is never
  inside a guarded operation on the control groups while a thread has work left. The time-out of 30
  seconds does not help against a thread that hangs in its work, since the return from the wait
  needs the mutex the thread holds; it only lets the main thread overtake a thread that has not
  begun, so that both work at once. Removing a group is not guarded: the
  thread can create it again afterwards.
\<close>

theorem defrag_io_exclusion:
  "(\<forall>s t. io_reachable False s \<and> main_pc s = In_op \<and> t \<in> set (threads s) \<longrightarrow> t = Ended)
   \<and> (\<forall>b s s' ops. io_reachable b s \<and> io_step b s s' \<and> main_pc s = Sleeping \<and> In_io ops \<in> set (threads s) \<longrightarrow> main_pc s' = Sleeping)
   \<and> (\<exists>s. io_reachable True s \<and> main_pc s = In_op \<and> threads s = [In_io (io_ops work)])
   \<and> (\<forall>b s i j p cs ops. main_pc s = Working \<and> i < length (threads s) \<and> threads s ! i = In_io (Io_write j p cs # ops) \<longrightarrow>
        (\<exists>s1 s2. io_step b s s1 \<and> (j, p) \<notin> cgroups s1 \<and> io_step b s1 s2 \<and> (j, p) \<in> cgroups s2))"
  using op_alone waits_for_ever late_start [of work] group_comes_back by blast

theorem defrag_io_exclusion_witness:
  "\<exists>s. io_reachable False s \<and> main_pc s = In_op \<and> length (threads s) = 1 \<and> threads s ! 0 = Ended"
proof -
  obtain s where s: "io_reachable False s" "main_pc s = In_op" "threads s = [Ended]" using quiet_run by blast
  then have "threads s ! 0 = Ended" using defrag_io_exclusion by (metis list.set_intros(1) nth_Cons_0)
  then show ?thesis using s by (intro exI [of _ s]) simp
qed

section \<open>Vectors\<close>



text \<open>
  Moving an element to the front of a vector (a removal followed by an insertion, as
  \<open>s_move_urgent\<close> does it) cannot fail half-way, even when no memory is left: the removal makes
  room for the insertion.
\<close>

lemma vec_move_to_front:
  assumes "alloc_bound mem" "vec_wf v" "unat i < length (cells v)" "vec_remove v i = (Some x, v1)"
    "vec_insert mem v1 0 x = (rc, v2)"
  shows "rc = 0 \<and> vec_wf v2 \<and> cells v2 = cells v ! unat i # remove_nth (unat i) (cells v)
    \<and> mset (cells v2) = mset (cells v)"
  using vec.move_to_front [of mem v i x v1 rc v2] assms by (simp add: mset_remove_nth)

section \<open>Requests on the queue\<close>

text \<open>
  C14. \<open>s_move_urgent\<close> puts the job in front, keeps the order of the others and tells the
  database and the client; for an id that no job of the queue has (\<open>-1\<close>, which the code means to
  stand for the last job, included) it only sends an error line.
\<close>

theorem s_move_urgent_correct:
  assumes "distinct (ids s)"
  shows "if jid \<in> set (ids s)
    then ids (s_move_urgent sock jid s) = jid # remove1 jid (ids s)
       \<and> out (s_move_urgent sock jid s) = out s @ [Db (Movetop jid), Send sock URGENT_OK]
    else s_move_urgent sock jid s = send_list_line sock (Line ''The job %i cannot be urged.'' [AInt jid]) s"
  using move_urgent_ids [OF assms] move_urgent_unknown by simp

theorem s_move_urgent_correct_witness:
  "ids (s_move_urgent 9 1002 ex_srv) = [1002, 1000, 1001, 1003]
   \<and> ids (s_move_urgent 9 (- 1) ex_srv) = [1000, 1001, 1002, 1003]"
proof -
  have d: "distinct (ids ex_srv)" "ids ex_srv = [1000, 1001, 1002, 1003]" by (simp_all add: ids_def ex_defs)
  then show ?thesis
    using s_move_urgent_correct [OF d(1), of 1002 9] s_move_urgent_correct [OF d(1), of "- 1" 9]
    by (simp add: send_list_line_def)
qed

text \<open>
  Swapping two jobs exchanges their positions; doing it twice gives back the queue.
\<close>

lemma s_swap_jobs_involution:
  assumes "distinct (ids s)" "findjob_idx j1 s = Some i" "findjob_idx j2 s = Some k"
  shows "findjob_idx j1 (s_swap_jobs sock j1 j2 s) = Some k \<and> findjob_idx j2 (s_swap_jobs sock j1 j2 s) = Some i
    \<and> active_jobs (s_swap_jobs sock j1 j2 (s_swap_jobs sock j1 j2 s)) = active_jobs s"
  using swap_ids [OF assms] swap_involution [OF assms] by blast


text \<open>
  C16. Changing the wall time of a job keeps its sign (negative marks a job that waits after
  a time-out) and changes its amount; a result that is not positive or does not fit 64 bits,
  an unknown job or the id 0 leave the queue as it was.
\<close>

theorem s_add_wtime_correct:
  assumes "jid \<noteq> 0" "findjob_idx jid s = Some i" "p = active_jobs s ! i" "i64abs (wall_time p) \<le> INT64_MAX"
  shows "active_jobs (s_add_wtime sock jid w s) =
    (if 0 < i64abs (wall_time p) + w \<and> i64abs (wall_time p) + w \<le> INT64_MAX
     then (active_jobs s)[i := p\<lparr>wall_time := (if wall_time p < 0 then -1 else 1) * (i64abs (wall_time p) + w)\<rparr>]
     else active_jobs s)"
proof (cases "0 < i64abs (wall_time p) + w \<and> i64abs (wall_time p) + w \<le> INT64_MAX")
  case True
  then show ?thesis using add_wtime_effect [OF assms(1-3), of w sock] by (simp cong: if_cong)
next
  case False
  then have "0 < w \<and> INT64_MAX < i64abs (wall_time p) + w \<or> i64abs (wall_time p) + w \<le> 0" using assms(4) by linarith
  then show ?thesis using add_wtime_refused [of jid s w sock] assms(2,3) False by auto
qed

theorem s_add_wtime_correct_witness:
  "wall_time (active_jobs (s_add_wtime 9 1001 60 ex_srv) ! 1) = 3660
   \<and> active_jobs (s_add_wtime 9 1001 (- 3600) ex_srv) = active_jobs ex_srv"
proof -
  have f: "findjob_idx 1001 ex_srv = Some 1" "wall_time (active_jobs ex_srv ! 1) = 3600" "1 < length (active_jobs ex_srv)"
    by (simp_all add: findjob_idx_def ex_defs)
  have a: "i64abs 3600 = 3600" by code_simp
  show ?thesis
    using s_add_wtime_correct [OF _ f(1) refl, of 9 60] s_add_wtime_correct [OF _ f(1) refl, of 9 "- 3600"] f a
    by (simp add: INT64_MAX_def)
qed

text \<open>
  Clearing the finished jobs removes exactly the requester's (all of them for root), in
  any number, and keeps the order of the others.
\<close>

lemma s_clear_finished_correct:
  "finished_jobs (s_clear_finished u s) = filter (\<lambda>p. \<not> (user p = u \<or> u = Some 0)) (finished_jobs s)"
  using clear_finished_filter [of u s] by (simp add: clears_def)

text \<open>
  After a dispatch every client that was held because the queue was full is told, once
  and in queue order, that its job is accepted, and every held job becomes a queued one.
\<close>

lemma wake_all_held_clients_correct:
  assumes "distinct (ids s)"
  shows "active_jobs (wake_all_held_clients s) =
      map (\<lambda>p. if state p = HOLDING_CLIENT then p\<lparr>state := QUEUED\<rparr> else p) (active_jobs s)
    \<and> out (wake_all_held_clients s) = out s @ map (\<lambda>p. Send (client_socket p) (NEWJOB_OK (jobid p)))
        (filter (\<lambda>p. state p = HOLDING_CLIENT) (active_jobs s))"
  using wake_all_effect [OF assms] by (simp add: wakes_def held_jobs_def)

section \<open>The life of a job\<close>

text \<open>
  C17. A submission without an id appends one job with the next id to the queue, owned by the
  requester, queued or held when the queue is full; the other jobs change at most in whom
  they will notify. A submission that asks for more slots than its user may use leaves the
  queue unchanged.
\<close>

theorem s_newjob_correct:
  assumes "s_newjob sock m (Some u) s = Inr (jid, s')" "m_jobid m = 0" "s_update_slots_usage s = Inr (usage, s1)"
  shows "if 0 < umax_slots (users_vec s1 ! u) \<and> umax_slots (users_vec s1 ! u) < m_num_slots m
    then jid = - 1 \<and> active_jobs s' = active_jobs s1
    else jid = jobids s1 \<and> jobids s' = jid + 1 \<and> length (active_jobs s') = Suc (length (active_jobs s1))
      \<and> request_of (last (active_jobs s')) = (jid, Some u, sock, m_num_slots m,
           if int (length (active_jobs s1)) + 1 < max_jobs s1 then QUEUED else HOLDING_CLIENT)
      \<and> command (last (active_jobs s')) = m_command m
      \<and> (\<forall>k < length (active_jobs s1). same_but_notify (active_jobs s' ! k) (active_jobs s1 ! k))"
  by (rule s_newjob_effect [OF assms])

definition ex_msg :: newjob_msg where
  "ex_msg = \<lparr>m_jobid = 0, m_num_slots = 2, m_no_cpu_binding = 0, m_store_output = 1, m_should_keep_finished = 1,
     m_depend_on = [1001], m_wall_time = 600, m_schedule_time = 0, m_command = Some ''make'', m_command_strip = 0,
     m_path = None, m_label = None, m_env = None, m_wait_enqueuing = True\<rparr>"

theorem s_newjob_correct_witness:
  "\<exists>s1 s'. s_update_slots_usage ex_srv = Inr (1, s1) \<and> s_newjob 9 ex_msg (Some 1) ex_srv = Inr (1004, s')
     \<and> jobids s' = 1005 \<and> length (active_jobs s') = 5"
proof -
  have "case s_update_slots_usage ex_srv of Inl _ \<Rightarrow> False
    | Inr (usage, s1) \<Rightarrow> usage = 1 \<and> length (active_jobs s1) = 4" by code_simp
  then obtain s1 where u: "s_update_slots_usage ex_srv = Inr (1, s1)" "length (active_jobs s1) = 4"
    by (auto split: sum.splits)
  have "case s_newjob 9 ex_msg (Some 1) ex_srv of Inl _ \<Rightarrow> False | Inr (jid, s') \<Rightarrow> jid = 1004" by code_simp
  then obtain s' where n: "s_newjob 9 ex_msg (Some 1) ex_srv = Inr (1004, s')" by (auto split: sum.splits)
  from s_newjob_correct [OF n _ u(1)] u n show ?thesis by (auto simp: ex_msg_def split: if_splits)
qed

text \<open>
  C18. The time-out scan: the jobs in time keep their order and stay as they are, the late
  ones follow them, last one first, paused and marked to run again with one day more; the
  flag tells whether there was a late one.
\<close>

theorem s_check_timeout_correct:
  assumes "s_check_timeout s = Inr (fl, s')"
  shows "fl = list_ex (overdue s) (active_jobs s)
    \<and> (\<exists>late. active_jobs s' = filter (\<lambda>p. \<not> overdue s p) (active_jobs s) @ late
         \<and> list_all2 relegated (rev (filter (overdue s) (active_jobs s))) late)"
  by (rule s_check_timeout_effect [OF assms])

definition ex_late :: srv where
  "ex_late = ex_srv\<lparr>active_jobs := [(ex_job 1000 RUNNING)\<lparr>num_allocated := 1, pid := 42, wall_time := 50\<rparr>, ex_job 1001 QUEUED]\<rparr>"

theorem s_check_timeout_correct_witness:
  "\<exists>s'. s_check_timeout ex_late = Inr (True, s') \<and> (\<exists>q. active_jobs s' = [ex_job 1001 QUEUED, q] \<and> wall_time q = - 86450)"
proof -
  have "case s_check_timeout ex_late of Inl _ \<Rightarrow> False | Inr (fl, s') \<Rightarrow> fl" by code_simp
  then obtain s' where s': "s_check_timeout ex_late = Inr (True, s')" by (auto split: sum.splits)
  have o: "map (overdue ex_late) (active_jobs ex_late) = [True, False]" by code_simp
  have "filter (\<lambda>p. \<not> overdue ex_late p) (active_jobs ex_late) = [ex_job 1001 QUEUED]"
    "filter (overdue ex_late) (active_jobs ex_late) = [(ex_job 1000 RUNNING)\<lparr>num_allocated := 1, pid := 42, wall_time := 50\<rparr>]"
    using o by (simp_all add: ex_late_def)
  moreover have "i64abs 50 = 50" by code_simp
  ultimately show ?thesis
    using s_check_timeout_correct [OF s'] s' by (auto simp: list_all2_Cons1 relegated_def)
qed

text \<open>
  C19. When a job of the finished list is announced, every client that waits for it is
  answered once, in the order they asked, with its error level, and no other client; the
  entries for other jobs stay; the job itself is destroyed after its last waiter exactly when
  it was not to be kept.
\<close>

theorem check_notify_list_correct:
  assumes "jid \<notin> jobid ` set (active_jobs s)" "find_finished_idx jid s = Some f" "j = finished_jobs s ! f"
    "state j = FINISHED \<or> state j = SKIPPED" "distinct (map fst (first_notify s))"
  shows "\<exists>s'. check_notify_list jid s = Inr s'
    \<and> out s' = out s @ map (\<lambda>n. Send (fst n) (WAITJOB_OK (errorlevel (result j)))) (filter (\<lambda>n. snd n = jid) (first_notify s))
    \<and> first_notify s' = filter (\<lambda>n. snd n \<noteq> jid) (first_notify s) \<and> active_jobs s' = active_jobs s
    \<and> finished_jobs s' = (if should_keep_finished j = 0 \<and> jid \<in> snd ` set (first_notify s)
        then remove_nth f (finished_jobs s) else finished_jobs s)"
proof -
  have "waiting_for jid (first_notify s) \<noteq> [] \<longleftrightarrow> jid \<in> snd ` set (first_notify s)"
    by (force simp: waiting_for_def filter_empty_conv)
  then show ?thesis
    using notify_loop_effect [OF assms(1-4), of "[]" "first_notify s"] assms(5)
    by (simp add: check_notify_list_def returns_iff waiting_for_def)
qed

definition ex_done :: srv where
  "ex_done = ex_srv\<lparr>finished_jobs := [ex_job 900 FINISHED], first_notify := [(11, 900), (12, 1001), (13, 900)]\<rparr>"

theorem check_notify_list_correct_witness:
  "\<exists>s'. check_notify_list 900 ex_done = Inr s' \<and> out s' = [Send 11 (WAITJOB_OK 0), Send 13 (WAITJOB_OK 0)]
     \<and> first_notify s' = [(12, 1001)]"
  using check_notify_list_correct [of 900 ex_done 0 "ex_job 900 FINISHED"]
  by (auto simp: ex_done_def find_finished_idx_def ex_defs)

text \<open>
  C20. Finishing a job of the queue on a consistent state returns: the job leaves the queue
  (the others keep their order), enters the finished list, and both invariants hold; the
  finished list never grows past its limit.
\<close>

theorem job_finished_correct:
  assumes "srv_ok b s" "bind_ok s" "users_vec s \<noteq> []" "findjob_idx jid s = Some i"
  shows "\<exists>s'. job_finished r jid s = Inr s' \<and> srv_ok b s' \<and> bind_ok s'
    \<and> map jobid (active_jobs s') = remove_nth i (map jobid (active_jobs s)) \<and> jid \<in> jobid ` set (finished_jobs s')
    \<and> int (length (finished_jobs s')) \<le> max (int (length (finished_jobs s))) (get_max_finished_jobs s)"
  using job_finished_binds [OF assms(1,2,4), of r] job_finished_ok [OF _ assms(1), of r jid] job_finished_bounded [of r jid s]
  by (auto simp: returns_iff)

theorem job_finished_correct_witness:
  "\<exists>s'. job_finished (killed_result 5) 1000 ex_srv = Inr s' \<and> map jobid (active_jobs s') = [1001, 1002, 1003]"
proof -
  have f: "findjob_idx 1000 ex_srv = Some 0" "map jobid (active_jobs ex_srv) = [1000, 1001, 1002, 1003]"
    by (simp_all add: findjob_idx_def ex_defs)
  show ?thesis
    using job_finished_correct [OF _ _ _ f(1), of True "killed_result 5"] ex_srv_healthy f(2)
    by (auto simp: healthy_def remove_nth_def)
qed

section \<open>User requests\<close>

text \<open>
  C21. While a user holds the server lock, another user that is not root cannot take or
  release it, and its submissions are dropped without an answer until the lock is 30 seconds
  old; the owner releases it.
\<close>

theorem server_lock_exclusive:
  assumes "user_locker s = Some l" "l < length (users_vec s)" "u < length (users_vec s)" "uid (users_vec s ! u) \<noteq> 0"
  shows "\<exists>s1 s2. s_lock_server sock (Some u) s = Inr s1 \<and> user_locker s1 = Some l
    \<and> s_unlock_server sock (Some u) s = Inr s2 \<and> user_locker s2 = (if u = l then None else Some l)
    \<and> (u \<noteq> l \<and> lock_fresh s \<longrightarrow> handle_newjob i sock m (Some u) s = Inr s)"
proof -
  have v: "\<forall>k. user_locker s = Some k \<longrightarrow> k < length (users_vec s)" using assms(1,2) by simp
  obtain s1 s2 where r: "s_lock_server sock (Some u) s = Inr s1" "s_unlock_server sock (Some u) s = Inr s2"
    using lock_returns [OF assms(3,4) v, of sock] by blast
  show ?thesis
    using r lock_request [OF assms(3,4) r(1)] unlock_request [OF assms(3,4) r(2)] assms(1) newjob_locked [OF assms(1)] by auto
qed

definition ex_locked :: srv where
  "ex_locked = ex_srv\<lparr>user_locker := Some 0, locker_time := 90\<rparr>"

theorem server_lock_exclusive_witness:
  "\<exists>s2. s_unlock_server 9 (Some 1) ex_locked = Inr s2 \<and> user_locker s2 = Some 0
     \<and> handle_newjob 1 9 ex_msg (Some 1) ex_locked = Inr ex_locked"
  using server_lock_exclusive [of ex_locked 0 1 9 1 ex_msg]
  by (auto simp: ex_locked_def lock_fresh_def get_monotonic_sec_def ex_defs)

text \<open>
  Holding a queued job takes it out of its user's queue count, continuing it gives back
  the very same job and user table.
\<close>

lemma lock_unlock_queue_roundtrip:
  assumes "state p = QUEUED" "user p = Some u" "u < length (users_vec s)"
  shows "\<exists>p1 s1 s2. s_lock_queue p s = Inr (p1, s1) \<and> state p1 = LOCKED
    \<and> queue (users_vec s1 ! u) = queue (users_vec s ! u) - 1
    \<and> s_unlock_queue p1 s1 = Inr (p, s2) \<and> users_vec s2 = users_vec s"
  by (rule lock_unlock_queue [OF assms])

text \<open>
  C22. Pausing a running job gives back its slots; continuing it takes the same ones again, so
  that the server's and every user's counters are what they were.
\<close>

theorem pause_continue_counters:
  assumes "job_ok True (length (users_vec s)) p" "state p = RUNNING" "safe_pause_job p s = Inr (p1, s1)"
    "config_running (p1\<lparr>state := PAUSE\<rparr>) s1 = Inr (err, p2, s2)"
  shows "\<not> err \<and> state p2 = RUNNING \<and> num_allocated p2 = num_slots p \<and> busy_slots s2 = busy_slots s
    \<and> busy_slots s1 = busy_slots s - num_slots p
    \<and> map (\<lambda>u. (busy u, njobs u)) (users_vec s2) = map (\<lambda>u. (busy u, njobs u)) (users_vec s)"
  by (rule pause_resume_counters [OF assms])

theorem pause_continue_counters_witness:
  "\<exists>p1 s1 err p2 s2. safe_pause_job ex_running ex_srv = Inr (p1, s1) \<and> busy_slots s1 = 0
     \<and> config_running (p1\<lparr>state := PAUSE\<rparr>) s1 = Inr (err, p2, s2) \<and> busy_slots s2 = 1"
proof -
  have "case safe_pause_job ex_running ex_srv of Inl _ \<Rightarrow> False | Inr (p1, s1) \<Rightarrow>
      (case config_running (p1\<lparr>state := PAUSE\<rparr>) s1 of Inl _ \<Rightarrow> False | Inr (err, p2, s2) \<Rightarrow> \<not> err)" by code_simp
  then obtain p1 s1 where r1: "safe_pause_job ex_running ex_srv = Inr (p1, s1)"
    and "case config_running (p1\<lparr>state := PAUSE\<rparr>) s1 of Inl _ \<Rightarrow> False | Inr (err, p2, s2) \<Rightarrow> \<not> err"
    by (cases "safe_pause_job ex_running ex_srv") auto
  then obtain err p2 s2 where r: "config_running (p1\<lparr>state := PAUSE\<rparr>) s1 = Inr (err, p2, s2)"
    by (cases "config_running (p1\<lparr>state := PAUSE\<rparr>) s1") auto
  have "job_ok True (length (users_vec ex_srv)) ex_running" "state ex_running = RUNNING" "num_slots ex_running = 1" "busy_slots ex_srv = 1"
    by (simp_all add: job_ok_def live_def ex_defs)
  with pause_continue_counters [OF _ _ r1 r] r1 r show ?thesis by auto
qed



section \<open>Text\<close>

text \<open>
  The list of dependencies survives its text form in the database, for 32-bit ids and
  any separator that is not part of a number.
\<close>

lemma dependency_list_roundtrip:
  assumes "xs \<noteq> []" "\<forall>x \<in> set xs. - 2147483648 \<le> x \<and> x \<le> 2147483647" "\<not> is_digit d" "d \<noteq> CHR ''-''"
  shows "chars_to_ints (ints_to_chars xs d) d = (length xs, xs)"
  by (rule chars_ints_inverse [OF assms])

section \<open>Requests that stop the server\<close>




section \<open>Listings\<close>



section \<open>The database\<close>

definition ex_engine :: engine where
  "ex_engine = \<lparr>sql_ok = (\<lambda>_. True), null_q = ''(NULL)''\<rparr>"

text \<open>The four jobs of the example queue in a table.\<close>

definition ex_db :: database where
  "ex_db = (case exec_events ex_engine (users_vec ex_srv) (map (\<lambda>p. Db (Insert p Jobs)) (active_jobs ex_srv)) empty_db of
     Inl _ \<Rightarrow> empty_db | Inr d \<Rightarrow> d)"

lemma ex_engine_healthy: "healthy_engine ex_engine" "QUOTE \<notin> set (null_q ex_engine)"
  by (simp_all add: healthy_engine_def ex_engine_def QUOTE_def)

lemma ex_jobs_c: "\<forall>p \<in> set (active_jobs ex_srv). c_job p" "distinct (map jobid (active_jobs ex_srv))"
  "length (active_jobs ex_srv) < ORDER_LIMIT"
  by (auto simp: c_job_def c_result_def c_info_def int32_def int64_def INT64_MAX_def ORDER_LIMIT_def ex_defs)

lemma ex_db_run:
  "exec_events ex_engine (users_vec ex_srv) (map (\<lambda>p. Db (Insert p Jobs)) (active_jobs ex_srv)) empty_db = Inr ex_db"
proof -
  have "\<forall>p \<in> set (active_jobs ex_srv). text_size ex_engine p + 1500 \<le> SQL_SIZE
      \<and> int32 (case user p of None \<Rightarrow> - 1 | Some u \<Rightarrow> uid (users_vec ex_srv ! u))"
    by (simp add: text_size_def mprintf_q_def ex_engine_def QUOTE_def SQL_SIZE_def int32_def show_int_def
        show_nat.simps ex_defs)
  then have "\<exists>d. exec_events ex_engine (users_vec ex_srv) (map (\<lambda>p. Db (Insert p Jobs)) (active_jobs ex_srv)) empty_db = Inr d"
    using ex_jobs_c by (intro insert_all_returns [OF empty_db_holds _ ex_engine_healthy(1)]) auto
  then show ?thesis by (auto simp: ex_db_def)
qed

text \<open>
  C26. A queue written to an empty database job by job is read back at the next start: all jobs,
  in the order of the queue, each with the fields the table has, whatever quotes, commas or
  numbers its texts contain. What changes is exactly what \<open>reloaded\<close> says.
\<close>

theorem queue_database_roundtrip:
  assumes "exec_events e us (map (\<lambda>p. Db (Insert p Jobs)) ps) empty_db = Inr d"
    "healthy_engine e" "QUOTE \<notin> set (null_q e)" "\<forall>p \<in> set ps. c_job p" "distinct (map jobid ps)"
    "length ps < ORDER_LIMIT"
  shows "load_table e proc_uid us Jobs d = Inr (map (\<lambda>p. reloaded e (reload_user proc_uid us Jobs p) p) ps)"
proof -
  have "\<forall>p \<in> set ps. int32 (jobid p)" using assms(4) by (simp add: c_job_def)
  then have "holds e us ps d \<and> order_good (length ps) d"
    using insert_all_holds [OF assms(1) empty_db_holds] assms(2,5,6) by simp
  then show ?thesis using holds_load assms(2-4) by blast
qed

theorem queue_database_roundtrip_witness:
  "\<exists>d ps. exec_events ex_engine (users_vec ex_srv) (map (\<lambda>p. Db (Insert p Jobs)) (active_jobs ex_srv)) empty_db = Inr d
     \<and> load_table ex_engine (\<lambda>_. None) (users_vec ex_srv) Jobs d = Inr ps
     \<and> map jobid ps = [1000, 1001, 1002, 1003] \<and> map user ps = [Some 1, Some 1, Some 1, Some 1]"
proof -
  let ?ps = "active_jobs ex_srv" and ?us = "users_vec ex_srv"
  have "load_table ex_engine (\<lambda>_. None) ?us Jobs ex_db
      = Inr (map (\<lambda>p. reloaded ex_engine (reload_user (\<lambda>_. None) ?us Jobs p) p) ?ps)"
    by (rule queue_database_roundtrip [OF ex_db_run ex_engine_healthy ex_jobs_c])
  then show ?thesis
    using ex_db_run by (auto simp: reloaded_def reload_user_def get_user_by_pid_def wrap32_def ex_defs)
qed

text \<open>
  C27. While statements succeed, the order of the table follows the order of the queue: executing
  the database operations that an urgent request, a swap, or the requeueing of jobs that timed
  out emits turns a table in the order of the queue before into one in the order of the queue
  after, for all requests within the range of the order numbers.
\<close>

theorem database_order_follows_queue:
  assumes "healthy_engine e" "order_good n d" "n < ORDER_LIMIT"
  shows "(db_order d = ids s \<longrightarrow>
      (\<exists>d'. exec_events e us (new_events s (s_move_urgent sock a s)) d = Inr d'
         \<and> order_good (Suc n) d' \<and> db_order d' = ids (s_move_urgent sock a s))
    \<and> (\<exists>d'. exec_events e us (new_events s (s_swap_jobs sock a b s)) d = Inr d'
         \<and> order_good n d' \<and> db_order d' = ids (s_swap_jobs sock a b s)))
    \<and> (\<forall>ps. n + length ps \<le> ORDER_LIMIT \<and> distinct (map jobid ps) \<and> jobid ` set ps \<subseteq> set (db_order d)
         \<and> filter (\<lambda>j. j \<notin> jobid ` set ps) (db_order d) = ids s \<longrightarrow>
      (\<exists>d'. exec_events e us (new_events s (requeue_timed_out ps s)) d = Inr d'
         \<and> order_good (n + length ps) d' \<and> db_order d' = ids (requeue_timed_out ps s)))"
proof -
  have g: "store_good n (e, us, d)" using assms by (simp add: store_good_def)
  have o: "store_order (e, us, d) = db_order d" by (simp add: store_order_def)
  have lift: "\<exists>d'. exec_events e us evs d = Inr d' \<and> order_good m d' \<and> db_order d' = q"
    if "returns (run_events store_exec evs (e, us, d)) (\<lambda>x. store_good m x \<and> store_order x = q)" for evs m q
    using that by (auto simp: returns_iff store_run rbind_eq_Inr store_good_def store_order_def)
  show ?thesis
    using lift [OF jobs_db.urgent_sync [OF g assms(3)]] lift [OF jobs_db.swap_sync [OF g assms(3)]]
      lift [OF jobs_db.timed_out_sync [OF g]] by (simp add: o)
qed

theorem database_order_follows_queue_witness:
  "\<exists>d'. exec_events ex_engine (users_vec ex_srv) (new_events ex_srv (s_move_urgent 9 1002 ex_srv)) ex_db = Inr d'
     \<and> db_order d' = [1002, 1000, 1001, 1003]"
proof -
  have k: "holds ex_engine (users_vec ex_srv) (active_jobs ex_srv) ex_db \<and> order_good (length (active_jobs ex_srv)) ex_db"
    using insert_all_holds [OF ex_db_run empty_db_holds] ex_engine_healthy(1) ex_jobs_c by (auto simp: c_job_def)
  have o: "db_order ex_db = ids ex_srv" using k by (simp add: holds_def ids_def)
  from database_order_follows_queue [OF ex_engine_healthy(1) conjunct2 [OF k] ex_jobs_c(3), of ex_srv "users_vec ex_srv" 9 1002 1000] o
  have "\<exists>d'. exec_events ex_engine (users_vec ex_srv) (new_events ex_srv (s_move_urgent 9 1002 ex_srv)) ex_db = Inr d'
      \<and> db_order d' = ids (s_move_urgent 9 1002 ex_srv)" by blast
  moreover have "ids (s_move_urgent 9 1002 ex_srv) = [1002, 1000, 1001, 1003]" by code_simp
  ultimately show ?thesis by simp
qed



text \<open>
  C29. The statement is printed into a buffer of 16384 bytes without a bound: writing a job whose
  command is that long overruns it, as soon as the order number of the job is known.
\<close>

theorem long_command_overruns:
  assumes "command p = Some c" "SQL_SIZE \<le> length c" "get_order_id e (jobid p) d = Some k"
  shows "edit_DB e us p t act d = Inl Out_of_bounds"
proof -
  have "Quoted (mprintf_q e (command p)) \<in> set (edit_args e us p k)" by (simp add: edit_args_def)
  then have "\<not> length (edit_sql act t (edit_args e us p k)) < SQL_SIZE"
    using arg_fits [of act t "edit_args e us p k"] assms(1,2) escape_length [of c]
    by (fastforce simp: arg_text_def mprintf_q_def)
  then show ?thesis using assms(3) by (simp add: edit_DB_def Let_def)
qed

theorem long_command_overruns_witness:
  "edit_DB ex_engine (users_vec ex_srv) ((ex_job 7 QUEUED)\<lparr>command := Some (replicate 20000 (CHR ''x''))\<rparr>) Finished ''INSERT''
     (empty_db\<lparr>Jobs_rows := [make_row edit_columns (edit_args ex_engine (users_vec ex_srv) (ex_job 7 QUEUED) 1)]\<rparr>) = Inl Out_of_bounds"
proof -
  have "row_id (make_row edit_columns (edit_args ex_engine (users_vec ex_srv) (ex_job 7 QUEUED) 1)) = 7"
    unfolding row_of_edit by (simp add: ex_job_def)
  then have "get_order_id ex_engine 7 (empty_db\<lparr>Jobs_rows := [make_row edit_columns (edit_args ex_engine (users_vec ex_srv) (ex_job 7 QUEUED) 1)]\<rparr>)
      = Some (col_int (make_row edit_columns (edit_args ex_engine (users_vec ex_srv) (ex_job 7 QUEUED) 1) ! 33))"
    by (simp add: get_order_id_def ex_engine_def)
  moreover have "SQL_SIZE \<le> length (replicate 20000 (CHR ''x''))" unfolding length_replicate SQL_SIZE_def by simp
  ultimately show ?thesis by (intro long_command_overruns [of _ "replicate 20000 (CHR ''x'')"]) (simp_all add: ex_job_def)
qed

section \<open>CPU sets after a restart\<close>

definition ex_two_nodes :: cpu_alloc_t where
  "ex_two_nodes = \<lparr>primary_node = - 1, mem_nodes = 3, a_cpus = [0, 8], a_slots = 2, a_jobid = 7, a_error = 0, quality = 0\<rparr>"

text \<open>
  C30. The CPUs of an allocation survive their text form: what \<open>cpu_bind_format_cpus\<close> prints is never
  cut off and parses back to them, and so does the form the kernel reports, with ranges.
\<close>

theorem cpuset_text_roundtrip:
  assumes "limc \<le> 2147483648"
  shows "(a_cpus a \<noteq> [] \<and> (\<forall>c \<in> set (a_cpus a). int c < limc) \<and> length (a_cpus a) \<le> mx \<longrightarrow>
      cpu_bind_parse_cpuset limc mx (Some (cpu_bind_format_cpus (Some a))) = Some (Some (map int (a_cpus a))))
    \<and> (rs \<noteq> [] \<and> (\<forall>r \<in> set rs. fst r \<le> snd r \<and> int (snd r) < limc) \<and> range_size rs \<le> mx \<longrightarrow>
      cpu_bind_parse_cpuset limc mx (Some (ranges_text rs)) = Some (Some (concat (map (\<lambda>r. [int (fst r)..int (snd r)]) rs))))"
proof (intro conjI impI)
  assume "a_cpus a \<noteq> [] \<and> (\<forall>c \<in> set (a_cpus a). int c < limc) \<and> length (a_cpus a) \<le> mx"
  then show "cpu_bind_parse_cpuset limc mx (Some (cpu_bind_format_cpus (Some a))) = Some (Some (map int (a_cpus a)))"
    using parse_format assms by blast
next
  assume r: "rs \<noteq> [] \<and> (\<forall>r \<in> set rs. fst r \<le> snd r \<and> int (snd r) < limc) \<and> range_size rs \<le> mx"
  then have "ranges_text rs \<noteq> []"
    using show_nat_digits by (cases rs rule: remdups_adj.cases) (auto simp: range_text_def)
  then show "cpu_bind_parse_cpuset limc mx (Some (ranges_text rs)) = Some (Some (concat (map (\<lambda>r. [int (fst r)..int (snd r)]) rs)))"
    using loop_ranges [of rs limc "[]" mx] r assms by (simp add: cpu_bind_parse_cpuset_def)
qed

theorem cpuset_text_roundtrip_witness: "cpu_bind_parse_cpuset 64 64 (Some (ranges_text [(0, 3), (6, 6)])) = Some (Some [0, 1, 2, 3, 6])"
proof -
  have "[0..3] = [0, 1, 2, 3 :: int]" "[6..6] = [6 :: int]" by (simp_all add: upto_rec1)
  then show ?thesis
    using conjunct2 [OF cpuset_text_roundtrip [of 64 ex_two_nodes 64 "[(0, 3), (6, 6)]"]] by (simp add: range_size_def)
qed

text \<open>
  C31. The parser of a CPU set returns on every text of digits, separators and dashes. A text
  whose next character is another one, after separators, makes it loop for ever.
\<close>

theorem cpuset_parser_termination:
  "(list_all cpuset_char t \<longrightarrow> (\<exists>r. cpu_bind_parse_cpuset limc mx (Some t) = Some r))
   \<and> (0 < limc \<and> list_all is_sep seps \<and> \<not> cpuset_char c \<longrightarrow> cpu_bind_parse_cpuset limc mx (Some (seps @ c # t)) = None)"
proof (intro conjI impI)
  assume "list_all cpuset_char t"
  then show "\<exists>r. cpu_bind_parse_cpuset limc mx (Some t) = Some r"
    using loop_returns by (simp add: cpu_bind_parse_cpuset_def)
next
  assume a: "0 < limc \<and> list_all is_sep seps \<and> \<not> cpuset_char c"
  then have "dropWhile is_sep (seps @ c # t) = c # t" by (auto simp: dropWhile_append2 list_all_iff cpuset_char_def)
  then have "cpuset_loop limc mx (seps @ c # t) [] \<noteq> Some y" for y using loop_stuck [of limc mx "seps @ c # t" "[]" y] a by auto
  then have "cpuset_loop limc mx (seps @ c # t) [] = None" using option.exhaust by blast
  then show "cpu_bind_parse_cpuset limc mx (Some (seps @ c # t)) = None" by (simp add: cpu_bind_parse_cpuset_def)
qed

theorem cpuset_parser_termination_witness: "cpu_bind_parse_cpuset 64 64 (Some '',x'') = None"
proof -
  have "list_all is_sep '',''" "\<not> cpuset_char (CHR ''x'')" by (simp_all add: is_sep_def cpuset_char_def is_digit_def)
  then show ?thesis
    using conjunct2 [OF cpuset_parser_termination [of "[]" 64 64 "'',''" "CHR ''x''"]] by simp
qed

text \<open>
  The memory nodes of an allocation over several nodes survive their text form, but the first
  of them comes back as the primary node. Written again, as the server does at once after a
  restart, the set is that single node.
\<close>

lemma cross_node_memory_shrinks:
  assumes "primary_node a < 0" "n \<le> 31" "\<forall>k. bit (mem_nodes a) k \<longrightarrow> k < n" "bit (mem_nodes a) b"
    "\<forall>k < b. \<not> bit (mem_nodes a) k"
  shows "parse_mems n (Some (cpu_bind_format_mems n (Some a))) = (int b, mem_nodes a)
    \<and> cpu_bind_format_mems n (Some (a\<lparr>primary_node := int b\<rparr>)) = show_nat b"
  using parse_format_mems [OF assms] by (simp add: cpu_bind_format_mems_def show_int_def)




section \<open>Texts for the shell and transfers\<close>


text \<open>
  C34. Receiving returns all the bytes asked for, whatever pieces they arrive in, with the size of the
  last piece as its result; but when the peer closes the connection before the last byte the
  receiver never returns. Sending puts every byte on the wire as long as each call takes some.
\<close>

theorem transfer_complete_or_stuck:
  "(bs \<noteq> [] \<and> (\<forall>b \<in> set bs. b \<noteq> []) \<and> (\<forall>i < length bs. chunk i = Some (bs ! i)) \<longrightarrow>
      recv_bytes chunk (length (concat bs)) = Some (int (length (last bs)), concat bs))
   \<and> (length (concat bs) < n \<and> (\<forall>i < length bs. chunk i = Some (bs ! i)) \<and> (\<forall>i \<ge> length bs. chunk i = Some []) \<longrightarrow>
      recv_bytes chunk n = None)
   \<and> ((\<forall>i. \<exists>a > 0. accept i = Some a) \<longrightarrow> send_bytes accept bytes = Some bytes)"
proof (intro conjI impI)
  assume "bs \<noteq> [] \<and> (\<forall>b \<in> set bs. b \<noteq> []) \<and> (\<forall>i < length bs. chunk i = Some (bs ! i))"
  then show "recv_bytes chunk (length (concat bs)) = Some (int (length (last bs)), concat bs)"
    using recv_loop_gathers [of bs chunk 0 "length (concat bs)" "[]"] by (simp add: recv_bytes_def)
next
  assume a: "length (concat bs) < n \<and> (\<forall>i < length bs. chunk i = Some (bs ! i)) \<and> (\<forall>i \<ge> length bs. chunk i = Some [])"
  then have "recv_bytes chunk n \<noteq> Some y" for y using recv_loop_short [of bs n chunk 0 "[]" y] by (auto simp: recv_bytes_def)
  then show "recv_bytes chunk n = None" using option.exhaust by blast
next
  assume "\<forall>i. \<exists>a > 0. accept i = Some a"
  then show "send_bytes accept bytes = Some bytes" using send_loop_all by (simp add: send_bytes_def)
qed

theorem transfer_complete_or_stuck_witness:
  "recv_bytes (\<lambda>i. Some (if i = 0 then [1, 2] else if i = 1 then [3] else [])) 3 = Some (1, [1, 2, 3])
   \<and> recv_bytes (\<lambda>i. Some (if i = 0 then [1, 2] else if i = 1 then [3] else [])) 4 = None"
  using transfer_complete_or_stuck [of "[[1, 2], [3]]" "\<lambda>i. Some (if i = 0 then [1, 2] else if i = 1 then [3] else [])" 4 "\<lambda>_. Some 1" "[]"]
  by (simp add: less_Suc_eq numeral_3_eq_3)

section \<open>The command line\<close>

text \<open>
  C35. Durations on the command line. A sequence of numbers with units is read as the sum of its
  parts in seconds, and refused above 1000 days. The text of a waiting time is read back as that
  time, to the minute from an hour on. A negative duration comes out one second short, since half
  a second is added before the cut; \<open>nan\<close> passes the range check and its conversion is undefined.
\<close>

theorem durations_read:
  assumes "\<forall>(n, u) \<in> set xs. n < 9007199254740992 \<and> multiplier u \<noteq> None"
    "0 < k" "int k * unit_secs v \<le> 86400000" "multiplier v \<noteq> None" "0 < d" "d \<le> 86400000"
  shows "parse_time (duration_text xs) = Inr (if duration_secs xs \<le> 86400000 then Some (duration_secs xs) else None)
    \<and> parse_time (format_schedule_delta (t0 + d) t0) = Inr (Some (if d < 3600 then d else d - d mod 60))
    \<and> parse_time (CHR ''-'' # show_nat k @ [v]) = Inr (Some (1 - int k * unit_secs v))
    \<and> parse_time ''nan'' = Inl Bad_conversion"
proof -
  obtain ys where y: "format_schedule_delta (t0 + d) t0 = duration_text ys"
      "\<forall>(n, u) \<in> set ys. int n \<le> d \<and> multiplier u \<noteq> None" "duration_secs ys = (if d < 3600 then d else d - d mod 60)"
    using delta_text [of "t0 + d" t0] assms(5) by auto
  have "\<forall>(n, u) \<in> set ys. n < 9007199254740992 \<and> multiplier u \<noteq> None" using y(2) assms(6) by fastforce
  moreover have "duration_secs ys \<le> 86400000" using y(3) assms(5,6) pos_mod_sign [of 60 d] by (auto split: if_splits)
  ultimately have "parse_time (format_schedule_delta (t0 + d) t0) = Inr (Some (if d < 3600 then d else d - d mod 60))"
    using parse_time_text [of ys] y(1,3) by simp
  moreover have "parse_time ''nan'' = Inl Bad_conversion" by code_simp
  ultimately show ?thesis using parse_time_text [OF assms(1)] parse_time_negative [OF assms(2-4)] by blast
qed

theorem durations_read_witness:
  "parse_time ''2h30m'' = Inr (Some 9000) \<and> parse_time (format_schedule_delta 5100 100) = Inr (Some 4980)
   \<and> parse_time ''-5m'' = Inr (Some (- 299))"
proof -
  have u: "multiplier (CHR ''h'') = Some 3600" "multiplier (CHR ''m'') = Some 60" "unit_secs (CHR ''h'') = 3600" "unit_secs (CHR ''m'') = 60"
    by (simp_all add: multiplier_def unit_secs_def tolower_def)
  note d = durations_read [of "[(2, CHR ''h''), (30, CHR ''m'')]" 5 "CHR ''m''" 5000 100]
  have t: "show_nat 2 = ''2''" "show_nat 30 = ''30''" "show_nat 5 = ''5''" by code_simp+
  show ?thesis using d u t by (simp add: duration_secs_def)
qed

text \<open>
  C36. From the words of a command line to the queue of the server. When the options are accepted and
  words are left, these words, unchanged, are the command; the message carries the whole line and how
  much of it precedes the command, and the job that the server appends stores the line, from which
  that prefix leaves exactly the words of the command.
\<close>

theorem submission_verbatim:
  assumes "parse_opts e ws = Inr c" "cl_command c \<noteq> []" "cl_jobid c = 0" "newjob_of c path myenv = Inr m"
    "s_update_slots_usage s = Inr (usage, s1)" "s_newjob sock m (Some u) s = Inr (jid, s')" "jid \<noteq> - 1"
  shows "\<exists>es n t. getopt_long 1 (tl ws) = (es, n) \<and> n < length ws \<and> cl_command c = drop n ws \<and> request c = c_QUEUE
    \<and> charArray_string (drop n ws) = Inr t \<and> command (last (active_jobs s')) = Some (linux_cmd c)
    \<and> 0 < m_command_strip m \<and> drop (nat (m_command_strip m)) (linux_cmd c) = t
    \<and> num_slots (last (active_jobs s')) = cl_num_slots c \<and> length (active_jobs s') = Suc (length (active_jobs s1))"
proof -
  obtain es n where g: "getopt_long 1 (tl ws) = (es, n)" "n < length ws" "request c = c_QUEUE" "cl_command c = drop n ws"
    using parse_opts_queue [OF assms(1,2)] by blast
  obtain t where t: "charArray_string (cl_command c) = Inr t" "m_command m = Some (linux_cmd c)"
      "0 < m_command_strip m" "drop (nat (m_command_strip m)) (linux_cmd c) = t"
    using newjob_strip [OF assms(1,2), of path myenv] assms(4) by auto
  have m: "m_jobid m = 0" "m_num_slots m = cl_num_slots c" using assms(3,4) by (auto simp: newjob_of_def rbind_eq_Inr)
  show ?thesis
    using s_newjob_effect [OF assms(6) m(1) assms(5)] assms(7) g t m(2) by (auto simp: request_of_def split: if_splits)
qed

definition ex_cenv :: client_env where
  "ex_cenv = \<lparr>cal = \<lparr>strptime = (\<lambda>_ _. None), mktime = (\<lambda>x. (- 1, x)),
      localtime = (\<lambda>_. \<lparr>tm_sec = 0, tm_min = 0, tm_hour = 0, tm_mday = 1, tm_mon = 0, tm_year = 70, tm_isdst = 0\<rparr>), time_now = 0, mono_now = 0\<rparr>,
    client_getenv = (\<lambda>_. None), rands = (1, 2, 3)\<rparr>"

theorem submission_verbatim_witness:
  "\<exists>c m s'. parse_opts ex_cenv [''ts'', ''-N'', ''2'', ''make'', ''-j''] = Inr c \<and> newjob_of c ''/'' None = Inr m
     \<and> s_newjob 9 m (Some 1) ex_srv = Inr (1004, s') \<and> command (last (active_jobs s')) = Some ''ts -N 2 make -j''
     \<and> num_slots (last (active_jobs s')) = 2"
proof -
  let ?ws = "[''ts'', ''-N'', ''2'', ''make'', ''-j'']"
  have "case parse_opts ex_cenv ?ws of Inl _ \<Rightarrow> False
    | Inr c \<Rightarrow> cl_command c \<noteq> [] \<and> cl_jobid c = 0 \<and> linux_cmd c = ''ts -N 2 make -j'' \<and> cl_num_slots c = 2
       \<and> (case newjob_of c ''/'' None of Inl _ \<Rightarrow> False | Inr m \<Rightarrow>
           (case s_newjob 9 m (Some 1) ex_srv of Inl _ \<Rightarrow> False | Inr (jid, s') \<Rightarrow> jid = 1004))" by code_simp
  then obtain c m s' where c: "parse_opts ex_cenv ?ws = Inr c" "cl_command c \<noteq> []" "cl_jobid c = 0" "newjob_of c ''/'' None = Inr m"
      "s_newjob 9 m (Some 1) ex_srv = Inr (1004, s')" "linux_cmd c = ''ts -N 2 make -j''" "cl_num_slots c = 2"
    by (auto split: sum.splits)
  have "case s_update_slots_usage ex_srv of Inl _ \<Rightarrow> False | Inr (usage, s1) \<Rightarrow> True" by code_simp
  then obtain usage s1 where "s_update_slots_usage ex_srv = Inr (usage, s1)" by (auto split: sum.splits)
  from submission_verbatim [OF c(1-4) this c(5)] c show ?thesis by auto
qed

text \<open>
  C37. Words that the options take. The short option \<open>E\<close> is declared with an argument, so it takes the
  first word of the command, and what remains is a request for the listing. \<open>suspend\<close> and
  \<open>resume\<close> take an optional argument, so a name in the next word is not read: root then
  suspends or resumes everybody, since no name stands for the client's own user and 0 for all.
  Of a word, however long, at most 1024 characters count for the limit of the command.
\<close>

theorem option_words:
  assumes "take 1 w \<noteq> ''-''"
  shows "(\<exists>c. parse_opts e [''ts'', ''-E'', w] = Inr c \<and> request c = c_LIST \<and> cl_command c = [])
    \<and> (\<exists>c. parse_opts e [''ts'', ''--suspend'', w] = Inr c \<and> request c = c_SUSPEND_USER \<and> target_user pw 0 c = Some 0
         \<and> main_request pw 0 c k = Ret 0 (c_wait_server_lines (c_suspend_user 0 (say ''To stop all users by `Root`'' [] k))))
    \<and> (\<exists>c. parse_opts e [''ts'', ''--resume'', w] = Inr c \<and> request c = c_RESUME_USER \<and> target_user pw 0 c = Some 0
         \<and> main_request pw 0 c k = Ret 0 (c_wait_server_lines (c_resume_user 0 (say ''To resume all users from `Root`'' [] k))))
    \<and> (\<exists>c. parse_opts e [''ts'', w] = Inr c \<and> request c = c_QUEUE \<and> cl_command c = [w])"
proof -
  have opts: "parse_opts e (v # vs) = rbind (rfold (one_option e) es (default_command_line e (v # vs))) (\<lambda>c. rbind (take_command n c) finish_opts)"
    if "getopt_long 1 vs = (es, n)" for v vs es n using that by (simp add: parse_opts_def)
  note parse = take_command_def finish_opts_def charArray_string_def default_command_line_def
  have E: "one_option e (Opt (CHR ''E'') (Some w) 2 0) c = Inr (c\<lparr>stderr_apart := True\<rparr>)" for c
    by (simp add: plain_letters_def arg_option_def job_request_def)
  have sus: "one_option e (Long ''suspend'' None) c = Inr (c\<lparr>request := c_SUSPEND_USER, cl_label := None\<rparr>)"
    and res: "one_option e (Long ''resume'' None) c = Inr (c\<lparr>request := c_RESUME_USER, cl_label := None\<rparr>)" for c
    by (simp_all add: long_option_def long_request_def)
  have g: "getopt_long 1 [w] = ([], 1)" using assms by (auto simp: option_word_def)
  have "\<exists>c. parse_opts e [''ts'', ''-E'', w] = Inr c \<and> request c = c_LIST \<and> cl_command c = []"
    unfolding opts [OF swallowed_word] by (simp add: parse E del: one_option.simps)
  moreover have "\<exists>c. parse_opts e [''ts'', ''--suspend'', w] = Inr c \<and> request c = c_SUSPEND_USER \<and> target_user pw 0 c = Some 0
         \<and> main_request pw 0 c k = Ret 0 (c_wait_server_lines (c_suspend_user 0 (say ''To stop all users by `Root`'' [] k)))"
    unfolding opts [OF optional_word(1) [OF assms]] by (simp add: parse sus target_user_def main_request_def user_request_def del: one_option.simps)
  moreover have "\<exists>c. parse_opts e [''ts'', ''--resume'', w] = Inr c \<and> request c = c_RESUME_USER \<and> target_user pw 0 c = Some 0
         \<and> main_request pw 0 c k = Ret 0 (c_wait_server_lines (c_resume_user 0 (say ''To resume all users from `Root`'' [] k)))"
    unfolding opts [OF optional_word(2) [OF assms]] by (simp add: parse res target_user_def main_request_def user_request_def del: one_option.simps)
  moreover have "\<exists>c. parse_opts e [''ts'', w] = Inr c \<and> request c = c_QUEUE \<and> cl_command c = [w]"
    unfolding opts [OF g] by (simp add: parse Let_def MAX_LEN_def)
  ultimately show ?thesis by blast
qed

theorem option_words_witness:
  "(\<exists>c. parse_opts ex_cenv [''ts'', ''-E'', ''make''] = Inr c \<and> request c = c_LIST)
   \<and> (\<exists>c. parse_opts ex_cenv [''ts'', ''--suspend'', ''make''] = Inr c \<and> target_user (\<lambda>_. Some 1000) 0 c = Some 0)"
  using option_words [of "''make''" ex_cenv "\<lambda>_. Some 1000" undefined] by auto

section \<open>The client runs its job\<close>





text \<open>
  C39. Following the output of a job. The copy begins where at most the requested number of lines
  remain, and exactly that number when there are as many: at the beginning of a line, of the
  file, or, when the line is longer, of a block, so that a long line is cut. When every write is
  complete, what is shown is what was read, in order, and the loop ends only at the end of the file
  and after the server's answer. After a short write the beginning of the buffer is
  written again; in a file of 2 to 4 gigabytes no line is found at all.
\<close>

theorem tail_shows:
  assumes "length content < 2147483648" "tail_loop ts tail_start k = Ret (True, st) k'"
    "\<forall>t \<in> set ts. \<not> broken t \<and> writes t = []" "1023 \<le> n" "n < 2147483647"
    "2147483648 \<le> length huge" "length huge < 4294967296"
  shows "(let p = seek_at_last_lines lines content in
      p \<le> length content \<and> newlines (drop p content) = min lines (newlines content)
      \<and> (p = 0 \<or> content ! (p - 1) = newline \<or> 1024 dvd length content - p))
    \<and> (\<exists>m \<le> length ts. shown st = concat (map text_of (take m ts))) \<and> endfile_reached st \<and> \<not> waiting_end st
    \<and> seek_at_last_lines 1 (replicate n (CHR ''x'') @ [newline]) = n - 1023
    \<and> write_loop ''abcd'' 4 [2] = (''abab'', True)
    \<and> seek_at_last_lines lines huge = length huge"
  using seek_at [OF assms(1)] tail_loop_copies [OF assms(2,3)] seek_cut_line [OF assms(4,5)] seek_huge [OF assms(6,7)]
  by (simp add: at_lines_def Let_def tail_start_def)

definition ex_turns :: "tail_turn list" where
  "ex_turns = [\<lparr>answered = False, got = Some ''ab'', broken = False, writes = []\<rparr>, \<lparr>answered = True, got = None, broken = False, writes = []\<rparr>,
     \<lparr>answered = False, got = Some ''c'', broken = False, writes = []\<rparr>, \<lparr>answered = False, got = Some [], broken = False, writes = []\<rparr>]"

theorem tail_shows_witness:
  "\<exists>st k'. tail_loop ex_turns tail_start \<lparr>inbox = [WAITJOB_OK 3], log = [], typed = [], junk = 0\<rparr> = Ret (True, st) k'
     \<and> shown st = ''abc'' \<and> endfile_reached st \<and> seek_at_last_lines 1 (replicate 5000 (CHR ''x'') @ [newline]) = 3977"
proof -
  let ?k = "\<lparr>inbox = [WAITJOB_OK 3], log = [], typed = [], junk = 0\<rparr>"
  have "case tail_loop ex_turns tail_start ?k of Exit _ _ \<Rightarrow> False | Ret (d, st) _ \<Rightarrow> d \<and> shown st = ''abc''" by code_simp
  then obtain st k' where r: "tail_loop ex_turns tail_start ?k = Ret (True, st) k'" "shown st = ''abc''"
    by (auto split: outcome.splits)
  have "endfile_reached st \<and> seek_at_last_lines 1 (replicate 5000 (CHR ''x'') @ [newline]) = 5000 - 1023"
    using tail_shows [of "[]" ex_turns ?k st k' 5000 "replicate 3000000000 (CHR ''x'')" 0] r(1) by (simp add: ex_turns_def Let_def)
  then show ?thesis using r by (intro exI [of _ st] exI [of _ k']) simp
qed



end
